(* ===== verification/Prelude.thy ===== *)
theory Prelude
  imports Main "HOL-Library.Word" "HOL-Library.Finite_Map" "HOL-Library.Char_ord"
    "HOL-Library.List_Lexorder"
begin

text \<open>
  Shared vocabulary of the development: the sentinel errors of the Go packages and the way
  \<open>errors.Is\<close> looks through a wrapped error, machine integers, the byte-string functions the
  handlers call (\<open>strings.TrimSpace\<close>, \<open>strings.ToUpper\<close>, \<open>strings.ContainsAny\<close>), decimal
  printing and parsing, and lemmas on finite maps.

  A Go string is a sequence of bytes, here a \<^typ>\<open>char list\<close>; \<open>len\<close> is \<^const>\<open>length\<close>.
  A Go map is a finite map; reading a missing key gives the zero value
  (\<open>get_or\<close> below) and \<open>len(m)\<close> is \<open>fcard (fmdom m)\<close>.
\<close>

section \<open>Hint collections\<close>

named_theorems fmap_simps \<open>evaluation of lookups, sizes and defaults of finite maps\<close>
named_theorems room_ops \<open>definitions of the room aggregate's methods\<close>
named_theorems repo_ops \<open>definitions of the in-memory repository's methods\<close>
named_theorems wf_intros \<open>preservation of well-formedness by each operation\<close>

section \<open>Errors\<close>

text \<open>The package-level \<open>errors.New\<close> variables that callers compare against.\<close>

datatype sentinel =
    ErrEmptyCode | ErrMissingPlayerID | ErrDuplicatePlayer | ErrRoomFull | ErrUnknownPlayer
  | ErrRoomNotReady | ErrDuplicateMove | ErrInvalidMove | ErrRoundNotResolved
  | ErrNextRoundRequested | ErrStaleRound | ErrRoundResolved | ErrGameUnfinished
  | ErrRoomClosed | ErrInvalidState
  | ErrDuplicateRoom | ErrRoomNotFound | ErrUnauthorized | ErrAccountSeated
  | ErrInsufficientFunds | ErrInvalidCoinAmount | ErrIdempotencyRequired
  | ErrIdempotencyConflict | ErrUnsupportedCommandRepository | ErrInvalidReport
  | ErrInvalidSession | ErrForbidden | ErrInvalidToken
  | ErrOutboxClaimLost | ErrInvalidRevisionHint | ErrFundedEscrowRemaining

text \<open>
  An error value is a sentinel, a sentinel wrapped by \<open>fmt.Errorf("%w: %q", e, s)\<close>, an
  unnamed \<open>errors.New\<close> text, or the runtime panic that an out-of-range index causes.
\<close>

datatype go_error = Err sentinel | ErrQ sentinel string | ErrText string | Panic string

fun errors_Is :: "go_error \<Rightarrow> sentinel \<Rightarrow> bool" where
  "errors_Is (Err s) t = (s = t)"
| "errors_Is (ErrQ s _) t = (s = t)"
| "errors_Is (ErrText _) _ = False"
| "errors_Is (Panic _) _ = False"

type_synonym 'a result = "go_error + 'a"

text \<open>Sequencing with the early return of \<open>if err != nil { return err }\<close>.\<close>

fun bindR :: "'a result \<Rightarrow> ('a \<Rightarrow> 'b result) \<Rightarrow> 'b result" where
  "bindR (Inl e) f = Inl e"
| "bindR (Inr x) f = f x"

lemma bindR_eq_Inr: "bindR m f = Inr y \<longleftrightarrow> (\<exists>x. m = Inr x \<and> f x = Inr y)"
  by (cases m) auto

text \<open>The early returns of a Go function: the first error whose guard holds, else the result.\<close>

fun guarded :: "(bool \<times> go_error) list \<Rightarrow> 'a result \<Rightarrow> 'a result" where
  "guarded [] k = k"
| "guarded ((b, e) # gs) k = (if b then Inl e else guarded gs k)"

declare guarded.simps [simp del]

lemmas guarded_eval = guarded.simps

lemma guarded_eq_Inr:
  "guarded gs k = Inr y \<longleftrightarrow> (\<forall>g\<in>set gs. \<not> fst g) \<and> k = Inr y"
proof (induction gs)
  case (Cons g gs)
  then show ?case by (cases g) (simp add: guarded_eval)
qed (simp add: guarded_eval)

section \<open>Machine integers\<close>

type_synonym uint64 = "64 word"

text \<open>\<open>int\<close> and \<open>int64\<close> are kept as integers, with the wrap-around of each operation written out.\<close>

definition i64 :: "int \<Rightarrow> int" where
  "i64 x = (x + 2 ^ 63) mod 2 ^ 64 - 2 ^ 63"

definition MaxInt64 :: int where
  "MaxInt64 = 2 ^ 63 - 1"

lemma i64_id: "- (2 ^ 63) \<le> x \<Longrightarrow> x \<le> MaxInt64 \<Longrightarrow> i64 x = x"
  by (simp add: i64_def MaxInt64_def)

lemma i64_small [simp]: "0 \<le> x \<Longrightarrow> x \<le> MaxInt64 \<Longrightarrow> i64 x = x"
  by (rule i64_id) simp_all

lemma i64_range: "- (2 ^ 63) \<le> i64 x \<and> i64 x \<le> MaxInt64"
proof -
  have "0 \<le> (x + 2 ^ 63) mod 2 ^ 64" and "(x + 2 ^ 63) mod 2 ^ 64 < (2::int) ^ 64"
    by (rule pos_mod_sign, simp) (rule pos_mod_bound, simp)
  then show ?thesis by (simp add: i64_def MaxInt64_def)
qed

lemma unat_succ: "unat (r :: uint64) < 2 ^ 63 \<Longrightarrow> unat (r + 1) = Suc (unat r)"
  by (simp add: unat_word_ariths)

lemma succ_neq_0: "unat (r :: uint64) < 2 ^ 63 \<Longrightarrow> r + 1 \<noteq> 0"
proof
  assume lt: "unat r < 2 ^ 63" and r0: "r + 1 = 0"
  from unat_succ [OF lt] have "unat (0 :: uint64) = Suc (unat r)" by (simp only: r0)
  then show False by simp
qed

lemma less_succ: "unat (r :: uint64) < 2 ^ 63 \<Longrightarrow> r < r + 1"
  by (simp add: word_less_nat_alt unat_succ)

section \<open>Finite maps\<close>

definition get_or :: "'v \<Rightarrow> ('k, 'v) fmap \<Rightarrow> 'k \<Rightarrow> 'v" where
  "get_or z m k = (case fmlookup m k of None \<Rightarrow> z | Some v \<Rightarrow> v)"

abbreviation flen :: "('k, 'v) fmap \<Rightarrow> nat" where
  "flen m \<equiv> fcard (fmdom m)"

lemma get_or_upd [simp, fmap_simps]:
  "get_or z (fmupd k v m) k' = (if k = k' then v else get_or z m k')"
  by (simp add: get_or_def)

lemma get_or_empty [simp, fmap_simps]: "get_or z fmempty k = z"
  by (simp add: get_or_def)

lemma get_or_Some [simp]: "fmlookup m k = Some v \<Longrightarrow> get_or z m k = v"
  by (simp add: get_or_def)

lemmas fcard_fempty [simp]

lemma get_or_notin: "k |\<notin>| fmdom m \<Longrightarrow> get_or z m k = z"
  by (simp add: get_or_def fmdom_notD)

lemma flen_upd [fmap_simps]:
  "flen (fmupd k v m) = (if k |\<in>| fmdom m then flen m else Suc (flen m))"
  by (simp add: fcard_finsert_if)

lemma flen_empty [fmap_simps]: "flen fmempty = 0"
  by simp

lemma fmdom_eq_empty [simp]: "fmdom m = {||} \<longleftrightarrow> m = fmempty"
proof
  assume "fmdom m = {||}"
  then have "fmlookup m k = None" for k by (simp add: fmdom_notD)
  then show "m = fmempty" by (auto intro: fmap_ext)
qed simp

lemma flen_0_iff: "flen m = 0 \<longleftrightarrow> m = fmempty"
  by simp

lemma flen_le: "fmdom m |\<subseteq>| fset_of_list xs \<Longrightarrow> flen m \<le> length xs"
proof -
  assume "fmdom m |\<subseteq>| fset_of_list xs"
  then have "flen m \<le> fcard (fset_of_list xs)" by (rule fcard_mono)
  also have "\<dots> \<le> length xs"
    by (simp add: fcard.rep_eq fset_of_list.rep_eq card_length)
  finally show ?thesis .
qed

lemma fmpred_upd_iff [fmap_simps]:
  "fmpred P (fmupd k v m) \<longleftrightarrow> P k v \<and> fmpred P (fmdrop k m)"
  by (auto simp: fmpred_iff split: if_splits)

text \<open>The range of a finite map as a sum: the total of a table of balances.\<close>

definition fm_total :: "('k, int) fmap \<Rightarrow> int" where
  "fm_total m = (\<Sum>k\<in>fset (fmdom m). get_or 0 m k)"

lemma fm_total_empty [simp]: "fm_total fmempty = 0"
  by (simp add: fm_total_def)

lemma fm_total_upd [fmap_simps]:
  "fm_total (fmupd k v m) = fm_total m - get_or 0 m k + v"
proof -
  have eq: "(\<Sum>x\<in>fset (fmdom m) - {k}. if k = x then v else get_or 0 m x) =
    (\<Sum>x\<in>fset (fmdom m) - {k}. get_or 0 m x)"
    by (rule sum.cong) auto
  have "fm_total (fmupd k v m) = v + (\<Sum>x\<in>fset (fmdom m) - {k}. get_or 0 m x)"
    by (simp add: fm_total_def sum.insert_remove eq)
  moreover have "fm_total m = get_or 0 m k + (\<Sum>x\<in>fset (fmdom m) - {k}. get_or 0 m x)"
    by (cases "k |\<in>| fmdom m") (simp_all add: fm_total_def sum.remove [of _ k] get_or_notin)
  ultimately show ?thesis by simp
qed

lemma flen_card: "flen m = card (fset (fmdom m))"
  by (simp add: fcard.rep_eq)

lemma flen_pair:
  assumes "fset (fmdom m) \<subseteq> {a, b}" "a \<noteq> b"
  shows "flen m = (if a |\<in>| fmdom m then 1 else 0) + (if b |\<in>| fmdom m then 1 else 0)"
proof -
  have "fset (fmdom m) = {x \<in> {a, b}. x |\<in>| fmdom m}" using assms(1) by auto
  also have "\<dots> = (if a |\<in>| fmdom m then {a} else {}) \<union> (if b |\<in>| fmdom m then {b} else {})"
    by auto
  finally show ?thesis using assms(2) by (simp add: flen_card split: if_splits)
qed

end
