(* ===== verification/Domain_Room.thy ===== *)
theory Domain_Room
  imports Prelude
begin

text \<open>
  The room aggregate, \<open>internal/room/domain/room.go\<close>. Moves and results are Go string types
  with named constants, so any string can be stored in them and the code checks validity; they
  stay strings here. Every method takes the room and returns either the error, with the room
  unchanged (each error return of the source precedes the first write), or the updated room.
  An out-of-range index is the error \<^const>\<open>Panic\<close>.

  The lemmas of this theory say which rooms \<open>Restore\<close> accepts, that every method keeps an
  accepted room accepted (with the one exception that is a defect of the code), what each
  method computes, and that a round is resolved at most once.
\<close>

section \<open>Moves and results\<close>

type_synonym move = string
type_synonym outcome = string

abbreviation Rock :: move where "Rock \<equiv> ''rock''"
abbreviation Paper :: move where "Paper \<equiv> ''paper''"
abbreviation Scissors :: move where "Scissors \<equiv> ''scissors''"

abbreviation Draw :: outcome where "Draw \<equiv> ''draw''"
abbreviation PlayerOneWins :: outcome where "PlayerOneWins \<equiv> ''player_one_wins''"
abbreviation PlayerTwoWins :: outcome where "PlayerTwoWins \<equiv> ''player_two_wins''"

definition IsValidMove :: "move \<Rightarrow> bool" where
  "IsValidMove m \<longleftrightarrow> m = Rock \<or> m = Paper \<or> m = Scissors"

definition DetermineResult :: "move \<Rightarrow> move \<Rightarrow> outcome result" where
  "DetermineResult one two =
     (if \<not> IsValidMove one \<or> \<not> IsValidMove two then Inl (Err ErrInvalidMove)
      else if one = two then Inr Draw
      else if (one = Rock \<and> two = Scissors) \<or> (one = Paper \<and> two = Rock)
           \<or> (one = Scissors \<and> two = Paper) then Inr PlayerOneWins
      else Inr PlayerTwoWins)"

section \<open>State\<close>

record persistedPlayer =
  player_ID :: string
  player_Wins :: int

record room =
  r_code :: string
  r_players :: "persistedPlayer list"
  r_moves :: "(string, move) fmap"
  r_resolved :: bool
  r_result :: outcome
  r_forfeitedPlayerID :: string
  r_round :: uint64
  r_nextRoundRequests :: "(string, bool) fmap"
  r_closed :: bool

record persistenceState =
  ps_Code :: string
  ps_Players :: "persistedPlayer list"
  ps_Round :: uint64
  ps_Closed :: bool
  ps_Resolved :: bool
  ps_Result :: outcome
  ps_ForfeitedPlayerID :: string
  ps_Moves :: "(string, move) fmap"
  ps_NextRoundRequests :: "(string, bool) fmap"

record playerView =
  pv_ID :: string
  pv_Wins :: int
  pv_Submitted :: bool
  pv_WantsNextRound :: bool

record playerMove =
  pm_PlayerID :: string
  pm_Move :: move

record roomState =
  st_Code :: string
  st_Players :: "playerView list"
  st_Ready :: bool
  st_Resolved :: bool
  st_Round :: uint64
  st_Closed :: bool
  st_Moves :: "playerMove list"
  st_Result :: outcome
  st_Forfeit :: bool

section \<open>Operations\<close>

definition New :: "string \<Rightarrow> string \<Rightarrow> room result" where
  "New code hostPlayerID =
     (if code = '''' then Inl (Err ErrEmptyCode)
      else if hostPlayerID = '''' then Inl (Err ErrMissingPlayerID)
      else Inr \<lparr>r_code = code, r_players = [\<lparr>player_ID = hostPlayerID, player_Wins = 0\<rparr>],
                r_moves = fmempty, r_resolved = False, r_result = '''',
                r_forfeitedPlayerID = '''', r_round = 1, r_nextRoundRequests = fmempty,
                r_closed = False\<rparr>)"

text \<open>The loop of \<open>Restore\<close> over the players, with the \<open>seen\<close> set it builds.\<close>

fun collectSeen :: "persistedPlayer list \<Rightarrow> string fset \<Rightarrow> string fset option" where
  "collectSeen [] seen = Some seen"
| "collectSeen (p # ps) seen =
     (if player_ID p = '''' \<or> player_Wins p < 0 \<or> player_ID p |\<in>| seen then None
      else collectSeen ps (finsert (player_ID p) seen))"

definition validResolvedMoves :: "persistenceState \<Rightarrow> bool" where
  "validResolvedMoves s =
     (case ps_Players s of
        p0 # p1 # _ \<Rightarrow>
          (let m = ps_Moves s in
           if flen m = 2 then
             (case DetermineResult (get_or '''' m (player_ID p0)) (get_or '''' m (player_ID p1)) of
                Inl _ \<Rightarrow> '''' = ps_Result s | Inr res \<Rightarrow> res = ps_Result s)
           else if flen m = 0 then ps_Result s = Draw
           else if flen m = 1 then
             (if player_ID p0 |\<in>| fmdom m then ps_Result s = PlayerOneWins
              else player_ID p1 |\<in>| fmdom m \<and> ps_Result s = PlayerTwoWins)
           else False)
      | _ \<Rightarrow> False)"

text \<open>The checks \<open>Restore\<close> makes once \<open>seen\<close> is built; \<open>True\<close> is an accepted state.\<close>

definition restoreChecks :: "persistenceState \<Rightarrow> string fset \<Rightarrow> bool" where
  "restoreChecks s seen =
     (if \<not> fmpred (\<lambda>i m. i |\<in>| seen \<and> IsValidMove m) (ps_Moves s) then False
      else if \<not> fmpred (\<lambda>i _. i |\<in>| seen) (ps_NextRoundRequests s) then False
      else if ps_Resolved s then
        (if length (ps_Players s) \<noteq> 2 \<or> (ps_Result s \<noteq> Draw \<and> ps_Result s \<noteq> PlayerOneWins
              \<and> ps_Result s \<noteq> PlayerTwoWins) then False
         else if ps_ForfeitedPlayerID s = '''' then validResolvedMoves s
         else \<not> (ps_ForfeitedPlayerID s |\<notin>| seen \<or> 1 < flen (ps_Moves s) \<or> ps_Result s = Draw
               \<or> (ps_ForfeitedPlayerID s = player_ID (hd (ps_Players s)))
                   \<noteq> (ps_Result s = PlayerTwoWins)))
      else \<not> (ps_Result s \<noteq> '''' \<or> ps_ForfeitedPlayerID s \<noteq> ''''
            \<or> flen (ps_NextRoundRequests s) \<noteq> 0))"

definition Restore :: "persistenceState \<Rightarrow> room result" where
  "Restore s =
     (if ps_Code s = '''' \<or> ps_Round s = 0 \<or> length (ps_Players s) < 1
         \<or> 2 < length (ps_Players s) then Inl (Err ErrInvalidState)
      else case collectSeen (ps_Players s) {||} of
        None \<Rightarrow> Inl (Err ErrInvalidState)
      | Some seen \<Rightarrow>
          if restoreChecks s seen
          then Inr \<lparr>r_code = ps_Code s, r_players = ps_Players s, r_moves = ps_Moves s,
                    r_resolved = ps_Resolved s, r_result = ps_Result s,
                    r_forfeitedPlayerID = ps_ForfeitedPlayerID s, r_round = ps_Round s,
                    r_nextRoundRequests = ps_NextRoundRequests s, r_closed = ps_Closed s\<rparr>
          else Inl (Err ErrInvalidState))"

definition PersistenceState :: "room \<Rightarrow> persistenceState" where
  "PersistenceState r =
     \<lparr>ps_Code = r_code r, ps_Players = r_players r, ps_Round = r_round r,
      ps_Closed = r_closed r, ps_Resolved = r_resolved r, ps_Result = r_result r,
      ps_ForfeitedPlayerID = r_forfeitedPlayerID r, ps_Moves = r_moves r,
      ps_NextRoundRequests = r_nextRoundRequests r\<rparr>"

definition hasPlayer :: "room \<Rightarrow> string \<Rightarrow> bool" where
  "hasPlayer r i = list_ex (\<lambda>p. player_ID p = i) (r_players r)"

text \<open>\<open>players[i].Wins++\<close> on a signed machine integer.\<close>

definition incWins :: "nat \<Rightarrow> persistedPlayer list \<Rightarrow> persistedPlayer list" where
  "incWins i ps = ps[i := (ps ! i)\<lparr>player_Wins := i64 (player_Wins (ps ! i) + 1)\<rparr>]"

definition resolve :: "room \<Rightarrow> room result" where
  "resolve r =
     (case r_players r of
        p0 # p1 # _ \<Rightarrow>
          (let res = (case DetermineResult (get_or '''' (r_moves r) (player_ID p0))
                                           (get_or '''' (r_moves r) (player_ID p1)) of
                        Inl _ \<Rightarrow> '''' | Inr x \<Rightarrow> x);
               r1 = r\<lparr>r_result := res, r_resolved := True\<rparr>
           in Inr (if res = PlayerOneWins then r1\<lparr>r_players := incWins 0 (r_players r)\<rparr>
                   else if res = PlayerTwoWins then r1\<lparr>r_players := incWins 1 (r_players r)\<rparr>
                   else r1))
      | _ \<Rightarrow> Inl (Panic ''index out of range''))"

definition Join :: "string \<Rightarrow> room \<Rightarrow> room result" where
  "Join playerID r = guarded
     [(r_closed r, Err ErrRoomClosed),
      (playerID = '''', Err ErrMissingPlayerID),
      (hasPlayer r playerID, Err ErrDuplicatePlayer),
      (length (r_players r) = 2, Err ErrRoomFull)]
     (Inr (r\<lparr>r_players := r_players r @ [\<lparr>player_ID = playerID, player_Wins = 0\<rparr>]\<rparr>))"

definition SubmitMove :: "string \<Rightarrow> move \<Rightarrow> room \<Rightarrow> room result" where
  "SubmitMove playerID m r = guarded
     [(r_closed r, Err ErrRoomClosed),
      (\<not> hasPlayer r playerID, Err ErrUnknownPlayer),
      (length (r_players r) < 2, Err ErrRoomNotReady),
      (r_resolved r, Err ErrRoundResolved),
      (\<not> IsValidMove m, ErrQ ErrInvalidMove m),
      (playerID |\<in>| fmdom (r_moves r), Err ErrDuplicateMove)]
     (let r1 = r\<lparr>r_moves := fmupd playerID m (r_moves r)\<rparr>
      in if flen (r_moves r1) = 2 then resolve r1 else Inr r1)"

text \<open>The six assignments that start the next round.\<close>

definition startNextRound :: "room \<Rightarrow> room" where
  "startNextRound r = r\<lparr>r_moves := fmempty, r_resolved := False, r_result := '''',
     r_forfeitedPlayerID := '''', r_round := r_round r + 1, r_nextRoundRequests := fmempty\<rparr>"

definition RequestNextRound :: "string \<Rightarrow> uint64 \<Rightarrow> room \<Rightarrow> room result" where
  "RequestNextRound playerID rnd r = guarded
     [(r_closed r, Err ErrRoomClosed),
      (\<not> hasPlayer r playerID, Err ErrUnknownPlayer),
      (\<not> r_resolved r, Err ErrRoundNotResolved),
      (rnd \<noteq> r_round r, Err ErrStaleRound),
      (get_or False (r_nextRoundRequests r) playerID, Err ErrNextRoundRequested)]
     (let r1 = r\<lparr>r_nextRoundRequests := fmupd playerID True (r_nextRoundRequests r)\<rparr>
      in Inr (if flen (r_nextRoundRequests r1) = length (r_players r1)
              then startNextRound r1 else r1))"

definition ResolveCommittedMoves :: "uint64 \<Rightarrow> room \<Rightarrow> room result" where
  "ResolveCommittedMoves expectedRound r = guarded
     [(r_closed r, Err ErrRoomClosed),
      (expectedRound \<noteq> r_round r, Err ErrStaleRound),
      (r_resolved r, Err ErrRoundResolved),
      (length (r_players r) \<noteq> 2, Err ErrRoomNotReady),
      (flen (r_moves r) \<noteq> 2, Err ErrRoundNotResolved)]
     (resolve r)"

definition AdvanceCommittedNextRound :: "uint64 \<Rightarrow> room \<Rightarrow> room result" where
  "AdvanceCommittedNextRound expectedRound r = guarded
     [(r_closed r, Err ErrRoomClosed),
      (expectedRound \<noteq> r_round r, Err ErrStaleRound),
      (\<not> r_resolved r, Err ErrRoundNotResolved),
      (length (r_players r) \<noteq> 2 \<or> flen (r_nextRoundRequests r) \<noteq> length (r_players r),
         Err ErrRoomNotReady)]
     (Inr (startNextRound r))"

definition Leave :: "string \<Rightarrow> room \<Rightarrow> room result" where
  "Leave playerID r = guarded
     [(r_closed r, Err ErrRoomClosed),
      (\<not> hasPlayer r playerID, Err ErrUnknownPlayer),
      (\<not> r_resolved r \<and> length (r_players r) = 2, Err ErrGameUnfinished)]
     (Inr (r\<lparr>r_closed := True\<rparr>))"

definition Forfeit :: "string \<Rightarrow> uint64 \<Rightarrow> room \<Rightarrow> room result" where
  "Forfeit playerID expectedRound r = guarded
     [(r_closed r, Err ErrRoomClosed),
      (\<not> hasPlayer r playerID, Err ErrUnknownPlayer),
      (expectedRound \<noteq> r_round r, Err ErrStaleRound),
      (r_resolved r, Err ErrRoundResolved),
      (length (r_players r) \<noteq> 2, Err ErrRoomNotReady)]
     (let r1 = r\<lparr>r_resolved := True, r_forfeitedPlayerID := playerID\<rparr>
      in Inr (if player_ID (r_players r ! 0) = playerID
              then r1\<lparr>r_result := PlayerTwoWins, r_players := incWins 1 (r_players r)\<rparr>
              else r1\<lparr>r_result := PlayerOneWins, r_players := incWins 0 (r_players r)\<rparr>))"

definition validateDeadlineResolution :: "uint64 \<Rightarrow> room \<Rightarrow> unit result" where
  "validateDeadlineResolution expectedRound r = guarded
     [(r_closed r, Err ErrRoomClosed),
      (expectedRound \<noteq> r_round r, Err ErrStaleRound),
      (r_resolved r, Err ErrRoundResolved),
      (length (r_players r) \<noteq> 2, Err ErrRoomNotReady)]
     (Inr ())"

text \<open>The \<open>range\<close> loop of \<open>ResolveInactivity\<close> over the indexed players.\<close>

fun awardSubmitters :: "(nat \<times> persistedPlayer) list \<Rightarrow> room \<Rightarrow> room" where
  "awardSubmitters [] r = r"
| "awardSubmitters ((index, player) # rest) r =
     awardSubmitters rest
       (if player_ID player |\<in>| fmdom (r_moves r)
        then r\<lparr>r_result := (if index = 0 then PlayerOneWins else PlayerTwoWins),
               r_players := incWins index (r_players r)\<rparr>
        else r)"

definition ResolveInactivity :: "uint64 \<Rightarrow> room \<Rightarrow> room result" where
  "ResolveInactivity expectedRound r =
     bindR (validateDeadlineResolution expectedRound r) (\<lambda>_.
       if flen (r_moves r) = 0 then Inr (r\<lparr>r_result := Draw, r_resolved := True\<rparr>)
       else if flen (r_moves r) = 1
         then Inr ((awardSubmitters (enumerate 0 (r_players r)) r)\<lparr>r_resolved := True\<rparr>)
       else Inl (Err ErrRoundResolved))"

definition ResolveDeadlineDraw :: "uint64 \<Rightarrow> room \<Rightarrow> room result" where
  "ResolveDeadlineDraw expectedRound r =
     bindR (validateDeadlineResolution expectedRound r) (\<lambda>_.
       Inr (r\<lparr>r_resolved := True, r_result := Draw\<rparr>))"

definition State :: "room \<Rightarrow> roomState" where
  "State r =
     \<lparr>st_Code = r_code r,
      st_Players = map (\<lambda>p. \<lparr>pv_ID = player_ID p, pv_Wins = player_Wins p,
         pv_Submitted = player_ID p |\<in>| fmdom (r_moves r),
         pv_WantsNextRound = get_or False (r_nextRoundRequests r) (player_ID p)\<rparr>) (r_players r),
      st_Ready = (length (r_players r) = 2), st_Resolved = r_resolved r,
      st_Round = r_round r, st_Closed = r_closed r,
      st_Moves = (if r_resolved r
                  then List.map_filter (\<lambda>p. map_option
                         (\<lambda>m. \<lparr>pm_PlayerID = player_ID p, pm_Move = m\<rparr>)
                         (fmlookup (r_moves r) (player_ID p))) (r_players r)
                  else []),
      st_Result = (if r_resolved r then r_result r else ''''),
      st_Forfeit = (r_forfeitedPlayerID r \<noteq> '''')\<rparr>"

section \<open>The rooms that can be restored\<close>

definition player_ids :: "room \<Rightarrow> string list" where
  "player_ids r = map player_ID (r_players r)"

lemma player_ids_update [simp]:
  "player_ids (r\<lparr>r_closed := c\<rparr>) = player_ids r" "player_ids (r\<lparr>r_moves := m\<rparr>) = player_ids r"
  "player_ids (r\<lparr>r_nextRoundRequests := q\<rparr>) = player_ids r"
  "player_ids (r\<lparr>r_resolved := b\<rparr>) = player_ids r" "player_ids (r\<lparr>r_result := res\<rparr>) = player_ids r"
  "player_ids (r\<lparr>r_forfeitedPlayerID := f\<rparr>) = player_ids r"
  "player_ids (r\<lparr>r_round := n\<rparr>) = player_ids r"
  by (simp_all add: player_ids_def)

text \<open>Ids are distinct and non-empty, there is a host and at most one guest.\<close>

definition wf_seats :: "room \<Rightarrow> bool" where
  "wf_seats r \<longleftrightarrow> r_code r \<noteq> '''' \<and> r_round r \<noteq> 0 \<and> r_players r \<noteq> []
     \<and> length (r_players r) \<le> 2 \<and> distinct (player_ids r) \<and> '''' \<notin> set (player_ids r)
     \<and> list_all (\<lambda>p. 0 \<le> player_Wins p) (r_players r)"

definition wf_actions :: "room \<Rightarrow> bool" where
  "wf_actions r \<longleftrightarrow> fset (fmdom (r_moves r)) \<subseteq> set (player_ids r)
     \<and> fmpred (\<lambda>_. IsValidMove) (r_moves r)
     \<and> fset (fmdom (r_nextRoundRequests r)) \<subseteq> set (player_ids r)"

definition wf_outcome :: "room \<Rightarrow> bool" where
  "wf_outcome r \<longleftrightarrow>
     (if r_resolved r
      then length (r_players r) = 2 \<and> r_result r \<in> {Draw, PlayerOneWins, PlayerTwoWins}
         \<and> (if r_forfeitedPlayerID r = '''' then validResolvedMoves (PersistenceState r)
            else r_forfeitedPlayerID r \<in> set (player_ids r) \<and> flen (r_moves r) \<le> 1
               \<and> r_result r = (if r_forfeitedPlayerID r = hd (player_ids r)
                               then PlayerTwoWins else PlayerOneWins))
      else r_result r = '''' \<and> r_forfeitedPlayerID r = '''' \<and> r_nextRoundRequests r = fmempty)"

definition wf_room :: "room \<Rightarrow> bool" where
  "wf_room r \<longleftrightarrow> wf_seats r \<and> wf_actions r \<and> wf_outcome r"

lemma collectSeen_eq_Some:
  "collectSeen ps seen = Some s \<longleftrightarrow>
     s = seen |\<union>| fset_of_list (map player_ID ps) \<and> distinct (map player_ID ps)
     \<and> '''' \<notin> player_ID ` set ps \<and> list_all (\<lambda>p. 0 \<le> player_Wins p) ps
     \<and> fset seen \<inter> player_ID ` set ps = {}"
proof (induction ps arbitrary: seen)
  case (Cons p ps)
  then show ?case by (auto simp: linorder_not_less)
qed auto

lemma PersistenceState_simps [simp]:
  "ps_Code (PersistenceState r) = r_code r" "ps_Players (PersistenceState r) = r_players r"
  "ps_Round (PersistenceState r) = r_round r" "ps_Closed (PersistenceState r) = r_closed r"
  "ps_Resolved (PersistenceState r) = r_resolved r" "ps_Result (PersistenceState r) = r_result r"
  "ps_ForfeitedPlayerID (PersistenceState r) = r_forfeitedPlayerID r"
  "ps_Moves (PersistenceState r) = r_moves r"
  "ps_NextRoundRequests (PersistenceState r) = r_nextRoundRequests r"
  by (simp_all add: PersistenceState_def)

lemma restoreChecks_iff:
  assumes "r_players r \<noteq> []"
  shows "restoreChecks (PersistenceState r) (fset_of_list (player_ids r))
     \<longleftrightarrow> wf_actions r \<and> wf_outcome r"
proof -
  have acts: "fmpred (\<lambda>i m. i |\<in>| fset_of_list (player_ids r) \<and> IsValidMove m) (r_moves r)
      \<and> fmpred (\<lambda>i _. i |\<in>| fset_of_list (player_ids r)) (r_nextRoundRequests r)
      \<longleftrightarrow> wf_actions r"
    by (auto simp: wf_actions_def fmpred_iff fset_of_list.rep_eq subset_eq fmlookup_dom_iff)
  have hd: "hd (player_ids r) = player_ID (hd (r_players r))"
    using assms by (simp add: player_ids_def hd_map)
  show ?thesis
    using acts
    by (auto simp: restoreChecks_def wf_outcome_def hd flen_0_iff fset_of_list.rep_eq)
qed

text \<open>\<open>Restore\<close> accepts exactly the persisted form of a well-formed room, and gives that room back.\<close>

lemma Restore_eq_Inr: "Restore s = Inr r \<longleftrightarrow> s = PersistenceState r \<and> wf_room r"
proof
  assume res: "Restore s = Inr r"
  then have s: "s = PersistenceState r"
    by (auto simp: Restore_def PersistenceState_def split: if_splits option.splits)
  from res have guards: "r_code r \<noteq> ''''" "r_round r \<noteq> 0" "r_players r \<noteq> []"
      "length (r_players r) \<le> 2"
    and seen: "collectSeen (r_players r) {||} = Some (fset_of_list (player_ids r))"
    and chk: "restoreChecks (PersistenceState r) (fset_of_list (player_ids r))"
    unfolding s
    by (auto simp: Restore_def collectSeen_eq_Some player_ids_def split: if_splits option.splits)
  from seen guards have "wf_seats r"
    by (auto simp: collectSeen_eq_Some wf_seats_def player_ids_def)
  with s chk restoreChecks_iff [OF guards(3)] show "s = PersistenceState r \<and> wf_room r"
    by (simp add: wf_room_def)
next
  assume asm: "s = PersistenceState r \<and> wf_room r"
  then have "collectSeen (r_players r) {||} = Some (fset_of_list (player_ids r))"
    by (auto simp: collectSeen_eq_Some wf_room_def wf_seats_def player_ids_def)
  moreover from asm have "restoreChecks (PersistenceState r) (fset_of_list (player_ids r))"
    by (simp add: restoreChecks_iff wf_room_def wf_seats_def)
  ultimately show "Restore s = Inr r"
    using asm by (auto simp: Restore_def wf_room_def wf_seats_def)
qed

lemma PersistenceState_inject [simp]: "PersistenceState r = PersistenceState s \<longleftrightarrow> r = s"
  by (cases r; cases s) (auto simp: PersistenceState_def)

lemma Restore_PersistenceState:
  "Restore (PersistenceState r) = (if wf_room r then Inr r else Inl (Err ErrInvalidState))"
proof (cases "wf_room r")
  case True
  then show ?thesis by (simp add: Restore_eq_Inr)
next
  case False
  then have "Restore (PersistenceState r) \<noteq> Inr x" for x by (auto simp: Restore_eq_Inr)
  moreover have "(\<exists>x. Restore s = Inr x) \<or> Restore s = Inl (Err ErrInvalidState)" for s
    by (simp add: Restore_def split: option.split)
  ultimately show ?thesis using False by metis
qed

section \<open>Settling a round\<close>

text \<open>
  Every method that resolves a round sets the same four fields. \<open>settled\<close> is that common
  effect; the lemmas below show each method to be an instance of it, so that preservation is
  proved once.
\<close>

definition award :: "outcome \<Rightarrow> persistedPlayer list \<Rightarrow> persistedPlayer list" where
  "award res ps = (if res = PlayerOneWins then incWins 0 ps
                   else if res = PlayerTwoWins then incWins 1 ps else ps)"

definition settled :: "outcome \<Rightarrow> string \<Rightarrow> room \<Rightarrow> room" where
  "settled res f r = r\<lparr>r_resolved := True, r_result := res, r_forfeitedPlayerID := f,
     r_players := award res (r_players r)\<rparr>"

lemma length_2_iff: "length xs = 2 \<longleftrightarrow> (\<exists>a b. xs = [a, b])"
  by (auto simp: numeral_2_eq_2 length_Suc_conv)

lemma two_players [elim?]:
  assumes "length (r_players r) = 2"
  obtains p q where "r_players r = [p, q]"
  using assms by (auto simp: length_2_iff)

lemma map_ID_incWins [simp]: "map player_ID (incWins i ps) = map player_ID ps"
proof -
  have "map player_ID (incWins i ps) = (map player_ID ps)[i := player_ID (ps ! i)]"
    by (simp add: incWins_def map_update)
  then show ?thesis
    by (cases "i < length ps") (simp_all add: list_update_beyond list_update_same_conv)
qed

lemma length_incWins [simp]: "length (incWins i ps) = length ps"
  by (simp add: incWins_def)

lemma map_ID_award [simp]: "map player_ID (award res ps) = map player_ID ps"
  by (simp add: award_def)

lemma length_award [simp]: "length (award res ps) = length ps"
  by (simp add: award_def)

lemma incWins_pair [simp]:
  "incWins 0 [p, q] = [p\<lparr>player_Wins := i64 (player_Wins p + 1)\<rparr>, q]"
  "incWins 1 [p, q] = [p, q\<lparr>player_Wins := i64 (player_Wins q + 1)\<rparr>]"
  "incWins (Suc 0) [p, q] = [p, q\<lparr>player_Wins := i64 (player_Wins q + 1)\<rparr>]"
  by (simp_all add: incWins_def)

lemma settled_simps [simp]:
  "r_code (settled res f r) = r_code r" "r_round (settled res f r) = r_round r"
  "r_closed (settled res f r) = r_closed r" "r_moves (settled res f r) = r_moves r"
  "r_nextRoundRequests (settled res f r) = r_nextRoundRequests r"
  "r_resolved (settled res f r)" "r_result (settled res f r) = res"
  "r_forfeitedPlayerID (settled res f r) = f"
  "r_players (settled res f r) = award res (r_players r)"
  "player_ids (settled res f r) = player_ids r"
  by (simp_all add: settled_def player_ids_def)

text \<open>The win counters of a room that has played \<open>round - 1\<close> rounds, or \<open>round\<close> once resolved.\<close>

definition total_wins :: "room \<Rightarrow> int" where
  "total_wins r = sum_list (map player_Wins (r_players r))"

definition wins_bounded :: "room \<Rightarrow> bool" where
  "wins_bounded r \<longleftrightarrow>
     total_wins r + (if r_resolved r then 0 else 1) \<le> int (unat (r_round r))"

definition wins_below :: "room \<Rightarrow> bool" where
  "wins_below r \<longleftrightarrow> list_all (\<lambda>p. player_Wins p < MaxInt64) (r_players r)"

lemma wins_below_bounded:
  assumes "wf_seats r" "wins_bounded r" "\<not> r_resolved r" "unat (r_round r) < 2 ^ 63"
  shows "wins_below r"
proof -
  have "player_Wins p < MaxInt64" if p: "p \<in> set (r_players r)" for p
  proof -
    from assms(1) have nonneg: "\<forall>x\<in>set (map player_Wins (r_players r)). 0 \<le> x"
      by (auto simp: wf_seats_def list_all_iff)
    then have "player_Wins p \<le> total_wins r"
      using p by (auto simp: total_wins_def intro!: member_le_sum_list)
    moreover have "total_wins r + 1 \<le> int (unat (r_round r))"
      using assms(2,3) by (simp add: wins_bounded_def)
    ultimately show ?thesis using assms(4) by (simp add: MaxInt64_def del: of_nat_unat)
  qed
  then show ?thesis by (simp add: wins_below_def list_all_iff)
qed

lemma wf_seats_settled:
  assumes "wf_seats r" "wins_below r" "length (r_players r) = 2"
  shows "wf_seats (settled res f r)"
proof -
  from assms(3) obtain p q where pq: "r_players r = [p, q]" by (rule two_players)
  from assms show ?thesis by (auto simp: wf_seats_def wins_below_def pq award_def player_ids_def)
qed

lemma wf_actions_settled [simp]: "wf_actions (settled res f r) = wf_actions r"
  by (simp add: wf_actions_def)

lemma wins_bounded_settled:
  assumes "wins_bounded r" "wf_seats r" "wins_below r" "length (r_players r) = 2" "\<not> r_resolved r"
  shows "wins_bounded (settled res f r)"
proof -
  from assms(4) obtain p q where pq: "r_players r = [p, q]" by (rule two_players)
  from assms show ?thesis
    by (auto simp: wins_bounded_def total_wins_def wf_seats_def wins_below_def pq award_def)
qed

lemma validResolved_cong:
  assumes "r_players r' = r_players r" "r_moves r' = r_moves r" "r_result r' = r_result r"
  shows "validResolvedMoves (PersistenceState r') = validResolvedMoves (PersistenceState r)"
  by (simp only: validResolvedMoves_def PersistenceState_simps assms)

lemma validResolved_settled:
  assumes "r_players r = [p, q]"
  shows "validResolvedMoves (PersistenceState (settled res f r)) \<longleftrightarrow>
    (if flen (r_moves r) = 2
     then (case DetermineResult (get_or '''' (r_moves r) (player_ID p))
                                (get_or '''' (r_moves r) (player_ID q)) of
             Inl _ \<Rightarrow> '''' = res | Inr x \<Rightarrow> x = res)
     else if flen (r_moves r) = 0 then res = Draw
     else if flen (r_moves r) = 1
       then (if player_ID p |\<in>| fmdom (r_moves r) then res = PlayerOneWins
             else player_ID q |\<in>| fmdom (r_moves r) \<and> res = PlayerTwoWins)
     else False)"
  using assms by (simp add: validResolvedMoves_def award_def Let_def split: sum.split)

section \<open>What each method computes\<close>

lemma hasPlayer_iff: "hasPlayer r i \<longleftrightarrow> i \<in> set (player_ids r)"
  by (auto simp: hasPlayer_def player_ids_def list_ex_iff)

lemma DetermineResult_valid:
  assumes "IsValidMove a" "IsValidMove b"
  shows "DetermineResult a b \<in> {Inr Draw, Inr PlayerOneWins, Inr PlayerTwoWins}"
  using assms by (auto simp: DetermineResult_def)

definition roundOutcome :: "room \<Rightarrow> outcome" where
  "roundOutcome r =
     (case r_players r of
        p # q # _ \<Rightarrow> (case DetermineResult (get_or '''' (r_moves r) (player_ID p))
                                        (get_or '''' (r_moves r) (player_ID q)) of
                      Inl _ \<Rightarrow> '''' | Inr x \<Rightarrow> x)
      | _ \<Rightarrow> '''')"

lemma resolve_settled:
  assumes "length (r_players r) = 2" "r_forfeitedPlayerID r = ''''"
  shows "resolve r = Inr (settled (roundOutcome r) '''' r)"
proof -
  from assms(1) obtain p q where "r_players r = [p, q]" by (rule two_players)
  with assms(2) show ?thesis
    by (cases r) (simp add: resolve_def settled_def award_def roundOutcome_def Let_def)
qed

lemma Forfeit_settled:
  assumes "Forfeit i n r = Inr r'"
  shows "r' = settled (if hd (player_ids r) = i then PlayerTwoWins else PlayerOneWins) i r
    \<and> i \<in> set (player_ids r) \<and> \<not> r_resolved r \<and> length (r_players r) = 2 \<and> \<not> r_closed r
    \<and> n = r_round r"
proof -
  from assms have "length (r_players r) = 2" by (auto simp: Forfeit_def guarded_eq_Inr)
  then obtain p q where "r_players r = [p, q]" by (rule two_players)
  with assms show ?thesis
    by (auto simp: Forfeit_def guarded_eq_Inr hasPlayer_iff settled_def award_def player_ids_def
        Let_def)
qed

lemma validateDeadlineResolution_eq_Inr:
  "validateDeadlineResolution n r = Inr u \<longleftrightarrow>
     \<not> r_closed r \<and> n = r_round r \<and> \<not> r_resolved r \<and> length (r_players r) = 2"
  by (auto simp: validateDeadlineResolution_def guarded_eq_Inr)

lemma ResolveDeadlineDraw_settled:
  assumes "ResolveDeadlineDraw n r = Inr r'" "r_forfeitedPlayerID r = ''''"
  shows "r' = settled Draw '''' r \<and> \<not> r_resolved r \<and> length (r_players r) = 2"
  using assms
  by (cases r) (auto simp: ResolveDeadlineDraw_def bindR_eq_Inr validateDeadlineResolution_eq_Inr
      settled_def award_def)

text \<open>The winner of an inactivity deadline: the one player who moved, if there is one.\<close>

definition inactivityOutcome :: "room \<Rightarrow> outcome" where
  "inactivityOutcome r =
     (if r_moves r = fmempty then Draw
      else if hd (player_ids r) |\<in>| fmdom (r_moves r) then PlayerOneWins else PlayerTwoWins)"

lemma ResolveInactivity_settled:
  assumes "ResolveInactivity n r = Inr r'" "r_forfeitedPlayerID r = ''''"
    and "wf_seats r" "wf_actions r"
  shows "r' = settled (inactivityOutcome r) '''' r \<and> \<not> r_resolved r
    \<and> length (r_players r) = 2 \<and> flen (r_moves r) < 2"
proof -
  from assms(1) have g: "\<not> r_resolved r" "length (r_players r) = 2"
    and res: "(if flen (r_moves r) = 0 then Inr (r\<lparr>r_result := Draw, r_resolved := True\<rparr>)
       else if flen (r_moves r) = 1
         then Inr ((awardSubmitters (enumerate 0 (r_players r)) r)\<lparr>r_resolved := True\<rparr>)
       else Inl (Err ErrRoundResolved)) = Inr r'"
    by (auto simp: ResolveInactivity_def bindR_eq_Inr validateDeadlineResolution_eq_Inr)
  from g(2) obtain p q where pq: "r_players r = [p, q]" by (rule two_players)
  from assms(3,4) have sub: "fset (fmdom (r_moves r)) \<subseteq> {player_ID p, player_ID q}"
    and neq: "player_ID p \<noteq> player_ID q"
    by (auto simp: wf_seats_def wf_actions_def player_ids_def pq)
  show ?thesis
  proof (cases "r_moves r = fmempty")
    case True
    with res g assms(2) pq show ?thesis
      by (cases r) (auto simp: inactivityOutcome_def settled_def award_def)
  next
    case False
    with res have one: "flen (r_moves r) = 1"
      and r': "r' = (awardSubmitters (enumerate 0 (r_players r)) r)\<lparr>r_resolved := True\<rparr>"
      by (auto split: if_splits)
    from one consider
        "player_ID p |\<in>| fmdom (r_moves r)" "player_ID q |\<notin>| fmdom (r_moves r)"
      | "player_ID p |\<notin>| fmdom (r_moves r)" "player_ID q |\<in>| fmdom (r_moves r)"
      using flen_pair [OF sub neq] by (fastforce split: if_splits)
    then show ?thesis
      using False r' one g assms(2) pq
      by cases (cases r, simp add: inactivityOutcome_def settled_def award_def player_ids_def)+
  qed
qed

section \<open>Preservation of well-formedness\<close>

lemma wf_New: "New c h = Inr r \<Longrightarrow> wf_room r \<and> wins_bounded r"
  by (auto simp: New_def wf_room_def wf_seats_def wf_actions_def wf_outcome_def player_ids_def
      wins_bounded_def total_wins_def split: if_splits)

lemma wf_Join [wf_intros]:
  assumes "Join i r = Inr r'" "wf_room r"
  shows "wf_room r'"
proof -
  from assms(1) have g: "\<not> hasPlayer r i" "i \<noteq> ''''" "length (r_players r) \<noteq> 2"
    and r': "r' = r\<lparr>r_players := r_players r @ [\<lparr>player_ID = i, player_Wins = 0\<rparr>]\<rparr>"
    by (auto simp: Join_def guarded_eq_Inr)
  from g(3) assms(2) have "length (r_players r) = 1" and unres: "\<not> r_resolved r"
    by (auto simp: wf_room_def wf_seats_def wf_outcome_def Suc_le_eq neq_Nil_conv
        le_Suc_eq numeral_2_eq_2)
  then obtain p where p: "r_players r = [p]" by (auto simp: length_Suc_conv)
  from assms(2) g unres show ?thesis unfolding r' wf_room_def
    by (auto simp: wf_seats_def wf_actions_def wf_outcome_def player_ids_def p hasPlayer_def)
qed

lemma wf_Leave [wf_intros]:
  assumes "Leave i r = Inr r'" "wf_room r"
  shows "wf_room r'"
proof -
  from assms(1) have r': "r' = r\<lparr>r_closed := True\<rparr>" by (auto simp: Leave_def guarded_eq_Inr)
  have "validResolvedMoves (PersistenceState r') = validResolvedMoves (PersistenceState r)"
    by (rule validResolved_cong) (simp_all add: r')
  with assms(2) show ?thesis
    by (auto simp: r' wf_room_def wf_seats_def wf_actions_def wf_outcome_def split: if_splits)
qed

lemma wf_startNextRound:
  assumes "wf_room r" "unat (r_round r) < 2 ^ 63"
  shows "wf_room (startNextRound r)"
  using assms succ_neq_0 [OF assms(2)]
  by (auto simp: startNextRound_def wf_room_def wf_seats_def wf_actions_def wf_outcome_def
      player_ids_def)

lemma wf_RequestNextRound [wf_intros]:
  assumes "RequestNextRound i n r = Inr r'" "wf_room r" "unat (r_round r) < 2 ^ 63"
  shows "wf_room r'"
proof -
  let ?r1 = "r\<lparr>r_nextRoundRequests := fmupd i True (r_nextRoundRequests r)\<rparr>"
  from assms(1) have g: "hasPlayer r i" "r_resolved r"
    and r': "r' = (if flen (r_nextRoundRequests ?r1) = length (r_players ?r1)
      then startNextRound ?r1 else ?r1)"
    by (auto simp: RequestNextRound_def guarded_eq_Inr Let_def)
  have "validResolvedMoves (PersistenceState ?r1) = validResolvedMoves (PersistenceState r)"
    by (rule validResolved_cong) simp_all
  with assms(2) g have "wf_room ?r1"
    by (auto simp: wf_room_def wf_seats_def wf_actions_def wf_outcome_def hasPlayer_iff
        split: if_splits)
  then show ?thesis
    using wf_startNextRound [of ?r1] assms(3) by (simp add: r')
qed

lemma wf_AdvanceCommittedNextRound [wf_intros]:
  assumes "AdvanceCommittedNextRound n r = Inr r'" "wf_room r" "unat (r_round r) < 2 ^ 63"
  shows "wf_room r'"
  using assms wf_startNextRound by (auto simp: AdvanceCommittedNextRound_def guarded_eq_Inr)

lemma wf_unresolved:
  assumes "wf_room r" "\<not> r_resolved r"
  shows "r_result r = ''''" "r_forfeitedPlayerID r = ''''" "r_nextRoundRequests r = fmempty"
  using assms by (simp_all add: wf_room_def wf_outcome_def)

lemma wf_room_settled:
  assumes "wf_room r" "wins_below r" "length (r_players r) = 2" "wf_outcome (settled res f r)"
  shows "wf_room (settled res f r)"
  using assms by (simp add: wf_room_def wf_seats_settled)

lemma wf_actionsD:
  assumes "wf_room r" "r_players r = [p, q]"
  shows "fset (fmdom (r_moves r)) \<subseteq> {player_ID p, player_ID q}" "player_ID p \<noteq> player_ID q"
  using assms by (auto simp: wf_room_def wf_seats_def wf_actions_def player_ids_def)

lemma wf_outcome_resolve:
  assumes "wf_room r" "length (r_players r) = 2" "flen (r_moves r) = 2"
  shows "wf_outcome (settled (roundOutcome r) '''' r)"
proof -
  from assms(2) obtain p q where pq: "r_players r = [p, q]" by (rule two_players)
  from assms(3) flen_pair [OF wf_actionsD [OF assms(1) pq]]
  have both: "player_ID p |\<in>| fmdom (r_moves r)" "player_ID q |\<in>| fmdom (r_moves r)"
    by (auto split: if_splits)
  then obtain a b where ab: "fmlookup (r_moves r) (player_ID p) = Some a"
    "fmlookup (r_moves r) (player_ID q) = Some b"
    by (auto simp: fmlookup_dom_iff)
  with assms(1) have "IsValidMove a" "IsValidMove b"
    by (auto simp: wf_room_def wf_actions_def fmpred_iff)
  from DetermineResult_valid [OF this] assms(3) show ?thesis
    by (auto simp: wf_outcome_def validResolved_settled [OF pq] roundOutcome_def pq ab)
qed

lemma wf_resolve:
  assumes "resolve r = Inr r'" "wf_room r" "\<not> r_resolved r" "wins_below r"
    and "length (r_players r) = 2" "flen (r_moves r) = 2"
  shows "wf_room r'"
  using assms resolve_settled wf_unresolved wf_room_settled wf_outcome_resolve by fastforce

lemma wf_ResolveCommittedMoves [wf_intros]:
  assumes "ResolveCommittedMoves n r = Inr r'" "wf_room r" "wins_below r"
  shows "wf_room r'"
  using assms by (auto simp: ResolveCommittedMoves_def guarded_eq_Inr intro: wf_resolve)

lemma SubmitMove_cases:
  assumes "SubmitMove i m r = Inr r'"
  defines "r1 \<equiv> r\<lparr>r_moves := fmupd i m (r_moves r)\<rparr>"
  shows "\<not> r_closed r \<and> i \<in> set (player_ids r) \<and> 2 \<le> length (r_players r)
    \<and> \<not> r_resolved r \<and> IsValidMove m \<and> i |\<notin>| fmdom (r_moves r)
    \<and> (if flen (r_moves r) = 1 then resolve r1 = Inr r' else r' = r1)"
  using assms
  by (auto simp: SubmitMove_def guarded_eq_Inr hasPlayer_iff flen_upd Let_def fcard_finsert_if
      split: if_splits)

lemma wf_record_move:
  assumes "wf_room r" "\<not> r_resolved r" "i \<in> set (player_ids r)" "IsValidMove m"
  shows "wf_room (r\<lparr>r_moves := fmupd i m (r_moves r)\<rparr>)"
  using assms
  by (auto simp: wf_room_def wf_seats_def wf_actions_def wf_outcome_def fmpred_iff)

lemma wf_SubmitMove [wf_intros]:
  assumes "SubmitMove i m r = Inr r'" "wf_room r" "wins_below r"
  shows "wf_room r'"
proof -
  let ?r1 = "r\<lparr>r_moves := fmupd i m (r_moves r)\<rparr>"
  note c = SubmitMove_cases [OF assms(1)]
  with assms(2) have wf1: "wf_room ?r1" by (simp add: wf_record_move)
  from c assms(2) have two: "length (r_players r) = 2" by (auto simp: wf_room_def wf_seats_def)
  show ?thesis
  proof (cases "flen (r_moves r) = 1")
    case True
    with c have "flen (r_moves ?r1) = 2" and res: "resolve ?r1 = Inr r'"
      by (simp_all add: fcard_finsert_if)
    with wf1 c two assms(3) show ?thesis
      by (intro wf_resolve [OF res]) (simp_all add: wins_below_def)
  next
    case False
    with c wf1 show ?thesis by simp
  qed
qed

lemma wf_Forfeit [wf_intros]:
  assumes "Forfeit i n r = Inr r'" "wf_room r" "wins_below r" "flen (r_moves r) < 2"
  shows "wf_room r'"
proof -
  note f = Forfeit_settled [OF assms(1)]
  from f assms(2) have "i \<noteq> ''''" by (auto simp: wf_room_def wf_seats_def)
  with f assms show ?thesis by (auto intro!: wf_room_settled simp: wf_outcome_def)
qed

lemma wf_outcome_inactivity:
  assumes "wf_room r" "length (r_players r) = 2" "flen (r_moves r) < 2"
  shows "wf_outcome (settled (inactivityOutcome r) '''' r)"
proof -
  from assms(2) obtain p q where pq: "r_players r = [p, q]" by (rule two_players)
  note len = flen_pair [OF wf_actionsD [OF assms(1) pq]]
  have "r_moves r = fmempty \<longleftrightarrow> flen (r_moves r) = 0" by simp
  with len assms(3) show ?thesis
    by (auto simp: wf_outcome_def validResolved_settled [OF pq] inactivityOutcome_def
        player_ids_def pq split: if_splits)
qed

lemma wf_ResolveInactivity [wf_intros]:
  assumes "ResolveInactivity n r = Inr r'" "wf_room r" "wins_below r"
  shows "wf_room r'"
proof -
  from assms(1) have unres: "\<not> r_resolved r"
    by (auto simp: ResolveInactivity_def bindR_eq_Inr validateDeadlineResolution_eq_Inr)
  with assms(1,2) have s: "r' = settled (inactivityOutcome r) '''' r"
    "length (r_players r) = 2" "flen (r_moves r) < 2"
    using ResolveInactivity_settled wf_unresolved by (auto simp: wf_room_def)
  with assms(2,3) show ?thesis by (auto intro: wf_room_settled wf_outcome_inactivity)
qed

text \<open>A deadline draw is restorable only when no player had moved.\<close>

lemma wf_ResolveDeadlineDraw:
  assumes "ResolveDeadlineDraw n r = Inr r'" "wf_room r" "wins_below r"
  shows "wf_room r' \<longleftrightarrow> flen (r_moves r) = 0 \<or> flen (r_moves r) = 2 \<and> roundOutcome r = Draw"
proof -
  from assms(1) have "\<not> r_resolved r"
    by (auto simp: ResolveDeadlineDraw_def bindR_eq_Inr validateDeadlineResolution_eq_Inr)
  with assms(1,2) have s: "r' = settled Draw '''' r" "length (r_players r) = 2"
    using ResolveDeadlineDraw_settled wf_unresolved by auto
  from s(2) obtain p q where pq: "r_players r = [p, q]" by (rule two_players)
  from assms(2,3) s have "wf_room r' \<longleftrightarrow> wf_outcome r'"
    by (auto simp: wf_room_def wf_seats_settled)
  moreover have "flen (r_moves r) = 2 \<Longrightarrow> roundOutcome r \<noteq> ''''"
    using wf_outcome_resolve [OF assms(2) s(2)] by (auto simp: wf_outcome_def)
  ultimately show ?thesis using s
    by (auto simp: wf_outcome_def validResolved_settled [OF pq] roundOutcome_def pq
        split: sum.splits)
qed

section \<open>Operation sequences and the room invariant\<close>

datatype roomOp =
    OpJoin string | OpSubmitMove string move | OpRequestNextRound string uint64
  | OpResolveCommittedMoves uint64 | OpAdvanceCommittedNextRound uint64 | OpLeave string
  | OpForfeit string uint64 | OpResolveInactivity uint64 | OpResolveDeadlineDraw uint64

fun applyOp :: "roomOp \<Rightarrow> room \<Rightarrow> room result" where
  "applyOp (OpJoin i) r = Join i r"
| "applyOp (OpSubmitMove i m) r = SubmitMove i m r"
| "applyOp (OpRequestNextRound i n) r = RequestNextRound i n r"
| "applyOp (OpResolveCommittedMoves n) r = ResolveCommittedMoves n r"
| "applyOp (OpAdvanceCommittedNextRound n) r = AdvanceCommittedNextRound n r"
| "applyOp (OpLeave i) r = Leave i r"
| "applyOp (OpForfeit i n) r = Forfeit i n r"
| "applyOp (OpResolveInactivity n) r = ResolveInactivity n r"
| "applyOp (OpResolveDeadlineDraw n) r = ResolveDeadlineDraw n r"

text \<open>
  Moves and requests are resolved as soon as the second one arrives, so an unresolved room
  holds at most one move and a resolved one at most one request.
\<close>

definition live_room :: "room \<Rightarrow> bool" where
  "live_room r \<longleftrightarrow> (if r_resolved r
     then flen (r_nextRoundRequests r) < 2 \<and> fmpred (\<lambda>_ b. b) (r_nextRoundRequests r)
     else flen (r_moves r) < 2)"

definition room_inv :: "room \<Rightarrow> bool" where
  "room_inv r \<longleftrightarrow> wf_room r \<and> wins_bounded r \<and> live_room r"

text \<open>The operation is not a deadline draw over a submitted move.\<close>

fun keeps_moves :: "roomOp \<Rightarrow> room \<Rightarrow> bool" where
  "keeps_moves (OpResolveDeadlineDraw _) r = (r_moves r = fmempty)"
| "keeps_moves _ r = True"

text \<open>\<open>reachable n r\<close>: \<open>r\<close> results from \<open>New\<close> by \<open>n\<close> successful operations.\<close>

inductive reachable :: "nat \<Rightarrow> room \<Rightarrow> bool" where
  reach_new: "New code host = Inr r \<Longrightarrow> reachable 0 r"
| reach_op: "reachable n r \<Longrightarrow> keeps_moves op r \<Longrightarrow> applyOp op r = Inr r' \<Longrightarrow> reachable (Suc n) r'"

inductive_cases reachable_SucE: "reachable (Suc n) r"

lemma room_inv_settled:
  assumes "room_inv r" "wins_below r" "length (r_players r) = 2" "\<not> r_resolved r"
    and "wf_room (settled res f r)"
  shows "room_inv (settled res f r)"
  using assms wf_unresolved(3) [of r]
  by (auto simp: room_inv_def live_room_def wf_room_def intro: wins_bounded_settled)

lemma room_inv_startNextRound:
  assumes "wf_room r" "wins_bounded r" "r_resolved r" "unat (r_round r) < 2 ^ 63"
  shows "room_inv (startNextRound r)"
  using assms wf_startNextRound [OF assms(1,4)] unat_succ [OF assms(4)]
  by (simp add: room_inv_def live_room_def startNextRound_def wins_bounded_def total_wins_def)

lemma room_inv_wins_below:
  "room_inv r \<Longrightarrow> \<not> r_resolved r \<Longrightarrow> unat (r_round r) < 2 ^ 63 \<Longrightarrow> wins_below r"
  by (auto simp: room_inv_def wf_room_def intro: wins_below_bounded)

lemma room_inv_New: "New c h = Inr r \<Longrightarrow> room_inv r \<and> r_round r = 1"
  using wf_New by (auto simp: room_inv_def live_room_def New_def split: if_splits)

lemma room_inv_Join:
  assumes "Join i r = Inr r'" "room_inv r"
  shows "room_inv r' \<and> r_round r' = r_round r"
proof -
  from assms(1) have r': "r' = r\<lparr>r_players := r_players r @ [\<lparr>player_ID = i, player_Wins = 0\<rparr>]\<rparr>"
    by (auto simp: Join_def guarded_eq_Inr)
  with assms wf_Join [OF assms(1)] show ?thesis
    by (simp add: room_inv_def wins_bounded_def total_wins_def live_room_def)
qed

lemma room_inv_Leave:
  assumes "Leave i r = Inr r'" "room_inv r"
  shows "room_inv r' \<and> r_round r' = r_round r"
  using assms wf_Leave [OF assms(1)]
  by (auto simp: room_inv_def wins_bounded_def total_wins_def live_room_def Leave_def
      guarded_eq_Inr)

lemma room_inv_SubmitMove:
  assumes "SubmitMove i m r = Inr r'" "room_inv r" "unat (r_round r) < 2 ^ 63"
  shows "room_inv r' \<and> r_round r' = r_round r"
proof -
  let ?r1 = "r\<lparr>r_moves := fmupd i m (r_moves r)\<rparr>"
  note c = SubmitMove_cases [OF assms(1)]
  with assms have below: "wins_below r" by (auto intro: room_inv_wins_below)
  with assms have wf: "wf_room r'" by (auto simp: room_inv_def intro: wf_SubmitMove)
  from c assms(2) have two: "length (r_players r) = 2" and f: "r_forfeitedPlayerID r = ''''"
    and lt: "flen (r_moves r) < 2"
    using wf_unresolved by (auto simp: room_inv_def wf_room_def wf_seats_def live_room_def)
  have inv1: "wins_bounded ?r1 \<and> wf_room ?r1"
    using assms(2) c by (auto simp: room_inv_def wins_bounded_def total_wins_def wf_record_move)
  show ?thesis
  proof (cases "flen (r_moves r) = 1")
    case True
    with c resolve_settled [of ?r1] two f have r': "r' = settled (roundOutcome ?r1) '''' ?r1"
      by auto
    have "wins_bounded r'" unfolding r'
      using inv1 two below c by (intro wins_bounded_settled) (auto simp: wf_room_def wins_below_def)
    moreover have "live_room r'"
      using r' assms(2) c wf_unresolved(3) by (auto simp: live_room_def room_inv_def)
    ultimately show ?thesis using wf r' by (simp add: room_inv_def)
  next
    case False
    with lt have "flen (r_moves r) = 0" by linarith
    with False c show ?thesis
      using inv1 by (auto simp: room_inv_def live_room_def fcard_finsert_if)
  qed
qed

lemma room_inv_RequestNextRound:
  assumes "RequestNextRound i n r = Inr r'" "room_inv r" "unat (r_round r) < 2 ^ 63"
  shows "room_inv r' \<and> unat (r_round r') \<le> Suc (unat (r_round r))"
proof -
  let ?r1 = "r\<lparr>r_nextRoundRequests := fmupd i True (r_nextRoundRequests r)\<rparr>"
  from assms(1) have g: "r_resolved r" "\<not> get_or False (r_nextRoundRequests r) i"
    and r': "r' = (if flen (r_nextRoundRequests ?r1) = length (r_players ?r1)
      then startNextRound ?r1 else ?r1)"
    by (auto simp: RequestNextRound_def guarded_eq_Inr Let_def)
  from assms(2) g(2) have new: "i |\<notin>| fmdom (r_nextRoundRequests r)"
    by (cases "fmlookup (r_nextRoundRequests r) i")
      (auto simp: room_inv_def live_room_def g fmpred_iff fmlookup_dom_iff get_or_def)
  from assms(2) g(1) have two: "length (r_players r) = 2"
    by (simp add: room_inv_def wf_room_def wf_outcome_def)
  have wf: "wf_room r'" using assms by (auto simp: room_inv_def intro: wf_RequestNextRound)
  show ?thesis
  proof (cases "flen (r_nextRoundRequests ?r1) = length (r_players ?r1)")
    case True
    with wf r' assms g show ?thesis
      by (auto simp: startNextRound_def room_inv_def live_room_def wins_bounded_def total_wins_def
          unat_succ)
  next
    case False
    with r' have r1: "r' = ?r1" by simp
    from False two new assms(2) g have "flen (r_nextRoundRequests r) < 2"
      "flen (r_nextRoundRequests r) \<noteq> 1"
      by (auto simp: room_inv_def live_room_def fcard_finsert_if)
    then have "flen (r_nextRoundRequests r) = 0" by linarith
    with r1 wf assms(2) g two new show ?thesis
      by (auto simp: room_inv_def live_room_def wins_bounded_def total_wins_def fmpred_iff
          fcard_finsert_if)
  qed
qed

lemma live_not_committed:
  assumes "room_inv r"
  shows "ResolveCommittedMoves n r \<noteq> Inr r'" and "AdvanceCommittedNextRound n r \<noteq> Inr r'"
  using assms
  by (auto simp: ResolveCommittedMoves_def AdvanceCommittedNextRound_def guarded_eq_Inr
      room_inv_def live_room_def)

lemma room_inv_Forfeit:
  assumes "Forfeit i n r = Inr r'" "room_inv r" "unat (r_round r) < 2 ^ 63"
  shows "room_inv r' \<and> r_round r' = r_round r"
proof -
  note f = Forfeit_settled [OF assms(1)]
  with assms have below: "wins_below r" by (auto intro: room_inv_wins_below)
  from f assms(2) have "flen (r_moves r) < 2" by (simp add: room_inv_def live_room_def)
  with assms below have "wf_room r'" by (auto simp: room_inv_def intro: wf_Forfeit)
  with f assms(2) below show ?thesis by (auto intro: room_inv_settled)
qed

lemma room_inv_ResolveInactivity:
  assumes "ResolveInactivity n r = Inr r'" "room_inv r" "unat (r_round r) < 2 ^ 63"
  shows "room_inv r' \<and> r_round r' = r_round r"
proof -
  from assms(1) have unres: "\<not> r_resolved r"
    by (auto simp: ResolveInactivity_def bindR_eq_Inr validateDeadlineResolution_eq_Inr)
  with assms have below: "wins_below r" by (auto intro: room_inv_wins_below)
  from unres assms(1,2) have s: "r' = settled (inactivityOutcome r) '''' r"
    "length (r_players r) = 2"
    using ResolveInactivity_settled wf_unresolved by (auto simp: wf_room_def room_inv_def)
  from assms below have "wf_room r'" by (auto simp: room_inv_def intro: wf_ResolveInactivity)
  with s assms(2) unres below show ?thesis by (auto intro: room_inv_settled)
qed

lemma room_inv_ResolveDeadlineDraw:
  assumes "ResolveDeadlineDraw n r = Inr r'" "room_inv r" "unat (r_round r) < 2 ^ 63"
    and "r_moves r = fmempty"
  shows "room_inv r' \<and> r_round r' = r_round r"
proof -
  from assms(1) have unres: "\<not> r_resolved r"
    by (auto simp: ResolveDeadlineDraw_def bindR_eq_Inr validateDeadlineResolution_eq_Inr)
  with assms have below: "wins_below r" by (auto intro: room_inv_wins_below)
  from unres assms(1,2) have s: "r' = settled Draw '''' r" "length (r_players r) = 2"
    using ResolveDeadlineDraw_settled wf_unresolved by (auto simp: room_inv_def)
  from assms below have "wf_room r'" by (simp add: room_inv_def wf_ResolveDeadlineDraw)
  with s assms(2) unres below show ?thesis by (auto intro: room_inv_settled)
qed

lemma room_inv_applyOp:
  assumes "applyOp op r = Inr r'" "keeps_moves op r" "room_inv r" "unat (r_round r) < 2 ^ 63"
  shows "room_inv r' \<and> unat (r_round r') \<le> Suc (unat (r_round r))"
proof (cases op)
  case (OpRequestNextRound i n)
  with assms show ?thesis using room_inv_RequestNextRound by simp
qed (use assms room_inv_Join room_inv_Leave room_inv_SubmitMove room_inv_Forfeit
    room_inv_ResolveInactivity room_inv_ResolveDeadlineDraw live_not_committed in fastforce)+

lemma reachable_room_inv:
  "reachable n r \<Longrightarrow> n < 2 ^ 62 \<Longrightarrow> room_inv r \<and> unat (r_round r) \<le> Suc n"
proof (induction rule: reachable.induct)
  case (reach_new code host r)
  then show ?case using room_inv_New by fastforce
next
  case (reach_op n r op r')
  then have "room_inv r \<and> unat (r_round r) \<le> Suc n" by simp
  moreover from this reach_op.prems have "unat (r_round r) < 2 ^ 63" by simp
  ultimately show ?case
    using room_inv_applyOp [OF reach_op.hyps(3,2)] by (auto intro: le_trans)
qed

section \<open>Two moves and two requests\<close>

lemma settled_moves_outcome:
  assumes "r_players r = [p, q]" "player_ID p \<noteq> player_ID q"
    and "IsValidMove a" "IsValidMove b"
  shows "DetermineResult a b =
    Inr (roundOutcome (r\<lparr>r_moves := fmupd (player_ID p) a (fmupd (player_ID q) b m)\<rparr>))"
  using assms DetermineResult_valid [of a b]
  by (auto simp: roundOutcome_def split: sum.splits)

lemma SubmitMove_first:
  assumes "room_inv r" "\<not> r_closed r" "\<not> r_resolved r" "length (r_players r) = 2"
    and "i \<in> set (player_ids r)" "IsValidMove m" "r_moves r = fmempty"
  shows "SubmitMove i m r = Inr (r\<lparr>r_moves := fmupd i m fmempty\<rparr>)"
  using assms by (simp add: SubmitMove_def guarded_eval hasPlayer_iff Let_def fcard_finsert_if)

lemma SubmitMove_second:
  assumes "room_inv r" "\<not> r_closed r" "\<not> r_resolved r" "length (r_players r) = 2"
    and "i \<in> set (player_ids r)" "IsValidMove m" "r_moves r = fmupd j k fmempty" "i \<noteq> j"
  defines "r1 \<equiv> r\<lparr>r_moves := fmupd i m (r_moves r)\<rparr>"
  shows "SubmitMove i m r = Inr (settled (roundOutcome r1) '''' r1)"
proof -
  have "resolve r1 = Inr (settled (roundOutcome r1) '''' r1)"
    using assms wf_unresolved(2) [of r] by (intro resolve_settled) (simp_all add: room_inv_def)
  then show ?thesis
    using assms by (simp add: SubmitMove_def guarded_eval hasPlayer_iff Let_def fcard_finsert_if)
qed

lemma submit_both:
  assumes inv: "room_inv r" and open_room: "\<not> r_closed r" "\<not> r_resolved r"
    and two: "length (r_players r) = 2" and fresh: "r_moves r = fmempty"
    and ids: "i \<in> set (player_ids r)" "j \<in> set (player_ids r)" "i \<noteq> j"
    and valid: "IsValidMove m" "IsValidMove k"
  defines "r2 \<equiv> r\<lparr>r_moves := fmupd j k (fmupd i m fmempty)\<rparr>"
  shows "bindR (SubmitMove i m r) (SubmitMove j k) = Inr (settled (roundOutcome r2) '''' r2)"
proof -
  let ?r1 = "r\<lparr>r_moves := fmupd i m fmempty\<rparr>"
  have first: "SubmitMove i m r = Inr ?r1"
    using assms by (intro SubmitMove_first) auto
  have wf1: "wf_room ?r1"
    using wf_record_move [of r i m] inv open_room ids valid fresh by (simp add: room_inv_def)
  have inv1: "room_inv ?r1"
    using wf1 inv open_room by (simp add: room_inv_def live_room_def wins_bounded_def
        total_wins_def fcard_finsert_if)
  have "SubmitMove j k ?r1 = Inr (settled (roundOutcome r2) '''' r2)"
    using SubmitMove_second [OF inv1, of j k i m] assms by (simp add: r2_def)
  then show ?thesis by (simp only: first bindR.simps)
qed

lemma committed_both:
  fixes m k :: move
  assumes "room_inv r" "\<not> r_closed r" "\<not> r_resolved r" "length (r_players r) = 2"
    and "i \<noteq> j"
  defines "r2 \<equiv> r\<lparr>r_moves := fmupd j k (fmupd i m fmempty)\<rparr>"
  shows "ResolveCommittedMoves (r_round r) r2 = Inr (settled (roundOutcome r2) '''' r2)"
proof -
  have "resolve r2 = Inr (settled (roundOutcome r2) '''' r2)"
    using assms wf_unresolved(2) [of r] by (intro resolve_settled) (simp_all add: room_inv_def)
  then show ?thesis
    using assms by (simp add: ResolveCommittedMoves_def guarded_eval fcard_finsert_if)
qed

lemma request_both:
  assumes inv: "room_inv r" and open_room: "\<not> r_closed r" "r_resolved r"
    and fresh: "r_nextRoundRequests r = fmempty"
    and ids: "i \<in> set (player_ids r)" "j \<in> set (player_ids r)" "i \<noteq> j"
  shows "bindR (RequestNextRound i (r_round r) r) (RequestNextRound j (r_round r))
    = Inr (startNextRound r)"
proof -
  have two: "length (r_players r) = 2"
    using inv open_room by (simp add: room_inv_def wf_room_def wf_outcome_def)
  then show ?thesis using assms
    by (simp add: RequestNextRound_def guarded_eval hasPlayer_iff Let_def fcard_finsert_if
        startNextRound_def)
qed

section \<open>Properties\<close>

text \<open>the rules of the game. Valid moves always have a result, equal moves draw, swapping the
  players swaps the winner, and anything that is not one of the three moves is refused.\<close>

theorem determine_result_rules:
  "(\<exists>res. DetermineResult a b = Inr res) = (IsValidMove a \<and> IsValidMove b)
   \<and> (DetermineResult a b = Inr Draw) = (IsValidMove a \<and> a = b)
   \<and> (DetermineResult a b = Inr PlayerOneWins) = (DetermineResult b a = Inr PlayerTwoWins)
   \<and> (DetermineResult a b = Inr PlayerOneWins)
       = ((a, b) \<in> {(Rock, Scissors), (Paper, Rock), (Scissors, Paper)})"
  by (auto simp: DetermineResult_def IsValidMove_def)

text \<open>C25: persistence round trip. \<open>Restore\<close> accepts a persisted state exactly when it is the
  \<open>PersistenceState\<close> of a well-formed room, and then rebuilds that very room.\<close>

theorem restore_roundtrip: "(Restore s = Inr r) = (s = PersistenceState r \<and> wf_room r)"
  by (rule Restore_eq_Inr)

text \<open>C7: every room built by \<open>New\<close> and any sequence of methods (a deadline draw only while no
  move is submitted) can be persisted and restored, never counts more wins than rounds resolved,
  and holds at most one pending move or one pending next-round request.\<close>

theorem reachable_room_safe:
  assumes "reachable n r" and "n < 2 ^ 62"
  shows "Restore (PersistenceState r) = Inr r
    \<and> total_wins r + (if r_resolved r then 0 else 1) \<le> int (unat (r_round r))
    \<and> live_room r"
  using reachable_room_inv [OF assms]
  by (auto simp: room_inv_def wins_bounded_def Restore_eq_Inr)

definition demo_room :: room where
  "demo_room = \<lparr>r_code = ''ROOM'', r_players = [\<lparr>player_ID = ''host'', player_Wins = 0\<rparr>,
     \<lparr>player_ID = ''guest'', player_Wins = 0\<rparr>], r_moves = fmempty, r_resolved = False,
     r_result = '''', r_forfeitedPlayerID = '''', r_round = 1, r_nextRoundRequests = fmempty,
     r_closed = False\<rparr>"

definition demo_moved :: room where
  "demo_moved = demo_room\<lparr>r_moves := fmupd ''host'' Rock fmempty\<rparr>"

lemma demo_reachable: "reachable 1 demo_room"
proof -
  obtain r where r: "New ''ROOM'' ''host'' = Inr r" by (simp add: New_def)
  then have "applyOp (OpJoin ''guest'') r = Inr demo_room"
    by (auto simp: New_def Join_def guarded_eval hasPlayer_def demo_room_def)
  with reach_op [OF reach_new [OF r], of "OpJoin ''guest''"] show ?thesis by simp
qed

lemma demo_moved_reachable: "reachable 2 demo_moved"
proof -
  have "applyOp (OpSubmitMove ''host'' Rock) demo_room = Inr demo_moved"
    by (simp add: SubmitMove_def guarded_eval hasPlayer_def IsValidMove_def demo_moved_def
        demo_room_def fcard_finsert_if)
  with reach_op [OF demo_reachable, of "OpSubmitMove ''host'' Rock"] show ?thesis
    by (simp add: numeral_2_eq_2)
qed

lemma demo_inv: "room_inv demo_room" "room_inv demo_moved"
  using reachable_room_inv [OF demo_reachable] reachable_room_inv [OF demo_moved_reachable]
  by simp_all

theorem reachable_room_safe_witness:
  "reachable 2 demo_moved \<and> Restore (PersistenceState demo_moved) = Inr demo_moved"
  using demo_moved_reachable reachable_room_safe [OF demo_moved_reachable] by simp

text \<open>C12: the two players may submit in either order, and recording both moves first and resolving
  them later (what the reconciler does) gives the same room: the result is that of the game
  rules on the host's and the guest's move.\<close>

theorem submission_order_irrelevant:
  assumes "room_inv r" "\<not> r_closed r" "\<not> r_resolved r" "r_players r = [p, q]"
    and "r_moves r = fmempty" "IsValidMove a" "IsValidMove b"
  defines "both \<equiv> r\<lparr>r_moves := fmupd (player_ID p) a (fmupd (player_ID q) b fmempty)\<rparr>"
  shows "bindR (SubmitMove (player_ID p) a r) (SubmitMove (player_ID q) b)
       = bindR (SubmitMove (player_ID q) b r) (SubmitMove (player_ID p) a)
    \<and> bindR (SubmitMove (player_ID p) a r) (SubmitMove (player_ID q) b)
       = ResolveCommittedMoves (r_round r) both
    \<and> (\<exists>r' res. ResolveCommittedMoves (r_round r) both = Inr r' \<and> r_resolved r'
         \<and> DetermineResult a b = Inr res \<and> r_result r' = res)"
proof -
  have neq: "player_ID p \<noteq> player_ID q" and two: "length (r_players r) = 2"
    and ids: "player_ID p \<in> set (player_ids r)" "player_ID q \<in> set (player_ids r)"
    using wf_actionsD(2) [of r p q] assms by (auto simp: room_inv_def player_ids_def)
  note sub = submit_both [OF assms(1-3) two assms(5)]
  have swap: "fmupd (player_ID q) b (fmupd (player_ID p) a fmempty)
    = fmupd (player_ID p) a (fmupd (player_ID q) b fmempty)"
    using neq by (intro fmupd_reorder_neq) simp
  have "bindR (SubmitMove (player_ID p) a r) (SubmitMove (player_ID q) b)
    = Inr (settled (roundOutcome both) '''' both)"
    unfolding both_def swap [symmetric] using neq ids assms(6,7) by (intro sub)
  moreover have "bindR (SubmitMove (player_ID q) b r) (SubmitMove (player_ID p) a)
    = Inr (settled (roundOutcome both) '''' both)"
    unfolding both_def using neq ids assms(6,7) by (intro sub) auto
  moreover have "ResolveCommittedMoves (r_round r) both
    = Inr (settled (roundOutcome both) '''' both)"
    unfolding both_def using neq by (intro committed_both [OF assms(1-3) two]) auto
  moreover have "DetermineResult a b = Inr (roundOutcome both)"
    unfolding both_def by (rule settled_moves_outcome [OF assms(4) neq assms(6,7)])
  ultimately show ?thesis by simp
qed

theorem submission_order_irrelevant_witness:
  "bindR (SubmitMove ''host'' Rock demo_room) (SubmitMove ''guest'' Paper)
     = bindR (SubmitMove ''guest'' Paper demo_room) (SubmitMove ''host'' Rock)"
  using submission_order_irrelevant [OF demo_inv(1), of "\<lparr>player_ID = ''host'', player_Wins = 0\<rparr>"
      "\<lparr>player_ID = ''guest'', player_Wins = 0\<rparr>" Rock Paper]
  by (simp add: demo_room_def IsValidMove_def)

text \<open>C38: defect. A deadline draw taken while exactly one move is submitted (both players gone
  after one of them moved) succeeds, and the room it leaves can never be restored: \<open>Restore\<close>
  accepts a one-move resolved round only as a win of the player who moved.\<close>

theorem deadline_draw_unrestorable:
  assumes "wf_room r" "wins_below r" "flen (r_moves r) = 1"
    and "ResolveDeadlineDraw n r = Inr r'"
  shows "Restore (PersistenceState r') = Inl (Err ErrInvalidState)"
  using wf_ResolveDeadlineDraw [OF assms(4,1,2)] assms(3) by (simp add: Restore_PersistenceState)

theorem deadline_draw_unrestorable_witness:
  "\<exists>r'. ResolveDeadlineDraw 1 demo_moved = Inr r'
     \<and> Restore (PersistenceState r') = Inl (Err ErrInvalidState)"
proof -
  have ok: "ResolveDeadlineDraw 1 demo_moved = Inr (demo_moved\<lparr>r_resolved := True, r_result := Draw\<rparr>)"
    by (simp add: ResolveDeadlineDraw_def validateDeadlineResolution_def guarded_eval
        demo_moved_def demo_room_def)
  have "wins_below demo_moved" "flen (r_moves demo_moved) = 1"
    by (simp_all add: wins_below_def demo_moved_def demo_room_def MaxInt64_def fcard_finsert_if)
  with deadline_draw_unrestorable [OF _ _ _ ok] demo_inv(2) ok show ?thesis
    by (simp add: room_inv_def)
qed

text \<open>defect. Once both moves are recorded but not yet resolved (the window the PostgreSQL
  adapter leaves to its reconciler), \<open>Forfeit\<close> still succeeds, and the room it leaves can never
  be restored: a forfeited round with two moves is refused.\<close>

theorem forfeit_after_both_moves_unrestorable:
  assumes "wf_room r" "flen (r_moves r) = 2" and "Forfeit i n r = Inr r'"
  shows "Restore (PersistenceState r') = Inl (Err ErrInvalidState)"
proof -
  note f = Forfeit_settled [OF assms(3)]
  with assms(1) have "i \<noteq> ''''" by (auto simp: wf_room_def wf_seats_def)
  with f assms(2) have "\<not> wf_outcome r'" by (simp add: wf_outcome_def)
  then show ?thesis by (simp add: Restore_PersistenceState wf_room_def)
qed

definition demo_committed :: room where
  "demo_committed = demo_room\<lparr>r_moves := fmupd ''guest'' Paper (fmupd ''host'' Rock fmempty)\<rparr>"

lemma demo_committed_wf: "wf_room demo_committed"
  using wf_record_move [of demo_moved "''guest''" Paper] demo_inv(2)
  by (simp add: demo_committed_def demo_moved_def demo_room_def room_inv_def player_ids_def
      IsValidMove_def)

theorem forfeit_after_both_moves_unrestorable_witness:
  "\<exists>r'. Forfeit ''host'' 1 demo_committed = Inr r'
     \<and> Restore (PersistenceState r') = Inl (Err ErrInvalidState)"
proof -
  obtain r' where r': "Forfeit ''host'' 1 demo_committed = Inr r'"
    by (simp add: Forfeit_def guarded_eval demo_committed_def demo_room_def hasPlayer_def Let_def)
  have "flen (r_moves demo_committed) = 2"
    by (simp add: demo_committed_def fcard_finsert_if)
  with forfeit_after_both_moves_unrestorable [OF demo_committed_wf _ r'] r' show ?thesis by simp
qed

fun resolvesRound :: "roomOp \<Rightarrow> uint64 option \<Rightarrow> bool" where
  "resolvesRound (OpSubmitMove _ _) e = (e = None)"
| "resolvesRound (OpForfeit _ n) e = (e = Some n)"
| "resolvesRound (OpResolveCommittedMoves n) e = (e = Some n)"
| "resolvesRound (OpResolveInactivity n) e = (e = Some n)"
| "resolvesRound (OpResolveDeadlineDraw n) e = (e = Some n)"
| "resolvesRound _ e = False"

text \<open>a round is settled at most once. Every operation that resolves a round fails on a resolved
  room, and a forfeit, deadline or reconciliation for another round number always fails.\<close>

theorem round_settled_at_most_once:
  assumes "resolvesRound op e" and "r_resolved r \<or> (\<exists>n. e = Some n \<and> n \<noteq> r_round r)"
  shows "\<exists>err. applyOp op r = Inl err"
proof (rule ccontr)
  assume "\<not> ?thesis"
  then obtain r' where "applyOp op r = Inr r'" by (metis sum.exhaust)
  with assms show False
    by (cases op) (auto simp: SubmitMove_def Forfeit_def ResolveCommittedMoves_def
        ResolveInactivity_def ResolveDeadlineDraw_def bindR_eq_Inr guarded_eq_Inr
        validateDeadlineResolution_eq_Inr)
qed

theorem round_settled_at_most_once_witness:
  "\<exists>err. applyOp (OpForfeit ''host'' 7) demo_room = Inl err"
  by (rule round_settled_at_most_once [of _ "Some 7"]) (simp_all add: demo_room_def)

text \<open>secrecy of pending moves. While a round is unresolved the published \<open>State\<close> shows no
  move and no result, and does not depend on which moves were submitted, only on who has.\<close>

theorem state_hides_pending_moves:
  assumes "\<not> r_resolved r" and "fmdom m = fmdom (r_moves r)"
  shows "st_Moves (State r) = [] \<and> st_Result (State r) = ''''
    \<and> State (r\<lparr>r_moves := m\<rparr>) = State r"
  using assms by (simp add: State_def)

theorem state_hides_pending_moves_witness:
  "State (demo_room\<lparr>r_moves := fmupd ''host'' Rock fmempty\<rparr>)
     = State (demo_room\<lparr>r_moves := fmupd ''host'' Scissors fmempty\<rparr>)"
proof -
  let ?r = "demo_room\<lparr>r_moves := fmupd ''host'' Scissors fmempty\<rparr>"
  have "\<not> r_resolved ?r" and "fmdom (fmupd ''host'' Rock fmempty) = fmdom (r_moves ?r)"
    by (simp_all add: demo_room_def)
  from state_hides_pending_moves [OF this] show ?thesis by simp
qed

text \<open>an inactivity deadline gives the round to the one player who moved, or draws it when
  nobody did, adds at most that one win, and leaves a restorable room; with both moves in, it
  refuses.\<close>

theorem inactivity_outcome:
  assumes "wf_room r" "wins_below r" "r_players r = [p, q]" "\<not> r_closed r" "\<not> r_resolved r"
  shows "(flen (r_moves r) = 2 \<and> ResolveInactivity (r_round r) r = Inl (Err ErrRoundResolved))
    \<or> (\<exists>r'. ResolveInactivity (r_round r) r = Inr r' \<and> r_resolved r'
        \<and> Restore (PersistenceState r') = Inr r'
        \<and> r_result r' = (if player_ID p |\<in>| fmdom (r_moves r) then PlayerOneWins
                        else if player_ID q |\<in>| fmdom (r_moves r) then PlayerTwoWins else Draw)
        \<and> total_wins r' = total_wins r + (if r_moves r = fmempty then 0 else 1))"
proof (cases "flen (r_moves r) = 2")
  case True
  with assms show ?thesis
    by (simp add: ResolveInactivity_def validateDeadlineResolution_def guarded_eval)
next
  case False
  have len: "flen (r_moves r) = 0 \<or> flen (r_moves r) = 1"
    using False flen_pair [OF wf_actionsD [OF assms(1,3)]] by (auto split: if_splits)
  with assms(3-5) have "\<exists>r'. ResolveInactivity (r_round r) r = Inr r'"
    by (cases "r_moves r = fmempty")
      (simp_all add: ResolveInactivity_def validateDeadlineResolution_def guarded_eval)
  then obtain r' where r': "ResolveInactivity (r_round r) r = Inr r'" by blast
  have s: "r' = settled (inactivityOutcome r) '''' r"
    using ResolveInactivity_settled [OF r'] wf_unresolved assms by (auto simp: wf_room_def)
  have "wf_room r'" using r' assms by (auto intro: wf_ResolveInactivity)
  moreover have "0 \<le> player_Wins p" "player_Wins p < MaxInt64" "0 \<le> player_Wins q"
    "player_Wins q < MaxInt64"
    using assms(1-3) by (auto simp: wf_room_def wf_seats_def wins_below_def)
  moreover have "r_moves r = fmempty \<longleftrightarrow> flen (r_moves r) = 0" by simp
  ultimately show ?thesis
    using r' s assms(3) flen_pair [OF wf_actionsD [OF assms(1,3)]] len
    by (intro disjI2 exI [of _ r'])
      (auto simp: Restore_PersistenceState inactivityOutcome_def total_wins_def award_def
        player_ids_def split: if_splits)
qed

theorem inactivity_outcome_witness:
  "\<exists>r'. ResolveInactivity 1 demo_moved = Inr r' \<and> r_result r' = PlayerOneWins"
  using inactivity_outcome [of demo_moved "\<lparr>player_ID = ''host'', player_Wins = 0\<rparr>"
      "\<lparr>player_ID = ''guest'', player_Wins = 0\<rparr>"] demo_inv(2)
  by (auto simp: room_inv_def demo_moved_def demo_room_def wins_below_def MaxInt64_def
      fcard_finsert_if)

text \<open>the next-round handshake. The second of the two requests, in either order, starts round
  \<open>n + 1\<close> with no moves, no result and the same win counters; the same holds for the
  reconciler's \<open>AdvanceCommittedNextRound\<close>.\<close>

theorem next_round_handshake:
  assumes "room_inv r" "\<not> r_closed r" "r_resolved r" "r_nextRoundRequests r = fmempty"
    and "{i, j} = set (player_ids r)" "i \<noteq> j"
  shows "bindR (RequestNextRound i (r_round r) r) (RequestNextRound j (r_round r))
       = Inr (startNextRound r)
    \<and> AdvanceCommittedNextRound (r_round r)
        (r\<lparr>r_nextRoundRequests := fmupd i True (fmupd j True fmempty)\<rparr>)
       = Inr (startNextRound r)
    \<and> r_round (startNextRound r) = r_round r + 1 \<and> r_moves (startNextRound r) = fmempty
    \<and> \<not> r_resolved (startNextRound r) \<and> total_wins (startNextRound r) = total_wins r"
proof -
  have "length (r_players r) = 2"
    using assms by (simp add: room_inv_def wf_room_def wf_outcome_def)
  moreover have "i \<in> set (player_ids r)" "j \<in> set (player_ids r)" using assms(5) by auto
  ultimately show ?thesis
    using request_both [OF assms(1-4)] assms
    by (simp add: AdvanceCommittedNextRound_def guarded_eval fcard_finsert_if startNextRound_def
        total_wins_def)
qed

theorem next_round_handshake_witness:
  "\<exists>r. r_round r = 1 \<and> bindR (RequestNextRound ''host'' 1 r) (RequestNextRound ''guest'' 1)
     = Inr (startNextRound r)"
proof -
  obtain r where r: "ResolveInactivity 1 demo_room = Inr r"
    by (simp add: ResolveInactivity_def validateDeadlineResolution_def guarded_eval demo_room_def)
  then have f: "\<not> r_closed r" "r_resolved r" "r_nextRoundRequests r = fmempty" "r_round r = 1"
    "{''host'', ''guest''} = set (player_ids r)"
    by (auto simp: ResolveInactivity_def validateDeadlineResolution_def guarded_eval
        demo_room_def player_ids_def)
  have "room_inv r" using room_inv_ResolveInactivity [OF r demo_inv(1)] by (simp add: demo_room_def)
  from next_round_handshake [OF this f(1-3,5)] f(4) show ?thesis by auto
qed

end
