(* ===== verification/Go_Strings.thy ===== *)
theory Go_Strings
  imports Prelude
begin

text \<open>
  The string functions of Go's standard library that the handlers and the service call, on byte
  strings: decimal formatting (\<open>%d\<close>, \<open>strconv.FormatUint\<close>) and parsing (\<open>strconv.ParseUint\<close>),
  \<open>strings.TrimSpace\<close>, \<open>strings.ContainsAny\<close>, \<open>utf8.RuneCountInString\<close>, with the round trip
  between printing and parsing and what the trimmed strings look like.
\<close>

section \<open>Decimal numbers\<close>

definition digit :: "nat \<Rightarrow> char" where
  "digit n = char_of (48 + n)"

fun dec :: "nat \<Rightarrow> string" where
  "dec n = (if n < 10 then [digit n] else dec (n div 10) @ [digit (n mod 10)])"

declare dec.simps [simp del]

definition digit_value :: "char \<Rightarrow> nat option" where
  "digit_value c = (let n = of_char c in if 48 \<le> n \<and> n \<le> 57 then Some (n - 48) else None)"

text \<open>The digits of \<open>s\<close> read most significant first after the value \<open>acc\<close>.\<close>

fun parse_digits :: "nat \<Rightarrow> string \<Rightarrow> nat option" where
  "parse_digits acc [] = Some acc"
| "parse_digits acc (c # cs) =
     (case digit_value c of None \<Rightarrow> None | Some d \<Rightarrow> parse_digits (10 * acc + d) cs)"

text \<open>\<open>strconv.ParseUint(s, 10, 64)\<close>: only digits, at least one, and below two to the 64.\<close>

definition ParseUint :: "string \<Rightarrow> uint64 option" where
  "ParseUint s =
     (if s = '''' then None
      else case parse_digits 0 s of
        None \<Rightarrow> None
      | Some n \<Rightarrow> if n < 2 ^ 64 then Some (of_nat n) else None)"

lemma of_char_digit: "n < 10 \<Longrightarrow> of_char (digit n) = 48 + n"
  by (simp add: digit_def)

lemma digit_value_digit [simp]: "n < 10 \<Longrightarrow> digit_value (digit n) = Some n"
  by (simp add: digit_value_def of_char_digit)

lemma dec_not_empty [simp]: "dec n \<noteq> []"
  by (subst dec.simps) simp

lemma digits_dec: "c \<in> set (dec n) \<Longrightarrow> \<exists>d<10. c = digit d"
proof (induction n rule: dec.induct)
  case (1 n)
  show ?case
  proof (cases "n < 10")
    case True
    then have "c = digit n" using "1.prems" by (subst (asm) dec.simps) simp
    with True show ?thesis by blast
  next
    case False
    then have "c \<in> set (dec (n div 10)) \<or> c = digit (n mod 10)"
      using "1.prems" by (subst (asm) dec.simps) auto
    moreover have "n mod 10 < 10" by simp
    ultimately show ?thesis using "1.IH" [OF False] by blast
  qed
qed

lemma of_char_dec: "c \<in> set (dec n) \<Longrightarrow> 48 \<le> (of_char c :: nat) \<and> (of_char c :: nat) \<le> 57"
  using digits_dec of_char_digit by fastforce

lemma dec_no_colon [simp]: "CHR '':'' \<notin> set (dec n)"
  using of_char_dec [of "CHR '':''" n] by auto

lemma parse_digits_append:
  "parse_digits acc (xs @ ys) =
     (case parse_digits acc xs of None \<Rightarrow> None | Some n \<Rightarrow> parse_digits n ys)"
  by (induction xs arbitrary: acc) (simp_all split: option.split)

lemma parse_digits_dec: "parse_digits 0 (dec n) = Some n"
proof (induction n rule: dec.induct)
  case (1 n)
  show ?case
  proof (cases "n < 10")
    case True
    then show ?thesis by (subst dec.simps) simp
  next
    case False
    then have "dec n = dec (n div 10) @ [digit (n mod 10)]" by (subst dec.simps) simp
    with "1.IH" [OF False] show ?thesis by (simp add: parse_digits_append)
  qed
qed

lemma dec_inject [simp]: "dec m = dec n \<longleftrightarrow> m = n"
  by (metis option.inject parse_digits_dec)

lemma ParseUint_dec [simp]: "ParseUint (dec (unat n)) = Some n"
proof -
  have "unat n < 2 ^ 64" using unsigned_less [of n] by simp
  then show ?thesis by (simp add: ParseUint_def parse_digits_dec)
qed

text \<open>A separator that the right part does not contain splits a string in one way.\<close>

lemma last_separator:
  assumes "xs @ c # ys = xs' @ c # ys'" "c \<notin> set ys" "c \<notin> set ys'"
  shows "xs = xs' \<and> ys = ys'"
proof -
  from assms(1) obtain zs where
    "(xs = xs' @ zs \<and> zs @ c # ys = c # ys') \<or> (xs @ zs = xs' \<and> c # ys = zs @ c # ys')"
    unfolding append_eq_append_conv2 by blast
  with assms(2,3) show ?thesis by (cases zs) auto
qed

section \<open>White space\<close>

text \<open>The UTF-8 encodings of the runes for which \<open>unicode.IsSpace\<close> holds.\<close>

definition byte :: "nat \<Rightarrow> char" where
  "byte n = char_of n"

definition space_runes :: "string list" where
  "space_runes =
     map (\<lambda>n. [byte n]) [9, 10, 11, 12, 13, 32]
     @ [ [byte 0xC2, byte 0x85], [byte 0xC2, byte 0xA0], [byte 0xE1, byte 0x9A, byte 0x80]]
     @ map (\<lambda>n. [byte 0xE2, byte 0x80, byte n]) ([0x80..<0x8B] @ [0xA8, 0xA9, 0xAF])
     @ [ [byte 0xE2, byte 0x81, byte 0x9F], [byte 0xE3, byte 0x80, byte 0x80]]"

definition leading_space :: "string \<Rightarrow> nat" where
  "leading_space s =
     (case filter (\<lambda>w. take (length w) s = w) space_runes of [] \<Rightarrow> 0 | w # _ \<Rightarrow> length w)"

function trim_left :: "string \<Rightarrow> string" where
  "trim_left s = (if leading_space s = 0 \<or> s = '''' then s else trim_left (drop (leading_space s) s))"
  by pat_completeness auto
termination
  by (relation "measure length") auto

declare trim_left.simps [simp del]

text \<open>The same from the right, on the reversed string.\<close>

definition trailing_space :: "string \<Rightarrow> nat" where
  "trailing_space s =
     (case filter (\<lambda>w. take (length w) s = rev w) space_runes of [] \<Rightarrow> 0 | w # _ \<Rightarrow> length w)"

function trim_rev :: "string \<Rightarrow> string" where
  "trim_rev s = (if trailing_space s = 0 \<or> s = '''' then s else trim_rev (drop (trailing_space s) s))"
  by pat_completeness auto
termination
  by (relation "measure length") auto

declare trim_rev.simps [simp del]

definition TrimSpace :: "string \<Rightarrow> string" where
  "TrimSpace s = rev (trim_rev (rev (trim_left s)))"

definition ContainsAny :: "string \<Rightarrow> string \<Rightarrow> bool" where
  "ContainsAny s chars = list_ex (\<lambda>c. c \<in> set chars) s"

lemma trim_left_suffix: "\<exists>p. s = p @ trim_left s"
proof (induction s rule: trim_left.induct)
  case (1 s)
  show ?case
  proof (cases "leading_space s = 0 \<or> s = ''''")
    case True
    then show ?thesis by (subst trim_left.simps) simp
  next
    case False
    then have "trim_left s = trim_left (drop (leading_space s) s)"
      by (subst trim_left.simps) simp
    moreover from 1 [OF False] obtain p where
      "drop (leading_space s) s = p @ trim_left (drop (leading_space s) s)" by blast
    ultimately have "s = (take (leading_space s) s @ p) @ trim_left s"
      by (metis append.assoc append_take_drop_id)
    then show ?thesis by blast
  qed
qed

lemma trim_rev_suffix: "\<exists>p. s = p @ trim_rev s"
proof (induction s rule: trim_rev.induct)
  case (1 s)
  show ?case
  proof (cases "trailing_space s = 0 \<or> s = ''''")
    case True
    then show ?thesis by (subst trim_rev.simps) simp
  next
    case False
    then have "trim_rev s = trim_rev (drop (trailing_space s) s)"
      by (subst trim_rev.simps) simp
    moreover from 1 [OF False] obtain p where
      "drop (trailing_space s) s = p @ trim_rev (drop (trailing_space s) s)" by blast
    ultimately have "s = (take (trailing_space s) s @ p) @ trim_rev s"
      by (metis append.assoc append_take_drop_id)
    then show ?thesis by blast
  qed
qed

text \<open>Trimming only removes bytes at the two ends.\<close>

lemma TrimSpace_sub: "\<exists>p q. s = p @ TrimSpace s @ q"
proof -
  obtain p where p: "s = p @ trim_left s" using trim_left_suffix by blast
  obtain q where q: "rev (trim_left s) = q @ trim_rev (rev (trim_left s))"
    using trim_rev_suffix by blast
  then have "trim_left s = TrimSpace s @ rev q"
    unfolding TrimSpace_def by (metis rev_append rev_rev_ident)
  with p show ?thesis by metis
qed

lemma TrimSpace_length: "length (TrimSpace s) \<le> length s"
proof -
  obtain p q where "s = p @ TrimSpace s @ q" using TrimSpace_sub by blast
  then have "length s = length p + (length (TrimSpace s) + length q)" by (metis length_append)
  then show ?thesis by simp
qed

lemma space_runes_not_empty: "w \<in> set space_runes \<Longrightarrow> w \<noteq> ''''"
  by (auto simp: space_runes_def)

lemma leading_space_0: "leading_space s = 0 \<longleftrightarrow> (\<forall>w\<in>set space_runes. take (length w) s \<noteq> w)"
proof -
  have "leading_space s = 0 \<longleftrightarrow> filter (\<lambda>w. take (length w) s = w) space_runes = []"
  proof (cases "filter (\<lambda>w. take (length w) s = w) space_runes")
    case (Cons w ws)
    then have "w \<in> set (filter (\<lambda>w. take (length w) s = w) space_runes)" by simp
    then have "w \<noteq> ''''" using space_runes_not_empty by auto
    with Cons show ?thesis by (simp add: leading_space_def)
  qed (simp add: leading_space_def)
  then show ?thesis by (simp add: filter_empty_conv)
qed

lemma leading_space_trim_left: "trim_left s = '''' \<or> leading_space (trim_left s) = 0"
proof (induction s rule: trim_left.induct)
  case (1 s)
  show ?case
  proof (cases "leading_space s = 0 \<or> s = ''''")
    case True
    then have "trim_left s = s" by (subst trim_left.simps) simp
    with True show ?thesis by auto
  next
    case False
    then have "trim_left s = trim_left (drop (leading_space s) s)"
      by (subst trim_left.simps) simp
    with 1 [OF False] show ?thesis by simp
  qed
qed

lemma trailing_space_trim_rev: "trim_rev s = '''' \<or> trailing_space (trim_rev s) = 0"
proof (induction s rule: trim_rev.induct)
  case (1 s)
  show ?case
  proof (cases "trailing_space s = 0 \<or> s = ''''")
    case True
    then have "trim_rev s = s" by (subst trim_rev.simps) simp
    with True show ?thesis by auto
  next
    case False
    then have "trim_rev s = trim_rev (drop (trailing_space s) s)"
      by (subst trim_rev.simps) simp
    with 1 [OF False] show ?thesis by simp
  qed
qed

lemma trim_left_fix: "s = '''' \<or> leading_space s = 0 \<Longrightarrow> trim_left s = s"
  by (subst trim_left.simps) auto

lemma trim_rev_fix: "s = '''' \<or> trailing_space s = 0 \<Longrightarrow> trim_rev s = s"
  by (subst trim_rev.simps) auto

text \<open>Trimming twice is trimming once: a trimmed string has no space at either end.\<close>

lemma TrimSpace_idem: "TrimSpace (TrimSpace s) = TrimSpace s"
proof -
  let ?t = "trim_left s"
  obtain q where q: "rev ?t = q @ trim_rev (rev ?t)" using trim_rev_suffix by blast
  then have t: "?t = TrimSpace s @ rev q"
    unfolding TrimSpace_def by (metis rev_append rev_rev_ident)
  have "TrimSpace s = '''' \<or> leading_space (TrimSpace s) = 0"
  proof (cases "?t = ''''")
    case True
    with t show ?thesis by simp
  next
    case False
    then have "leading_space ?t = 0" using leading_space_trim_left by blast
    then have no: "take (length w) (TrimSpace s @ rev q) \<noteq> w" if "w \<in> set space_runes" for w
      using that t by (simp add: leading_space_0)
    have "take (length w) (TrimSpace s) \<noteq> w" if w: "w \<in> set space_runes" for w
    proof
      assume eq: "take (length w) (TrimSpace s) = w"
      then have "length w \<le> length (TrimSpace s)" by (metis length_take min.cobounded1)
      with eq no [OF w] show False by simp
    qed
    then show ?thesis by (simp add: leading_space_0)
  qed
  then have left: "trim_left (TrimSpace s) = TrimSpace s" by (rule trim_left_fix)
  have "rev (TrimSpace s) = trim_rev (rev ?t)" by (simp add: TrimSpace_def)
  then have "trim_rev (rev (TrimSpace s)) = rev (TrimSpace s)"
    using trim_rev_fix trailing_space_trim_rev by metis
  then show ?thesis unfolding TrimSpace_def [of "TrimSpace s"] left by simp
qed

section \<open>UTF-8\<close>

text \<open>
  \<open>continues lo hi n cs\<close>: \<open>cs\<close> starts with \<open>n\<close> continuation bytes, the first between \<open>lo\<close> and
  \<open>hi\<close>. \<open>rune_width\<close> is the width of the valid encoding a string starts with, \<open>None\<close> where
  \<open>utf8.DecodeRuneInString\<close> gives \<open>RuneError\<close> with width one.
\<close>

fun continues :: "nat \<Rightarrow> nat \<Rightarrow> nat \<Rightarrow> string \<Rightarrow> bool" where
  "continues lo hi 0 cs = True"
| "continues lo hi (Suc n) [] = False"
| "continues lo hi (Suc n) (c # cs) =
     (lo \<le> of_char c \<and> of_char c \<le> hi \<and> continues 0x80 0xBF n cs)"

fun rune_width :: "string \<Rightarrow> nat option" where
  "rune_width [] = None"
| "rune_width (c # cs) =
     (let b = of_char c :: nat; when = (\<lambda>lo hi n. if continues lo hi n cs then Some (Suc n) else None) in
      if b < 0x80 then Some 1
      else if 0xC2 \<le> b \<and> b \<le> 0xDF then when 0x80 0xBF 1
      else if b = 0xE0 then when 0xA0 0xBF 2
      else if b = 0xED then when 0x80 0x9F 2
      else if 0xE1 \<le> b \<and> b \<le> 0xEF then when 0x80 0xBF 2
      else if b = 0xF0 then when 0x90 0xBF 3
      else if 0xF1 \<le> b \<and> b \<le> 0xF3 then when 0x80 0xBF 3
      else if b = 0xF4 then when 0x80 0x8F 3
      else None)"

definition rune_size :: "string \<Rightarrow> nat" where
  "rune_size s = (case rune_width s of None \<Rightarrow> 1 | Some n \<Rightarrow> n)"

lemma rune_size_pos: "0 < rune_size s"
  by (cases s) (auto simp: rune_size_def Let_def split: option.splits)

function RuneCountInString :: "string \<Rightarrow> nat" where
  "RuneCountInString s = (if s = '''' then 0 else Suc (RuneCountInString (drop (rune_size s) s)))"
  by pat_completeness auto
termination
  by (relation "measure length") (use rune_size_pos in auto)

declare RuneCountInString.simps [simp del]

lemma RuneCount_le_length: "RuneCountInString s \<le> length s"
proof (induction s rule: RuneCountInString.induct)
  case (1 s)
  show ?case
  proof (cases "s = ''''")
    case False
    then have "RuneCountInString s = Suc (RuneCountInString (drop (rune_size s) s))"
      by (subst RuneCountInString.simps) simp
    also have "\<dots> \<le> Suc (length s - rune_size s)" using 1 [OF False] by simp
    also have "\<dots> \<le> length s" using False rune_size_pos [of s] by (cases s) auto
    finally show ?thesis .
  qed (subst RuneCountInString.simps, simp)
qed

definition ascii :: "string \<Rightarrow> bool" where
  "ascii s = list_all (\<lambda>c. (of_char c :: nat) < 128) s"

lemma RuneCount_ascii: "ascii s \<Longrightarrow> RuneCountInString s = length s"
proof (induction s)
  case Nil
  then show ?case by (subst RuneCountInString.simps) simp
next
  case (Cons c s)
  then show ?case
    by (subst RuneCountInString.simps) (simp add: ascii_def rune_size_def Let_def)
qed

text \<open>\<open>strings.ToUpper\<close>: byte by byte on ASCII strings; other strings go through the
  Unicode tables, which are a parameter.\<close>

definition upper_byte :: "char \<Rightarrow> char" where
  "upper_byte c = (let n = of_char c in if 97 \<le> n \<and> n \<le> 122 then char_of (n - 32 :: nat) else c)"

definition ToUpper :: "(string \<Rightarrow> string) \<Rightarrow> string \<Rightarrow> string" where
  "ToUpper unicode_upper s = (if ascii s then map upper_byte s else unicode_upper s)"

section \<open>JSON strings\<close>

definition hex_digit :: "nat \<Rightarrow> char" where
  "hex_digit n = (if n < 10 then char_of (48 + n) else char_of (87 + n))"

text \<open>The escapes that \<open>encoding/json\<close> writes for an ASCII byte, HTML escapes included.\<close>

definition json_escape :: "char \<Rightarrow> string" where
  "json_escape c = (let n = of_char c :: nat; esc = (\<lambda>k. [byte 92, byte k]) in
     if n = 34 \<or> n = 92 then [byte 92, c]
     else if n = 8 then esc 98 else if n = 12 then esc 102 else if n = 10 then esc 110
     else if n = 13 then esc 114 else if n = 9 then esc 116
     else if n < 32 \<or> n = 60 \<or> n = 62 \<or> n = 38
       then esc 117 @ ''00'' @ [hex_digit (n div 16), hex_digit (n mod 16)]
     else [c])"

text \<open>Bytes that are not valid UTF-8 become U+FFFD and the two line separators are escaped.\<close>

function json_body :: "string \<Rightarrow> string" where
  "json_body s =
     (case s of
        [] \<Rightarrow> []
      | c # cs \<Rightarrow>
          if (of_char c :: nat) < 128 then json_escape c @ json_body cs
          else (case rune_width s of
                  None \<Rightarrow> [byte 92] @ ''ufffd'' @ json_body cs
                | Some n \<Rightarrow>
                    (if take n s = [byte 0xE2, byte 0x80, byte 0xA8] then [byte 92] @ ''u2028''
                     else if take n s = [byte 0xE2, byte 0x80, byte 0xA9] then [byte 92] @ ''u2029''
                     else take n s) @ json_body (drop (rune_size s) s)))"
  by pat_completeness auto
termination
  by (relation "measure length") (use rune_size_pos in auto)

declare json_body.simps [simp del]

definition json_string :: "string \<Rightarrow> string" where
  "json_string s = [byte 34] @ json_body s @ [byte 34]"

end
