(* ===== verification/Application.thy ===== *)
theory Application
  imports Domain_Room Go_Strings
begin

text \<open>
  The data of \<open>internal/room/application\<close>: snapshots, presence leases and windows, played rounds,
  commands with their idempotency key and request hash, problem reports, and the random
  identifiers. Times and durations are nanoseconds, as in Go; SHA-256 is a parameter \<open>sha\<close> of
  the definitions that hash.
\<close>

section \<open>Constants and records\<close>

abbreviation RoundStake :: int where "RoundStake \<equiv> 50"
abbreviation WinnerPayout :: int where "WinnerPayout \<equiv> 75"
abbreviation HousePayout :: int where "HousePayout \<equiv> 25"

type_synonym go_time = int
type_synonym duration = int
type_synonym CredentialDigest = string

abbreviation Millisecond :: duration where "Millisecond \<equiv> 1000000"
abbreviation Second :: duration where "Second \<equiv> 1000000000"
abbreviation Hour :: duration where "Hour \<equiv> 3600 * Second"

text \<open>\<open>t.Sub(u)\<close> saturates at the range of a \<open>time.Duration\<close>.\<close>

definition time_Sub :: "go_time \<Rightarrow> go_time \<Rightarrow> duration" where
  "time_Sub t u = max (- (2 ^ 63)) (min MaxInt64 (t - u))"

record Snapshot =
  sn_State :: roomState
  sn_Revision :: uint64
  sn_Presence :: "(string, bool) fmap"

text \<open>A \<open>Mutation\<close> changes a working copy of the room on behalf of a player.\<close>

type_synonym mutation = "room \<Rightarrow> string \<Rightarrow> room result"

record PlayedRound =
  h_RoomCode :: string
  h_Round :: uint64
  h_Result :: outcome
  h_WinnerRole :: string
  h_Forfeit :: bool
  h_HouseEarnings :: int
  h_ResolvedAt :: go_time

record analytics =
  an_TotalHouseEarnings :: int
  an_Rounds :: "PlayedRound list"

record Credentials =
  cr_RoomCode :: string
  cr_PlayerToken :: string

record PresenceLease =
  l_RoomCode :: string
  l_PlayerID :: string
  l_Round :: uint64
  l_Generation :: uint64
  l_Deadline :: go_time
  l_EvaluateAt :: go_time
  l_ProofAfter :: go_time
  l_Active :: bool

record PresenceWindow =
  w_ObservedAt :: go_time
  w_ProofAfter :: go_time
  w_Deadline :: go_time
  w_EvaluateAt :: go_time

record Command =
  c_Key :: string
  c_Operation :: string
  c_RequestHash :: string
  c_ResponseStatus :: int

record CommandResult =
  cmd_Snapshot :: Snapshot
  cmd_Leases :: "PresenceLease list"
  cmd_Balance :: int
  cmd_Replayed :: bool

text \<open>The zero values that a Go function returns beside an error, and that \<open>CommandResult{...}\<close>
  literals leave in the fields they do not name.\<close>

definition zeroState :: roomState where
  "zeroState = \<lparr>st_Code = '''', st_Players = [], st_Ready = False, st_Resolved = False,
     st_Round = 0, st_Closed = False, st_Moves = [], st_Result = '''', st_Forfeit = False\<rparr>"

definition zeroSnapshot :: Snapshot where
  "zeroSnapshot = \<lparr>sn_State = zeroState, sn_Revision = 0, sn_Presence = fmempty\<rparr>"

definition zeroCommandResult :: CommandResult where
  "zeroCommandResult = \<lparr>cmd_Snapshot = zeroSnapshot, cmd_Leases = [], cmd_Balance = 0,
     cmd_Replayed = False\<rparr>"

section \<open>Commands\<close>

text \<open>The anonymous structs whose canonical JSON is hashed.\<close>

datatype meaning =
    MeaningEmpty | MeaningAmount int | MeaningRoom string | MeaningMove string move
  | MeaningRound string uint64

definition dec_int :: "int \<Rightarrow> string" where
  "dec_int n = (if n < 0 then ''-'' @ dec (nat (- n)) else dec (nat n))"

definition field :: "string \<Rightarrow> string \<Rightarrow> string" where
  "field name v = json_string name @ '':'' @ v"

fun json_Marshal :: "meaning \<Rightarrow> string" where
  "json_Marshal MeaningEmpty = ''{}''"
| "json_Marshal (MeaningAmount n) = ''{'' @ field ''amount'' (dec_int n) @ ''}''"
| "json_Marshal (MeaningRoom c) = ''{'' @ field ''room_code'' (json_string c) @ ''}''"
| "json_Marshal (MeaningMove c m) =
     ''{'' @ field ''room_code'' (json_string c) @ '','' @ field ''move'' (json_string m) @ ''}''"
| "json_Marshal (MeaningRound c n) =
     ''{'' @ field ''room_code'' (json_string c) @ '','' @ field ''round'' (dec (unat n)) @ ''}''"

definition commandResponseStatus :: "string \<Rightarrow> int" where
  "commandResponseStatus operation =
     (if operation = ''room.create'' \<or> operation = ''room.join'' then 201
      else if operation = ''room.move'' \<or> operation = ''room.next-round''
        \<or> operation = ''room.leave'' then 204
      else 200)"

definition validKey :: "string \<Rightarrow> bool" where
  "validKey key = (\<not> (key = '''' \<or> 128 < length key \<or> TrimSpace key \<noteq> key
     \<or> ContainsAny key [byte 32, byte 9, byte 13, byte 10]))"

definition NewCommand :: "(string \<Rightarrow> string) \<Rightarrow> string \<Rightarrow> string \<Rightarrow> meaning \<Rightarrow> Command result" where
  "NewCommand sha key operation meaning =
     (if \<not> validKey key then Inl (Err ErrIdempotencyRequired)
      else Inr \<lparr>c_Key = key, c_Operation = operation, c_RequestHash = sha (json_Marshal meaning),
                c_ResponseStatus = commandResponseStatus operation\<rparr>)"

lemma NewCommand_eq_Inr:
  "NewCommand sha key op m = Inr c \<longleftrightarrow> validKey key \<and>
     c = \<lparr>c_Key = key, c_Operation = op, c_RequestHash = sha (json_Marshal m),
          c_ResponseStatus = commandResponseStatus op\<rparr>"
  by (auto simp: NewCommand_def)

section \<open>Problem reports\<close>

record ProblemReport =
  pr_AccountID :: string
  pr_Description :: string
  pr_Section :: string
  pr_AppVersion :: string

definition reportSections :: "string list" where
  "reportSections = [''main_menu'', ''create_room'', ''join_room'', ''wallet'', ''waiting_room'',
     ''gameplay'', ''round_result'', ''next_round'', ''connection'', ''account'']"

text \<open>\<open>CreateProblemReport\<close>; the store it hands the report to is the argument \<open>save\<close>, absent when
  the repository does not implement \<open>ReportStore\<close>.\<close>

definition CreateProblemReport ::
    "(ProblemReport \<Rightarrow> 's \<Rightarrow> unit result \<times> 's) option \<Rightarrow> ProblemReport \<Rightarrow> 's \<Rightarrow> unit result \<times> 's" where
  "CreateProblemReport save report0 st =
     (let report = report0\<lparr>pr_Description := TrimSpace (pr_Description report0),
                           pr_AppVersion := TrimSpace (pr_AppVersion report0)\<rparr> in
      if pr_AccountID report = '''' \<or> pr_Description report = ''''
         \<or> 5000 < RuneCountInString (pr_Description report) \<or> pr_AppVersion report = ''''
         \<or> 64 < RuneCountInString (pr_AppVersion report)
         \<or> byte 0 \<in> set (pr_Description report) \<or> byte 0 \<in> set (pr_AppVersion report)
        then (Inl (Err ErrInvalidReport), st)
      else if pr_Section report \<notin> set reportSections then (Inl (Err ErrInvalidReport), st)
      else case save of
        None \<Rightarrow> (Inl (ErrText ''repository does not support problem reports''), st)
      | Some f \<Rightarrow> f report st)"

section \<open>Random identifiers\<close>

text \<open>The generators as functions of the bytes \<open>io.ReadFull(rand.Reader, b)\<close> returns.\<close>

definition roomAlphabet :: string where
  "roomAlphabet = ''ABCDEFGHJKLMNPQRSTUVWXYZ23456789''"

definition randomRoomCode :: "string result \<Rightarrow> string result" where
  "randomRoomCode read = bindR read (\<lambda>b.
     Inr (map (\<lambda>v. roomAlphabet ! (of_char v mod length roomAlphabet)) b))"

definition base64url :: string where
  "base64url = ''ABCDEFGHIJKLMNOPQRSTUVWXYZabcdefghijklmnopqrstuvwxyz0123456789-_''"

text \<open>\<open>base64.RawURLEncoding.EncodeToString\<close>: three bytes to four characters, no padding.\<close>

fun RawURLEncoding :: "string \<Rightarrow> string" where
  "RawURLEncoding [] = []"
| "RawURLEncoding [a] = (let v = of_char a * 16 in
     [base64url ! (v div 64), base64url ! (v mod 64)])"
| "RawURLEncoding [a, b] = (let v = (of_char a * 256 + of_char b) * 4 in
     [base64url ! (v div 4096), base64url ! (v div 64 mod 64), base64url ! (v mod 64)])"
| "RawURLEncoding (a # b # c # s) =
     (let v = of_char a * 65536 + of_char b * 256 + of_char c in
      [base64url ! (v div 262144), base64url ! (v div 4096 mod 64), base64url ! (v div 64 mod 64),
       base64url ! (v mod 64)]) @ RawURLEncoding s"

definition randomToken :: "string result \<Rightarrow> string result" where
  "randomToken read = bindR read (\<lambda>b. Inr (RawURLEncoding b))"

definition hex_EncodeToString :: "string \<Rightarrow> string" where
  "hex_EncodeToString b =
     concat (map (\<lambda>v. [hex_digit (of_char v div 16), hex_digit (of_char v mod 16)]) b)"

definition randomPlayerID :: "string result \<Rightarrow> string result" where
  "randomPlayerID read = bindR read (\<lambda>b. Inr (hex_EncodeToString b))"

text \<open>\<open>strings.ToUpper(strings.TrimSpace(code))\<close>, what the router does to a path's room code.\<close>

definition normalizeRoomCode :: "(string \<Rightarrow> string) \<Rightarrow> string \<Rightarrow> string" where
  "normalizeRoomCode unicode_upper code = ToUpper unicode_upper (TrimSpace code)"

section \<open>Strings that need no trimming\<close>

lemma space_rune_ends:
  "w \<in> set space_runes \<Longrightarrow> w \<noteq> '''' \<and> ((of_char (hd w) :: nat) \<le> 32 \<or> 127 < (of_char (hd w) :: nat))
     \<and> ((of_char (last w) :: nat) \<le> 32 \<or> 127 < (of_char (last w) :: nat))"
  by (auto simp: space_runes_def byte_def)

definition printable :: "char \<Rightarrow> bool" where
  "printable c \<longleftrightarrow> 32 < (of_char c :: nat) \<and> (of_char c :: nat) \<le> 127"

lemma TrimSpace_printable:
  assumes "list_all printable s"
  shows "TrimSpace s = s"
proof (cases s)
  case Nil
  then show ?thesis by (simp add: TrimSpace_def trim_left_fix trim_rev_fix)
next
  case (Cons c cs)
  have "take (length w) s \<noteq> w" if "w \<in> set space_runes" for w
    using space_rune_ends [OF that] Cons assms by (cases w) (auto simp: printable_def)
  then have left: "trim_left s = s" by (intro trim_left_fix) (simp add: leading_space_0)
  obtain d ds where d: "rev s = d # ds" "printable d"
  proof (cases "rev s")
    case (Cons d ds)
    then have "d \<in> set s" by (metis list.set_intros(1) set_rev)
    with Cons that assms show ?thesis by (simp add: list_all_iff)
  qed (use Cons in simp)
  have "take (length w) (rev s) \<noteq> rev w" if "w \<in> set space_runes" for w
    using space_rune_ends [OF that] d by (cases w rule: rev_cases) (auto simp: printable_def)
  then have "filter (\<lambda>w. take (length w) (rev s) = rev w) space_runes = []"
    by (simp add: filter_empty_conv)
  then have "trim_rev (rev s) = rev s" by (intro trim_rev_fix) (simp add: trailing_space_def)
  then show ?thesis by (simp add: TrimSpace_def left)
qed

lemma bytes_per_residue:
  assumes "i < 32"
  shows "card {v. v < 256 \<and> v mod 32 = (i::nat)} = 8"
proof -
  have "{v. v < 256 \<and> v mod 32 = i} = (\<lambda>q. 32 * q + i) ` {..<8}"
  proof (intro set_eqI iffI)
    fix v assume "v \<in> {v. v < 256 \<and> v mod 32 = i}"
    then have "v = 32 * (v div 32) + i" "v div 32 < 8" by auto
    then show "v \<in> (\<lambda>q. 32 * q + i) ` {..<8}" by blast
  qed (use assms in auto)
  moreover have "inj_on (\<lambda>q. 32 * q + i) {..<8::nat}" by (auto simp: inj_on_def)
  ultimately show ?thesis by (simp add: card_image)
qed

lemma roomAlphabet_distinct: "distinct roomAlphabet" "length roomAlphabet = 32"
  by (simp_all add: roomAlphabet_def)

lemma roomAlphabet_upper:
  "\<forall>c\<in>set roomAlphabet. printable c \<and> upper_byte c = c \<and> (of_char c :: nat) < 128"
  by (simp add: roomAlphabet_def printable_def upper_byte_def)

section \<open>The canonical request determines the request\<close>

definition hex_value :: "char \<Rightarrow> nat" where
  "hex_value c = (let n = of_char c in if n < 58 then n - 48 else n - 87)"

text \<open>The first escaped byte of a JSON string body and what follows it.\<close>

fun unescape :: "string \<Rightarrow> (char \<times> string) option" where
  "unescape (c # s) =
     (if c \<noteq> byte 92 then Some (c, s)
      else case s of
        [] \<Rightarrow> None
      | x # t \<Rightarrow>
          if x = byte 34 \<or> x = byte 92 then Some (x, t)
          else if x = byte 98 then Some (byte 8, t) else if x = byte 102 then Some (byte 12, t)
          else if x = byte 110 then Some (byte 10, t) else if x = byte 114 then Some (byte 13, t)
          else if x = byte 116 then Some (byte 9, t)
          else (case t of _ # _ # h # l # u \<Rightarrow> Some (byte (16 * hex_value h + hex_value l), u)
                | _ \<Rightarrow> None))"
| "unescape [] = None"

lemma hex_value_digit: "n < 16 \<Longrightarrow> hex_value (hex_digit n) = n"
  by (auto simp: hex_value_def hex_digit_def)

lemma byte_of_char [simp]: "byte (of_char c) = c"
  by (simp add: byte_def)

lemma of_char_byte [simp]: "n < 256 \<Longrightarrow> of_char (byte n) = n"
  by (simp add: byte_def)

lemma byte_eq: "n < 256 \<Longrightarrow> c = byte n \<longleftrightarrow> of_char c = n"
  by (metis byte_of_char of_char_byte)

lemma byte_eq': "n < 256 \<Longrightarrow> byte n = c \<longleftrightarrow> of_char c = n"
  using byte_eq by metis

lemma unescape_escape:
  assumes "(of_char c :: nat) < 128"
  shows "unescape (json_escape c @ s) = Some (c, s)"
proof -
  let ?n = "of_char c :: nat"
  have c: "c = byte 34 \<longleftrightarrow> ?n = 34" "c = byte 92 \<longleftrightarrow> ?n = 92" by (simp_all add: byte_eq)
  consider (short) "?n = 8 \<or> ?n = 9 \<or> ?n = 10 \<or> ?n = 12 \<or> ?n = 13" | (quoted) "?n = 34 \<or> ?n = 92"
    | (hex) "?n < 32 \<or> ?n = 60 \<or> ?n = 62 \<or> ?n = 38" "\<not> (?n = 8 \<or> ?n = 9 \<or> ?n = 10 \<or> ?n = 12 \<or> ?n = 13)"
    | (plain) "\<not> (?n < 32 \<or> ?n = 60 \<or> ?n = 62 \<or> ?n = 38)" "?n \<noteq> 34" "?n \<noteq> 92" by blast
  then show ?thesis
  proof cases
    case short
    then have "c = byte 8 \<or> c = byte 9 \<or> c = byte 10 \<or> c = byte 12 \<or> c = byte 13"
      by (simp add: byte_eq)
    then show ?thesis by (elim disjE) (simp_all add: json_escape_def byte_eq byte_eq')
  next
    case quoted
    with c show ?thesis by (auto simp: json_escape_def byte_eq)
  next
    case hex
    then have d: "?n div 16 < 16" "?n mod 16 < 16" using assms by auto
    from hex have e: "json_escape c = [byte 92, byte 117] @ ''00''
        @ [hex_digit (?n div 16), hex_digit (?n mod 16)]"
      by (simp add: json_escape_def Let_def) linarith
    have "unescape (json_escape c @ s) = Some (byte (16 * hex_value (hex_digit (?n div 16))
        + hex_value (hex_digit (?n mod 16))), s)"
      unfolding e by (simp add: byte_eq)
    also have "\<dots> = Some (byte ?n, s)" using d by (simp add: hex_value_digit del: byte_of_char)
    finally show ?thesis by simp
  next
    case plain
    then show ?thesis using c by (simp add: json_escape_def Let_def)
  qed
qed

lemma json_escape_not_quote: "json_escape c @ s \<noteq> byte 34 # t"
  by (auto simp: json_escape_def Let_def byte_eq Cons_eq_append_conv)

lemma json_body_Cons_ascii:
  "(of_char c :: nat) < 128 \<Longrightarrow> json_body (c # s) = json_escape c @ json_body s"
  by (subst json_body.simps) simp

lemma json_body_Nil [simp]: "json_body [] = []"
  by (subst json_body.simps) simp

lemma json_body_prefix:
  assumes "ascii x" "ascii y" "json_body x @ byte 34 # r = json_body y @ byte 34 # t"
  shows "x = y \<and> r = t"
  using assms
proof (induction x arbitrary: y)
  case Nil
  then show ?case
    using json_escape_not_quote by (cases y) (auto simp: ascii_def json_body_Cons_ascii dest: sym)
next
  case (Cons c x)
  have c: "(of_char c :: nat) < 128" "ascii x" using Cons.prems(1) by (simp_all add: ascii_def)
  then have e: "json_escape c @ (json_body x @ byte 34 # r) = json_body y @ byte 34 # t"
    using Cons.prems(3) by (simp add: json_body_Cons_ascii)
  then obtain d y' where y: "y = d # y'"
    using json_escape_not_quote [of c] by (cases y) auto
  with Cons.prems(2) have d: "(of_char d :: nat) < 128" "ascii y'" by (simp_all add: ascii_def)
  with e y have "json_escape c @ (json_body x @ byte 34 # r)
    = json_escape d @ (json_body y' @ byte 34 # t)"
    by (simp add: json_body_Cons_ascii)
  with unescape_escape [OF c(1)] unescape_escape [OF d(1)]
  have "c = d" "json_body x @ byte 34 # r = json_body y' @ byte 34 # t" by (metis option.inject prod.inject)+
  with Cons.IH [OF c(2) d(2)] y show ?case by simp
qed

lemma json_body_inject:
  assumes "ascii x" "ascii y"
  shows "json_body x = json_body y \<longleftrightarrow> x = y"
  using json_body_prefix [OF assms, of "[]" "[]"] by auto

lemma json_string_prefix:
  assumes "ascii x" "ascii y" "json_string x @ r = json_string y @ t"
  shows "x = y \<and> r = t"
proof (rule json_body_prefix [OF assms(1,2)])
  show "json_body x @ byte 34 # r = json_body y @ byte 34 # t"
    using assms(3) by (simp add: json_string_def)
qed

fun ascii_meaning :: "meaning \<Rightarrow> bool" where
  "ascii_meaning (MeaningRoom c) = ascii c"
| "ascii_meaning (MeaningMove c m) = (ascii c \<and> ascii m)"
| "ascii_meaning (MeaningRound c k) = ascii c"
| "ascii_meaning _ = True"

lemma dec_not_minus [simp]: "dec k \<noteq> CHR ''-'' # s" "CHR ''-'' # s \<noteq> dec k"
proof -
  show "dec k \<noteq> CHR ''-'' # s"
  proof
  assume "dec k = CHR ''-'' # s"
  then have "CHR ''-'' \<in> set (dec k)" by simp
  from of_char_dec [OF this] show False by simp
  qed
  then show "CHR ''-'' # s \<noteq> dec k" by simp
qed

lemma dec_int_inject: "dec_int m = dec_int n \<Longrightarrow> m = n"
  by (cases "m < 0"; cases "n < 0") (simp_all add: dec_int_def)

text \<open>The requests about a room, as the code they carry and what follows it.\<close>

fun room_tail :: "meaning \<Rightarrow> (string \<times> string) option" where
  "room_tail (MeaningRoom c) = Some (c, ''}'')"
| "room_tail (MeaningMove c m) = Some (c, '','' @ field ''move'' (json_string m) @ ''}'')"
| "room_tail (MeaningRound c k) = Some (c, '','' @ field ''round'' (dec (unat k)) @ ''}'')"
| "room_tail _ = None"

lemma json_names: "json_body ''amount'' = ''amount''" "json_body ''room_code'' = ''room_code''"
  "json_body ''move'' = ''move''" "json_body ''round'' = ''round''"
  by (simp_all add: json_body_Cons_ascii json_escape_def)

lemma room_tail_Marshal:
  "room_tail m = Some (c, t) \<Longrightarrow>
     json_Marshal m = ''{'' @ byte 34 # ''room_code'' @ byte 34 # '':'' @ json_string c @ t"
  by (cases m) (auto simp: field_def json_string_def json_names)

lemma room_tail_inject:
  assumes "room_tail m = Some (c, t)" "room_tail m' = Some (c, t)" "ascii_meaning m" "ascii_meaning m'"
  shows "m = m'"
  using assms
  by (cases m; cases m')
    (auto simp: field_def json_names json_string_def word_unat_eq_iff json_body_inject)

lemma json_Marshal_inject:
  assumes "ascii_meaning m" "ascii_meaning m'" "json_Marshal m = json_Marshal m'"
  shows "m = m'"
proof (cases "room_tail m")
  case None
  with assms show ?thesis
    by (cases m; cases m') (auto simp: field_def json_string_def json_names dest: dec_int_inject)
next
  case (Some ct)
  then obtain c t where ct: "room_tail m = Some (c, t)" by (cases ct) auto
  show ?thesis
  proof (cases "room_tail m'")
    case None
    with assms ct show ?thesis
      by (cases m; cases m') (auto simp: field_def json_string_def json_names)
  next
    case (Some ct')
    then obtain c' t' where ct': "room_tail m' = Some (c', t')" by (cases ct') auto
    have "ascii c" "ascii c'" using assms(1,2) ct ct' by (cases m; cases m'; auto)+
    moreover have "json_string c @ t = json_string c' @ t'"
      using assms(3) room_tail_Marshal [OF ct] room_tail_Marshal [OF ct'] by simp
    ultimately have "c = c' \<and> t = t'" by (rule json_string_prefix)
    with ct ct' assms(1,2) show ?thesis by (auto intro: room_tail_inject)
  qed
qed

section \<open>Properties\<close>

text \<open>The requests that are sent as commands, with the operation and the body that the methods of the service pass to
  \<open>NewCommand\<close> for each.\<close>

datatype request =
    ReqCreate | ReqJoin string | ReqMove string move | ReqNextRound string uint64 | ReqLeave string
  | ReqRecharge int

fun request_command :: "request \<Rightarrow> string \<times> meaning" where
  "request_command ReqCreate = (''room.create'', MeaningEmpty)"
| "request_command (ReqJoin code) = (''room.join'', MeaningRoom code)"
| "request_command (ReqMove code m) = (''room.move'', MeaningMove code m)"
| "request_command (ReqNextRound code k) = (''room.next-round'', MeaningRound code k)"
| "request_command (ReqLeave code) = (''room.leave'', MeaningRoom code)"
| "request_command (ReqRecharge amount) = (''wallet.recharge'', MeaningAmount amount)"

definition newRequest :: "(string \<Rightarrow> string) \<Rightarrow> string \<Rightarrow> request \<Rightarrow> Command result" where
  "newRequest sha key q = (case request_command q of (operation, m) \<Rightarrow> NewCommand sha key operation m)"

lemma request_command_inject [simp]: "request_command q = request_command q' \<longleftrightarrow> q = q'"
  by (cases q; cases q') simp_all

lemma request_meaning_eq:
  "snd (request_command q) = snd (request_command q') \<longleftrightarrow>
     q = q' \<or> (\<exists>code. q = ReqJoin code \<and> q' = ReqLeave code \<or> q = ReqLeave code \<and> q' = ReqJoin code)"
  by (cases q; cases q') auto

text \<open>C37: The operation and the request hash of a command identify the request. The hash alone covers the body only: of two
  requests about room codes and moves of ASCII characters the hashes agree just when the requests are the same, or are the
  join and the leave of one room. Together with the operation, which every receipt keeps beside the hash, they agree for
  identical requests only, so an idempotency key is never reused silently for another request (SHA-256 taken to be free of
  collisions on these bodies).\<close>

theorem request_hash_identifies:
  assumes "inj_on sha (json_Marshal ` {m. ascii_meaning m})"
    and "ascii_meaning (snd (request_command q))" "ascii_meaning (snd (request_command q'))"
    and "newRequest sha key q = Inr c" "newRequest sha key' q' = Inr c'"
  shows "(c_RequestHash c = c_RequestHash c' \<longleftrightarrow>
      q = q' \<or> (\<exists>code. q = ReqJoin code \<and> q' = ReqLeave code \<or> q = ReqLeave code \<and> q' = ReqJoin code))
    \<and> (c_Operation c = c_Operation c' \<and> c_RequestHash c = c_RequestHash c' \<longleftrightarrow> q = q')"
proof -
  have c: "c_Operation c = fst (request_command q)" "c_RequestHash c = sha (json_Marshal (snd (request_command q)))"
    "c_Operation c' = fst (request_command q')" "c_RequestHash c' = sha (json_Marshal (snd (request_command q')))"
    using assms(4,5) by (auto simp: newRequest_def NewCommand_eq_Inr split: prod.splits)
  have hash: "c_RequestHash c = c_RequestHash c' \<longleftrightarrow> snd (request_command q) = snd (request_command q')"
    using assms(1-3) json_Marshal_inject by (auto simp: c dest: inj_onD)
  have "c_Operation c = c_Operation c' \<and> c_RequestHash c = c_RequestHash c' \<longleftrightarrow> request_command q = request_command q'"
    unfolding hash unfolding c by (simp add: prod_eq_iff)
  with hash show ?thesis by (simp only: request_meaning_eq request_command_inject)
qed

theorem request_hash_identifies_witness:
  "\<exists>c c' d. newRequest id ''k'' (ReqJoin ''ROOM'') = Inr c \<and> newRequest id ''k'' (ReqLeave ''ROOM'') = Inr c'
     \<and> newRequest id ''k'' (ReqMove ''ROOM'' Paper) = Inr d
     \<and> c_RequestHash c = c_RequestHash c' \<and> c_Operation c \<noteq> c_Operation c' \<and> c_RequestHash c \<noteq> c_RequestHash d"
proof -
  have "validKey ''k''"
    by (simp add: validKey_def TrimSpace_printable printable_def ContainsAny_def byte_eq)
  then obtain c c' d where c: "newRequest id ''k'' (ReqJoin ''ROOM'') = Inr c"
    "newRequest id ''k'' (ReqLeave ''ROOM'') = Inr c'" "newRequest id ''k'' (ReqMove ''ROOM'' Paper) = Inr d"
    by (simp add: newRequest_def NewCommand_def)
  have a: "ascii_meaning (snd (request_command (ReqJoin ''ROOM'')))"
    "ascii_meaning (snd (request_command (ReqLeave ''ROOM'')))"
    "ascii_meaning (snd (request_command (ReqMove ''ROOM'' Paper)))"
    by (simp_all add: ascii_def)
  note hash = request_hash_identifies [OF inj_on_id a(1,2) c(1,2)] request_hash_identifies [OF inj_on_id a(1,3) c(1,3)]
  show ?thesis
    by (intro exI conjI, (rule c)+) (use hash in auto)
qed

text \<open>generated room codes are what a player can type. Every code has one character of the
  alphabet per random byte, the router's normalisation leaves it unchanged, and no character is
  more likely than another: each is given by eight of the 256 byte values.\<close>

theorem room_codes_normalized_and_unbiased:
  assumes "randomRoomCode (Inr b) = Inr code"
  shows "length code = length b \<and> set code \<subseteq> set roomAlphabet
    \<and> normalizeRoomCode unicode_upper code = code
    \<and> (\<forall>c\<in>set roomAlphabet. card {v. v < 256 \<and> roomAlphabet ! (v mod length roomAlphabet) = c} = 8)"
proof -
  let ?pick = "\<lambda>v. roomAlphabet ! (of_char v mod length roomAlphabet)"
  have len: "length roomAlphabet = 32" by (rule roomAlphabet_distinct)
  from assms have code: "code = map ?pick b" by (simp add: randomRoomCode_def)
  have "?pick v \<in> set roomAlphabet" for v by (rule nth_mem) (simp add: len)
  then have sub: "set code \<subseteq> set roomAlphabet" unfolding code by auto
  then have chars: "\<forall>c\<in>set code. printable c \<and> upper_byte c = c \<and> (of_char c :: nat) < 128"
    using roomAlphabet_upper by blast
  then have "TrimSpace code = code" by (intro TrimSpace_printable) (simp add: list_all_iff)
  moreover have "map upper_byte code = code" using chars by (simp add: map_idI)
  moreover have "ascii code" using chars by (simp add: ascii_def list_all_iff)
  moreover have "card {v. v < 256 \<and> roomAlphabet ! (v mod length roomAlphabet) = c} = 8"
    if "c \<in> set roomAlphabet" for c
  proof -
    from that obtain i where i: "i < 32" "c = roomAlphabet ! i"
      by (auto simp: in_set_conv_nth len)
    have "roomAlphabet ! (v mod 32) = c \<longleftrightarrow> v mod 32 = i" for v
      using i roomAlphabet_distinct by (simp add: nth_eq_iff_index_eq)
    with bytes_per_residue [OF i(1)] show ?thesis by (simp add: len)
  qed
  ultimately show ?thesis using sub code by (simp add: normalizeRoomCode_def ToUpper_def)
qed

theorem room_codes_normalized_and_unbiased_witness:
  "\<exists>code. randomRoomCode (Inr (map byte [0, 33, 66, 99, 132, 255])) = Inr code
     \<and> length code = 6 \<and> normalizeRoomCode id code = code"
proof -
  obtain code where c: "randomRoomCode (Inr (map byte [0, 33, 66, 99, 132, 255])) = Inr code"
    by (simp add: randomRoomCode_def)
  from room_codes_normalized_and_unbiased [OF c] c show ?thesis by auto
qed

text \<open>reports are stored trimmed. An accepted report reaches the store with its description and
  version trimmed and within the limits; a report that is already trimmed is handed on as it is,
  so sending the stored text again is accepted again.\<close>

theorem reports_stored_trimmed:
  assumes "CreateProblemReport (Some (\<lambda>r log. (Inr (), log @ [r]))) report log = (Inr (), log')"
  shows "\<exists>r. log' = log @ [r] \<and> pr_AccountID r = pr_AccountID report \<and> pr_AccountID r \<noteq> ''''
    \<and> pr_Section r \<in> set reportSections
    \<and> pr_Description r = TrimSpace (pr_Description report) \<and> pr_Description r \<noteq> ''''
    \<and> RuneCountInString (pr_Description r) \<le> 5000 \<and> RuneCountInString (pr_AppVersion r) \<le> 64
    \<and> CreateProblemReport (Some (\<lambda>r log. (Inr (), log @ [r]))) r log' = (Inr (), log' @ [r])"
proof -
  let ?r = "report\<lparr>pr_Description := TrimSpace (pr_Description report),
    pr_AppVersion := TrimSpace (pr_AppVersion report)\<rparr>"
  from assms have ok: "\<not> (pr_AccountID ?r = '''' \<or> pr_Description ?r = ''''
         \<or> 5000 < RuneCountInString (pr_Description ?r) \<or> pr_AppVersion ?r = ''''
         \<or> 64 < RuneCountInString (pr_AppVersion ?r)
         \<or> byte 0 \<in> set (pr_Description ?r) \<or> byte 0 \<in> set (pr_AppVersion ?r))"
    "pr_Section ?r \<in> set reportSections" "log' = log @ [?r]"
    by (simp_all only: CreateProblemReport_def Let_def split: if_splits) simp_all
  moreover from ok have "CreateProblemReport (Some (\<lambda>r log. (Inr (), log @ [r]))) ?r log'
      = (Inr (), log' @ [?r])"
    by (simp add: CreateProblemReport_def Let_def TrimSpace_idem)
  ultimately show ?thesis by (intro exI [of _ ?r]) auto
qed

theorem reports_stored_trimmed_witness:
  "\<exists>r. CreateProblemReport (Some (\<lambda>r log. (Inr (), log @ [r])))
        \<lparr>pr_AccountID = ''a'', pr_Description = ''stuck'', pr_Section = ''gameplay'',
         pr_AppVersion = ''1.0''\<rparr> [] = (Inr (), [r]) \<and> pr_Description r = ''stuck''"
proof -
  let ?r = "\<lparr>pr_AccountID = ''a'', pr_Description = ''stuck'', pr_Section = ''gameplay'',
         pr_AppVersion = ''1.0''\<rparr>"
  have t: "TrimSpace ''stuck'' = ''stuck''" "TrimSpace ''1.0'' = ''1.0''"
    by (simp_all add: TrimSpace_printable printable_def)
  have r: "CreateProblemReport (Some (\<lambda>r log. (Inr (), log @ [r]))) ?r [] = (Inr (), [?r])"
    by (simp add: CreateProblemReport_def Let_def t RuneCount_ascii ascii_def byte_eq'
        reportSections_def)
  from reports_stored_trimmed [OF r] r t show ?thesis by auto
qed

end
