(* ===== verification/Memory_Events.thy ===== *)
theory Memory_Events
  imports Application
begin

text \<open>
  The in-process notifier \<open>Events\<close> of \<open>adapter/memory/repository.go\<close>: each subscription is a channel
  with a buffer of one empty struct, registered under a room code. A channel is its identity;
  the buffer is a flag (\<open>ch_pending\<close>), full or empty.
\<close>

record events =
  ev_rooms :: "(string, nat fset) fmap"
  ch_pending :: "(nat, bool) fmap"
  ch_next :: nat

definition NewEvents :: events where
  "NewEvents = \<lparr>ev_rooms = fmempty, ch_pending = fmempty, ch_next = 0\<rparr>"

definition Subscribe :: "string \<Rightarrow> events \<Rightarrow> nat \<times> events" where
  "Subscribe code e =
     (let ch = ch_next e in
      (ch, e\<lparr>ev_rooms := fmupd code (finsert ch (get_or {||} (ev_rooms e) code)) (ev_rooms e),
             ch_pending := fmupd ch False (ch_pending e), ch_next := Suc ch\<rparr>))"

text \<open>The cancel function; \<open>delete\<close> on a missing room or channel does nothing, so running the body
  again (which \<open>sync.Once\<close> prevents) would change nothing.\<close>

definition Unsubscribe :: "string \<Rightarrow> nat \<Rightarrow> events \<Rightarrow> events" where
  "Unsubscribe code ch e =
     (case fmlookup (ev_rooms e) code of
        None \<Rightarrow> e
      | Some chs \<Rightarrow> e\<lparr>ev_rooms := fmupd code (chs |-| {|ch|}) (ev_rooms e)\<rparr>)"

text \<open>A non-blocking send to every channel of the room: a full buffer stays full.\<close>

definition Publish :: "string \<Rightarrow> events \<Rightarrow> events" where
  "Publish code e =
     e\<lparr>ch_pending := fmmap_keys (\<lambda>ch b. b \<or> ch |\<in>| get_or {||} (ev_rooms e) code) (ch_pending e)\<rparr>"

text \<open>The subscriber's receive, \<open>None\<close> where it would block.\<close>

definition receive :: "nat \<Rightarrow> events \<Rightarrow> events option" where
  "receive ch e = (if get_or False (ch_pending e) ch
                   then Some (e\<lparr>ch_pending := fmupd ch False (ch_pending e)\<rparr>) else None)"

definition events_inv :: "events \<Rightarrow> bool" where
  "events_inv e \<longleftrightarrow> (\<forall>code ch. ch |\<in>| get_or {||} (ev_rooms e) code \<longrightarrow> ch |\<in>| fmdom (ch_pending e))
     \<and> (\<forall>ch. ch |\<in>| fmdom (ch_pending e) \<longrightarrow> ch < ch_next e)"

lemma events_inv_New: "events_inv NewEvents"
  by (simp add: events_inv_def NewEvents_def)

lemma events_inv_Subscribe: "events_inv e \<Longrightarrow> events_inv (snd (Subscribe code e))"
  by (auto simp: events_inv_def Subscribe_def Let_def less_Suc_eq)

lemma events_inv_Unsubscribe: "events_inv e \<Longrightarrow> events_inv (Unsubscribe code ch e)"
  by (auto simp: events_inv_def Unsubscribe_def get_or_def split: option.splits if_splits)

lemma events_inv_Publish: "events_inv e \<Longrightarrow> events_inv (Publish code e)"
  by (simp add: events_inv_def Publish_def)

lemma Publish_rooms [simp]: "ev_rooms (Publish code e) = ev_rooms e"
  by (simp add: Publish_def)

lemma pending_Publish:
  "get_or False (ch_pending (Publish code e)) ch
     = (get_or False (ch_pending e) ch \<or>
        ch |\<in>| fmdom (ch_pending e) \<and> ch |\<in>| get_or {||} (ev_rooms e) code)"
  by (auto simp: Publish_def get_or_def fmlookup_dom_iff split: option.splits)

lemma Publish_dom [simp]: "fmdom (ch_pending (Publish code e)) = fmdom (ch_pending e)"
  by (simp add: Publish_def)

lemma Publish_idem: "Publish code (Publish code e) = Publish code e"
proof -
  have "fmmap_keys f (fmmap_keys f m) = fmmap_keys f m" if "\<And>k b. f k (f k b) = f k b"
    for f :: "nat \<Rightarrow> bool \<Rightarrow> bool" and m
    using that by (intro fmap_ext) (simp add: option.map_comp comp_def)
  then show ?thesis by (simp add: Publish_def)
qed

text \<open>no wake-up is lost. A subscription that is registered when its room changes finds a
  notification waiting, whatever other rooms publish and however often, until it is received;
  several changes before the receive coalesce into one, and a cancelled one gets none.\<close>

theorem publish_wakes_subscriber:
  assumes "events_inv e" "Subscribe code e = (ch, e1)"
  shows "receive ch e1 = None
    \<and> receive ch (Publish code (fold Publish codes e1)) \<noteq> None
    \<and> (code \<notin> set codes \<longrightarrow> receive ch (fold Publish codes e1) = None)
    \<and> receive ch (fold Publish codes (Unsubscribe code ch e1)) = None"
proof -
  have e1: "e1 = snd (Subscribe code e)" "ch = ch_next e" using assms(2) by (auto simp: Subscribe_def Let_def)
  have rooms: "ev_rooms (fold Publish cs x) = ev_rooms x" for cs x
    by (induction cs arbitrary: x) auto
  have dom: "fmdom (ch_pending (fold Publish cs x)) = fmdom (ch_pending x)" for cs x
    by (induction cs arbitrary: x) simp_all
  have pend: "get_or False (ch_pending (fold Publish cs x)) ch = (get_or False (ch_pending x) ch \<or>
      ch |\<in>| fmdom (ch_pending x) \<and> (\<exists>c\<in>set cs. ch |\<in>| get_or {||} (ev_rooms x) c))" for cs x
  proof (induction cs arbitrary: x)
    case (Cons c cs)
    then show ?case by (simp add: pending_Publish) blast
  qed simp
  have fresh: "ch |\<notin>| get_or {||} (ev_rooms e) c" for c
    using assms(1) e1(2) by (fastforce simp: events_inv_def)
  have only: "ch |\<in>| get_or {||} (ev_rooms e1) c \<longleftrightarrow> c = code" for c
    using fresh by (auto simp: e1 Subscribe_def Let_def)
  have none: "ch |\<notin>| get_or {||} (ev_rooms (Unsubscribe code ch e1)) c" for c
    using only fresh by (auto simp: e1 Unsubscribe_def Subscribe_def Let_def)
  have p0: "\<not> get_or False (ch_pending e1) ch" "ch |\<in>| fmdom (ch_pending e1)"
    "ch_pending (Unsubscribe code ch e1) = ch_pending e1"
    by (auto simp: e1 Subscribe_def Unsubscribe_def Let_def split: option.splits)
  have "get_or False (ch_pending (Publish code (fold Publish codes e1))) ch"
    using pending_Publish [of code "fold Publish codes e1" ch] p0(2) only [of code]
    by (simp add: rooms dom)
  moreover have "\<not> get_or False (ch_pending (fold Publish codes e1)) ch" if "code \<notin> set codes"
    by (simp add: pend p0 only) (use that in blast)
  moreover have "\<not> get_or False (ch_pending (fold Publish codes (Unsubscribe code ch e1))) ch"
    by (simp add: pend p0 none)
  ultimately show ?thesis using p0(1) by (simp add: receive_def)
qed

theorem publish_wakes_subscriber_witness:
  "\<exists>ch e1. Subscribe ''ROOM'' NewEvents = (ch, e1)
     \<and> receive ch (Publish ''ROOM'' (Publish ''OTHER'' e1)) \<noteq> None"
proof -
  obtain ch e1 where s: "Subscribe ''ROOM'' NewEvents = (ch, e1)" by fastforce
  from publish_wakes_subscriber [OF events_inv_New s, of "[''OTHER'']"] s show ?thesis by auto
qed

end
