(* ===== verification/Memory_Repository.thy ===== *)
theory Memory_Repository
  imports Memory_Events
begin

text \<open>
  The in-memory repository of \<open>adapter/memory/repository.go\<close>: wallets, escrow, rooms with their
  owners and presence, idempotency receipts and the history of played rounds. Each exported
  method holds the repository's mutex for its whole body, so it is one state transformer; it
  returns its result beside the new state, because an operation that fails may already have
  created a wallet.
\<close>

section \<open>State\<close>

record memoryRecharge =
  mr_owner :: string
  mr_amount :: int

record memoryPresence =
  mp_generation :: uint64
  mp_refreshedAt :: go_time
  mp_deadline :: go_time

record storedRoom =
  s_room :: room
  s_revision :: uint64
  s_credentials :: "(string, CredentialDigest) fmap"
  s_owners :: "(string, string) fmap"
  s_presence :: "(string, memoryPresence) fmap"
  s_funded :: "(uint64, bool) fmap"

record memoryReceipt =
  rc_accountID :: string
  rc_command :: Command
  rc_result :: CommandResult

record repository =
  rp_rooms :: "(string, storedRoom) fmap"
  rp_events :: events
  rp_wallets :: "(string, int) fmap"
  rp_recharges :: "(string, memoryRecharge) fmap"
  rp_history :: "PlayedRound list"
  rp_receipts :: "(string, memoryReceipt) fmap"

definition NewRepository :: repository where
  "NewRepository = \<lparr>rp_rooms = fmempty, rp_events = NewEvents, rp_wallets = fmupd ''house'' 0 fmempty,
     rp_recharges = fmempty, rp_history = [], rp_receipts = fmempty\<rparr>"

type_synonym 'a repo_step = "repository \<Rightarrow> 'a result \<times> repository"

section \<open>Helpers\<close>

definition lookupRoom :: "string \<Rightarrow> repository \<Rightarrow> storedRoom result" where
  "lookupRoom code st = (case fmlookup (rp_rooms st) code of
     None \<Rightarrow> Inl (ErrQ ErrRoomNotFound code) | Some stored \<Rightarrow> Inr stored)"

definition putRoom :: "string \<Rightarrow> storedRoom \<Rightarrow> repository \<Rightarrow> repository" where
  "putRoom code stored st = st\<lparr>rp_rooms := fmupd code stored (rp_rooms st)\<rparr>"

definition ensureWallet :: "string \<Rightarrow> repository \<Rightarrow> repository" where
  "ensureWallet a st =
     (if a |\<in>| fmdom (rp_wallets st) then st else st\<lparr>rp_wallets := fmupd a 0 (rp_wallets st)\<rparr>)"

definition wallet :: "repository \<Rightarrow> string \<Rightarrow> int" where
  "wallet st a = get_or 0 (rp_wallets st) a"

definition setWallet :: "string \<Rightarrow> int \<Rightarrow> repository \<Rightarrow> repository" where
  "setWallet a v st = st\<lparr>rp_wallets := fmupd a v (rp_wallets st)\<rparr>"

text \<open>\<open>r.wallets[a] += d\<close> on an \<open>int64\<close>.\<close>

definition addWallet :: "string \<Rightarrow> int \<Rightarrow> repository \<Rightarrow> repository" where
  "addWallet a d st = setWallet a (i64 (wallet st a + d)) st"

definition escrowKey :: "string \<Rightarrow> uint64 \<Rightarrow> string" where
  "escrowKey code rnd = ''escrow:'' @ code @ '':'' @ dec (unat rnd)"

text \<open>The map is ranged over in an unspecified order, here that of the keys; an account sits at
  most once in a room, so the order does not matter.\<close>

definition playerForAccount :: "(string, string) fmap \<Rightarrow> string \<Rightarrow> string" where
  "playerForAccount owners accountID =
     (if accountID = '''' then ''''
      else case List.find (\<lambda>i. fmlookup owners i = Some accountID)
                  (sorted_list_of_fset (fmdom owners)) of
        Some i \<Rightarrow> i | None \<Rightarrow> '''')"

definition memory_authenticate ::
    "(string, CredentialDigest) fmap \<Rightarrow> (string, string) fmap \<Rightarrow> CredentialDigest \<Rightarrow> string
     \<Rightarrow> string option" where
  "memory_authenticate credentials owners digest authUserID =
     (let i = playerForAccount owners authUserID in if i = '''' then None else Some i)"

definition snapshotOf :: "storedRoom \<Rightarrow> Snapshot" where
  "snapshotOf stored = \<lparr>sn_State = State (s_room stored), sn_Revision = s_revision stored,
     sn_Presence = fmempty\<rparr>"

definition changed :: "string \<Rightarrow> storedRoom \<Rightarrow> repository \<Rightarrow> Snapshot \<times> repository" where
  "changed code stored st =
     (let stored1 = stored\<lparr>s_revision := s_revision stored + 1\<rparr>
      in (snapshotOf stored1, (putRoom code stored1 st)\<lparr>rp_events := Publish code (rp_events st)\<rparr>))"

section \<open>Escrow\<close>

fun checkStakes :: "string list \<Rightarrow> unit repo_step" where
  "checkStakes [] st = (Inr (), st)"
| "checkStakes (owner # owners) st =
     (let st1 = ensureWallet owner st in
      if wallet st1 owner < RoundStake then (Inl (Err ErrInsufficientFunds), st1)
      else checkStakes owners st1)"

fun takeStakes :: "string list \<Rightarrow> repository \<Rightarrow> repository" where
  "takeStakes [] st = st"
| "takeStakes (owner # owners) st = takeStakes owners (addWallet owner (- RoundStake) st)"

text \<open>\<open>fundRound\<close> marks the round in the stored room it is given, which it returns.\<close>

definition roundOwners :: "storedRoom \<Rightarrow> string \<Rightarrow> string list" where
  "roundOwners stored joiningOwner =
     map (\<lambda>p. get_or '''' (s_owners stored) (pv_ID p)) (st_Players (State (s_room stored)))
     @ (if joiningOwner \<noteq> '''' then [joiningOwner] else [])"

definition fundRound ::
    "storedRoom \<Rightarrow> string \<Rightarrow> uint64 \<Rightarrow> string \<Rightarrow> repository \<Rightarrow> storedRoom result \<times> repository" where
  "fundRound stored code rnd joiningOwner st =
     (if get_or False (s_funded stored) rnd then (Inr stored, st)
      else let owners = roundOwners stored joiningOwner in
        if length owners \<noteq> 2 then (Inl (Err ErrRoomNotReady), st)
        else case checkStakes owners st of
          (Inl e, st1) \<Rightarrow> (Inl e, st1)
        | (Inr _, st1) \<Rightarrow>
            (Inr (stored\<lparr>s_funded := fmupd rnd True (s_funded stored)\<rparr>),
             setWallet (escrowKey code rnd) (RoundStake * 2) (takeStakes owners st1)))"

text \<open>The two credits of a settlement and the history entry; \<open>now\<close> is \<open>time.Now().UTC()\<close>.\<close>

definition paySettlement :: "outcome \<Rightarrow> string \<Rightarrow> string \<Rightarrow> repository \<Rightarrow> repository" where
  "paySettlement res o0 o1 st =
     (if res = Draw then addWallet o1 RoundStake (addWallet o0 RoundStake st)
      else addWallet ''house'' HousePayout
             (addWallet (if res = PlayerTwoWins then o1 else o0) WinnerPayout st))"

definition playedRound :: "string \<Rightarrow> roomState \<Rightarrow> go_time \<Rightarrow> PlayedRound" where
  "playedRound code state now =
     \<lparr>h_RoomCode = code, h_Round = st_Round state, h_Result = st_Result state,
      h_WinnerRole = (if st_Result state = Draw then ''''
                      else if st_Result state = PlayerTwoWins then ''guest'' else ''host''),
      h_Forfeit = st_Forfeit state,
      h_HouseEarnings = (if st_Result state = Draw then 0 else HousePayout),
      h_ResolvedAt = now\<rparr>"

definition settleRound :: "storedRoom \<Rightarrow> string \<Rightarrow> roomState \<Rightarrow> go_time \<Rightarrow> unit repo_step" where
  "settleRound stored code state now st =
     (let escrow = escrowKey code (st_Round state) in
      if wallet st escrow = 0 then (Inr (), st)
      else case st_Players state of
        p0 # p1 # _ \<Rightarrow>
          (let owner = (\<lambda>p. get_or '''' (s_owners stored) (pv_ID p));
               st1 = setWallet escrow 0 (paySettlement (st_Result state) (owner p0) (owner p1) st)
           in (Inr (), st1\<lparr>rp_history := playedRound code state now # rp_history st1\<rparr>))
      | _ \<Rightarrow> (Inl (Panic ''index out of range''), st))"

section \<open>Operations\<close>

definition Create :: "room \<Rightarrow> CredentialDigest \<Rightarrow> string \<Rightarrow> Snapshot repo_step" where
  "Create aggregate digest authUserID st =
     (let state = State aggregate; st1 = ensureWallet authUserID st in
      if wallet st1 authUserID < RoundStake then (Inl (Err ErrInsufficientFunds), st1)
      else if st_Code state |\<in>| fmdom (rp_rooms st1)
        then (Inl (ErrQ ErrDuplicateRoom (st_Code state)), st1)
      else case Restore (PersistenceState aggregate) of
        Inl e \<Rightarrow> (Inl e, st1)
      | Inr storedAggregate \<Rightarrow>
          (case st_Players state of
             [] \<Rightarrow> (Inl (Panic ''index out of range''), st1)
           | host # _ \<Rightarrow>
               (Inr \<lparr>sn_State = state, sn_Revision = 1, sn_Presence = fmempty\<rparr>,
                putRoom (st_Code state)
                  \<lparr>s_room = storedAggregate, s_revision = 1,
                   s_credentials = fmupd (pv_ID host) digest fmempty,
                   s_owners = fmupd (pv_ID host) authUserID fmempty,
                   s_presence = fmempty, s_funded = fmempty\<rparr> st1)))"

text \<open>The loop of \<open>JoinFunded\<close> over the seats: one renewed presence and one lease per player.\<close>

fun joinLeases ::
    "string \<Rightarrow> uint64 \<Rightarrow> PresenceWindow \<Rightarrow> playerView list \<Rightarrow> (string, memoryPresence) fmap
     \<Rightarrow> PresenceLease list \<times> (string, memoryPresence) fmap" where
  "joinLeases code rnd w [] pres = ([], pres)"
| "joinLeases code rnd w (p # ps) pres =
     (let generation = (case fmlookup pres (pv_ID p) of
            None \<Rightarrow> 0 | Some m \<Rightarrow> mp_generation m) + 1;
          pres1 = fmupd (pv_ID p) \<lparr>mp_generation = generation, mp_refreshedAt = w_ObservedAt w,
                    mp_deadline = w_Deadline w\<rparr> pres;
          (leases, pres2) = joinLeases code rnd w ps pres1
      in (\<lparr>l_RoomCode = code, l_PlayerID = pv_ID p, l_Round = rnd, l_Generation = generation,
           l_Deadline = w_Deadline w, l_EvaluateAt = w_EvaluateAt w, l_ProofAfter = w_ProofAfter w,
           l_Active = True\<rparr> # leases, pres2))"

definition JoinFunded ::
    "string \<Rightarrow> string \<Rightarrow> CredentialDigest \<Rightarrow> string \<Rightarrow> PresenceWindow
     \<Rightarrow> (Snapshot \<times> PresenceLease list) repo_step" where
  "JoinFunded code playerID digest authUserID window st =
     (case lookupRoom code st of
        Inl e \<Rightarrow> (Inl e, st)
      | Inr stored \<Rightarrow>
          if \<exists>i\<in>fset (fmdom (s_credentials stored)). fmlookup (s_credentials stored) i = Some digest
            then (Inl (Err ErrDuplicatePlayer), st)
          else if \<exists>i\<in>fset (fmdom (s_owners stored)). fmlookup (s_owners stored) i = Some authUserID
            then (Inl (Err ErrAccountSeated), st)
          else case bindR (Restore (PersistenceState (s_room stored))) (Join playerID) of
            Inl e \<Rightarrow> (Inl e, st)
          | Inr working \<Rightarrow>
              (case fundRound stored code (st_Round (State working)) authUserID
                      (ensureWallet authUserID st) of
                 (Inl e, st1) \<Rightarrow> (Inl e, st1)
               | (Inr stored1, st1) \<Rightarrow>
                   (let state = State working;
                        (leases, pres) = joinLeases code (st_Round state) window (st_Players state)
                                           (s_presence stored1);
                        stored2 = stored1\<lparr>s_room := working,
                          s_credentials := fmupd playerID digest (s_credentials stored1),
                          s_owners := fmupd playerID authUserID (s_owners stored1),
                          s_presence := pres\<rparr>;
                        (snap, st2) = changed code stored2 st1
                    in (Inr (snap, leases), st2))))"

text \<open>What the three seated operations share: find the room, find the caller's seat, restore a
  working copy.\<close>

definition seated ::
    "string \<Rightarrow> CredentialDigest \<Rightarrow> string
     \<Rightarrow> (storedRoom \<Rightarrow> string \<Rightarrow> room \<Rightarrow> Snapshot repo_step) \<Rightarrow> Snapshot repo_step" where
  "seated code digest authUserID k st =
     (case lookupRoom code st of
        Inl e \<Rightarrow> (Inl e, st)
      | Inr stored \<Rightarrow>
          (case memory_authenticate (s_credentials stored) (s_owners stored) digest authUserID of
             None \<Rightarrow> (Inl (Err ErrUnauthorized), st)
           | Some playerID \<Rightarrow>
               (case Restore (PersistenceState (s_room stored)) of
                  Inl e \<Rightarrow> (Inl e, st)
                | Inr working \<Rightarrow> k stored playerID working st)))"

text \<open>How they end: \<open>stored.room = working; return r.changed(code, stored), nil\<close>.\<close>

definition commitRoom :: "string \<Rightarrow> storedRoom \<Rightarrow> room \<Rightarrow> Snapshot repo_step" where
  "commitRoom code stored working st =
     (let (snap, st1) = changed code (stored\<lparr>s_room := working\<rparr>) st in (Inr snap, st1))"

definition SubmitMoveAndSettle ::
    "string \<Rightarrow> CredentialDigest \<Rightarrow> string \<Rightarrow> move \<Rightarrow> go_time \<Rightarrow> Snapshot repo_step" where
  "SubmitMoveAndSettle code digest authUserID m now =
     seated code digest authUserID (\<lambda>stored playerID working0 st.
       let wasResolved = st_Resolved (State working0) in
       case SubmitMove playerID m working0 of
         Inl e \<Rightarrow> (Inl e, st)
       | Inr working \<Rightarrow>
           (let state = State working in
            case (if get_or False (s_funded stored) (st_Round state) then (Inr stored, st)
                  else fundRound stored code (st_Round state) '''' st) of
              (Inl e, st1) \<Rightarrow> (Inl e, st1)
            | (Inr stored1, st1) \<Rightarrow>
                (case (if \<not> wasResolved \<and> st_Resolved state
                       then settleRound stored1 code state now st1 else (Inr (), st1)) of
                   (Inl e, st2) \<Rightarrow> (Inl e, st2)
                 | (Inr _, st2) \<Rightarrow> commitRoom code stored1 working st2)))"

definition RequestNextRoundAndFund ::
    "string \<Rightarrow> CredentialDigest \<Rightarrow> string \<Rightarrow> uint64 \<Rightarrow> Snapshot repo_step" where
  "RequestNextRoundAndFund code digest authUserID rnd =
     seated code digest authUserID (\<lambda>stored playerID working0 st.
       let previousRound = st_Round (State working0) in
       case RequestNextRound playerID rnd working0 of
         Inl e \<Rightarrow> (Inl e, st)
       | Inr working \<Rightarrow>
           (let newRound = st_Round (State working) in
            case (if previousRound < newRound then fundRound stored code newRound '''' st
                  else (Inr stored, st)) of
              (Inl e, st1) \<Rightarrow> (Inl e, st1)
            | (Inr stored1, st1) \<Rightarrow> commitRoom code stored1 working st1))"

definition Mutate :: "string \<Rightarrow> CredentialDigest \<Rightarrow> string \<Rightarrow> mutation \<Rightarrow> Snapshot repo_step" where
  "Mutate code digest authUserID mut =
     seated code digest authUserID (\<lambda>stored playerID working0 st.
       case mut working0 playerID of
         Inl e \<Rightarrow> (Inl e, st)
       | Inr working \<Rightarrow> commitRoom code stored working st)"

text \<open>The read operations \<open>Snapshot\<close> and \<open>Authenticate\<close> leave the state as it is.\<close>

definition repo_Snapshot :: "string \<Rightarrow> repository \<Rightarrow> Snapshot result" where
  "repo_Snapshot code st = bindR (lookupRoom code st) (\<lambda>stored. Inr (snapshotOf stored))"

definition Authenticate ::
    "string \<Rightarrow> CredentialDigest \<Rightarrow> string \<Rightarrow> repository \<Rightarrow> (Snapshot \<times> string) result" where
  "Authenticate code digest authUserID st = bindR (lookupRoom code st) (\<lambda>stored.
     case memory_authenticate (s_credentials stored) (s_owners stored) digest authUserID of
       None \<Rightarrow> Inl (Err ErrUnauthorized)
     | Some i \<Rightarrow>
         (case st_Players (State (s_room stored)) of
            [] \<Rightarrow> Inl (Panic ''index out of range'')
          | host # _ \<Rightarrow> Inr (snapshotOf stored, if pv_ID host = i then ''host'' else ''guest'')))"

definition SnapshotForAccount :: "string \<Rightarrow> string \<Rightarrow> repository \<Rightarrow> Snapshot result" where
  "SnapshotForAccount code accountID st = bindR (lookupRoom code st) (\<lambda>stored.
     if playerForAccount (s_owners stored) accountID = '''' then Inl (Err ErrUnauthorized)
     else Inr (snapshotOf stored))"

text \<open>The loop of \<open>RefreshPresence\<close>: every seat with a presence record gets a new generation.\<close>

fun renewLeases ::
    "string \<Rightarrow> uint64 \<Rightarrow> duration \<Rightarrow> bool \<Rightarrow> playerView list \<Rightarrow> (string, memoryPresence) fmap
     \<Rightarrow> PresenceLease list \<times> (string, memoryPresence) fmap" where
  "renewLeases code rnd delay active [] pres = ([], pres)"
| "renewLeases code rnd delay active (p # ps) pres =
     (case fmlookup pres (pv_ID p) of
        None \<Rightarrow> renewLeases code rnd delay active ps pres
      | Some m \<Rightarrow>
          (let m1 = m\<lparr>mp_generation := mp_generation m + 1\<rparr>;
               (leases, pres2) = renewLeases code rnd delay active ps (fmupd (pv_ID p) m1 pres)
           in (\<lparr>l_RoomCode = code, l_PlayerID = pv_ID p, l_Round = rnd,
                l_Generation = mp_generation m1, l_Deadline = mp_deadline m1,
                l_EvaluateAt = mp_deadline m1 + delay, l_ProofAfter = mp_deadline m1,
                l_Active = active\<rparr> # leases, pres2)))"

definition RefreshPresence ::
    "string \<Rightarrow> CredentialDigest \<Rightarrow> string \<Rightarrow> PresenceWindow \<Rightarrow> PresenceLease list repo_step" where
  "RefreshPresence code digest authUserID window st =
     (case lookupRoom code st of
        Inl e \<Rightarrow> (Inl e, st)
      | Inr stored \<Rightarrow>
          (case memory_authenticate (s_credentials stored) (s_owners stored) digest authUserID of
             None \<Rightarrow> (Inl (Err ErrUnauthorized), st)
           | Some playerID \<Rightarrow>
               (let state = State (s_room stored);
                    generation = (case fmlookup (s_presence stored) playerID of
                      None \<Rightarrow> 0 | Some m \<Rightarrow> mp_generation m);
                    pres = fmupd playerID \<lparr>mp_generation = generation,
                      mp_refreshedAt = w_ObservedAt window, mp_deadline = w_Deadline window\<rparr>
                      (s_presence stored);
                    active = (\<not> st_Closed state \<and> \<not> st_Resolved state \<and> st_Ready state);
                    (leases, pres2) = renewLeases code (st_Round state)
                      (time_Sub (w_EvaluateAt window) (w_Deadline window)) active
                      (st_Players state) pres
                in (Inr leases, putRoom code (stored\<lparr>s_presence := pres2\<rparr>) st))))"

text \<open>The opponent scan of \<open>ForfeitExpired\<close>; each other seat overwrites the flag.\<close>

fun remainingConnected ::
    "PresenceLease \<Rightarrow> go_time \<Rightarrow> (string, memoryPresence) fmap \<Rightarrow> playerView list \<Rightarrow> bool \<Rightarrow> bool" where
  "remainingConnected lease now pres [] flag = flag"
| "remainingConnected lease now pres (p # ps) flag =
     remainingConnected lease now pres ps
       (if pv_ID p = l_PlayerID lease then flag
        else case fmlookup pres (pv_ID p) of
          None \<Rightarrow> False
        | Some m \<Rightarrow> now < mp_deadline m \<and> l_ProofAfter lease < mp_refreshedAt m)"

definition ForfeitExpired :: "PresenceLease \<Rightarrow> go_time \<Rightarrow> (Snapshot \<times> bool) repo_step" where
  "ForfeitExpired lease now st =
     (case lookupRoom (l_RoomCode lease) st of
        Inl e \<Rightarrow> (Inl e, st)
      | Inr stored \<Rightarrow>
          (let unchanged = (Inr (snapshotOf stored, False), st) in
           case fmlookup (s_presence stored) (l_PlayerID lease) of
             None \<Rightarrow> unchanged
           | Some presence \<Rightarrow>
             if mp_generation presence \<noteq> l_Generation lease \<or> now < mp_deadline presence
               then unchanged
             else if \<not> remainingConnected lease now (s_presence stored)
                        (st_Players (State (s_room stored))) False
               then unchanged
             else case Restore (PersistenceState (s_room stored)) of
               Inl e \<Rightarrow> (Inl e, st)
             | Inr working0 \<Rightarrow>
               (case Forfeit (l_PlayerID lease) (l_Round lease) working0 of
                  Inl e \<Rightarrow>
                    (if errors_Is e ErrStaleRound \<or> errors_Is e ErrRoundResolved
                        \<or> errors_Is e ErrRoomClosed then unchanged else (Inl e, st))
                | Inr working \<Rightarrow>
                  (let state = State working in
                   case (if get_or False (s_funded stored) (st_Round state) then (Inr stored, st)
                         else fundRound stored (l_RoomCode lease) (st_Round state) '''' st) of
                     (Inl e, st1) \<Rightarrow> (Inl e, st1)
                   | (Inr stored1, st1) \<Rightarrow>
                     (case settleRound stored1 (l_RoomCode lease) state now st1 of
                        (Inl e, st2) \<Rightarrow> (Inl e, st2)
                      | (Inr _, st2) \<Rightarrow>
                        (case commitRoom (l_RoomCode lease) stored1 working st2 of
                           (Inl e, st3) \<Rightarrow> (Inl e, st3)
                         | (Inr snap, st3) \<Rightarrow> (Inr (snap, True), st3)))))))"

definition Balance :: "string \<Rightarrow> int repo_step" where
  "Balance authUserID st =
     (let st1 = ensureWallet authUserID st in (Inr (wallet st1 authUserID), st1))"

definition Recharge :: "string \<Rightarrow> int \<Rightarrow> string \<Rightarrow> int repo_step" where
  "Recharge authUserID amount key st =
     (let businessKey = authUserID @ '':'' @ key in
      case fmlookup (rp_recharges st) businessKey of
        Some previous \<Rightarrow>
          (if mr_owner previous \<noteq> authUserID \<or> mr_amount previous \<noteq> amount
           then (Inl (Err ErrIdempotencyConflict), st) else (Inr (wallet st authUserID), st))
      | None \<Rightarrow>
          (let st1 = ensureWallet authUserID st in
           if i64 (MaxInt64 - wallet st1 authUserID) < amount
             then (Inl (Err ErrInvalidCoinAmount), st1)
           else (let st2 = addWallet authUserID amount st1;
                     st3 = st2\<lparr>rp_recharges := fmupd businessKey
                       \<lparr>mr_owner = authUserID, mr_amount = amount\<rparr> (rp_recharges st2)\<rparr>
                 in (Inr (wallet st3 authUserID), st3))))"

definition Analytics :: "repository \<Rightarrow> analytics result" where
  "Analytics st = Inr \<lparr>an_TotalHouseEarnings = wallet st ''house'', an_Rounds = rp_history st\<rparr>"

section \<open>Idempotent commands\<close>

definition sameRequest :: "memoryReceipt \<Rightarrow> string \<Rightarrow> Command \<Rightarrow> bool" where
  "sameRequest receipt accountID command \<longleftrightarrow> rc_accountID receipt = accountID
     \<and> c_Operation (rc_command receipt) = c_Operation command
     \<and> c_RequestHash (rc_command receipt) = c_RequestHash command"

definition executeCommand ::
    "string \<Rightarrow> Command \<Rightarrow> CommandResult repo_step \<Rightarrow> CommandResult repo_step" where
  "executeCommand accountID command execute st =
     (case fmlookup (rp_receipts st) (c_Key command) of
        Some receipt \<Rightarrow>
          (if \<not> sameRequest receipt accountID command then (Inl (Err ErrIdempotencyConflict), st)
           else (Inr ((rc_result receipt)\<lparr>cmd_Replayed := True\<rparr>), st))
      | None \<Rightarrow>
          (case execute st of
             (Inl e, st1) \<Rightarrow> (Inl e, st1)
           | (Inr res, st1) \<Rightarrow>
               (Inr res, st1\<lparr>rp_receipts := fmupd (c_Key command)
                  \<lparr>rc_accountID = accountID, rc_command = command, rc_result = res\<rparr>
                  (rp_receipts st1)\<rparr>)))"

text \<open>Wrapping an operation's result into a \<open>CommandResult\<close>.\<close>

definition mapStep :: "('a \<Rightarrow> 'b) \<Rightarrow> 'a repo_step \<Rightarrow> 'b repo_step" where
  "mapStep f op st = (case op st of (Inl e, st1) \<Rightarrow> (Inl e, st1) | (Inr x, st1) \<Rightarrow> (Inr (f x), st1))"

definition snapshotResult :: "Snapshot \<Rightarrow> CommandResult" where
  "snapshotResult s = zeroCommandResult\<lparr>cmd_Snapshot := s\<rparr>"

text \<open>\<open>application.CredentialDigest{}\<close>: thirty-two zero bytes.\<close>

definition zeroDigest :: CredentialDigest where
  "zeroDigest = replicate 32 (byte 0)"

definition CreateCommand ::
    "(string \<Rightarrow> string) \<Rightarrow> room \<Rightarrow> string \<Rightarrow> Command \<Rightarrow> CommandResult repo_step" where
  "CreateCommand sha aggregate accountID command =
     executeCommand accountID command (\<lambda>st.
       case st_Players (State aggregate) of
         [] \<Rightarrow> (Inl (Panic ''index out of range''), st)
       | host # _ \<Rightarrow> mapStep snapshotResult (Create aggregate (sha (pv_ID host)) accountID) st)"

definition JoinCommand ::
    "(string \<Rightarrow> string) \<Rightarrow> string \<Rightarrow> string \<Rightarrow> string \<Rightarrow> PresenceWindow \<Rightarrow> Command
     \<Rightarrow> CommandResult repo_step" where
  "JoinCommand sha code playerID accountID window command =
     executeCommand accountID command
       (mapStep (\<lambda>(s, ls). (snapshotResult s)\<lparr>cmd_Leases := ls\<rparr>)
          (JoinFunded code playerID (sha playerID) accountID window))"

definition SubmitMoveCommand ::
    "string \<Rightarrow> string \<Rightarrow> move \<Rightarrow> Command \<Rightarrow> go_time \<Rightarrow> CommandResult repo_step" where
  "SubmitMoveCommand code accountID m command now =
     executeCommand accountID command
       (mapStep snapshotResult (SubmitMoveAndSettle code zeroDigest accountID m now))"

definition RequestNextRoundCommand ::
    "string \<Rightarrow> string \<Rightarrow> uint64 \<Rightarrow> Command \<Rightarrow> CommandResult repo_step" where
  "RequestNextRoundCommand code accountID rnd command =
     executeCommand accountID command
       (mapStep snapshotResult (RequestNextRoundAndFund code zeroDigest accountID rnd))"

definition MutateCommand ::
    "string \<Rightarrow> string \<Rightarrow> mutation \<Rightarrow> Command \<Rightarrow> CommandResult repo_step" where
  "MutateCommand code accountID mut command =
     executeCommand accountID command
       (mapStep snapshotResult (Mutate code zeroDigest accountID mut))"

definition RechargeCommand :: "string \<Rightarrow> int \<Rightarrow> Command \<Rightarrow> CommandResult repo_step" where
  "RechargeCommand accountID amount command =
     executeCommand accountID command
       (mapStep (\<lambda>b. zeroCommandResult\<lparr>cmd_Balance := b\<rparr>)
          (Recharge accountID amount (c_Key command)))"

end
