(* ===== verification/Memory_Invariant.thy ===== *)
theory Memory_Invariant
  imports Memory_Repository
begin

text \<open>
  The books of the in-memory repository: which wallets hold the coins, which escrow is open, which
  rounds are in the history. \<open>mem_inv\<close> is the invariant of every state reached by operations on
  proper accounts; the lemmas show that each operation preserves it.
\<close>

section \<open>Accounts and keys\<close>

text \<open>A player's wallet is neither the house nor an escrow wallet.\<close>

definition account :: "string \<Rightarrow> bool" where
  "account a \<longleftrightarrow> a \<noteq> '''' \<and> a \<noteq> ''house'' \<and> take 7 a \<noteq> ''escrow:''"

lemma escrowKey_inject [simp]: "escrowKey c k = escrowKey c' k' \<longleftrightarrow> c = c' \<and> k = k'"
proof
  assume "escrowKey c k = escrowKey c' k'"
  then have "c @ CHR '':'' # dec (unat k) = c' @ CHR '':'' # dec (unat k')"
    by (simp add: escrowKey_def)
  from last_separator [OF this] show "c = c' \<and> k = k'" by (simp add: word_unat_eq_iff)
qed simp

lemma escrowKey_neq [simp]:
  "escrowKey c k \<noteq> ''house''" "''house'' \<noteq> escrowKey c k" "escrowKey c k \<noteq> ''''"
  "account a \<Longrightarrow> a \<noteq> escrowKey c k" "account a \<Longrightarrow> escrowKey c k \<noteq> a"
  "account a \<Longrightarrow> a \<noteq> ''house''" "account a \<Longrightarrow> ''house'' \<noteq> a" "account a \<Longrightarrow> a \<noteq> ''''"
  by (auto simp: escrowKey_def account_def)

section \<open>Wallet arithmetic\<close>

definition total :: "repository \<Rightarrow> int" where
  "total st = fm_total (rp_wallets st)"

lemma wallet_setWallet [simp]: "wallet (setWallet a v st) x = (if x = a then v else wallet st x)"
  by (auto simp: wallet_def setWallet_def)

lemma wallet_addWallet [simp]:
  "wallet (addWallet a d st) x = (if x = a then i64 (wallet st a + d) else wallet st x)"
  by (simp add: addWallet_def)

lemma wallet_ensureWallet [simp]: "wallet (ensureWallet a st) = wallet st"
  by (intro ext) (auto simp: wallet_def ensureWallet_def get_or_notin)

lemma total_setWallet [simp]: "total (setWallet a v st) = total st - wallet st a + v"
  by (simp add: total_def setWallet_def wallet_def fm_total_upd)

lemma total_ensureWallet [simp]: "total (ensureWallet a st) = total st"
  by (auto simp: total_def ensureWallet_def fm_total_upd get_or_notin)

lemma frame_wallets [simp]:
  "rp_rooms (setWallet a v st) = rp_rooms st" "rp_history (setWallet a v st) = rp_history st"
  "rp_recharges (setWallet a v st) = rp_recharges st" "rp_events (setWallet a v st) = rp_events st"
  "rp_receipts (setWallet a v st) = rp_receipts st"
  "rp_rooms (addWallet a d st) = rp_rooms st" "rp_history (addWallet a d st) = rp_history st"
  "rp_recharges (addWallet a d st) = rp_recharges st" "rp_events (addWallet a d st) = rp_events st"
  "rp_receipts (addWallet a d st) = rp_receipts st"
  "rp_rooms (ensureWallet a st) = rp_rooms st" "rp_history (ensureWallet a st) = rp_history st"
  "rp_recharges (ensureWallet a st) = rp_recharges st" "rp_events (ensureWallet a st) = rp_events st"
  "rp_receipts (ensureWallet a st) = rp_receipts st"
  by (simp_all add: setWallet_def addWallet_def ensureWallet_def)

lemma frame_rooms [simp]:
  "wallet (putRoom c s st) = wallet st" "total (putRoom c s st) = total st"
  "rp_history (putRoom c s st) = rp_history st" "rp_recharges (putRoom c s st) = rp_recharges st"
  "rp_receipts (putRoom c s st) = rp_receipts st"
  "rp_rooms (putRoom c s st) = fmupd c s (rp_rooms st)"
  "rp_wallets (putRoom c s st) = rp_wallets st" "rp_events (putRoom c s st) = rp_events st"
  by (auto simp: putRoom_def wallet_def total_def)

lemma frame_fields [simp]:
  "wallet (st\<lparr>rp_events := e\<rparr>) = wallet st" "total (st\<lparr>rp_events := e\<rparr>) = total st"
  "wallet (st\<lparr>rp_history := h\<rparr>) = wallet st" "total (st\<lparr>rp_history := h\<rparr>) = total st"
  "wallet (st\<lparr>rp_recharges := q\<rparr>) = wallet st" "total (st\<lparr>rp_recharges := q\<rparr>) = total st"
  "wallet (st\<lparr>rp_receipts := p\<rparr>) = wallet st" "total (st\<lparr>rp_receipts := p\<rparr>) = total st"
  by (auto simp: wallet_def total_def)

definition nonneg :: "repository \<Rightarrow> bool" where
  "nonneg st \<longleftrightarrow> (\<forall>a. 0 \<le> wallet st a)"

text \<open>Every wallet is an \<open>int64\<close>.\<close>

definition in_range :: "repository \<Rightarrow> bool" where
  "in_range st \<longleftrightarrow> (\<forall>a. - (2 ^ 63) \<le> wallet st a \<and> wallet st a \<le> MaxInt64)"

lemma i64_wallet: "in_range st \<Longrightarrow> i64 (wallet st a) = wallet st a"
  by (simp add: in_range_def i64_id)

lemma nonnegD: "nonneg st \<Longrightarrow> 0 \<le> wallet st a"
  by (simp add: nonneg_def)

text \<open>No wallet holds more than there is.\<close>

lemma wallets_le_total:
  assumes "nonneg st" "finite A"
  shows "(\<Sum>a\<in>A. wallet st a) \<le> total st"
proof -
  let ?D = "fset (fmdom (rp_wallets st))"
  have "(\<Sum>a\<in>A. wallet st a) = (\<Sum>a\<in>A \<inter> ?D. wallet st a)"
    using assms(2) by (intro sum.mono_neutral_right) (auto simp: wallet_def get_or_notin)
  also have "\<dots> \<le> (\<Sum>a\<in>?D. wallet st a)"
    using assms(1) by (intro sum_mono2) (auto simp: nonneg_def)
  also have "\<dots> = total st" by (simp add: total_def fm_total_def wallet_def)
  finally show ?thesis .
qed

lemma wallet_le_total: "nonneg st \<Longrightarrow> wallet st a \<le> total st"
  using wallets_le_total [of st "{a}"] by simp

lemma wallet2_le_total: "nonneg st \<Longrightarrow> a \<noteq> b \<Longrightarrow> wallet st a + wallet st b \<le> total st"
  using wallets_le_total [of st "{a, b}"] by simp

lemma total_addWallet:
  "0 \<le> wallet st a + d \<Longrightarrow> wallet st a + d \<le> MaxInt64 \<Longrightarrow> total (addWallet a d st) = total st + d"
  by (simp add: addWallet_def)

text \<open>Equal up to the wrap-around of \<open>int64\<close>.\<close>

definition cong64 :: "int \<Rightarrow> int \<Rightarrow> bool" where
  "cong64 x y \<longleftrightarrow> x mod 2 ^ 64 = y mod 2 ^ 64"

lemma cong64_refl [simp]: "cong64 x x"
  by (simp add: cong64_def)

lemma cong64_trans: "cong64 x y \<Longrightarrow> cong64 y z \<Longrightarrow> cong64 x z"
  by (simp add: cong64_def)

lemma cong64_add: "cong64 x y \<Longrightarrow> cong64 (x + d) (y + d)"
  unfolding cong64_def by (rule mod_add_cong) simp_all

lemma cong64_i64: "cong64 (x + i64 y) (x + y)"
proof -
  have "x + i64 y = x - 2 ^ 63 + (y + 2 ^ 63) mod 2 ^ 64" by (simp add: i64_def)
  then have "(x + i64 y) mod 2 ^ 64 = (x - 2 ^ 63 + (y + 2 ^ 63)) mod 2 ^ 64" by (simp only: mod_add_right_eq)
  then show ?thesis by (simp add: cong64_def)
qed

lemma i64_add: "i64 (i64 x + y) = i64 (x + y)"
proof -
  have "(i64 x + y + 2 ^ 63) mod 2 ^ 64 = (x + y + 2 ^ 63) mod 2 ^ 64"
    using cong64_i64 [of "y + 2 ^ 63" x] by (simp add: cong64_def algebra_simps)
  then show ?thesis by (simp add: i64_def)
qed

lemma i64_add': "i64 (y + i64 x) = i64 (y + x)"
  using i64_add [of x y] by (simp add: add.commute)

lemma cong64_addWallet: "cong64 (total (addWallet a d st)) (total st + d)"
  using cong64_i64 [of "total st - wallet st a" "wallet st a + d"] by (simp add: addWallet_def algebra_simps)

section \<open>Seats and rounds\<close>

text \<open>The round whose stakes a room holds in escrow, and the rounds it has settled.\<close>

definition s_live :: "storedRoom \<Rightarrow> uint64 \<Rightarrow> bool" where
  "s_live s k \<longleftrightarrow> length (r_players (s_room s)) = 2 \<and> k = r_round (s_room s)
     \<and> \<not> r_resolved (s_room s)"

definition s_past :: "storedRoom \<Rightarrow> uint64 \<Rightarrow> bool" where
  "s_past s k \<longleftrightarrow> length (r_players (s_room s)) = 2 \<and> k \<noteq> 0
     \<and> (k < r_round (s_room s) \<or> k = r_round (s_room s) \<and> r_resolved (s_room s))"

definition on_room :: "(storedRoom \<Rightarrow> uint64 \<Rightarrow> bool) \<Rightarrow> repository \<Rightarrow> string \<Rightarrow> uint64 \<Rightarrow> bool" where
  "on_room P st code k = (case fmlookup (rp_rooms st) code of None \<Rightarrow> False | Some s \<Rightarrow> P s k)"

lemma on_room_upd:
  "rp_rooms st' = fmupd c s (rp_rooms st) \<Longrightarrow>
     on_room P st' c' k = (if c' = c then P s k else on_room P st c' k)"
  by (simp add: on_room_def)

lemma on_room_cong: "rp_rooms st' = rp_rooms st \<Longrightarrow> on_room P st' = on_room P st"
  by (intro ext) (simp add: on_room_def)

definition owners_ok :: "storedRoom \<Rightarrow> bool" where
  "owners_ok s \<longleftrightarrow> fset (fmdom (s_owners s)) = set (player_ids (s_room s))
     \<and> (\<forall>i a. fmlookup (s_owners s) i = Some a \<longrightarrow> account a)
     \<and> (\<forall>i j a. fmlookup (s_owners s) i = Some a \<and> fmlookup (s_owners s) j = Some a \<longrightarrow> i = j)"

definition stored_ok :: "nat \<Rightarrow> string \<Rightarrow> storedRoom \<Rightarrow> bool" where
  "stored_ok n code s \<longleftrightarrow> (\<exists>m\<le>n. reachable m (s_room s)) \<and> r_code (s_room s) = code
     \<and> owners_ok s \<and> (\<forall>k. get_or False (s_funded s) k = (s_live s k \<or> s_past s k))"

text \<open>The coins ever issued, the house's earnings, the settled rounds.\<close>

definition issued :: "repository \<Rightarrow> int" where
  "issued st = fm_total (fmmap mr_amount (rp_recharges st))"

definition earnings :: "PlayedRound list \<Rightarrow> int" where
  "earnings h = sum_list (map h_HouseEarnings h)"

definition round_keys :: "PlayedRound list \<Rightarrow> (string \<times> uint64) list" where
  "round_keys h = map (\<lambda>p. (h_RoomCode p, h_Round p)) h"

definition books :: "repository \<Rightarrow> bool" where
  "books st \<longleftrightarrow> in_range st \<and> cong64 (total st) (issued st) \<and> wallet st ''house'' = i64 (earnings (rp_history st))
     \<and> distinct (round_keys (rp_history st))
     \<and> (issued st \<le> MaxInt64 \<longrightarrow> nonneg st \<and> total st = issued st \<and> wallet st ''house'' = earnings (rp_history st))"

definition escrow_ok :: "repository \<Rightarrow> bool" where
  "escrow_ok st \<longleftrightarrow>
     (\<forall>c k. wallet st (escrowKey c k) = (if on_room s_live st c k then RoundStake * 2 else 0))"

definition history_ok :: "repository \<Rightarrow> bool" where
  "history_ok st \<longleftrightarrow> (\<forall>c k. (c, k) \<in> set (round_keys (rp_history st)) \<longleftrightarrow> on_room s_past st c k)"

definition mem_inv :: "nat \<Rightarrow> repository \<Rightarrow> bool" where
  "mem_inv n st \<longleftrightarrow> books st \<and> escrow_ok st \<and> history_ok st
     \<and> (\<forall>code s. fmlookup (rp_rooms st) code = Some s \<longrightarrow> stored_ok n code s)"

lemma mem_inv_New: "mem_inv 0 NewRepository"
  by (auto simp: mem_inv_def books_def escrow_ok_def history_ok_def NewRepository_def nonneg_def in_range_def
      wallet_def total_def issued_def earnings_def round_keys_def on_room_def fm_total_upd
      MaxInt64_def)

lemma stored_ok_mono: "stored_ok m code s \<Longrightarrow> m \<le> n \<Longrightarrow> stored_ok n code s"
  by (auto simp: stored_ok_def intro: le_trans)

lemma mem_inv_mono: "mem_inv m st \<Longrightarrow> m \<le> n \<Longrightarrow> mem_inv n st"
  by (auto simp: mem_inv_def intro: stored_ok_mono)

lemma books_cong:
  assumes "books st" "wallet st' = wallet st" "total st' = total st"
    and "rp_history st' = rp_history st" "rp_recharges st' = rp_recharges st"
  shows "books st'"
proof -
  have "books st' = books st" by (simp only: books_def nonneg_def in_range_def issued_def assms(2-5))
  with assms(1) show ?thesis by simp
qed

text \<open>The invariant only reads the wallets, the rooms, the recharges and the history.\<close>

lemma mem_inv_cong:
  assumes "mem_inv n st" "wallet st' = wallet st" "total st' = total st"
    and "rp_rooms st' = rp_rooms st" "rp_recharges st' = rp_recharges st"
    and "rp_history st' = rp_history st"
  shows "mem_inv n st'"
proof -
  have "on_room P st' = on_room P st" for P using assms(4) by (rule on_room_cong)
  with assms books_cong [of st st'] show ?thesis by (simp add: mem_inv_def escrow_ok_def history_ok_def)
qed

lemma stored_room_inv:
  assumes "mem_inv n st" "n < 2 ^ 62" "fmlookup (rp_rooms st) code = Some s"
  shows "room_inv (s_room s)" "unat (r_round (s_room s)) < 2 ^ 63" "wf_room (s_room s)"
    "r_code (s_room s) = code" "owners_ok s"
    "get_or False (s_funded s) k = (s_live s k \<or> s_past s k)"
proof -
  from assms(1,3) have ok: "stored_ok n code s" by (simp add: mem_inv_def)
  then obtain m where m: "m \<le> n" "reachable m (s_room s)" by (auto simp: stored_ok_def)
  with assms(2) have "room_inv (s_room s) \<and> unat (r_round (s_room s)) \<le> Suc m"
    by (intro reachable_room_inv) simp_all
  with m assms(2) show "room_inv (s_room s)" "unat (r_round (s_room s)) < 2 ^ 63"
    "wf_room (s_room s)"
    by (auto simp: room_inv_def)
  from ok show "r_code (s_room s) = code" "owners_ok s"
    "get_or False (s_funded s) k = (s_live s k \<or> s_past s k)"
    by (auto simp: stored_ok_def)
qed

text \<open>A committed change of one room, given what it did to the money and to the history.\<close>

lemma mem_inv_put:
  assumes inv: "mem_inv n st" and ok: "stored_ok (Suc n) code s"
    and rooms: "rp_rooms st' = fmupd code s (rp_rooms st)" and bk: "books st'"
    and esc: "\<And>c k. wallet st' (escrowKey c k) =
      (if c = code then (if s_live s k then RoundStake * 2 else 0) else wallet st (escrowKey c k))"
    and hist: "\<And>c k. (c, k) \<in> set (round_keys (rp_history st')) \<longleftrightarrow>
      (if c = code then s_past s k else (c, k) \<in> set (round_keys (rp_history st)))"
  shows "mem_inv (Suc n) st'"
proof -
  have "escrow_ok st'"
    using inv by (simp add: escrow_ok_def esc on_room_upd [OF rooms] mem_inv_def)
  moreover have "history_ok st'"
    using inv by (simp add: history_ok_def hist on_room_upd [OF rooms] mem_inv_def)
  moreover have "stored_ok (Suc n) c x" if "fmlookup (rp_rooms st') c = Some x" for c x
  proof (cases "c = code")
    case True
    with that ok rooms show ?thesis by simp
  next
    case False
    with that inv rooms have "stored_ok n c x" by (simp add: mem_inv_def)
    then show ?thesis by (rule stored_ok_mono) simp
  qed
  ultimately show ?thesis using bk by (simp add: mem_inv_def)
qed

section \<open>What the room methods change\<close>

lemma State_simps [simp]:
  "st_Code (State r) = r_code r" "st_Round (State r) = r_round r"
  "st_Resolved (State r) = r_resolved r" "st_Closed (State r) = r_closed r"
  "map pv_ID (st_Players (State r)) = player_ids r" "st_Players (State r) = [] \<longleftrightarrow> r_players r = []"
  "length (st_Players (State r)) = length (r_players r)"
  "st_Ready (State r) = (length (r_players r) = 2)"
  by (simp_all add: State_def player_ids_def comp_def)

lemma length_player_ids [simp]: "length (player_ids r) = length (r_players r)"
  by (simp add: player_ids_def)

lemma st_Result_State: "r_resolved r \<Longrightarrow> st_Result (State r) = r_result r"
  by (simp add: State_def)

lemma roundOwners_eq:
  "roundOwners s j = map (get_or '''' (s_owners s)) (player_ids (s_room s))
     @ (if j \<noteq> '''' then [j] else [])"
proof -
  have "map (\<lambda>p. get_or '''' (s_owners s) (pv_ID p)) (st_Players (State (s_room s)))
    = map (get_or '''' (s_owners s)) (map pv_ID (st_Players (State (s_room s))))"
    by (simp del: State_simps)
  then show ?thesis unfolding roundOwners_def by (simp only: State_simps)
qed

text \<open>A method that keeps the seats and the round, and whether it has resolved the round.\<close>

definition same_seats :: "room \<Rightarrow> room \<Rightarrow> bool" where
  "same_seats r r' \<longleftrightarrow> r_code r' = r_code r \<and> player_ids r' = player_ids r
     \<and> length (r_players r') = length (r_players r)"

lemma SubmitMove_effect:
  assumes "SubmitMove i m r = Inr r'" "room_inv r"
  shows "same_seats r r' \<and> r_round r' = r_round r \<and> \<not> r_resolved r
    \<and> length (r_players r) = 2 \<and> i \<in> set (player_ids r)"
proof -
  let ?r1 = "r\<lparr>r_moves := fmupd i m (r_moves r)\<rparr>"
  note c = SubmitMove_cases [OF assms(1)]
  with assms(2) have two: "length (r_players r) = 2"
    by (auto simp: room_inv_def wf_room_def wf_seats_def)
  have f: "r_forfeitedPlayerID ?r1 = ''''"
    using assms(2) c wf_unresolved(2) by (auto simp: room_inv_def)
  show ?thesis
  proof (cases "flen (r_moves r) = 1")
    case True
    with c two f resolve_settled [of ?r1] have "r' = settled (roundOutcome ?r1) '''' ?r1" by auto
    then show ?thesis using c two by (simp add: same_seats_def)
  next
    case False
    with c two show ?thesis by (auto simp: same_seats_def)
  qed
qed

lemma RequestNextRound_effect:
  assumes "RequestNextRound i n r = Inr r'"
  shows "same_seats r r' \<and> r_resolved r \<and> i \<in> set (player_ids r) \<and>
    (r_round r' = r_round r \<and> r_resolved r' \<or> r_round r' = r_round r + 1 \<and> \<not> r_resolved r')"
  using assms
  by (auto simp: RequestNextRound_def guarded_eq_Inr Let_def startNextRound_def same_seats_def
      player_ids_def hasPlayer_iff split: if_splits)

lemma Forfeit_effect:
  assumes "Forfeit i n r = Inr r'"
  shows "same_seats r r' \<and> r_round r' = r_round r \<and> \<not> r_resolved r \<and> r_resolved r'
    \<and> length (r_players r) = 2 \<and> i \<in> set (player_ids r)"
  using Forfeit_settled [OF assms] by (simp add: same_seats_def)

lemma Leave_effect:
  assumes "Leave i r = Inr r'"
  shows "same_seats r r' \<and> r_round r' = r_round r \<and> r_resolved r' = r_resolved r"
  using assms by (auto simp: Leave_def guarded_eq_Inr same_seats_def player_ids_def)

lemma Join_effect:
  assumes "Join i r = Inr r'" "wf_room r"
  shows "r_code r' = r_code r \<and> player_ids r' = player_ids r @ [i] \<and> length (r_players r') = 2
    \<and> r_round r' = r_round r \<and> \<not> r_resolved r' \<and> length (r_players r) = 1 \<and> i \<notin> set (player_ids r)"
proof -
  from assms(1) have g: "\<not> hasPlayer r i" "length (r_players r) \<noteq> 2"
    and r': "r' = r\<lparr>r_players := r_players r @ [\<lparr>player_ID = i, player_Wins = 0\<rparr>]\<rparr>"
    by (auto simp: Join_def guarded_eq_Inr)
  from g(2) assms(2) have one: "length (r_players r) = 1"
    by (auto simp: wf_room_def wf_seats_def Suc_le_eq neq_Nil_conv le_Suc_eq numeral_2_eq_2)
  with assms(2) have "\<not> r_resolved r" by (auto simp: wf_room_def wf_outcome_def)
  with one g show ?thesis by (simp add: r' player_ids_def hasPlayer_iff)
qed

lemma resolve_length: "resolve r = Inr r' \<Longrightarrow> length (r_players r') = length (r_players r)"
  by (auto simp: resolve_def Let_def split: list.splits if_splits)

lemma awardSubmitters_length: "length (r_players (awardSubmitters ips r)) = length (r_players r)"
  by (induction ips r rule: awardSubmitters.induct) auto

text \<open>Before the second player joins, the room is still in its first round.\<close>

lemma single_round:
  assumes "reachable n r"
  shows "r_players r \<noteq> [] \<and> (length (r_players r) = 1 \<longrightarrow> r_round r = 1 \<and> \<not> r_resolved r)"
  using assms
proof (induction rule: reachable.induct)
  case (reach_new code host r)
  then show ?case by (auto simp: New_def split: if_splits)
next
  case (reach_op n r op r')
  have len: "length (r_players r') = length (r_players r) \<and> 2 \<le> length (r_players r)"
    if "\<forall>i. op \<noteq> OpJoin i" "\<forall>i. op \<noteq> OpLeave i" "\<forall>i k. op \<noteq> OpRequestNextRound i k"
    using that reach_op.hyps(3)
    by (cases op)
      (auto simp: guarded_eq_Inr ResolveCommittedMoves_def startNextRound_def awardSubmitters_length
        AdvanceCommittedNextRound_def validateDeadlineResolution_eq_Inr bindR_eq_Inr
        ResolveDeadlineDraw_def ResolveInactivity_def same_seats_def
        dest!: SubmitMove_cases Forfeit_effect resolve_length split: if_splits)
  show ?case
  proof (cases "(\<exists>i. op = OpJoin i) \<or> (\<exists>i. op = OpLeave i) \<or> (\<exists>i k. op = OpRequestNextRound i k)")
    case True
    with reach_op show ?thesis
      by (auto simp: Join_def Leave_def guarded_eq_Inr same_seats_def
          dest!: RequestNextRound_effect)
  next
    case False
    with len show ?thesis by auto
  qed
qed

section \<open>Funding and settling\<close>

definition same_frame :: "repository \<Rightarrow> repository \<Rightarrow> bool" where
  "same_frame st st' \<longleftrightarrow> rp_rooms st' = rp_rooms st \<and> rp_recharges st' = rp_recharges st
     \<and> rp_history st' = rp_history st"

definition same_money :: "repository \<Rightarrow> repository \<Rightarrow> bool" where
  "same_money st st' \<longleftrightarrow> wallet st' = wallet st \<and> total st' = total st \<and> same_frame st st'"

lemma same_money_refl [simp]: "same_money st st"
  by (simp add: same_money_def same_frame_def)

lemma same_money_ensure [simp]: "same_money st (ensureWallet a st)"
  by (simp add: same_money_def same_frame_def)

lemma same_money_trans: "same_money a b \<Longrightarrow> same_money b c \<Longrightarrow> same_money a c"
  by (simp add: same_money_def same_frame_def)

lemma mem_inv_same_money: "mem_inv n st \<Longrightarrow> same_money st st' \<Longrightarrow> mem_inv n st'"
  by (rule mem_inv_cong) (simp_all add: same_money_def same_frame_def)

lemma checkStakes_result:
  "checkStakes os st = (res, st1) \<Longrightarrow> same_money st st1 \<and>
     (case res of Inl e \<Rightarrow> e = Err ErrInsufficientFunds \<and> (\<exists>x\<in>set os. wallet st x < RoundStake)
      | Inr _ \<Rightarrow> \<forall>x\<in>set os. RoundStake \<le> wallet st x)"
proof (induction os arbitrary: st)
  case (Cons x os)
  have m: "same_money st (ensureWallet x st)" by simp
  show ?case
  proof (cases "wallet st x < RoundStake")
    case True
    with Cons.prems m show ?thesis by (auto simp: Let_def)
  next
    case False
    with Cons.prems have "checkStakes os (ensureWallet x st) = (res, st1)" by (simp add: Let_def)
    from Cons.IH [OF this] False same_money_trans [OF m] show ?thesis
      by (auto split: sum.splits)
  qed
qed auto

text \<open>The effect of funding a round for two accounts.\<close>

definition funded_by :: "string \<Rightarrow> uint64 \<Rightarrow> string \<Rightarrow> string \<Rightarrow> repository \<Rightarrow> repository \<Rightarrow> bool" where
  "funded_by code k a b st st1 \<longleftrightarrow> same_frame st st1 \<and> total st1 = total st
     \<and> RoundStake \<le> wallet st a \<and> RoundStake \<le> wallet st b
     \<and> (\<forall>x. wallet st1 x = (if x = escrowKey code k then RoundStake * 2
             else wallet st x - (if x = a \<or> x = b then RoundStake else 0)))"

lemma fundRound_result:
  assumes "fundRound stored code k j st = (res, st1)" "\<not> get_or False (s_funded stored) k"
    and "roundOwners stored j = [a, b]" "a \<noteq> b" "account a" "account b"
    and "in_range st" "wallet st (escrowKey code k) = 0"
  shows "case res of Inl e \<Rightarrow> same_money st st1 \<and> e = Err ErrInsufficientFunds
           \<and> (wallet st a < RoundStake \<or> wallet st b < RoundStake)
    | Inr s1 \<Rightarrow> s1 = stored\<lparr>s_funded := fmupd k True (s_funded stored)\<rparr> \<and> funded_by code k a b st st1"
proof -
  obtain r2 st2 where c: "checkStakes [a, b] st = (r2, st2)" by fastforce
  note chk = checkStakes_result [OF c]
  show ?thesis
  proof (cases r2)
    case (Inl e)
    with assms(1-3) c chk show ?thesis by (auto simp: fundRound_def Let_def)
  next
    case (Inr u)
    with chk have m: "same_money st st2" and ge: "RoundStake \<le> wallet st a" "RoundStake \<le> wallet st b"
      by auto
    have le: "wallet st x \<le> MaxInt64" for x using assms(7) by (simp add: in_range_def)
    from assms(1-3) c Inr have res: "res = Inr (stored\<lparr>s_funded := fmupd k True (s_funded stored)\<rparr>)"
      and st1: "st1 = setWallet (escrowKey code k) (RoundStake * 2)
        (addWallet b (- RoundStake) (addWallet a (- RoundStake) st2))"
      by (auto simp: fundRound_def Let_def)
    have w2: "wallet st2 = wallet st" "total st2 = total st" using m by (simp_all add: same_money_def)
    have "funded_by code k a b st st1"
      using m ge le [of a] le [of b] assms(4-6,8)
      by (simp add: funded_by_def st1 w2 total_addWallet same_money_def same_frame_def)
    with res show ?thesis by simp
  qed
qed

lemma funded_byD:
  assumes "funded_by code k a b st st1"
  shows "nonneg st \<Longrightarrow> nonneg st1" "total st1 = total st" "same_frame st st1"
    and "in_range st \<Longrightarrow> in_range st1"
    and "account a \<Longrightarrow> account b \<Longrightarrow> wallet st1 ''house'' = wallet st ''house''"
    and "account a \<Longrightarrow> account b \<Longrightarrow> wallet st1 (escrowKey c n)
      = (if c = code \<and> n = k then RoundStake * 2 else wallet st (escrowKey c n))"
  using assms by (auto simp: funded_by_def nonneg_def in_range_def MaxInt64_def intro: order_trans)

text \<open>The effect of settling a funded round between two accounts.\<close>

definition settled_share :: "roomState \<Rightarrow> string \<Rightarrow> string \<Rightarrow> string \<Rightarrow> int" where
  "settled_share state a b x = (if st_Result state = Draw then (if x = a \<or> x = b then RoundStake else 0)
     else if x = ''house'' then HousePayout
     else if x = (if st_Result state = PlayerTwoWins then b else a) then WinnerPayout else 0)"

definition settled_by ::
    "string \<Rightarrow> roomState \<Rightarrow> string \<Rightarrow> string \<Rightarrow> go_time \<Rightarrow> repository \<Rightarrow> repository \<Rightarrow> bool" where
  "settled_by code state a b now st st1 \<longleftrightarrow> cong64 (total st1) (total st) \<and> rp_rooms st1 = rp_rooms st
     \<and> rp_recharges st1 = rp_recharges st
     \<and> rp_history st1 = playedRound code state now # rp_history st
     \<and> (\<forall>x. wallet st1 x = (if x = escrowKey code (st_Round state) then 0
          else i64 (wallet st x + settled_share state a b x)))
     \<and> (nonneg st \<longrightarrow> total st \<le> MaxInt64 \<longrightarrow> total st1 = total st
          \<and> (\<forall>x. wallet st1 x = (if x = escrowKey code (st_Round state) then 0
               else wallet st x + settled_share state a b x)))"

lemma cong64_pays:
  "cong64 (total (setWallet e 0 (addWallet x d (addWallet y d' st)))) (total st + d + d' - wallet (addWallet x d (addWallet y d' st)) e)"
proof -
  have "cong64 (total (addWallet x d (addWallet y d' st))) (total st + d' + d)"
    using cong64_trans [OF cong64_addWallet cong64_add [OF cong64_addWallet]] by blast
  from cong64_add [OF this, of "- wallet (addWallet x d (addWallet y d' st)) e"] show ?thesis by (simp add: algebra_simps)
qed

lemma settleRound_result:
  assumes "settleRound stored code state now st = (res, st1)"
    and "st_Players state = [p, q]" "get_or '''' (s_owners stored) (pv_ID p) = a"
    and "get_or '''' (s_owners stored) (pv_ID q) = b" "a \<noteq> b" "account a" "account b"
    and "in_range st" "wallet st (escrowKey code (st_Round state)) = RoundStake * 2"
  shows "res = Inr () \<and> settled_by code state a b now st st1"
proof -
  let ?E = "escrowKey code (st_Round state)"
  from assms(1-4,9) have st1: "res = Inr ()"
    "st1 = (setWallet ?E 0 (paySettlement (st_Result state) a b st))
       \<lparr>rp_history := playedRound code state now # rp_history st\<rparr>"
    by (auto simp: settleRound_def Let_def paySettlement_def)
  have cong: "cong64 (total st1) (total st)"
    using cong64_pays [of ?E b RoundStake a RoundStake st] assms(6,7,9)
      cong64_pays [of ?E "''house''" HousePayout "if st_Result state = PlayerTwoWins then b else a" WinnerPayout st]
    by (cases "st_Result state = Draw") (auto simp: st1 paySettlement_def split: if_splits)
  have wrapped: "wallet st1 x = (if x = ?E then 0 else i64 (wallet st x + settled_share state a b x))" for x
    using assms(5-7) i64_wallet [OF assms(8)]
    by (simp add: st1 paySettlement_def settled_share_def)
  have exact: "total st1 = total st \<and> (\<forall>x. wallet st1 x = (if x = ?E then 0 else wallet st x + settled_share state a b x))"
    if nonneg: "nonneg st" and small: "total st \<le> MaxInt64"
  proof -
    have room: "wallet st x + RoundStake * 2 \<le> MaxInt64" if "x \<noteq> ?E" for x
      using wallet2_le_total [OF nonneg that] small assms(9) by simp
    have fits: "i64 (wallet st x + d) = wallet st x + d" if "x \<noteq> ?E" "0 \<le> d" "d \<le> RoundStake * 2" for x d
      using room [OF that(1)] nonnegD [OF nonneg, of x] that(2,3) by (intro i64_small) simp_all
    have share: "0 \<le> settled_share state a b x" "settled_share state a b x \<le> RoundStake * 2" for x
      by (simp_all add: settled_share_def)
    have "total st1 = total st"
      using fits [of a] fits [of b] fits [of "''house''"] assms(5-7,9)
      by (cases "st_Result state = Draw"; cases "st_Result state = PlayerTwoWins")
        (simp_all add: st1 paySettlement_def addWallet_def)
    then show ?thesis using wrapped fits [OF _ share] by simp
  qed
  show ?thesis using st1 cong wrapped exact by (simp add: settled_by_def paySettlement_def)
qed

lemma settled_byD:
  assumes "settled_by code state a b now st st1" "in_range st" "account a" "account b"
  shows "in_range st1" "cong64 (total st1) (total st)" "rp_rooms st1 = rp_rooms st"
    and "rp_recharges st1 = rp_recharges st"
    and "wallet st1 ''house'' = i64 (wallet st ''house'' + h_HouseEarnings (playedRound code state now))"
    and "wallet st1 (escrowKey c n)
      = (if c = code \<and> n = st_Round state then 0 else wallet st (escrowKey c n))"
    and "rp_history st1 = playedRound code state now # rp_history st"
    and "nonneg st \<Longrightarrow> total st \<le> MaxInt64 \<Longrightarrow> nonneg st1 \<and> total st1 = total st
      \<and> wallet st1 ''house'' = wallet st ''house'' + h_HouseEarnings (playedRound code state now)"
proof -
  have escrow: "settled_share state a b (escrowKey c n) = 0" "settled_share state a b ''house'' = h_HouseEarnings (playedRound code state now)"
    "0 \<le> settled_share state a b x" for c n x
    using assms(3,4) by (auto simp: settled_share_def playedRound_def)
  have zero: "- (2 ^ 63) \<le> (0 :: int)" "0 \<le> MaxInt64" by (simp_all add: MaxInt64_def)
  note eqs = assms(1) [unfolded settled_by_def]
  show "in_range st1" using eqs i64_range zero by (simp add: in_range_def)
  show "cong64 (total st1) (total st)" "rp_rooms st1 = rp_rooms st" "rp_recharges st1 = rp_recharges st"
    "rp_history st1 = playedRound code state now # rp_history st" using eqs by simp_all
  show "wallet st1 ''house'' = i64 (wallet st ''house'' + h_HouseEarnings (playedRound code state now))"
    "wallet st1 (escrowKey c n) = (if c = code \<and> n = st_Round state then 0 else wallet st (escrowKey c n))"
    using eqs by (simp_all add: escrow i64_wallet [OF assms(2)])
  show "nonneg st1 \<and> total st1 = total st
      \<and> wallet st1 ''house'' = wallet st ''house'' + h_HouseEarnings (playedRound code state now)"
    if small: "nonneg st" "total st \<le> MaxInt64"
  proof -
    from eqs small have "total st1 = total st"
      "\<forall>x. wallet st1 x = (if x = escrowKey code (st_Round state) then 0 else wallet st x + settled_share state a b x)"
      by blast+
    with small(1) escrow show ?thesis by (simp add: nonneg_def)
  qed
qed

text \<open>Who is paid in a round that was won.\<close>

lemma settled_wallets:
  assumes "settled_by code state a b now st st1" "in_range st" "account a" "account b" "a \<noteq> b"
  shows "st_Result state = PlayerTwoWins \<Longrightarrow>
      wallet st1 b = i64 (wallet st b + WinnerPayout) \<and> wallet st1 a = wallet st a"
    and "st_Result state = PlayerOneWins \<Longrightarrow>
      wallet st1 a = i64 (wallet st a + WinnerPayout) \<and> wallet st1 b = wallet st b"
proof -
  have w: "wallet st1 x = i64 (wallet st x + settled_share state a b x)" if "account x" for x
  proof -
    from assms(1) have "\<forall>x. wallet st1 x = (if x = escrowKey code (st_Round state) then 0
      else i64 (wallet st x + settled_share state a b x))" unfolding settled_by_def by blast
    from spec [OF this, of x] escrowKey_neq(4) [OF that] show ?thesis by simp
  qed
  have h: "a \<noteq> ''house''" "b \<noteq> ''house''" using assms(3,4) by (auto dest: escrowKey_neq(6))
  show "wallet st1 b = i64 (wallet st b + WinnerPayout) \<and> wallet st1 a = wallet st a" if "st_Result state = PlayerTwoWins"
    using w [OF assms(3)] w [OF assms(4)] h assms(5) that by (simp add: settled_share_def i64_wallet [OF assms(2)])
  show "wallet st1 a = i64 (wallet st a + WinnerPayout) \<and> wallet st1 b = wallet st b" if "st_Result state = PlayerOneWins"
    using w [OF assms(3)] w [OF assms(4)] h assms(5) that by (simp add: settled_share_def i64_wallet [OF assms(2)])
qed

section \<open>Seats\<close>

lemma playerForAccount_SomeD:
  assumes "playerForAccount owners a = i" "i \<noteq> ''''"
  shows "fmlookup owners i = Some a \<and> a \<noteq> ''''"
  using assms
  by (auto simp: playerForAccount_def find_Some_iff split: if_splits option.splits)

lemma playerForAccount_found:
  assumes "fmlookup owners i = Some a" "i \<noteq> ''''" "a \<noteq> ''''"
    and "\<And>j. fmlookup owners j = Some a \<Longrightarrow> j = i"
  shows "playerForAccount owners a = i"
proof -
  let ?ks = "sorted_list_of_fset (fmdom owners)"
  have "i \<in> set ?ks" using assms(1) by (simp add: fmdomI)
  then have "List.find (\<lambda>i. fmlookup owners i = Some a) ?ks \<noteq> None"
    using assms(1) by (auto simp: find_None_iff)
  then obtain j where j: "List.find (\<lambda>i. fmlookup owners i = Some a) ?ks = Some j" by auto
  then have "fmlookup owners j = Some a" by (auto simp: find_Some_iff)
  with assms(4) j show ?thesis using assms(3) by (simp add: playerForAccount_def)
qed

lemma playerForAccount_none:
  "(\<And>j. fmlookup owners j \<noteq> Some a) \<Longrightarrow> playerForAccount owners a = ''''"
  by (metis playerForAccount_SomeD)

lemma seated_cases:
  assumes "seated code digest a k st = (res, st')" "mem_inv n st" "n < 2 ^ 62"
  obtains (refused) e where "res = Inl e" "st' = st"
  | (seat) s i where "fmlookup (rp_rooms st) code = Some s" "fmlookup (s_owners s) i = Some a"
      "k s i (s_room s) st = (res, st')"
proof (cases "fmlookup (rp_rooms st) code")
  case None
  with assms(1) refused show ?thesis by (auto simp: seated_def lookupRoom_def)
next
  case (Some s)
  then have res: "Restore (PersistenceState (s_room s)) = Inr (s_room s)"
    using stored_room_inv(3) [OF assms(2,3) Some] by (simp add: Restore_PersistenceState)
  show ?thesis
  proof (cases "playerForAccount (s_owners s) a = ''''")
    case True
    with assms(1) Some refused show ?thesis
      by (auto simp: seated_def lookupRoom_def memory_authenticate_def Let_def)
  next
    case False
    then have "fmlookup (s_owners s) (playerForAccount (s_owners s) a) = Some a"
      using playerForAccount_SomeD by blast
    with False assms(1) Some res seat show ?thesis
      by (auto simp: seated_def lookupRoom_def memory_authenticate_def Let_def)
  qed
qed

lemma two_owners:
  assumes "owners_ok s" "length (r_players (s_room s)) = 2" "wf_room (s_room s)"
  obtains p q a b where "player_ids (s_room s) = [p, q]" "p \<noteq> q"
    "fmlookup (s_owners s) p = Some a" "fmlookup (s_owners s) q = Some b" "a \<noteq> b"
    "account a" "account b" "roundOwners s '''' = [a, b]"
proof -
  from assms(2) obtain P Q where pq: "r_players (s_room s) = [P, Q]" by (rule two_players)
  let ?p = "player_ID P" and ?q = "player_ID Q"
  have ids: "player_ids (s_room s) = [?p, ?q]" by (simp add: player_ids_def pq)
  have neq: "?p \<noteq> ?q" using assms(3) by (auto simp: wf_room_def wf_seats_def ids)
  have "?p |\<in>| fmdom (s_owners s)" "?q |\<in>| fmdom (s_owners s)"
    using assms(1) by (auto simp: owners_ok_def ids)
  then obtain a b where ab: "fmlookup (s_owners s) ?p = Some a" "fmlookup (s_owners s) ?q = Some b"
    by (auto simp: fmlookup_dom_iff)
  moreover have "a \<noteq> b" "account a" "account b"
    using ab neq assms(1) by (auto simp: owners_ok_def)
  moreover have "roundOwners s '''' = [a, b]" by (simp add: roundOwners_eq ids ab)
  ultimately show ?thesis using that ids neq by blast
qed

section \<open>Committing a change\<close>

lemma commitRoom_result:
  assumes "commitRoom code s r' st = (res, st')"
  shows "res \<noteq> Inl e" "wallet st' = wallet st" "total st' = total st"
    "rp_history st' = rp_history st" "rp_recharges st' = rp_recharges st"
    "rp_rooms st' = fmupd code (s\<lparr>s_room := r', s_revision := s_revision s + 1\<rparr>) (rp_rooms st)"
  using assms by (auto simp: commitRoom_def changed_def Let_def)

lemma stored_ok_step:
  assumes "stored_ok n code s" "applyOp op (s_room s) = Inr (s_room s')" "keeps_moves op (s_room s)"
    and "same_seats (s_room s) (s_room s')" "s_owners s' = s_owners s"
    and "\<And>k. get_or False (s_funded s') k = (s_live s' k \<or> s_past s' k)"
  shows "stored_ok (Suc n) code s'"
proof -
  from assms(1) obtain m where "m \<le> n" "reachable m (s_room s)" by (auto simp: stored_ok_def)
  with assms(2,3) have "reachable (Suc m) (s_room s')" "Suc m \<le> Suc n"
    by (auto intro: reach_op)
  with assms(1,4-6) show ?thesis
    unfolding stored_ok_def owners_ok_def same_seats_def by auto
qed

lemma live_past_cong:
  assumes "length (r_players (s_room s')) = length (r_players (s_room s))"
    and "r_round (s_room s') = r_round (s_room s)"
    and "r_resolved (s_room s') = r_resolved (s_room s)"
  shows "s_live s' k = s_live s k" "s_past s' k = s_past s k"
  using assms by (simp_all add: s_live_def s_past_def)

lemma less_succ_iff: "unat (r :: uint64) < 2 ^ 63 \<Longrightarrow> k < r + 1 \<longleftrightarrow> k < r \<or> k = r"
  by (auto simp: word_less_nat_alt unat_succ less_Suc_eq word_unat_eq_iff)

lemma books_settled:
  assumes "books st" "settled_by code state a b now st st1" "account a" "account b"
    and "(code, st_Round state) \<notin> set (round_keys (rp_history st))"
  shows "books st1"
proof -
  have r: "in_range st" using assms(1) by (simp add: books_def)
  note d = settled_byD [OF assms(2) r assms(3,4)]
  have house: "wallet st1 ''house'' = i64 (earnings (rp_history st1))"
    using assms(1) d(5,7) by (simp add: books_def earnings_def i64_add i64_add' add.commute)
  have keys: "distinct (round_keys (rp_history st1))"
    using assms(1,5) d(7) by (simp add: books_def round_keys_def playedRound_def)
  have "issued st1 = issued st" by (simp add: issued_def d(4))
  moreover have "cong64 (total st1) (issued st)"
    using cong64_trans [OF d(2)] assms(1) by (simp add: books_def)
  moreover have "nonneg st1 \<and> total st1 = issued st \<and> wallet st1 ''house'' = earnings (rp_history st1)"
    if "issued st \<le> MaxInt64"
    using assms(1) that d(7,8) by (simp add: books_def earnings_def)
  ultimately show ?thesis using d(1) house keys by (simp add: books_def)
qed

lemma books_funded:
  assumes "books st" "funded_by code k a b st st1" "account a" "account b"
  shows "books st1"
  using assms funded_byD(1-5) [OF assms(2)]
  by (auto simp: books_def issued_def same_frame_def)

lemma on_room_some: "fmlookup (rp_rooms st) code = Some s \<Longrightarrow> on_room P st code k = P s k"
  by (simp add: on_room_def)

lemma commit_quiet:
  assumes inv: "mem_inv n st" and some: "fmlookup (rp_rooms st) code = Some s"
    and op: "applyOp op (s_room s) = Inr r'" "keeps_moves op (s_room s)"
    and same: "same_seats (s_room s) r'" "r_round r' = r_round (s_room s)"
      "r_resolved r' = r_resolved (s_room s)"
    and commit: "commitRoom code s r' st = (res, st')"
  shows "mem_inv (Suc n) st'"
proof -
  let ?s = "s\<lparr>s_room := r', s_revision := s_revision s + 1\<rparr>"
  have eq: "s_live ?s k = s_live s k" "s_past ?s k = s_past s k" for k
    using same by (simp_all add: s_live_def s_past_def same_seats_def)
  from inv some have ok: "stored_ok n code s" and bk: "books st"
    by (auto simp: mem_inv_def)
  have "stored_ok (Suc n) code ?s"
    using ok op same by (intro stored_ok_step [OF ok]) (auto simp: eq stored_ok_def)
  moreover have "books st'" by (rule books_cong [OF bk commitRoom_result(2-5) [OF commit]])
  moreover have "on_room P st code k = P s k" for P k using some by (simp add: on_room_def)
  ultimately show ?thesis
    using inv commitRoom_result(2-6) [OF commit]
    by (intro mem_inv_put [OF inv, of code ?s])
      (auto simp: eq mem_inv_def escrow_ok_def history_ok_def)
qed

lemma commit_fund:
  assumes inv: "mem_inv n st" "n < 2 ^ 62" and some: "fmlookup (rp_rooms st) code = Some s"
    and op: "applyOp op (s_room s) = Inr r'" "keeps_moves op (s_room s)"
    and same: "same_seats (s_room s) r'" "r_round r' = r_round (s_room s) + 1"
      "r_resolved (s_room s)" "\<not> r_resolved r'"
    and fund: "fundRound s code (r_round r') '''' st = (Inr s1, st1)"
    and commit: "commitRoom code s1 r' st1 = (res, st')"
  shows "mem_inv (Suc n) st'"
proof -
  note room = stored_room_inv [OF inv some]
  have two: "length (r_players (s_room s)) = 2"
    using room(3) same(3) by (simp add: wf_room_def wf_outcome_def)
  from two_owners [OF room(5) two room(3)] obtain p q a b where o: "roundOwners s '''' = [a, b]"
    "a \<noteq> b" "account a" "account b" by blast
  let ?k = "r_round r'"
  note lt = less_succ_iff [OF room(2)] and nz = succ_neq_0 [OF room(2)]
  have notfunded: "\<not> get_or False (s_funded s) ?k"
    using room(6) [of ?k] less_succ [OF room(2)] same(2,3) by (auto simp: s_live_def s_past_def)
  have bk: "books st" and ok: "stored_ok n code s" and esc: "escrow_ok st" and his: "history_ok st"
    using inv(1) some by (auto simp: mem_inv_def)
  have "wallet st (escrowKey code ?k) = 0"
    using esc some same(3) by (simp add: escrow_ok_def on_room_some s_live_def)
  then have f: "s1 = s\<lparr>s_funded := fmupd ?k True (s_funded s)\<rparr>" "funded_by code ?k a b st st1"
    using fundRound_result [OF fund notfunded o(1,2,3,4)] bk by (auto simp: books_def)
  let ?s = "s1\<lparr>s_room := r', s_revision := s_revision s1 + 1\<rparr>"
  have live: "s_live ?s k \<longleftrightarrow> k = ?k" "s_past ?s k \<longleftrightarrow> s_past s k" "\<not> s_live s k" for k
    using same two lt nz by (auto simp: s_live_def s_past_def same_seats_def)
  have "stored_ok (Suc n) code ?s"
    using ok op same(1) room(6) live f(1)
    by (intro stored_ok_step [OF ok]) (auto simp: stored_ok_def)
  moreover have "books st'"
    using books_cong [OF books_funded [OF bk f(2) o(3,4)] commitRoom_result(2-5) [OF commit]] .
  moreover have "in_range st" using bk by (simp add: books_def)
  ultimately show ?thesis
    using commitRoom_result(2-6) [OF commit] funded_byD(3,6) [OF f(2)] o(3,4) esc his live some
    by (intro mem_inv_put [OF inv(1), of code ?s])
      (auto simp: same_frame_def escrow_ok_def history_ok_def on_room_some)
qed

lemma settle_open_round:
  assumes inv: "mem_inv n st" "n < 2 ^ 62" and some: "fmlookup (rp_rooms st) code = Some s"
    and same: "same_seats (s_room s) r'" "r_round r' = r_round (s_room s)"
      "\<not> r_resolved (s_room s)" "length (r_players (s_room s)) = 2"
    and settle: "settleRound s code (State r') now st = (res1, st1)"
  obtains p q a b where "player_ids (s_room s) = [p, q]" "fmlookup (s_owners s) p = Some a"
    "fmlookup (s_owners s) q = Some b" "a \<noteq> b" "account a" "account b"
    "res1 = Inr ()" "settled_by code (State r') a b now st st1"
proof -
  note room = stored_room_inv [OF inv some]
  from two_owners [OF room(5) same(4) room(3)] obtain p q a b
    where o: "player_ids (s_room s) = [p, q]" "fmlookup (s_owners s) p = Some a"
      "fmlookup (s_owners s) q = Some b" "a \<noteq> b" "account a" "account b" by metis
  from same(1,4) obtain P Q where pq: "st_Players (State r') = [P, Q]" "pv_ID P = p" "pv_ID Q = q"
    using State_simps(5) [of r'] o(1) by (auto simp: same_seats_def length_2_iff simp del: State_simps)
  have bk: "books st" and esc: "escrow_ok st" using inv(1) by (auto simp: mem_inv_def)
  have "wallet st (escrowKey code (st_Round (State r'))) = RoundStake * 2"
    using esc some same by (simp add: escrow_ok_def on_room_some s_live_def)
  then have "res1 = Inr () \<and> settled_by code (State r') a b now st st1"
    using settleRound_result [OF settle pq(1), of a b] o(2-6) pq(2,3) bk
    by (auto simp: books_def)
  with o that show ?thesis by blast
qed

lemma commit_settle:
  assumes inv: "mem_inv n st" "n < 2 ^ 62" and some: "fmlookup (rp_rooms st) code = Some s"
    and op: "applyOp op (s_room s) = Inr r'" "keeps_moves op (s_room s)"
    and same: "same_seats (s_room s) r'" "r_round r' = r_round (s_room s)"
      "\<not> r_resolved (s_room s)" "r_resolved r'" "length (r_players (s_room s)) = 2"
    and settle: "settleRound s code (State r') now st = (res1, st1)"
    and commit: "commitRoom code s r' st1 = (res, st')"
  shows "mem_inv (Suc n) st' \<and> res1 = Inr ()"
proof -
  note room = stored_room_inv [OF inv some]
  from settle_open_round [OF inv some same(1-3,5) settle] obtain a b
    where o: "account a" "account b" and f: "res1 = Inr ()"
      "settled_by code (State r') a b now st st1" by metis
  let ?k = "r_round (s_room s)"
  have bk: "books st" and ok: "stored_ok n code s" and esc: "escrow_ok st" and his: "history_ok st"
    using inv(1) some by (auto simp: mem_inv_def)
  have key: "st_Round (State r') = ?k" using same(2) by simp
  have nz: "?k \<noteq> 0" using room(3) by (simp add: wf_room_def wf_seats_def)
  let ?s = "s\<lparr>s_room := r', s_revision := s_revision s + 1\<rparr>"
  have live: "\<not> s_live ?s k" "s_past ?s k \<longleftrightarrow> s_past s k \<or> k = ?k" "s_live s k \<longleftrightarrow> k = ?k" for k
    using same nz by (auto simp: s_live_def s_past_def same_seats_def)
  have new: "(code, ?k) \<notin> set (round_keys (rp_history st))"
    using his some same(3) by (simp add: history_ok_def on_room_some s_past_def)
  have "stored_ok (Suc n) code ?s"
    using ok op same(1) room(6) live
    by (intro stored_ok_step [OF ok]) (auto simp: stored_ok_def)
  moreover have "books st1"
    using books_settled [OF bk f(2) o] new key by simp
  then have "books st'" by (rule books_cong [OF _ commitRoom_result(2-5) [OF commit]])
  moreover have "in_range st" using bk by (simp add: books_def)
  ultimately have "mem_inv (Suc n) st'"
    using commitRoom_result(2-6) [OF commit] settled_byD(3,6,7) [OF f(2) _ o] key esc his live some
    by (intro mem_inv_put [OF inv(1), of code ?s])
      (auto simp: escrow_ok_def history_ok_def on_room_some round_keys_def playedRound_def)
  with f(1) show ?thesis by simp
qed

section \<open>Every operation keeps the books\<close>

lemma not_funded_unless_live:
  assumes "mem_inv n st" "n < 2 ^ 62" "fmlookup (rp_rooms st) code = Some s"
    and "length (r_players (s_room s)) = 2" "\<not> r_resolved (s_room s)"
  shows "get_or False (s_funded s) (r_round (s_room s))"
  using stored_room_inv(6) [OF assms(1-3)] assms(4,5) by (simp add: s_live_def)

lemma mem_inv_SubmitMove:
  assumes "mem_inv n st" "n < 2 ^ 62" "SubmitMoveAndSettle code d a m now st = (res, st')"
  shows "mem_inv (Suc n) st'"
proof (rule seated_cases [OF assms(3) [unfolded SubmitMoveAndSettle_def] assms(1,2)])
  fix e assume "res = Inl e" "st' = st"
  with assms(1) show ?thesis by (auto intro: mem_inv_mono)
next
  fix s i assume some: "fmlookup (rp_rooms st) code = Some s"
    and k: "(let wasResolved = st_Resolved (State (s_room s)) in
       case SubmitMove i m (s_room s) of Inl e \<Rightarrow> (Inl e, st)
       | Inr working \<Rightarrow>
           (let state = State working in
            case (if get_or False (s_funded s) (st_Round state) then (Inr s, st)
                  else fundRound s code (st_Round state) '''' st) of
              (Inl e, st1) \<Rightarrow> (Inl e, st1)
            | (Inr stored1, st1) \<Rightarrow>
                (case (if \<not> wasResolved \<and> st_Resolved state
                       then settleRound stored1 code state now st1 else (Inr (), st1)) of
                   (Inl e, st2) \<Rightarrow> (Inl e, st2)
                 | (Inr _, st2) \<Rightarrow> commitRoom code stored1 working st2))) = (res, st')"
  note room = stored_room_inv [OF assms(1,2) some]
  show ?thesis
  proof (cases "SubmitMove i m (s_room s)")
    case (Inl e)
    with k assms(1) show ?thesis by (auto intro: mem_inv_mono)
  next
    case (Inr r')
    note eff = SubmitMove_effect [OF Inr room(1)]
    have fd: "get_or False (s_funded s) (r_round r')"
      using not_funded_unless_live [OF assms(1,2) some] eff by simp
    have op: "applyOp (OpSubmitMove i m) (s_room s) = Inr r'" "keeps_moves (OpSubmitMove i m) (s_room s)"
      using Inr by simp_all
    show ?thesis
    proof (cases "r_resolved r'")
      case True
      obtain res1 st1 where settle: "settleRound s code (State r') now st = (res1, st1)" by fastforce
      with k Inr fd eff True have c: "(case res1 of Inl e \<Rightarrow> (Inl e, st1)
        | Inr _ \<Rightarrow> commitRoom code s r' st1) = (res, st')"
        by (simp split: sum.splits)
      obtain res2 st2 where cm: "commitRoom code s r' st1 = (res2, st2)" by fastforce
      have "mem_inv (Suc n) st2 \<and> res1 = Inr ()"
        using commit_settle [OF assms(1,2) some op _ _ _ True _ settle cm] eff by simp
      with c cm show ?thesis by simp
    next
      case False
      with k Inr fd eff have "commitRoom code s r' st = (res, st')" by simp
      from commit_quiet [OF assms(1) some op _ _ _ this] eff False show ?thesis by simp
    qed
  qed
qed

lemma mem_inv_RequestNextRound:
  assumes "mem_inv n st" "n < 2 ^ 62" "RequestNextRoundAndFund code d a rnd st = (res, st')"
  shows "mem_inv (Suc n) st'"
proof (rule seated_cases [OF assms(3) [unfolded RequestNextRoundAndFund_def] assms(1,2)])
  fix e assume "res = Inl e" "st' = st"
  with assms(1) show ?thesis by (auto intro: mem_inv_mono)
next
  fix s i assume some: "fmlookup (rp_rooms st) code = Some s"
    and k: "(let previousRound = st_Round (State (s_room s)) in
       case RequestNextRound i rnd (s_room s) of Inl e \<Rightarrow> (Inl e, st)
       | Inr working \<Rightarrow>
           (let newRound = st_Round (State working) in
            case (if previousRound < newRound then fundRound s code newRound '''' st
                  else (Inr s, st)) of
              (Inl e, st1) \<Rightarrow> (Inl e, st1)
            | (Inr stored1, st1) \<Rightarrow> commitRoom code stored1 working st1)) = (res, st')"
  note room = stored_room_inv [OF assms(1,2) some]
  show ?thesis
  proof (cases "RequestNextRound i rnd (s_room s)")
    case (Inl e)
    with k assms(1) show ?thesis by (auto intro: mem_inv_mono)
  next
    case (Inr r')
    note eff = RequestNextRound_effect [OF Inr]
    have op: "applyOp (OpRequestNextRound i rnd) (s_room s) = Inr r'"
      "keeps_moves (OpRequestNextRound i rnd) (s_room s)"
      using Inr by simp_all
    show ?thesis
    proof (cases "r_resolved r'")
      case True
      with eff have same: "r_round r' = r_round (s_room s)" by blast
      with k Inr have "commitRoom code s r' st = (res, st')" by simp
      from commit_quiet [OF assms(1) some op _ _ _ this] eff True same show ?thesis by simp
    next
      case False
      with eff have next_round: "r_round r' = r_round (s_room s) + 1" by blast
      obtain res1 st1 where f: "fundRound s code (r_round r') '''' st = (res1, st1)" by fastforce
      have "r_round (s_room s) < r_round r'" using less_succ [OF room(2)] next_round by simp
      with k Inr f have c: "(case res1 of Inl e \<Rightarrow> (Inl e, st1)
        | Inr stored1 \<Rightarrow> commitRoom code stored1 r' st1) = (res, st')"
        by (simp split: sum.splits)
      show ?thesis
      proof (cases res1)
        case (Inl e)
        have two: "length (r_players (s_room s)) = 2"
          using room(3) eff by (simp add: wf_room_def wf_outcome_def)
        from two_owners [OF room(5) two room(3)] obtain a b where o: "roundOwners s '''' = [a, b]"
          "a \<noteq> b" "account a" "account b" by metis
        have nf: "\<not> get_or False (s_funded s) (r_round r')"
          using room(6) [of "r_round r'"] less_succ [OF room(2)] next_round
          by (auto simp: s_live_def s_past_def)
        have "\<not> s_live s (r_round r')" using eff by (simp add: s_live_def)
        then have "wallet st (escrowKey code (r_round r')) = 0"
          using assms(1) some by (simp add: mem_inv_def escrow_ok_def on_room_some)
        then have "same_money st st1"
          using fundRound_result [OF f nf o] assms(1) Inl by (auto simp: mem_inv_def books_def)
        then have "mem_inv n st1" using assms(1) by (rule mem_inv_same_money [rotated])
        with c Inl show ?thesis by (auto intro: mem_inv_mono)
      next
        case (Inr s1)
        with c have cm: "commitRoom code s1 r' st1 = (res, st')" by simp
        from commit_fund [OF assms(1,2) some op _ next_round _ False f [unfolded Inr] cm] eff
        show ?thesis by simp
      qed
    qed
  qed
qed

lemma mem_inv_Leave:
  assumes "mem_inv n st" "n < 2 ^ 62" "Mutate code d a (\<lambda>r i. Leave i r) st = (res, st')"
  shows "mem_inv (Suc n) st'"
proof (rule seated_cases [OF assms(3) [unfolded Mutate_def] assms(1,2)])
  fix e assume "res = Inl e" "st' = st"
  with assms(1) show ?thesis by (auto intro: mem_inv_mono)
next
  fix s i assume some: "fmlookup (rp_rooms st) code = Some s"
    and k: "(case Leave i (s_room s) of Inl e \<Rightarrow> (Inl e, st)
       | Inr working \<Rightarrow> commitRoom code s working st) = (res, st')"
  show ?thesis
  proof (cases "Leave i (s_room s)")
    case (Inl e)
    with k assms(1) show ?thesis by (auto intro: mem_inv_mono)
  next
    case (Inr r')
    then have op: "applyOp (OpLeave i) (s_room s) = Inr r'" "keeps_moves (OpLeave i) (s_room s)"
      by simp_all
    from Inr k have "commitRoom code s r' st = (res, st')" by simp
    from commit_quiet [OF assms(1) some op _ _ _ this] Leave_effect [OF Inr] show ?thesis by simp
  qed
qed

lemma mem_inv_Balance:
  "mem_inv n st \<Longrightarrow> Balance a st = (res, st') \<Longrightarrow> mem_inv n st'"
  by (auto simp: Balance_def Let_def elim!: mem_inv_same_money)

lemma get_or_fmmap: "fmlookup m k = None \<Longrightarrow> get_or 0 (fmmap f m) k = 0"
  by (simp add: get_or_def)

lemma mem_inv_Recharge:
  assumes "mem_inv n st" "Recharge a amount key st = (res, st')" "account a" "0 \<le> amount"
  shows "mem_inv n st'"
proof (cases "fmlookup (rp_recharges st) (a @ '':'' @ key)")
  case (Some previous)
  with assms(1,2) show ?thesis by (auto simp: Recharge_def Let_def split: if_splits)
next
  case None
  let ?st1 = "ensureWallet a st" and ?rc = "\<lparr>mr_owner = a, mr_amount = amount\<rparr>"
  have bk: "books st" using assms(1) by (simp add: mem_inv_def)
  let ?st2 = "(addWallet a amount ?st1)\<lparr>rp_recharges := fmupd (a @ '':'' @ key) ?rc
    (rp_recharges st)\<rparr>"
  have st': "st' = ?st2 \<or> st' = ?st1"
    using assms(2) None by (auto simp: Recharge_def Let_def split: if_splits)
  have frame: "rp_rooms ?st2 = rp_rooms st" "rp_history ?st2 = rp_history st" by simp_all
  have iss: "issued ?st2 = issued st + amount"
    using None by (simp add: issued_def fm_total_upd fmmap_fmupd get_or_fmmap)
  have "in_range ?st2" using bk i64_range by (auto simp: books_def in_range_def)
  moreover have "cong64 (total ?st2) (issued ?st2)"
    using cong64_trans [OF cong64_addWallet [of a amount ?st1] cong64_add [of _ "issued st"]] bk
    unfolding iss by (simp add: books_def)
  moreover have "nonneg ?st2 \<and> total ?st2 = issued ?st2" if small: "issued ?st2 \<le> MaxInt64"
  proof -
    have "nonneg st" "total st = issued st" using bk small iss assms(4) by (simp_all add: books_def)
    moreover from this have "0 \<le> wallet st a" "wallet st a + amount \<le> MaxInt64"
      using wallet_le_total [of st a] small iss by (auto simp: nonneg_def)
    ultimately show ?thesis unfolding iss using assms(4) by (simp add: nonneg_def total_addWallet)
  qed
  moreover have "wallet ?st2 ''house'' = wallet st ''house''" "rp_history ?st2 = rp_history st" using assms(3) by simp_all
  moreover have "issued ?st2 \<le> MaxInt64 \<Longrightarrow> issued st \<le> MaxInt64" unfolding iss using assms(4) by simp
  ultimately have "books ?st2" using bk unfolding books_def by (metis (no_types, lifting))
  moreover have "on_room P ?st2 = on_room P st" for P by (rule on_room_cong) simp
  ultimately have "mem_inv n ?st2"
    using assms(1,3) frame by (simp add: mem_inv_def escrow_ok_def history_ok_def)
  moreover have "mem_inv n ?st1" using assms(1) by (rule mem_inv_same_money) simp
  ultimately show ?thesis using st' by blast
qed

lemma mem_inv_executeCommand:
  assumes "mem_inv n st" "executeCommand a c op st = (res, st')"
    and "\<And>r s'. op st = (r, s') \<Longrightarrow> mem_inv (Suc n) s'"
  shows "mem_inv (Suc n) st'"
proof (cases "fmlookup (rp_receipts st) (c_Key c)")
  case None
  obtain r s' where op: "op st = (r, s')" by fastforce
  have inv: "mem_inv (Suc n) s'" using op by (rule assms(3))
  have "rp_rooms st' = rp_rooms s' \<and> wallet st' = wallet s' \<and> total st' = total s'
      \<and> rp_recharges st' = rp_recharges s' \<and> rp_history st' = rp_history s'"
    using assms(2) None op by (auto simp: executeCommand_def split: sum.splits)
  then show ?thesis using mem_inv_cong [OF inv] by blast
next
  case (Some receipt)
  then have "st' = st" using assms(2) by (auto simp: executeCommand_def split: if_splits)
  with assms(1) show ?thesis by (auto intro: mem_inv_mono)
qed

lemma mem_inv_Create:
  assumes "mem_inv n st" "New code host = Inr r" "account a" "Create r d a st = (res, st')"
  shows "mem_inv (Suc n) st'"
proof -
  let ?st1 = "ensureWallet a st"
  have inv1: "mem_inv n ?st1" using assms(1) by (rule mem_inv_same_money) simp
  from assms(2) have new: "r_code r = code" "r_players r = [\<lparr>player_ID = host, player_Wins = 0\<rparr>]"
    "r_round r = 1" "\<not> r_resolved r" "player_ids r = [host]"
    by (auto simp: New_def player_ids_def split: if_splits)
  have res: "Restore (PersistenceState r) = Inr r"
    using wf_New [OF assms(2)] by (simp add: Restore_PersistenceState)
  obtain hv where hv: "st_Players (State r) = [hv]" "pv_ID hv = host"
    using new by (auto simp: State_def)
  let ?s = "\<lparr>s_room = r, s_revision = 1, s_credentials = fmupd host d fmempty,
    s_owners = fmupd host a fmempty, s_presence = fmempty, s_funded = fmempty\<rparr>"
  consider "st' = ?st1" | "code |\<notin>| fmdom (rp_rooms st)" "st' = putRoom code ?s ?st1"
    using assms(4) res hv new
    by (auto simp: Create_def Let_def split: if_splits)
  then show ?thesis
  proof cases
    case 1
    with inv1 show ?thesis by (auto intro: mem_inv_mono)
  next
    case 2
    have rooms: "rp_rooms st' = fmupd code ?s (rp_rooms ?st1)" by (simp add: 2)
    have off: "\<not> on_room P ?st1 code k" for P k
      using 2(1) by (simp add: on_room_def fmdom_notD)
    have "stored_ok (Suc n) code ?s"
      using reach_new [OF assms(2)] new assms(3)
      by (auto simp: stored_ok_def owners_ok_def s_live_def s_past_def split: if_splits)
    moreover have "books st'"
      by (rule books_cong [of ?st1]) (use inv1 2 in \<open>auto simp: mem_inv_def\<close>)
    ultimately show ?thesis
      using off inv1 2(2) new(2)
      by (intro mem_inv_put [OF inv1 _ rooms])
        (auto simp: mem_inv_def escrow_ok_def history_ok_def s_live_def s_past_def)
  qed
qed

lemma JoinFunded_cases:
  assumes "JoinFunded code i d a w st = (res, st')" "mem_inv n st" "n < 2 ^ 62"
  obtains (refused) e where "res = Inl e" "st' = st"
  | (seat) s r' res1 st1 where "fmlookup (rp_rooms st) code = Some s" "Join i (s_room s) = Inr r'"
      "\<And>j. fmlookup (s_owners s) j \<noteq> Some a" "\<And>j. fmlookup (s_credentials s) j \<noteq> Some d"
      "fundRound s code (r_round r') a (ensureWallet a st) = (res1, st1)"
      "case res1 of Inl e \<Rightarrow> (res, st') = (Inl e, st1)
       | Inr s1 \<Rightarrow> \<exists>leases pres snap. res = Inr (snap, leases)
           \<and> joinLeases code (r_round r') w (st_Players (State r')) (s_presence s1) = (leases, pres)
           \<and> (snap, st') = changed code (s1\<lparr>s_room := r',
                 s_credentials := fmupd i d (s_credentials s1),
                 s_owners := fmupd i a (s_owners s1), s_presence := pres\<rparr>) st1"
proof (cases "fmlookup (rp_rooms st) code")
  case None
  with assms(1) refused show ?thesis by (auto simp: JoinFunded_def lookupRoom_def)
next
  case (Some s)
  have res: "Restore (PersistenceState (s_room s)) = Inr (s_room s)"
    using stored_room_inv(3) [OF assms(2,3) Some] by (simp add: Restore_PersistenceState)
  show ?thesis
  proof (cases "(\<exists>j. fmlookup (s_credentials s) j = Some d) \<or> (\<exists>j. fmlookup (s_owners s) j = Some a)")
    case True
    then have "(\<exists>j\<in>fset (fmdom (s_credentials s)). fmlookup (s_credentials s) j = Some d)
      \<or> (\<exists>j\<in>fset (fmdom (s_owners s)). fmlookup (s_owners s) j = Some a)"
      by (auto intro: fmdomI)
    then have "\<exists>e. res = Inl e \<and> st' = st"
      using assms(1) Some by (auto simp: JoinFunded_def lookupRoom_def split: if_splits)
    with refused show ?thesis by blast
  next
    case False
    then have no: "\<not> (\<exists>j\<in>fset (fmdom (s_credentials s)). fmlookup (s_credentials s) j = Some d)"
      "\<not> (\<exists>j\<in>fset (fmdom (s_owners s)). fmlookup (s_owners s) j = Some a)"
      by auto
    show ?thesis
    proof (cases "Join i (s_room s)")
      case (Inl e)
      with assms(1) Some res no have "res = Inl e \<and> st' = st"
        by (simp add: JoinFunded_def lookupRoom_def)
      with refused show ?thesis by blast
    next
      case (Inr r')
      obtain res1 st1 where f: "fundRound s code (r_round r') a (ensureWallet a st) = (res1, st1)"
        by fastforce
      have "case res1 of Inl e \<Rightarrow> (res, st') = (Inl e, st1)
       | Inr s1 \<Rightarrow> \<exists>leases pres snap. res = Inr (snap, leases)
           \<and> joinLeases code (r_round r') w (st_Players (State r')) (s_presence s1) = (leases, pres)
           \<and> (snap, st') = changed code (s1\<lparr>s_room := r',
                 s_credentials := fmupd i d (s_credentials s1),
                 s_owners := fmupd i a (s_owners s1), s_presence := pres\<rparr>) st1"
        using assms(1) Some res no Inr f
        by (auto simp: JoinFunded_def lookupRoom_def Let_def split: sum.splits prod.splits)
      with Some Inr f False seat show ?thesis by blast
    qed
  qed
qed

lemma mem_inv_Join:
  assumes "mem_inv n st" "n < 2 ^ 62" "account a" "JoinFunded code i d a w st = (res, st')"
  shows "mem_inv (Suc n) st'"
proof (rule JoinFunded_cases [OF assms(4,1,2)])
  fix e assume "res = Inl e" "st' = st"
  with assms(1) show ?thesis by (auto intro: mem_inv_mono)
next
  fix s r' res1 st1
  let ?st0 = "ensureWallet a st"
  assume some: "fmlookup (rp_rooms st) code = Some s" and join: "Join i (s_room s) = Inr r'"
    and fresh: "\<And>j. fmlookup (s_owners s) j \<noteq> Some a"
    and f: "fundRound s code (r_round r') a ?st0 = (res1, st1)"
    and out: "case res1 of Inl e \<Rightarrow> (res, st') = (Inl e, st1)
       | Inr s1 \<Rightarrow> \<exists>leases pres snap. res = Inr (snap, leases)
           \<and> joinLeases code (r_round r') w (st_Players (State r')) (s_presence s1) = (leases, pres)
           \<and> (snap, st') = changed code (s1\<lparr>s_room := r',
                 s_credentials := fmupd i d (s_credentials s1),
                 s_owners := fmupd i a (s_owners s1), s_presence := pres\<rparr>) st1"
  note room = stored_room_inv [OF assms(1,2) some]
  have inv0: "mem_inv n ?st0" using assms(1) by (rule mem_inv_same_money) simp
  have bk: "books ?st0" and ok: "stored_ok n code s" and esc: "escrow_ok ?st0"
    and his: "history_ok ?st0"
    using inv0 some by (auto simp: mem_inv_def)
  note eff = Join_effect [OF join room(3)]
  from ok obtain m where m: "m \<le> n" "reachable m (s_room s)" by (auto simp: stored_ok_def)
  from single_round [OF m(2)] eff have r1: "r_round (s_room s) = 1" "\<not> r_resolved (s_room s)" by auto
  from eff obtain h where h: "player_ids (s_room s) = [h]"
    by (metis length_player_ids length_Suc_conv One_nat_def length_0_conv)
  with room(5) have "h |\<in>| fmdom (s_owners s)" by (simp add: owners_ok_def)
  then obtain b where b: "fmlookup (s_owners s) h = Some b" by (auto simp: fmlookup_dom_iff)
  then have o: "roundOwners s a = [b, a]" "b \<noteq> a" "account b"
    using h fresh assms(3) room(5) by (auto simp: roundOwners_eq owners_ok_def)
  have off: "\<not> s_live s k" "\<not> s_past s k" for k using eff by (simp_all add: s_live_def s_past_def)
  then have nf: "\<not> get_or False (s_funded s) k" for k
    using room(6) [of k] by simp
  have "wallet ?st0 (escrowKey code (r_round r')) = 0"
    using assms(1) some off by (simp add: mem_inv_def escrow_ok_def on_room_some)
  note fr = fundRound_result [OF f nf o assms(3) _ this]
  show ?thesis
  proof (cases res1)
    case (Inl e)
    with fr bk have "same_money ?st0 st1" by (auto simp: books_def)
    with inv0 have "mem_inv n st1" by (rule mem_inv_same_money)
    with out Inl show ?thesis by (auto intro: mem_inv_mono)
  next
    case (Inr s1)
    with fr bk have s1: "s1 = s\<lparr>s_funded := fmupd (r_round r') True (s_funded s)\<rparr>"
      and fb: "funded_by code (r_round r') b a ?st0 st1"
      by (auto simp: books_def)
    from out Inr obtain leases pres snap where ch: "(snap, st') = changed code (s1\<lparr>s_room := r',
      s_credentials := fmupd i d (s_credentials s1),
      s_owners := fmupd i a (s_owners s1), s_presence := pres\<rparr>) st1" by auto
    define s2 where "s2 = s1\<lparr>s_room := r', s_credentials := fmupd i d (s_credentials s1),
      s_owners := fmupd i a (s_owners s1), s_presence := pres, s_revision := s_revision s1 + 1\<rparr>"
    from ch have st': "rp_rooms st' = fmupd code s2 (rp_rooms st1)" "wallet st' = wallet st1"
      "total st' = total st1" "rp_history st' = rp_history st1"
      "rp_recharges st' = rp_recharges st1"
      by (auto simp: changed_def Let_def s2_def s1)
    have live: "s_live s2 k \<longleftrightarrow> k = r_round r'" "\<not> s_past s2 k" for k
      using eff r1 by (auto simp: s_live_def s_past_def s2_def s1 word_less_nat_alt unat_eq_0)
    have "reachable (Suc m) r'"
      using reach_op [OF m(2), of "OpJoin i" r'] join by simp
    moreover have "owners_ok s2"
      using room(5) fresh assms(3) eff h
      by (auto simp: owners_ok_def s2_def s1)
    ultimately have "stored_ok (Suc n) code s2"
      using m(1) eff room(4) live nf by (auto simp: stored_ok_def s2_def s1)
    moreover have "books st'"
      by (rule books_cong [OF books_funded [OF bk fb o(3) assms(3)] st'(2-5)])
    ultimately show ?thesis
      using st' funded_byD(3,6) [OF fb] o(3) assms(3) esc his live off some
      by (intro mem_inv_put [OF inv0, of code s2])
        (auto simp: same_frame_def escrow_ok_def history_ok_def on_room_some)
  qed
qed

lemma mem_inv_presence:
  assumes "mem_inv n st" "fmlookup (rp_rooms st) code = Some s"
    and "rp_rooms st' = fmupd code (s\<lparr>s_presence := pres\<rparr>) (rp_rooms st)"
    and "wallet st' = wallet st" "total st' = total st"
    and "rp_history st' = rp_history st" "rp_recharges st' = rp_recharges st"
  shows "mem_inv n st'"
proof -
  have P: "on_room P st' c k = on_room P st c k"
    if "\<And>x. P (s\<lparr>s_presence := x\<rparr>) = P s" for P c k
    using assms(2) that by (simp add: on_room_upd [OF assms(3)] on_room_some)
  have "on_room s_live st' c k = on_room s_live st c k"
    "on_room s_past st' c k = on_room s_past st c k" for c k
    by (rule P, simp add: s_live_def fun_eq_iff, rule P, simp add: s_past_def fun_eq_iff)
  moreover have "stored_ok n c x" if x: "fmlookup (rp_rooms st') c = Some x" for c x
  proof (cases "c = code")
    case True
    with x assms(3) have x: "x = s\<lparr>s_presence := pres\<rparr>" by simp
    from assms(1,2) have "stored_ok n code s" by (simp add: mem_inv_def)
    then show ?thesis
      using True by (simp add: x stored_ok_def owners_ok_def s_live_def s_past_def)
  next
    case False
    with x assms(1,3) show ?thesis by (simp add: mem_inv_def)
  qed
  ultimately show ?thesis
    using assms(1,4-7) books_cong [of st st'] by (simp add: mem_inv_def escrow_ok_def history_ok_def)
qed

lemma mem_inv_RefreshPresence:
  assumes "mem_inv n st" "RefreshPresence code d a w st = (res, st')"
  shows "mem_inv n st'"
proof (cases "fmlookup (rp_rooms st) code")
  case None
  with assms show ?thesis by (simp add: RefreshPresence_def lookupRoom_def)
next
  case (Some s)
  have "st' = st \<or> (\<exists>pres. st' = putRoom code (s\<lparr>s_presence := pres\<rparr>) st)"
    using assms(2) Some
    by (auto simp: RefreshPresence_def lookupRoom_def Let_def split: option.splits prod.splits)
  with assms(1) Some show ?thesis by (auto intro: mem_inv_presence)
qed

lemma ForfeitExpired_cases:
  assumes "ForfeitExpired l now st = (res, st')" "mem_inv n st" "n < 2 ^ 62"
  obtains (quiet) "st' = st"
  | (forfeit) s r' res1 st1 res2 where "fmlookup (rp_rooms st) (l_RoomCode l) = Some s"
      "Forfeit (l_PlayerID l) (l_Round l) (s_room s) = Inr r'"
      "settleRound s (l_RoomCode l) (State r') now st = (res1, st1)"
      "(case res1 of Inl e \<Rightarrow> (Inl e, st1) | Inr _ \<Rightarrow> commitRoom (l_RoomCode l) s r' st1) = (res2, st')"
proof (cases "fmlookup (rp_rooms st) (l_RoomCode l)")
  case None
  with assms(1) quiet show ?thesis by (auto simp: ForfeitExpired_def lookupRoom_def)
next
  case (Some s)
  note room = stored_room_inv [OF assms(2,3) Some]
  have res: "Restore (PersistenceState (s_room s)) = Inr (s_room s)"
    using room(3) by (simp add: Restore_PersistenceState)
  show ?thesis
  proof (cases "Forfeit (l_PlayerID l) (l_Round l) (s_room s)")
    case (Inl e)
    have "st' = st"
      using assms(1) Some res Inl
      by (simp add: ForfeitExpired_def lookupRoom_def Let_def split: option.splits if_splits)
    with quiet show ?thesis by blast
  next
    case (Inr r')
    note eff = Forfeit_effect [OF Inr]
    have fd: "get_or False (s_funded s) (r_round r')"
      using not_funded_unless_live [OF assms(2,3) Some] eff by simp
    obtain res1 st1 where settle: "settleRound s (l_RoomCode l) (State r') now st = (res1, st1)"
      by fastforce
    obtain res2 st2 where cm: "(case res1 of Inl e \<Rightarrow> (Inl e, st1)
      | Inr _ \<Rightarrow> commitRoom (l_RoomCode l) s r' st1) = (res2, st2)" by fastforce
    have "st' = st \<or> st' = st2"
      using assms(1) Some res Inr fd settle cm
      by (auto simp: ForfeitExpired_def lookupRoom_def Let_def
          split: option.splits if_splits sum.splits prod.splits)
    then show ?thesis using quiet forfeit [OF Some Inr settle] cm by blast
  qed
qed

lemma mem_inv_ForfeitExpired:
  assumes "mem_inv n st" "n < 2 ^ 62" "ForfeitExpired l now st = (res, st')"
  shows "mem_inv (Suc n) st'"
proof (rule ForfeitExpired_cases [OF assms(3,1,2)])
  assume "st' = st"
  with assms(1) show ?thesis by (auto intro: mem_inv_mono)
next
  fix s r' res1 st1 res2
  assume some: "fmlookup (rp_rooms st) (l_RoomCode l) = Some s"
    and ff: "Forfeit (l_PlayerID l) (l_Round l) (s_room s) = Inr r'"
    and settle: "settleRound s (l_RoomCode l) (State r') now st = (res1, st1)"
    and cm: "(case res1 of Inl e \<Rightarrow> (Inl e, st1) | Inr _ \<Rightarrow> commitRoom (l_RoomCode l) s r' st1)
      = (res2, st')"
  note eff = Forfeit_effect [OF ff]
  have op: "applyOp (OpForfeit (l_PlayerID l) (l_Round l)) (s_room s) = Inr r'"
    "keeps_moves (OpForfeit (l_PlayerID l) (l_Round l)) (s_room s)"
    using ff by simp_all
  obtain res3 st3 where c3: "commitRoom (l_RoomCode l) s r' st1 = (res3, st3)" by fastforce
  have "mem_inv (Suc n) st3 \<and> res1 = Inr ()"
    using commit_settle [OF assms(1,2) some op _ _ _ _ _ settle c3] eff by simp
  with cm c3 show ?thesis by simp
qed

end
