(* ===== verification/Memory_Properties.thy ===== *)
theory Memory_Properties
  imports Memory_Invariant
begin

text \<open>
  Sequences of operations on the in-memory repository and the properties of the states they
  reach: coins are conserved, escrow follows the open rounds, every round is settled once,
  commands are idempotent, and an account without a seat changes nothing.
\<close>

section \<open>Operation sequences\<close>

datatype memOp =
    MCreate string string CredentialDigest string
  | MJoin string string CredentialDigest string PresenceWindow
  | MMove string CredentialDigest string move go_time
  | MNext string CredentialDigest string uint64
  | MLeave string CredentialDigest string
  | MRefresh string CredentialDigest string PresenceWindow
  | MForfeit PresenceLease go_time
  | MBalance string
  | MRecharge string int string
  | MCreateCommand string string string Command
  | MJoinCommand string string string PresenceWindow Command
  | MMoveCommand string string move Command go_time
  | MNextCommand string string uint64 Command
  | MLeaveCommand string string Command
  | MRechargeCommand string int Command

definition leaveMutation :: mutation where
  "leaveMutation r i = Leave i r"

text \<open>Rooms come from \<open>domain.New\<close>, as in the service; when it refuses, nothing is called.\<close>

definition withNew :: "string \<Rightarrow> string \<Rightarrow> (room \<Rightarrow> repository \<Rightarrow> repository) \<Rightarrow> repository \<Rightarrow> repository" where
  "withNew code host f st = (case New code host of Inl _ \<Rightarrow> st | Inr r \<Rightarrow> f r st)"

fun runOp :: "(string \<Rightarrow> string) \<Rightarrow> memOp \<Rightarrow> repository \<Rightarrow> repository" where
  "runOp sha (MCreate code host d a) st = withNew code host (\<lambda>r st. snd (Create r d a st)) st"
| "runOp sha (MJoin code i d a w) st = snd (JoinFunded code i d a w st)"
| "runOp sha (MMove code d a m now) st = snd (SubmitMoveAndSettle code d a m now st)"
| "runOp sha (MNext code d a k) st = snd (RequestNextRoundAndFund code d a k st)"
| "runOp sha (MLeave code d a) st = snd (Mutate code d a leaveMutation st)"
| "runOp sha (MRefresh code d a w) st = snd (RefreshPresence code d a w st)"
| "runOp sha (MForfeit l now) st = snd (ForfeitExpired l now st)"
| "runOp sha (MBalance a) st = snd (Balance a st)"
| "runOp sha (MRecharge a n key) st = snd (Recharge a n key st)"
| "runOp sha (MCreateCommand code host a c) st =
     withNew code host (\<lambda>r st. snd (CreateCommand sha r a c st)) st"
| "runOp sha (MJoinCommand code i a w c) st = snd (JoinCommand sha code i a w c st)"
| "runOp sha (MMoveCommand code a m c now) st = snd (SubmitMoveCommand code a m c now st)"
| "runOp sha (MNextCommand code a k c) st = snd (RequestNextRoundCommand code a k c st)"
| "runOp sha (MLeaveCommand code a c) st = snd (MutateCommand code a leaveMutation c st)"
| "runOp sha (MRechargeCommand a n c) st = snd (RechargeCommand a n c st)"

text \<open>
  The operations the service issues: seats are taken by real accounts, and a recharge is of a
  positive amount. How many coins are issued in all is not bounded, as in the code, which bounds the
  wallet of a recharge only (see \<open>recharge_during_round_overflows\<close>).
\<close>

fun admissible :: "memOp \<Rightarrow> repository \<Rightarrow> bool" where
  "admissible (MCreate code host d a) st = account a"
| "admissible (MJoin code i d a w) st = account a"
| "admissible (MCreateCommand code host a c) st = account a"
| "admissible (MJoinCommand code i a w c) st = account a"
| "admissible (MRecharge a n key) st = (account a \<and> 0 < n)"
| "admissible (MRechargeCommand a n c) st = (account a \<and> 0 < n)"
| "admissible _ st = True"

inductive mem_reachable :: "(string \<Rightarrow> string) \<Rightarrow> nat \<Rightarrow> repository \<Rightarrow> bool" for sha where
  mem_start: "mem_reachable sha 0 NewRepository"
| mem_step: "mem_reachable sha n st \<Longrightarrow> admissible op st \<Longrightarrow> mem_reachable sha (Suc n) (runOp sha op st)"

inductive_cases mem_reachable_0E: "mem_reachable sha 0 st"

lemma mapStep_step:
  assumes "mapStep f op st = (r, s')"
  obtains r0 where "op st = (r0, s')"
  using assms by (auto simp: mapStep_def split: prod.splits sum.splits)

lemma mem_inv_command:
  assumes "mem_inv n st" "\<And>r s'. op st = (r, s') \<Longrightarrow> mem_inv (Suc n) s'"
  shows "mem_inv (Suc n) (snd (executeCommand a c (mapStep f op) st))"
proof -
  obtain res st' where e: "executeCommand a c (mapStep f op) st = (res, st')" by fastforce
  have "mem_inv (Suc n) st'"
    using mem_inv_executeCommand [OF assms(1) e] assms(2) by (auto elim: mapStep_step)
  with e show ?thesis by simp
qed

lemmas mem_inv_ops = mem_inv_Create mem_inv_Join mem_inv_SubmitMove mem_inv_RequestNextRound
  mem_inv_Leave mem_inv_ForfeitExpired

lemma mem_inv_runOp:
  assumes inv: "mem_inv n st" "n < 2 ^ 62" and adm: "admissible op st"
  shows "mem_inv (Suc n) (runOp sha op st)"
proof -
  note mono = mem_inv_mono [of n _ "Suc n", simplified]
  have leave: "Mutate code d a leaveMutation = Mutate code d a (\<lambda>r i. Leave i r)" for code d a
    by (rule arg_cong [of _ _ "Mutate code d a"]) (simp add: leaveMutation_def fun_eq_iff)
  show ?thesis
  proof (cases op)
    case (MCreate code host d a)
    then show ?thesis using inv adm mono
      by (auto simp: withNew_def split: sum.splits intro: mem_inv_Create prod.collapse [symmetric])
  next
    case (MCreateCommand code host a c)
    show ?thesis
    proof (cases "New code host")
      case (Inl e)
      with MCreateCommand inv mono show ?thesis by (simp add: withNew_def)
    next
      case (Inr r)
      then obtain hv where hv: "st_Players (State r) = [hv]"
        by (auto simp: New_def State_def split: if_splits)
      have "mem_inv (Suc n) (snd (executeCommand a c
          (mapStep snapshotResult (Create r (sha (pv_ID hv)) a)) st))"
        using inv adm Inr MCreateCommand by (intro mem_inv_command) (auto intro: mem_inv_Create)
      with MCreateCommand Inr hv show ?thesis by (simp add: withNew_def CreateCommand_def)
    qed
  next
    case (MRecharge a m key)
    then show ?thesis using inv adm mono
      by (auto intro!: mono mem_inv_Recharge [OF inv(1) prod.collapse [symmetric]])
  next
    case (MRechargeCommand a m c)
    have "mem_inv (Suc n) s'" if "Recharge a m (c_Key c) st = (r, s')" for r s'
      using mem_inv_Recharge [OF inv(1) that] adm MRechargeCommand mono by simp
    with MRechargeCommand inv show ?thesis
      by (auto simp: RechargeCommand_def intro: mem_inv_command)
  next
    case (MBalance a)
    then show ?thesis using mem_inv_Balance [OF inv(1) prod.collapse [symmetric]] mono by simp
  next
    case (MRefresh code d a w)
    then show ?thesis
      using mem_inv_RefreshPresence [OF inv(1) prod.collapse [symmetric]] mono by simp
  next
    case (MJoinCommand code i a w c)
    show ?thesis unfolding MJoinCommand runOp.simps JoinCommand_def
      using inv adm MJoinCommand by (intro mem_inv_command) (auto intro: mem_inv_Join)
  next
    case (MMoveCommand code a m c now)
    show ?thesis unfolding MMoveCommand runOp.simps SubmitMoveCommand_def
      using inv by (intro mem_inv_command) (auto intro: mem_inv_SubmitMove)
  next
    case (MNextCommand code a k c)
    show ?thesis unfolding MNextCommand runOp.simps RequestNextRoundCommand_def
      using inv by (intro mem_inv_command) (auto intro: mem_inv_RequestNextRound)
  next
    case (MLeaveCommand code a c)
    show ?thesis unfolding MLeaveCommand runOp.simps MutateCommand_def leave
      using inv by (intro mem_inv_command) (auto intro: mem_inv_Leave)
  qed (use inv adm in \<open>auto simp: leave
      intro: mem_inv_Join [OF _ _ _ prod.collapse [symmetric]]
        mem_inv_SubmitMove [OF _ _ prod.collapse [symmetric]]
        mem_inv_RequestNextRound [OF _ _ prod.collapse [symmetric]]
        mem_inv_Leave [OF _ _ prod.collapse [symmetric]]
        mem_inv_ForfeitExpired [OF _ _ prod.collapse [symmetric]]\<close>)
qed

lemma mem_reachable_inv: "mem_reachable sha n st \<Longrightarrow> n < 2 ^ 62 \<Longrightarrow> mem_inv n st"
  by (induction rule: mem_reachable.induct) (auto intro: mem_inv_New mem_inv_runOp)

section \<open>Receipts\<close>

lemma receipts_checkStakes: "rp_receipts (snd (checkStakes os st)) = rp_receipts st"
  by (induction os arbitrary: st) (simp_all add: Let_def)

lemma receipts_takeStakes [simp]: "rp_receipts (takeStakes os st) = rp_receipts st"
  by (induction os arbitrary: st) simp_all

lemma receipts_fundRound:
  "fundRound s code k j st = (res, st1) \<Longrightarrow> rp_receipts st1 = rp_receipts st"
  using receipts_checkStakes [of "roundOwners s j" st]
  by (auto simp: fundRound_def Let_def split: if_splits prod.splits sum.splits)

lemma receipts_settleRound:
  "settleRound s code state now st = (res, st1) \<Longrightarrow> rp_receipts st1 = rp_receipts st"
  by (auto simp: settleRound_def Let_def paySettlement_def split: if_splits list.splits)

lemma receipts_commitRoom [simp]: "rp_receipts (snd (commitRoom code s r st)) = rp_receipts st"
  by (auto simp: commitRoom_def changed_def Let_def)

lemma receipts_commitRoom_eq:
  "commitRoom code s r st = (res, st1) \<Longrightarrow> rp_receipts st1 = rp_receipts st"
  using receipts_commitRoom [of code s r st] by simp

lemmas receipts_parts = receipts_fundRound receipts_settleRound

lemma receipts_seated:
  assumes "\<And>s i w. rp_receipts (snd (k s i w st)) = rp_receipts st"
  shows "rp_receipts (snd (seated code d a k st)) = rp_receipts st"
  using assms by (auto simp: seated_def split: sum.splits option.splits)

lemma receipts_SubmitMove:
  "rp_receipts (snd (SubmitMoveAndSettle code d a m now st)) = rp_receipts st"
  unfolding SubmitMoveAndSettle_def
  by (rule receipts_seated)
    (auto simp: Let_def split: sum.splits prod.splits if_splits dest!: receipts_parts)

lemma receipts_RequestNextRound:
  "rp_receipts (snd (RequestNextRoundAndFund code d a k st)) = rp_receipts st"
  unfolding RequestNextRoundAndFund_def
  by (rule receipts_seated)
    (auto simp: Let_def split: sum.splits prod.splits if_splits dest!: receipts_parts)

lemma receipts_Mutate: "rp_receipts (snd (Mutate code d a mu st)) = rp_receipts st"
  unfolding Mutate_def
  by (rule receipts_seated) (auto split: sum.splits)

lemma receipts_Create: "rp_receipts (snd (Create r d a st)) = rp_receipts st"
  by (simp add: Create_def Let_def split: sum.split list.split)

lemma receipts_Join: "rp_receipts (snd (JoinFunded code i d a w st)) = rp_receipts st"
  by (auto simp: JoinFunded_def changed_def Let_def split: sum.splits prod.splits
      dest!: receipts_fundRound)

lemma receipts_Refresh: "rp_receipts (snd (RefreshPresence code d a w st)) = rp_receipts st"
  by (simp add: RefreshPresence_def Let_def split: sum.split option.split prod.split)

lemma receipts_Forfeit: "rp_receipts (snd (ForfeitExpired l now st)) = rp_receipts st"
  by (auto simp: ForfeitExpired_def Let_def split: sum.splits option.splits prod.splits
      dest!: receipts_parts receipts_commitRoom_eq)

lemma receipts_Recharge: "rp_receipts (snd (Recharge a n key st)) = rp_receipts st"
  by (simp add: Recharge_def Let_def split: option.split)

lemmas receipts_ops = receipts_SubmitMove receipts_RequestNextRound receipts_Mutate
  receipts_Create receipts_Join receipts_Refresh receipts_Forfeit receipts_Recharge

lemma receipts_mapStep: "rp_receipts (snd (mapStep f op st)) = rp_receipts (snd (op st))"
  by (simp add: mapStep_def split: prod.split sum.split)

text \<open>A command whose execution leaves the receipts alone only ever adds its own.\<close>

lemma receipt_kept_execute:
  assumes "fmlookup (rp_receipts st) k = Some rc"
    and "rp_receipts (snd (op st)) = rp_receipts st"
  shows "fmlookup (rp_receipts (snd (executeCommand a c op st))) k = Some rc"
  using assms by (auto simp: executeCommand_def split: option.splits prod.splits sum.splits)

lemma receipt_kept_runOp:
  assumes "fmlookup (rp_receipts st) k = Some rc"
  shows "fmlookup (rp_receipts (runOp sha op st)) k = Some rc"
proof (cases op)
  case (MCreateCommand code host a c)
  then show ?thesis
    using assms
    by (auto simp: withNew_def CreateCommand_def receipts_mapStep receipts_ops
        intro!: receipt_kept_execute split: sum.splits list.splits)
qed (use assms in \<open>auto simp: withNew_def receipts_ops receipts_mapStep Balance_def Let_def
      JoinCommand_def SubmitMoveCommand_def RequestNextRoundCommand_def MutateCommand_def
      RechargeCommand_def intro!: receipt_kept_execute split: sum.splits\<close>)

lemma receipt_kept_runOps:
  "fmlookup (rp_receipts st) k = Some rc \<Longrightarrow> fmlookup (rp_receipts (fold (runOp sha) ops st)) k = Some rc"
  by (induction ops arbitrary: st) (simp_all add: receipt_kept_runOp)


section \<open>A sample history\<close>

definition demo_window :: PresenceWindow where
  "demo_window = \<lparr>w_ObservedAt = 0, w_ProofAfter = 13, w_Deadline = 13, w_EvaluateAt = 16\<rparr>"

definition demo_wallets :: repository where
  "demo_wallets = runOp id (MRecharge ''bob'' 100 ''k2'')
     (runOp id (MRecharge ''alice'' 100 ''k1'') NewRepository)"

definition demo_open :: repository where
  "demo_open = runOp id (MJoin ''ROOM'' ''guest'' ''d2'' ''bob'' demo_window)
     (runOp id (MCreate ''ROOM'' ''host'' ''d1'' ''alice'') demo_wallets)"

lemma demo_accounts [simp]: "account ''alice''" "account ''bob''"
  by (simp_all add: account_def)

lemma issued_Recharge_new:
  "fmlookup (rp_recharges st) (a @ '':'' @ key) = None \<Longrightarrow> account a
    \<Longrightarrow> issued (runOp sha (MRecharge a n key) st)
      = issued st + (if i64 (MaxInt64 - wallet st a) < n then 0 else n)"
  by (simp add: Recharge_def Let_def issued_def fmmap_fmupd fm_total_upd get_or_fmmap)

lemma demo_wallets_eval:
  "rp_wallets demo_wallets = fmupd ''bob'' 100 (fmupd ''alice'' 100 (fmupd ''house'' 0 fmempty))"
  "rp_rooms demo_wallets = fmempty" "rp_history demo_wallets = []"
  by (simp_all add: demo_wallets_def Recharge_def Let_def addWallet_def setWallet_def wallet_def
      NewRepository_def ensureWallet_def MaxInt64_def)

lemma demo_reachable_wallets: "mem_reachable id 2 demo_wallets"
proof -
  have i0: "issued NewRepository = 0" by (simp add: issued_def NewRepository_def)
  have 1: "mem_reachable id (Suc 0) (runOp id (MRecharge ''alice'' 100 ''k1'') NewRepository)"
    by (rule mem_step [OF mem_start]) (simp add: i0 MaxInt64_def)
  have "issued (runOp id (MRecharge ''alice'' 100 ''k1'') NewRepository) = 100"
    using i0 by (subst issued_Recharge_new)
      (simp_all, simp_all add: NewRepository_def wallet_def MaxInt64_def)
  with mem_step [OF 1, of "MRecharge ''bob'' 100 ''k2''"] show ?thesis
    by (simp add: demo_wallets_def MaxInt64_def numeral_2_eq_2)
qed

lemma demo_reachable_open: "mem_reachable id 4 demo_open"
proof -
  have "mem_reachable id (Suc 2) (runOp id (MCreate ''ROOM'' ''host'' ''d1'' ''alice'') demo_wallets)"
    by (rule mem_step [OF demo_reachable_wallets]) simp
  from mem_step [OF this, of "MJoin ''ROOM'' ''guest'' ''d2'' ''bob'' demo_window"] show ?thesis
    by (simp add: demo_open_def)
qed

lemma escrow_not_demo [simp]: "escrowKey c k \<noteq> ''alice''" "escrowKey c k \<noteq> ''bob''"
  "''alice'' \<noteq> escrowKey c k" "''bob'' \<noteq> escrowKey c k"
  using escrowKey_neq(4,5) demo_accounts by metis+

lemma demo_open_eval:
  obtains s where "fmlookup (rp_rooms demo_open) ''ROOM'' = Some s" "s_room s = demo_room"
    "s_owners s = fmupd ''guest'' ''bob'' (fmupd ''host'' ''alice'' fmempty)"
    "s_presence s = fmupd ''guest'' \<lparr>mp_generation = 1, mp_refreshedAt = 0, mp_deadline = 13\<rparr>
       (fmupd ''host'' \<lparr>mp_generation = 1, mp_refreshedAt = 0, mp_deadline = 13\<rparr> fmempty)"
    "get_or False (s_funded s) 1"
proof -
  have "\<exists>s. fmlookup (rp_rooms demo_open) ''ROOM'' = Some s \<and> s_room s = demo_room
    \<and> s_owners s = fmupd ''guest'' ''bob'' (fmupd ''host'' ''alice'' fmempty)
    \<and> s_presence s = fmupd ''guest'' \<lparr>mp_generation = 1, mp_refreshedAt = 0, mp_deadline = 13\<rparr>
       (fmupd ''host'' \<lparr>mp_generation = 1, mp_refreshedAt = 0, mp_deadline = 13\<rparr> fmempty)
    \<and> get_or False (s_funded s) 1"
    using demo_wallets_eval
    by (simp add: demo_open_def Create_def Let_def New_def withNew_def wallet_def JoinFunded_def
        ensureWallet_def Restore_def PersistenceState_def State_def putRoom_def lookupRoom_def
        restoreChecks_def Join_def guarded_eval hasPlayer_def fundRound_def roundOwners_def
        setWallet_def addWallet_def changed_def demo_room_def demo_window_def)
  with that show ?thesis by blast
qed

lemma demo_open_wallets: "wallet demo_open ''alice'' = 50" "wallet demo_open ''bob'' = 50"
  using demo_wallets_eval
    by (simp_all add: demo_open_def Create_def Let_def New_def withNew_def wallet_def JoinFunded_def
        ensureWallet_def Restore_def PersistenceState_def State_def putRoom_def lookupRoom_def
        restoreChecks_def Join_def guarded_eval hasPlayer_def fundRound_def roundOwners_def
        setWallet_def addWallet_def changed_def demo_room_def demo_window_def MaxInt64_def)

lemma demo_open_recharges:
  "fmlookup (rp_recharges demo_open) ''alice:k9'' = None" "fm_total (fmmap mr_amount (rp_recharges demo_open)) = 200"
proof -
  have "rp_recharges demo_open = rp_recharges demo_wallets"
    using demo_wallets_eval
    by (simp add: demo_open_def Create_def Let_def New_def withNew_def wallet_def JoinFunded_def
        ensureWallet_def Restore_def PersistenceState_def State_def putRoom_def lookupRoom_def
        restoreChecks_def Join_def guarded_eval hasPlayer_def fundRound_def roundOwners_def
        setWallet_def addWallet_def changed_def demo_room_def demo_window_def)
  moreover have "rp_recharges demo_wallets = fmupd ''bob:k2'' \<lparr>mr_owner = ''bob'', mr_amount = 100\<rparr>
      (fmupd ''alice:k1'' \<lparr>mr_owner = ''alice'', mr_amount = 100\<rparr> fmempty)"
    by (simp add: demo_wallets_def Recharge_def Let_def NewRepository_def wallet_def ensureWallet_def
        addWallet_def setWallet_def MaxInt64_def)
  ultimately show "fmlookup (rp_recharges demo_open) ''alice:k9'' = None"
    "fm_total (fmmap mr_amount (rp_recharges demo_open)) = 200"
    by (simp_all add: fmmap_fmupd fm_total_upd)
qed

lemma demo_open_rooms: "fmdom (rp_rooms demo_open) = {|''ROOM''|}"
  using demo_wallets_eval
  by (simp add: demo_open_def Create_def Let_def New_def withNew_def wallet_def JoinFunded_def
      ensureWallet_def Restore_def PersistenceState_def State_def putRoom_def lookupRoom_def
      restoreChecks_def Join_def guarded_eval hasPlayer_def fundRound_def roundOwners_def
      setWallet_def addWallet_def changed_def demo_room_def demo_window_def)

lemma demo_open_receipts: "rp_receipts demo_open = fmempty"
  by (simp add: demo_open_def demo_wallets_def receipts_ops withNew_def NewRepository_def
      split: sum.split)

lemma demo_seats:
  "playerForAccount (fmupd ''guest'' ''bob'' (fmupd ''host'' ''alice'' fmempty)) ''alice'' = ''host''"
  "playerForAccount (fmupd ''guest'' ''bob'' (fmupd ''host'' ''alice'' fmempty)) ''bob'' = ''guest''"
  by (rule playerForAccount_found; simp split: if_splits)+

lemma demo_rooms_wf: "wf_room demo_room" "wf_room demo_moved"
  using demo_inv by (simp_all add: room_inv_def)

text \<open>Alice plays rock, then Bob paper.\<close>

definition demo_played :: repository where
  "demo_played = runOp id (MMove ''ROOM'' ''d1'' ''alice'' Rock 4) demo_open"

lemma demo_reachable_played: "mem_reachable id 5 demo_played"
  using mem_step [OF demo_reachable_open, of "MMove ''ROOM'' ''d1'' ''alice'' Rock 4"]
  by (simp add: demo_played_def)

lemma demo_played_eval:
  obtains s where "fmlookup (rp_rooms demo_played) ''ROOM'' = Some s" "s_room s = demo_moved"
    "s_owners s = fmupd ''guest'' ''bob'' (fmupd ''host'' ''alice'' fmempty)"
    "get_or False (s_funded s) 1" "wallet demo_played = wallet demo_open"
proof -
  obtain s where s: "fmlookup (rp_rooms demo_open) ''ROOM'' = Some s" "s_room s = demo_room"
    "s_owners s = fmupd ''guest'' ''bob'' (fmupd ''host'' ''alice'' fmempty)"
    "get_or False (s_funded s) 1" by (rule demo_open_eval)
  have "SubmitMove ''host'' Rock demo_room = Inr demo_moved"
    by (simp add: SubmitMove_def guarded_eval hasPlayer_def IsValidMove_def demo_moved_def
        demo_room_def fcard_finsert_if)
  moreover have "r_round demo_moved = 1" "\<not> r_resolved demo_moved"
    by (simp_all add: demo_moved_def demo_room_def)
  ultimately have "demo_played = snd (commitRoom ''ROOM'' s demo_moved demo_open)"
    using s by (simp add: demo_played_def SubmitMoveAndSettle_def seated_def lookupRoom_def
        memory_authenticate_def demo_seats Restore_PersistenceState demo_rooms_wf Let_def)
  then have p: "commitRoom ''ROOM'' s demo_moved demo_open
    = (fst (commitRoom ''ROOM'' s demo_moved demo_open), demo_played)"
    by (metis prod.collapse)
  note c = commitRoom_result(2,6) [OF p]
  show ?thesis
    by (rule that [of "s\<lparr>s_room := demo_moved, s_revision := s_revision s + 1\<rparr>"])
      (simp_all add: c s)
qed

lemma demo_final_eval:
  obtains snap st' where "SubmitMoveAndSettle ''ROOM'' ''d2'' ''bob'' Paper 5 demo_played = (Inr snap, st')"
    "st_Resolved (sn_State snap)" "st_Result (sn_State snap) = PlayerTwoWins"
    "st_Round (sn_State snap) = 1"
proof -
  obtain s where s: "fmlookup (rp_rooms demo_played) ''ROOM'' = Some s" "s_room s = demo_moved"
    "s_owners s = fmupd ''guest'' ''bob'' (fmupd ''host'' ''alice'' fmempty)"
    "get_or False (s_funded s) 1" by (rule demo_played_eval)
  obtain r' where r': "SubmitMove ''guest'' Paper demo_moved = Inr r'" "r_resolved r'" "r_round r' = 1"
    "r_result r' = PlayerTwoWins" "length (r_players r') = 2"
    by (simp add: SubmitMove_def guarded_eval hasPlayer_def IsValidMove_def demo_moved_def
        demo_room_def fcard_finsert_if resolve_def DetermineResult_def)
  have two: "\<exists>p q. st_Players (State r') = [p, q]"
    using r'(5) by (simp flip: length_2_iff)
  obtain res1 st1 where settle: "settleRound s ''ROOM'' (State r') 5 demo_played = (res1, st1)"
    by fastforce
  with two have "res1 = Inr ()" by (auto simp: settleRound_def Let_def split: if_splits)
  with s r' settle have "SubmitMoveAndSettle ''ROOM'' ''d2'' ''bob'' Paper 5 demo_played
    = commitRoom ''ROOM'' s r' st1"
    by (simp add: SubmitMoveAndSettle_def seated_def lookupRoom_def memory_authenticate_def
        demo_seats Restore_PersistenceState demo_rooms_wf Let_def)
      (simp add: demo_moved_def demo_room_def)
  moreover obtain snap st' where "commitRoom ''ROOM'' s r' st1 = (Inr snap, st')"
    "sn_State snap = State r'"
    by (auto simp: commitRoom_def changed_def snapshotOf_def Let_def)
  ultimately show ?thesis using that r' by (simp add: st_Result_State)
qed

lemma SubmitMove_settles:
  assumes "mem_inv n st" "n < 2 ^ 62"
    and "SubmitMoveAndSettle code d a m now st = (Inr snap, st')" "st_Resolved (sn_State snap)"
  shows "\<exists>s r' st1. fmlookup (rp_rooms st) code = Some s \<and> (\<exists>i. fmlookup (s_owners s) i = Some a)
    \<and> same_seats (s_room s) r' \<and> r_round r' = r_round (s_room s) \<and> \<not> r_resolved (s_room s)
    \<and> length (r_players (s_room s)) = 2
    \<and> settleRound s code (State r') now st = (Inr (), st1) \<and> wallet st' = wallet st1
    \<and> sn_State snap = State r'"
proof (rule seated_cases [OF assms(3) [unfolded SubmitMoveAndSettle_def] assms(1,2)])
  fix s i assume some: "fmlookup (rp_rooms st) code = Some s" and i: "fmlookup (s_owners s) i = Some a"
    and k: "(let wasResolved = st_Resolved (State (s_room s)) in
       case SubmitMove i m (s_room s) of Inl e \<Rightarrow> (Inl e, st)
       | Inr working \<Rightarrow>
           (let state = State working in
            case (if get_or False (s_funded s) (st_Round state) then (Inr s, st)
                  else fundRound s code (st_Round state) '''' st) of
              (Inl e, st1) \<Rightarrow> (Inl e, st1)
            | (Inr stored1, st1) \<Rightarrow>
                (case (if \<not> wasResolved \<and> st_Resolved state
                       then settleRound stored1 code state now st1 else (Inr (), st1)) of
                   (Inl e, st2) \<Rightarrow> (Inl e, st2)
                 | (Inr _, st2) \<Rightarrow> commitRoom code stored1 working st2))) = (Inr snap, st')"
  note room = stored_room_inv [OF assms(1,2) some]
  from k obtain r' where move: "SubmitMove i m (s_room s) = Inr r'"
    by (cases "SubmitMove i m (s_room s)") auto
  note eff = SubmitMove_effect [OF move room(1)]
  have fd: "get_or False (s_funded s) (r_round r')"
    using not_funded_unless_live [OF assms(1,2) some] eff by simp
  have sn: "sn_State snap = State r'"
    using k move fd by (auto simp: commitRoom_def changed_def snapshotOf_def Let_def
        split: if_splits prod.splits sum.splits)
  obtain res1 st1 where settle: "settleRound s code (State r') now st = (res1, st1)" by fastforce
  with k move fd eff sn assms(4) have "res1 = Inr () \<and> commitRoom code s r' st1 = (Inr snap, st')"
    by (auto split: sum.splits)
  with some i eff settle sn commitRoom_result(2) show ?thesis by blast
qed auto

section \<open>Properties\<close>

lemma fundRound_fail: "fundRound s code k j st = (Inl e, st1) \<Longrightarrow> same_money st st1"
  using checkStakes_result [of "roundOwners s j" st]
  by (auto simp: fundRound_def Let_def split: if_splits prod.splits sum.splits)

lemma failed_Join: "JoinFunded code i d a w st = (Inl e, st') \<Longrightarrow> same_money st st'"
  by (auto simp: JoinFunded_def Let_def split: sum.splits prod.splits if_splits
      dest!: fundRound_fail intro: same_money_trans [OF same_money_ensure])

lemma failed_Create: "Create r d a st = (Inl e, st') \<Longrightarrow> same_money st st'"
  by (auto simp: Create_def Let_def split: sum.splits list.splits if_splits)

lemma failed_RequestNextRound:
  "RequestNextRoundAndFund code d a k st = (Inl e, st') \<Longrightarrow> same_money st st'"
  by (auto simp: RequestNextRoundAndFund_def seated_def Let_def commitRoom_def
      split: sum.splits prod.splits if_splits option.splits dest!: fundRound_fail)

lemma failed_SubmitMove:
  assumes "mem_inv n st" "n < 2 ^ 62" "SubmitMoveAndSettle code d a m now st = (Inl e, st')"
  shows "same_money st st'"
proof (rule seated_cases [OF assms(3) [unfolded SubmitMoveAndSettle_def] assms(1,2)])
  fix s i assume some: "fmlookup (rp_rooms st) code = Some s"
    and k: "(let wasResolved = st_Resolved (State (s_room s)) in
       case SubmitMove i m (s_room s) of Inl e \<Rightarrow> (Inl e, st)
       | Inr working \<Rightarrow>
           (let state = State working in
            case (if get_or False (s_funded s) (st_Round state) then (Inr s, st)
                  else fundRound s code (st_Round state) '''' st) of
              (Inl e, st1) \<Rightarrow> (Inl e, st1)
            | (Inr stored1, st1) \<Rightarrow>
                (case (if \<not> wasResolved \<and> st_Resolved state
                       then settleRound stored1 code state now st1 else (Inr (), st1)) of
                   (Inl e, st2) \<Rightarrow> (Inl e, st2)
                 | (Inr _, st2) \<Rightarrow> commitRoom code stored1 working st2))) = (Inl e, st')"
  note room = stored_room_inv [OF assms(1,2) some]
  show ?thesis
  proof (cases "SubmitMove i m (s_room s)")
    case (Inl e')
    with k show ?thesis by simp
  next
    case (Inr r')
    note eff = SubmitMove_effect [OF Inr room(1)]
    have fd: "get_or False (s_funded s) (r_round r')"
      using not_funded_unless_live [OF assms(1,2) some] eff by simp
    obtain res1 st1 where settle: "settleRound s code (State r') now st = (res1, st1)" by fastforce
    have "res1 = Inr ()"
      using settle_open_round [OF assms(1,2) some _ _ _ _ settle] eff by metis
    with k Inr fd settle have False by (auto simp: commitRoom_def Let_def split: if_splits prod.splits)
    then show ?thesis ..
  qed
qed simp

text \<open>C8: coins are conserved. In every state reached by the service's operations (seats taken by proper
  accounts, positive recharges, fewer than \<open>2^62\<close> operations), however many coins were issued, the wallets (players, house and escrow) together hold exactly the coins recharged modulo \<open>2^64\<close>, each
  wallet is an \<open>int64\<close>, and the house wallet that \<open>Analytics\<close> reports is the wrapped sum of the earnings in
  the history. As long as no more than \<open>MaxInt64\<close> coins were issued in all, nothing has wrapped: the sums
  are exact and no wallet is negative. Only a recharge creates coins, and nothing destroys them.\<close>

theorem coins_conserved:
  assumes "mem_reachable sha n st" "n < 2 ^ 62"
  shows "fm_total (rp_wallets st) mod 2 ^ 64 = fm_total (fmmap mr_amount (rp_recharges st)) mod 2 ^ 64
    \<and> (\<forall>a. - (2 ^ 63) \<le> wallet st a \<and> wallet st a \<le> MaxInt64)
    \<and> (\<exists>an. Analytics st = Inr an
         \<and> an_TotalHouseEarnings an = i64 (sum_list (map h_HouseEarnings (an_Rounds an)))
         \<and> (fm_total (fmmap mr_amount (rp_recharges st)) \<le> MaxInt64 \<longrightarrow>
              fm_total (rp_wallets st) = fm_total (fmmap mr_amount (rp_recharges st)) \<and> (\<forall>a. 0 \<le> wallet st a)
              \<and> an_TotalHouseEarnings an = sum_list (map h_HouseEarnings (an_Rounds an))))"
proof -
  have bk: "books st" using mem_reachable_inv [OF assms] by (simp add: mem_inv_def)
  then have "in_range st" "cong64 (total st) (issued st)"
    "issued st \<le> MaxInt64 \<longrightarrow> nonneg st \<and> total st = issued st \<and> wallet st ''house'' = earnings (rp_history st)"
    "wallet st ''house'' = i64 (earnings (rp_history st))" unfolding books_def by blast+
  then show ?thesis
    unfolding Analytics_def in_range_def cong64_def nonneg_def total_def issued_def earnings_def by simp
qed

theorem coins_conserved_witness:
  "fm_total (rp_wallets demo_open) = fm_total (fmmap mr_amount (rp_recharges demo_open))
    \<and> wallet demo_open ''alice'' = 50"
proof -
  have "fm_total (fmmap mr_amount (rp_recharges demo_open)) \<le> MaxInt64"
    using demo_open_recharges(2) by (simp add: MaxInt64_def)
  then show ?thesis using coins_conserved [OF demo_reachable_open] demo_open_wallets by auto
qed

text \<open>escrow follows the rounds. The escrow wallet of a room's round holds both stakes exactly
  while that round is being played, and is empty before it starts, after it is settled, and for
  rooms that do not exist.\<close>

theorem escrow_follows_rounds:
  assumes "mem_reachable sha n st" "n < 2 ^ 62"
  shows "wallet st (escrowKey code k) =
    (case fmlookup (rp_rooms st) code of
       None \<Rightarrow> 0
     | Some s \<Rightarrow> if st_Ready (State (s_room s)) \<and> \<not> st_Resolved (State (s_room s))
                   \<and> st_Round (State (s_room s)) = k then 2 * RoundStake else 0)"
  using mem_reachable_inv [OF assms]
  by (auto simp: mem_inv_def escrow_ok_def on_room_def s_live_def split: option.split)

theorem escrow_follows_rounds_witness:
  "wallet demo_open (escrowKey ''ROOM'' 1) = 100 \<and> wallet demo_open (escrowKey ''ROOM'' 2) = 0"
proof -
  obtain s where "fmlookup (rp_rooms demo_open) ''ROOM'' = Some s" "s_room s = demo_room"
    by (rule demo_open_eval)
  then show ?thesis
    using escrow_follows_rounds [OF demo_reachable_open, of "''ROOM''" 1]
      escrow_follows_rounds [OF demo_reachable_open, of "''ROOM''" 2]
    by (simp add: demo_room_def)
qed

text \<open>every round is settled once. The history has no two entries for the same round of the same
  room, and it has an entry exactly for the rounds a room has finished.\<close>

theorem rounds_settled_once:
  assumes "mem_reachable sha n st" "n < 2 ^ 62"
  shows "distinct (map (\<lambda>h. (h_RoomCode h, h_Round h)) (rp_history st))
    \<and> ((code, k) \<in> (\<lambda>h. (h_RoomCode h, h_Round h)) ` set (rp_history st) \<longleftrightarrow>
       (\<exists>s. fmlookup (rp_rooms st) code = Some s \<and> st_Ready (State (s_room s)) \<and> k \<noteq> 0
          \<and> (k < st_Round (State (s_room s))
             \<or> k = st_Round (State (s_room s)) \<and> st_Resolved (State (s_room s)))))"
  using mem_reachable_inv [OF assms]
  by (auto simp: mem_inv_def history_ok_def books_def round_keys_def on_room_def s_past_def
      split: option.splits)

theorem rounds_settled_once_witness:
  "(''ROOM'', 1) \<notin> (\<lambda>h. (h_RoomCode h, h_Round h)) ` set (rp_history demo_open)"
proof -
  obtain s where "fmlookup (rp_rooms demo_open) ''ROOM'' = Some s" "s_room s = demo_room"
    by (rule demo_open_eval)
  then show ?thesis
    using rounds_settled_once [OF demo_reachable_open, of "''ROOM''" 1]
    by (simp add: demo_room_def)
qed

text \<open>what a settlement pays. When a move completes a round, a draw gives each player the stake
  back; otherwise the winner's wallet gains the winner's payout and the house its share; no other
  wallet but the round's escrow changes.\<close>

theorem settlement_pays:
  assumes "mem_reachable sha n st" "n < 2 ^ 62"
    and "SubmitMoveAndSettle code d a m now st = (Inr snap, st')" "st_Resolved (sn_State snap)"
  shows "\<exists>s host guest. fmlookup (rp_rooms st) code = Some s
    \<and> map (fmlookup (s_owners s)) (player_ids (s_room s)) = [Some host, Some guest]
    \<and> a \<in> {host, guest} \<and> host \<noteq> guest
    \<and> wallet st' (escrowKey code (st_Round (sn_State snap))) = 0
    \<and> (\<forall>x. x \<noteq> escrowKey code (st_Round (sn_State snap)) \<longrightarrow>
         wallet st' x = i64 (wallet st x
          + (if st_Result (sn_State snap) = Draw then (if x = host \<or> x = guest then RoundStake else 0)
             else if x = ''house'' then HousePayout
             else if x = (if st_Result (sn_State snap) = PlayerTwoWins then guest else host)
               then WinnerPayout else 0)))"

proof -
  note inv = mem_reachable_inv [OF assms(1,2)]
  from SubmitMove_settles [OF inv assms(2-4)] obtain s r' st1 where
    some: "fmlookup (rp_rooms st) code = Some s" and seat: "\<exists>i. fmlookup (s_owners s) i = Some a"
    and eff: "same_seats (s_room s) r'" "r_round r' = r_round (s_room s)"
      "\<not> r_resolved (s_room s)" "length (r_players (s_room s)) = 2"
    and settle: "settleRound s code (State r') now st = (Inr (), st1)"
    and out: "wallet st' = wallet st1" "sn_State snap = State r'" by blast
  from settle_open_round [OF inv assms(2) some eff settle] obtain p q h g where
    o: "player_ids (s_room s) = [p, q]" "fmlookup (s_owners s) p = Some h"
      "fmlookup (s_owners s) q = Some g" "h \<noteq> g" "account h" "account g"
      and pays: "settled_by code (State r') h g now st st1" by metis
  from seat obtain i where i: "fmlookup (s_owners s) i = Some a" by blast
  then have "i \<in> {p, q}"
    using o(1) stored_room_inv(5) [OF inv assms(2) some] by (auto simp: owners_ok_def dest: fmdomI)
  with i o(2,3) have "a = h \<or> a = g" by auto
  with o some out pays show ?thesis
    by (intro exI [of _ s] exI [of _ h] exI [of _ g]) (auto simp: settled_by_def settled_share_def)
qed

theorem settlement_pays_witness:
  "\<exists>snap st'. SubmitMoveAndSettle ''ROOM'' ''d2'' ''bob'' Paper 5 demo_played = (Inr snap, st')
     \<and> wallet st' ''bob'' = 125 \<and> wallet st' ''alice'' = 50"
proof -
  obtain s where s: "fmlookup (rp_rooms demo_played) ''ROOM'' = Some s" "s_room s = demo_moved"
    "s_owners s = fmupd ''guest'' ''bob'' (fmupd ''host'' ''alice'' fmempty)"
    "wallet demo_played = wallet demo_open" by (rule demo_played_eval)
  obtain snap st' where m: "SubmitMoveAndSettle ''ROOM'' ''d2'' ''bob'' Paper 5 demo_played = (Inr snap, st')"
    "st_Resolved (sn_State snap)" "st_Result (sn_State snap) = PlayerTwoWins"
    "st_Round (sn_State snap) = 1" by (rule demo_final_eval)
  from settlement_pays [OF demo_reachable_played _ m(1,2)] s m(3,4)
  have "\<forall>x. x \<noteq> escrowKey ''ROOM'' 1 \<longrightarrow> wallet st' x = i64 (wallet demo_open x
    + (if x = ''house'' then 25 else if x = ''bob'' then 75 else 0))"
    by (auto simp: player_ids_def demo_moved_def demo_room_def)
  with m(1) demo_open_wallets show ?thesis by (simp add: MaxInt64_def)
qed

text \<open>commands are idempotent. Once a command has succeeded, whatever other operations follow,
  sending it again returns the recorded result marked as replayed and changes nothing, without
  running anything; the same key with another account, operation or request is a conflict and
  changes nothing either.\<close>

theorem command_replay:
  assumes "executeCommand a c op st = (Inr res, st1)" "st2 = fold (runOp sha) ops st1"
  shows "executeCommand a c op' st2 = (Inr (res\<lparr>cmd_Replayed := True\<rparr>), st2)
    \<and> (c_Key c' = c_Key c \<and> (a' \<noteq> a \<or> c_Operation c' \<noteq> c_Operation c
          \<or> c_RequestHash c' \<noteq> c_RequestHash c) \<longrightarrow>
        executeCommand a' c' op' st2 = (Inl (Err ErrIdempotencyConflict), st2))"
proof -
  have "\<exists>rc. fmlookup (rp_receipts st1) (c_Key c) = Some rc \<and> sameRequest rc a c
      \<and> (rc_result rc)\<lparr>cmd_Replayed := True\<rparr> = res\<lparr>cmd_Replayed := True\<rparr>"
    using assms(1)
    by (auto simp: executeCommand_def sameRequest_def split: option.splits prod.splits sum.splits
        if_splits)
  then obtain rc where rc: "fmlookup (rp_receipts st2) (c_Key c) = Some rc" "sameRequest rc a c"
    "(rc_result rc)\<lparr>cmd_Replayed := True\<rparr> = res\<lparr>cmd_Replayed := True\<rparr>"
    unfolding assms(2) using receipt_kept_runOps by blast
  then show ?thesis by (auto simp: executeCommand_def sameRequest_def)
qed

definition demo_command :: Command where
  "demo_command = \<lparr>c_Key = ''key-1'', c_Operation = ''wallet.recharge'', c_RequestHash = ''h'',
     c_ResponseStatus = 200\<rparr>"

theorem command_replay_witness:
  "\<exists>res st1. RechargeCommand ''alice'' 60 demo_command demo_wallets = (Inr res, st1)
     \<and> cmd_Balance res = 160
     \<and> RechargeCommand ''alice'' 60 demo_command (runOp id (MBalance ''bob'') st1)
        = (Inr (res\<lparr>cmd_Replayed := True\<rparr>), runOp id (MBalance ''bob'') st1)"
proof -
  have k: "fmlookup (rp_receipts demo_wallets) ''key-1'' = None"
    "fmlookup (rp_recharges demo_wallets) ''alice:key-1'' = None"
    by (simp_all add: demo_wallets_def NewRepository_def Recharge_def Let_def receipts_Recharge)
  have "\<exists>res st1. RechargeCommand ''alice'' 60 demo_command demo_wallets = (Inr res, st1)
     \<and> cmd_Balance res = 160"
    using k demo_wallets_eval
    by (simp add: RechargeCommand_def executeCommand_def mapStep_def demo_command_def Recharge_def
        Let_def wallet_def ensureWallet_def addWallet_def setWallet_def MaxInt64_def
        zeroCommandResult_def)
  then obtain res st1 where r: "RechargeCommand ''alice'' 60 demo_command demo_wallets = (Inr res, st1)"
    "cmd_Balance res = 160" by blast
  from command_replay [OF r(1) [unfolded RechargeCommand_def], of _ id "[MBalance ''bob'']"] r
  show ?thesis by (fastforce simp: RechargeCommand_def)
qed

text \<open>only seated accounts touch a room. For an account that owns no seat of the room, every
  operation on it fails with \<open>ErrUnauthorized\<close> whatever credential it presents, leaves the whole
  state as it was, and reveals nothing.\<close>

theorem outsiders_refused:
  assumes "fmlookup (rp_rooms st) code = Some s" "\<And>i. fmlookup (s_owners s) i \<noteq> Some a"
  shows "SubmitMoveAndSettle code d a m now st = (Inl (Err ErrUnauthorized), st)
    \<and> RequestNextRoundAndFund code d a k st = (Inl (Err ErrUnauthorized), st)
    \<and> Mutate code d a mu st = (Inl (Err ErrUnauthorized), st)
    \<and> RefreshPresence code d a w st = (Inl (Err ErrUnauthorized), st)
    \<and> Authenticate code d a st = Inl (Err ErrUnauthorized)
    \<and> SnapshotForAccount code a st = Inl (Err ErrUnauthorized)"
  using assms(1) playerForAccount_none [OF assms(2)]
  by (simp add: SubmitMoveAndSettle_def RequestNextRoundAndFund_def Mutate_def seated_def
      RefreshPresence_def Authenticate_def SnapshotForAccount_def lookupRoom_def
      memory_authenticate_def Let_def)

theorem outsiders_refused_witness:
  "SubmitMoveAndSettle ''ROOM'' ''d1'' ''mallory'' Rock 1 demo_open = (Inl (Err ErrUnauthorized), demo_open)"
proof -
  obtain s where s: "fmlookup (rp_rooms demo_open) ''ROOM'' = Some s"
    "s_owners s = fmupd ''guest'' ''bob'' (fmupd ''host'' ''alice'' fmempty)"
    by (rule demo_open_eval)
  from s(2) have "fmlookup (s_owners s) i \<noteq> Some ''mallory''" for i by simp
  from outsiders_refused [OF s(1) this] show ?thesis by blast
qed

text \<open>a seat is found by its account alone. In a reachable state the room restores, an account
  has at most one seat, and \<open>Authenticate\<close> gives the owner of the first seat the role host and
  the owner of the second the role guest, with any credential.\<close>

theorem seats_by_account:
  assumes "mem_reachable sha n st" "n < 2 ^ 62" "fmlookup (rp_rooms st) code = Some s"
    and "fmlookup (s_owners s) i = Some a"
  shows "Restore (PersistenceState (s_room s)) = Inr (s_room s)
    \<and> (\<forall>j. fmlookup (s_owners s) j = Some a \<longrightarrow> j = i)
    \<and> Authenticate code d a st = Inr (snapshotOf s,
        if i = hd (player_ids (s_room s)) then ''host'' else ''guest'')"
proof -
  note room = stored_room_inv [OF mem_reachable_inv [OF assms(1,2)] assms(2,3)]
  have one: "j = i" if "fmlookup (s_owners s) j = Some a" for j
    using room(5) assms(4) that by (auto simp: owners_ok_def)
  have "i \<in> set (player_ids (s_room s))" "account a"
    using room(5) assms(4) by (auto simp: owners_ok_def dest: fmdomI)
  moreover have "'''' \<notin> set (player_ids (s_room s))"
    using room(3) by (simp add: wf_room_def wf_seats_def)
  ultimately have ne: "i \<noteq> ''''" "a \<noteq> ''''" by (metis, simp)
  have p: "playerForAccount (s_owners s) a = i"
    by (rule playerForAccount_found [OF assms(4) ne one])
  obtain hv rest where hv: "st_Players (State (s_room s)) = hv # rest"
    using room(3) by (cases "st_Players (State (s_room s))") (auto simp: wf_room_def wf_seats_def)
  then have "pv_ID hv = hd (player_ids (s_room s))"
    using State_simps(5) [of "s_room s"] by (metis list.map(2) list.sel(1))
  with p hv assms(3) ne one room(3) show ?thesis
    by (simp add: Authenticate_def lookupRoom_def memory_authenticate_def Let_def
        Restore_PersistenceState)
qed

theorem seats_by_account_witness:
  "\<exists>s. Authenticate ''ROOM'' '''' ''bob'' demo_open = Inr (snapshotOf s, ''guest'')"
proof -
  obtain s where s: "fmlookup (rp_rooms demo_open) ''ROOM'' = Some s" "s_room s = demo_room"
    "s_owners s = fmupd ''guest'' ''bob'' (fmupd ''host'' ''alice'' fmempty)"
    by (rule demo_open_eval)
  then have "fmlookup (s_owners s) ''guest'' = Some ''bob''" by simp
  from seats_by_account [OF demo_reachable_open _ s(1) this] s show ?thesis
    by (auto simp: demo_room_def player_ids_def)
qed

text \<open>a failed operation changes nothing. When one of the funded operations returns an error, the
  rooms, the history, the recharges and every balance are as before (an empty wallet may have been
  created); in particular no stake is taken from one player when the other cannot pay.\<close>

theorem failed_operation_changes_nothing:
  assumes "mem_reachable sha n st" "n < 2 ^ 62"
    and "JoinFunded code i d a w st = (Inl e, st')
      \<or> SubmitMoveAndSettle code d a m now st = (Inl e, st')
      \<or> RequestNextRoundAndFund code d a k st = (Inl e, st')
      \<or> Create r d a st = (Inl e, st')"
  shows "wallet st' = wallet st \<and> fm_total (rp_wallets st') = fm_total (rp_wallets st)
    \<and> rp_rooms st' = rp_rooms st \<and> rp_history st' = rp_history st
    \<and> rp_recharges st' = rp_recharges st"
proof -
  note inv = mem_reachable_inv [OF assms(1,2)]
  from assms(3) have "same_money st st'"
    using failed_Join failed_SubmitMove [OF inv assms(2)]
      failed_RequestNextRound failed_Create
    by (elim disjE) simp_all
  then show ?thesis by (simp add: same_money_def same_frame_def total_def)
qed

theorem failed_operation_changes_nothing_witness:
  "\<exists>st'. SubmitMoveAndSettle ''ROOM'' ''d1'' ''alice'' ''lizard'' 1 demo_open
       = (Inl (ErrQ ErrInvalidMove ''lizard''), st')
     \<and> wallet st' = wallet demo_open"
proof -
  obtain s where s: "fmlookup (rp_rooms demo_open) ''ROOM'' = Some s" "s_room s = demo_room"
    "s_owners s = fmupd ''guest'' ''bob'' (fmupd ''host'' ''alice'' fmempty)"
    by (rule demo_open_eval)
  have "SubmitMove ''host'' ''lizard'' demo_room = Inl (ErrQ ErrInvalidMove ''lizard'')"
    by (simp add: SubmitMove_def guarded_eval hasPlayer_def IsValidMove_def demo_room_def)
  with s have "SubmitMoveAndSettle ''ROOM'' ''d1'' ''alice'' ''lizard'' 1 demo_open
      = (Inl (ErrQ ErrInvalidMove ''lizard''), demo_open)"
    by (simp add: SubmitMoveAndSettle_def seated_def lookupRoom_def memory_authenticate_def
        demo_seats Restore_PersistenceState demo_rooms_wf Let_def)
  with failed_operation_changes_nothing [OF demo_reachable_open] show ?thesis by fastforce
qed

lemma ForfeitExpired_True:
  assumes "mem_inv n st" "n < 2 ^ 62" "ForfeitExpired l now st = (Inr (snap, True), st')"
  shows "\<exists>s m r' st1. fmlookup (rp_rooms st) (l_RoomCode l) = Some s
    \<and> fmlookup (s_presence s) (l_PlayerID l) = Some m \<and> mp_generation m = l_Generation l
    \<and> mp_deadline m \<le> now
    \<and> remainingConnected l now (s_presence s) (st_Players (State (s_room s))) False
    \<and> Forfeit (l_PlayerID l) (l_Round l) (s_room s) = Inr r'
    \<and> settleRound s (l_RoomCode l) (State r') now st = (Inr (), st1) \<and> wallet st' = wallet st1"
proof -
  from assms(3) obtain s where some: "fmlookup (rp_rooms st) (l_RoomCode l) = Some s"
    by (cases "fmlookup (rp_rooms st) (l_RoomCode l)") (auto simp: ForfeitExpired_def lookupRoom_def)
  note room = stored_room_inv [OF assms(1,2) some]
  have res: "Restore (PersistenceState (s_room s)) = Inr (s_room s)"
    using room(3) by (simp add: Restore_PersistenceState)
  from assms(3) some res obtain m r' where m: "fmlookup (s_presence s) (l_PlayerID l) = Some m"
    "mp_generation m = l_Generation l" "mp_deadline m \<le> now"
    "remainingConnected l now (s_presence s) (st_Players (State (s_room s))) False"
    and ff: "Forfeit (l_PlayerID l) (l_Round l) (s_room s) = Inr r'"
    by (auto simp: ForfeitExpired_def lookupRoom_def Let_def
        split: option.splits if_splits sum.splits)
  note eff = Forfeit_effect [OF ff]
  have fd: "get_or False (s_funded s) (r_round r')"
    using not_funded_unless_live [OF assms(1,2) some] eff by simp
  obtain res1 st1 where settle: "settleRound s (l_RoomCode l) (State r') now st = (res1, st1)"
    by fastforce
  have "res1 = Inr ()"
    using settle_open_round [OF assms(1,2) some _ _ _ _ settle] eff by metis
  moreover obtain x st2 where cm: "commitRoom (l_RoomCode l) s r' st1 = (Inr x, st2)"
    by (cases "changed (l_RoomCode l) (s\<lparr>s_room := r'\<rparr>) st1") (auto simp: commitRoom_def)
  moreover from assms(3) some res m ff fd settle calculation have "st' = st2"
    by (simp add: ForfeitExpired_def lookupRoom_def Let_def)
  ultimately show ?thesis
    using some m ff settle commitRoom_result(2) [OF cm] by blast
qed

text \<open>a forfeit needs an expired lease and a present opponent. \<open>ForfeitExpired\<close> reports a
  forfeit only for the current generation of a presence whose deadline has passed, while the other
  player's deadline lies ahead and was renewed after the lease's proof instant; the absent player
  then loses the round and the other is paid.\<close>

theorem forfeit_needs_expired_lease:
  assumes "mem_reachable sha n st" "n < 2 ^ 62" "ForfeitExpired l now st = (Inr (snap, True), st')"
  shows "\<exists>s p q m m'. fmlookup (rp_rooms st) (l_RoomCode l) = Some s
    \<and> set (player_ids (s_room s)) = {p, q} \<and> p \<noteq> q \<and> p = l_PlayerID l
    \<and> fmlookup (s_presence s) p = Some m \<and> mp_generation m = l_Generation l \<and> mp_deadline m \<le> now
    \<and> fmlookup (s_presence s) q = Some m' \<and> now < mp_deadline m' \<and> l_ProofAfter l < mp_refreshedAt m'
    \<and> wallet st' (get_or '''' (s_owners s) q) = i64 (wallet st (get_or '''' (s_owners s) q) + WinnerPayout)
    \<and> wallet st' (get_or '''' (s_owners s) p) = wallet st (get_or '''' (s_owners s) p)"
proof -
  note inv = mem_reachable_inv [OF assms(1,2)]
  from ForfeitExpired_True [OF inv assms(2,3)] obtain s m r' st1 where
    some: "fmlookup (rp_rooms st) (l_RoomCode l) = Some s"
    and m: "fmlookup (s_presence s) (l_PlayerID l) = Some m" "mp_generation m = l_Generation l"
      "mp_deadline m \<le> now"
    and rc: "remainingConnected l now (s_presence s) (st_Players (State (s_room s))) False"
    and ff: "Forfeit (l_PlayerID l) (l_Round l) (s_room s) = Inr r'"
    and settle: "settleRound s (l_RoomCode l) (State r') now st = (Inr (), st1)"
    and w: "wallet st' = wallet st1" by blast
  note eff = Forfeit_effect [OF ff]
  from settle_open_round [OF inv assms(2) some _ _ _ _ settle] eff obtain p q h g where
    o: "player_ids (s_room s) = [p, q]" "fmlookup (s_owners s) p = Some h"
      "fmlookup (s_owners s) q = Some g" "h \<noteq> g" "account h" "account g"
      and pays: "settled_by (l_RoomCode l) (State r') h g now st st1" by metis
  have pq: "p \<noteq> q" using o(2-4) by auto
  have "in_range st" using inv by (simp add: mem_inv_def books_def)
  note won = settled_wallets [OF pays this o(5,6,4)]
  from o(1) obtain P Q where v: "st_Players (State (s_room s)) = [P, Q]" "pv_ID P = p" "pv_ID Q = q"
    using State_simps(5) [of "s_room s"] by (auto simp: map_eq_Cons_conv simp del: State_simps)
  have res: "st_Result (State r') = (if p = l_PlayerID l then PlayerTwoWins else PlayerOneWins)"
    using Forfeit_settled [OF ff] o(1) eff by (simp add: st_Result_State)
  from eff o(1) have "l_PlayerID l = p \<or> l_PlayerID l = q" by auto
  then show ?thesis
  proof
    assume p: "l_PlayerID l = p"
    with rc v pq obtain m' where "fmlookup (s_presence s) q = Some m'" "now < mp_deadline m'"
      "l_ProofAfter l < mp_refreshedAt m'" by (auto split: option.splits)
    with some o pq m p won(1) res w show ?thesis
      by (intro exI [of _ s] exI [of _ p] exI [of _ q] exI [of _ m] exI [of _ m']) simp
  next
    assume p: "l_PlayerID l = q"
    with rc v pq obtain m' where "fmlookup (s_presence s) p = Some m'" "now < mp_deadline m'"
      "l_ProofAfter l < mp_refreshedAt m'" by (auto split: option.splits)
    with some o pq m p won(2) res w show ?thesis
      by (intro exI [of _ s] exI [of _ q] exI [of _ p] exI [of _ m] exI [of _ m']) auto
  qed
qed

text \<open>Bob's heartbeat at time 14; the host's presence has expired at 13.\<close>

definition demo_heartbeat :: PresenceWindow where
  "demo_heartbeat = \<lparr>w_ObservedAt = 14, w_ProofAfter = 27, w_Deadline = 27, w_EvaluateAt = 30\<rparr>"

definition demo_lease :: PresenceLease where
  "demo_lease = \<lparr>l_RoomCode = ''ROOM'', l_PlayerID = ''host'', l_Round = 1, l_Generation = 2,
     l_Deadline = 13, l_EvaluateAt = 16, l_ProofAfter = 13, l_Active = True\<rparr>"

definition demo_refreshed :: repository where
  "demo_refreshed = runOp id (MRefresh ''ROOM'' ''d2'' ''bob'' demo_heartbeat) demo_open"

lemma demo_refreshed_eval:
  obtains s where "fmlookup (rp_rooms demo_refreshed) ''ROOM'' = Some s" "s_room s = demo_room"
    "s_owners s = fmupd ''guest'' ''bob'' (fmupd ''host'' ''alice'' fmempty)"
    "fmlookup (s_presence s) ''host'' = Some \<lparr>mp_generation = 2, mp_refreshedAt = 0, mp_deadline = 13\<rparr>"
    "fmlookup (s_presence s) ''guest'' = Some \<lparr>mp_generation = 2, mp_refreshedAt = 14, mp_deadline = 27\<rparr>"
    "get_or False (s_funded s) 1" "mem_reachable id 5 demo_refreshed"
proof -
  obtain s where s: "fmlookup (rp_rooms demo_open) ''ROOM'' = Some s" "s_room s = demo_room"
    "s_owners s = fmupd ''guest'' ''bob'' (fmupd ''host'' ''alice'' fmempty)"
    "s_presence s = fmupd ''guest'' \<lparr>mp_generation = 1, mp_refreshedAt = 0, mp_deadline = 13\<rparr>
       (fmupd ''host'' \<lparr>mp_generation = 1, mp_refreshedAt = 0, mp_deadline = 13\<rparr> fmempty)"
    "get_or False (s_funded s) 1" by (rule demo_open_eval)
  have pl: "st_Players (State demo_room) = [
      \<lparr>pv_ID = ''host'', pv_Wins = 0, pv_Submitted = False, pv_WantsNextRound = False\<rparr>,
      \<lparr>pv_ID = ''guest'', pv_Wins = 0, pv_Submitted = False, pv_WantsNextRound = False\<rparr>]"
    by (simp add: State_def demo_room_def)
  define pres where "pres = fmupd ''guest'' \<lparr>mp_generation = 2, mp_refreshedAt = 14, mp_deadline = 27\<rparr>
    (fmupd ''host'' \<lparr>mp_generation = 2, mp_refreshedAt = 0, mp_deadline = 13\<rparr>
      (fmupd ''guest'' \<lparr>mp_generation = 1, mp_refreshedAt = 14, mp_deadline = 27\<rparr>
        (fmupd ''host'' \<lparr>mp_generation = 1, mp_refreshedAt = 0, mp_deadline = 13\<rparr> fmempty)))"
  have p: "demo_refreshed = putRoom ''ROOM'' (s\<lparr>s_presence := pres\<rparr>) demo_open"
    using s pl by (simp add: demo_refreshed_def RefreshPresence_def lookupRoom_def
        memory_authenticate_def demo_seats Let_def demo_heartbeat_def pres_def)
  have q: "fmlookup pres ''host'' = Some \<lparr>mp_generation = 2, mp_refreshedAt = 0, mp_deadline = 13\<rparr>"
    "fmlookup pres ''guest'' = Some \<lparr>mp_generation = 2, mp_refreshedAt = 14, mp_deadline = 27\<rparr>"
    by (simp_all add: pres_def)
  have "mem_reachable id 5 demo_refreshed"
    using mem_step [OF demo_reachable_open, of "MRefresh ''ROOM'' ''d2'' ''bob'' demo_heartbeat"]
    by (simp add: demo_refreshed_def)
  moreover have "fmlookup (rp_rooms demo_refreshed) ''ROOM'' = Some (s\<lparr>s_presence := pres\<rparr>)"
    unfolding p by simp
  ultimately show ?thesis
    using s q by (intro that [of "s\<lparr>s_presence := pres\<rparr>"]) simp_all
qed

theorem forfeit_needs_expired_lease_witness:
  "\<exists>snap st'. ForfeitExpired demo_lease 20 demo_refreshed = (Inr (snap, True), st')
     \<and> wallet st' ''bob'' = i64 (wallet demo_refreshed ''bob'' + 75)"
proof -
  obtain s where s: "fmlookup (rp_rooms demo_refreshed) ''ROOM'' = Some s" "s_room s = demo_room"
    "s_owners s = fmupd ''guest'' ''bob'' (fmupd ''host'' ''alice'' fmempty)"
    "fmlookup (s_presence s) ''host'' = Some \<lparr>mp_generation = 2, mp_refreshedAt = 0, mp_deadline = 13\<rparr>"
    "fmlookup (s_presence s) ''guest'' = Some \<lparr>mp_generation = 2, mp_refreshedAt = 14, mp_deadline = 27\<rparr>"
    "get_or False (s_funded s) 1" "mem_reachable id 5 demo_refreshed" by (rule demo_refreshed_eval)
  obtain r' where r': "Forfeit ''host'' 1 demo_room = Inr r'" "r_round r' = 1"
    "length (r_players r') = 2"
    by (simp add: Forfeit_def guarded_eval hasPlayer_def demo_room_def Let_def)
  have two: "\<exists>p q. st_Players (State r') = [p, q]" using r'(3) by (simp flip: length_2_iff)
  have "\<exists>st1. settleRound s ''ROOM'' (State r') 20 demo_refreshed = (Inr (), st1)"
    using two by (auto simp: settleRound_def Let_def)
  then have "\<exists>snap st'. ForfeitExpired demo_lease 20 demo_refreshed = (Inr (snap, True), st')"
    using s r' demo_rooms_wf
    by (auto simp: ForfeitExpired_def lookupRoom_def demo_lease_def Restore_PersistenceState
        commitRoom_def changed_def Let_def State_def demo_room_def)
  then obtain snap st' where f: "ForfeitExpired demo_lease 20 demo_refreshed = (Inr (snap, True), st')"
    by blast
  from forfeit_needs_expired_lease [OF s(7) _ f] s f show ?thesis
    by (auto simp: demo_lease_def player_ids_def demo_room_def doubleton_eq_iff)
qed

text \<open>defect. A recharge is bounded by the wallet alone, not by what the account has at stake. A
  player who fills the wallet to the largest \<open>int64\<close> while a round is open, and then wins it,
  ends with a negative balance: the payout wraps around.\<close>

theorem recharge_during_round_overflows:
  assumes "0 \<le> wallet st a" "wallet st a \<le> MaxInt64" "account a"
    and "fmlookup (rp_recharges st) (a @ '':'' @ key) = None"
    and "wallet st (escrowKey code (st_Round state)) = 2 * RoundStake"
    and "st_Players state = [p, q]" "get_or '''' (s_owners s) (pv_ID p) = a"
    and "st_Result state = PlayerOneWins"
  shows "\<exists>st1 st2. Recharge a (MaxInt64 - wallet st a) key st = (Inr MaxInt64, st1)
    \<and> settleRound s code state now st1 = (Inr (), st2) \<and> wallet st2 a < 0"
proof -
  obtain st1 where r: "Recharge a (MaxInt64 - wallet st a) key st = (Inr MaxInt64, st1)"
    "wallet st1 a = MaxInt64" "wallet st1 (escrowKey code (st_Round state)) = 2 * RoundStake"
    using assms(1-5) by (simp add: Recharge_def Let_def MaxInt64_def)
  moreover have "i64 (MaxInt64 + WinnerPayout) < 0" by (simp add: i64_def MaxInt64_def)
  ultimately have "\<exists>st2. settleRound s code state now st1 = (Inr (), st2) \<and> wallet st2 a < 0"
    using assms(3,6-8) by (simp add: settleRound_def Let_def paySettlement_def)
  with r(1) show ?thesis by blast
qed

theorem recharge_during_round_overflows_witness:
  "\<exists>s st1 st2. fmlookup (rp_rooms demo_open) ''ROOM'' = Some s
     \<and> Recharge ''alice'' (MaxInt64 - 50) ''k9'' demo_open = (Inr MaxInt64, st1)
     \<and> (\<exists>r'. settleRound s ''ROOM'' (State r') 9 st1 = (Inr (), st2)) \<and> wallet st2 ''alice'' < 0"
proof -
  obtain s where s: "fmlookup (rp_rooms demo_open) ''ROOM'' = Some s" "s_room s = demo_room"
    "s_owners s = fmupd ''guest'' ''bob'' (fmupd ''host'' ''alice'' fmempty)" by (rule demo_open_eval)
  have "escrow_ok demo_open" using mem_reachable_inv [OF demo_reachable_open] by (simp add: mem_inv_def)
  then have esc: "wallet demo_open (escrowKey ''ROOM'' 1) = 2 * RoundStake"
    using s(1,2) by (simp add: escrow_ok_def on_room_some s_live_def demo_room_def)
  let ?r = "demo_room\<lparr>r_resolved := True, r_result := PlayerOneWins\<rparr>"
  have st: "st_Players (State ?r) = [
      \<lparr>pv_ID = ''host'', pv_Wins = 0, pv_Submitted = False, pv_WantsNextRound = False\<rparr>,
      \<lparr>pv_ID = ''guest'', pv_Wins = 0, pv_Submitted = False, pv_WantsNextRound = False\<rparr>]"
    "st_Result (State ?r) = PlayerOneWins" "st_Round (State ?r) = 1"
    by (simp_all add: State_def demo_room_def)
  have k: "fmlookup (rp_recharges demo_open) (''alice'' @ '':'' @ ''k9'') = None"
    by (simp add: demo_open_recharges)
  show ?thesis
    using recharge_during_round_overflows [of demo_open "''alice''" "''k9''" "''ROOM''" "State ?r", OF _ _ _ k _ st(1) _ st(2), of s 9]
      s esc st demo_open_wallets by (auto simp: MaxInt64_def)
qed

end
