(* ===== verification/Service.thy ===== *)
theory Service
  imports Memory_Properties
begin

text \<open>
  The application service of \<open>application/service.go\<close> and \<open>application/command.go\<close>, written against
  the repository interfaces it is given: records of operations on an abstract state. The locale
  \<open>command_receipts\<close> states what the service relies on for idempotency; the in-memory repository
  discharges it.
\<close>

section \<open>The repository interfaces\<close>

type_synonym ('s, 'a) op = "'s \<Rightarrow> 'a result \<times> 's"

record 's base_repository =
  rb_Create :: "room \<Rightarrow> CredentialDigest \<Rightarrow> string \<Rightarrow> ('s, Snapshot) op"
  rb_JoinFunded :: "string \<Rightarrow> string \<Rightarrow> CredentialDigest \<Rightarrow> string \<Rightarrow> PresenceWindow
     \<Rightarrow> ('s, Snapshot \<times> PresenceLease list) op"
  rb_SubmitMoveAndSettle :: "string \<Rightarrow> CredentialDigest \<Rightarrow> string \<Rightarrow> move \<Rightarrow> ('s, Snapshot) op"
  rb_RequestNextRoundAndFund :: "string \<Rightarrow> CredentialDigest \<Rightarrow> string \<Rightarrow> uint64 \<Rightarrow> ('s, Snapshot) op"
  rb_Mutate :: "string \<Rightarrow> CredentialDigest \<Rightarrow> string \<Rightarrow> mutation \<Rightarrow> ('s, Snapshot) op"
  rb_Snapshot :: "string \<Rightarrow> ('s, Snapshot) op"
  rb_Authenticate :: "string \<Rightarrow> CredentialDigest \<Rightarrow> string \<Rightarrow> ('s, Snapshot \<times> string) op"
  rb_RefreshPresence :: "string \<Rightarrow> CredentialDigest \<Rightarrow> string \<Rightarrow> PresenceWindow
     \<Rightarrow> ('s, PresenceLease list) op"
  rb_Balance :: "string \<Rightarrow> ('s, int) op"
  rb_Recharge :: "string \<Rightarrow> int \<Rightarrow> string \<Rightarrow> ('s, int) op"
  rb_Analytics :: "('s, analytics) op"

record 's command_repository =
  cr_CreateCommand :: "room \<Rightarrow> string \<Rightarrow> Command \<Rightarrow> ('s, CommandResult) op"
  cr_JoinCommand :: "string \<Rightarrow> string \<Rightarrow> string \<Rightarrow> PresenceWindow \<Rightarrow> Command
     \<Rightarrow> ('s, CommandResult) op"
  cr_SubmitMoveCommand :: "string \<Rightarrow> string \<Rightarrow> move \<Rightarrow> Command \<Rightarrow> ('s, CommandResult) op"
  cr_RequestNextRoundCommand :: "string \<Rightarrow> string \<Rightarrow> uint64 \<Rightarrow> Command \<Rightarrow> ('s, CommandResult) op"
  cr_MutateCommand :: "string \<Rightarrow> string \<Rightarrow> mutation \<Rightarrow> Command \<Rightarrow> ('s, CommandResult) op"
  cr_RechargeCommand :: "string \<Rightarrow> int \<Rightarrow> Command \<Rightarrow> ('s, CommandResult) op"
  cr_SnapshotForAccount :: "string \<Rightarrow> string \<Rightarrow> ('s, Snapshot) op"

text \<open>
  The service's fields. \<open>sv_commands\<close> is the outcome of the type assertion
  \<open>s.repository.(CommandRepository)\<close>. A generator is a function of the number of the call, so that
  its \<open>k\<close>-th result in a retry loop is \<open>g k\<close>; likewise the clock.
\<close>

record 's service =
  sv_repository :: "'s base_repository"
  sv_commands :: "'s command_repository option"
  sv_generateCode :: "nat \<Rightarrow> string result"
  sv_generateToken :: "nat \<Rightarrow> string result"
  sv_generatePlayerID :: "nat \<Rightarrow> string result"
  sv_now :: "nat \<Rightarrow> go_time"
  sv_gracePeriod :: duration
  sv_heartbeatInterval :: duration
  sv_sha :: "string \<Rightarrow> string"

abbreviation DefaultPresenceGracePeriod :: duration where
  "DefaultPresenceGracePeriod \<equiv> 10 * Second"

abbreviation PresenceHeartbeatInterval :: duration where
  "PresenceHeartbeatInterval \<equiv> 3 * Second"

text \<open>\<open>NewServiceWithPresenceConfig\<close>: zero durations of the configuration become the defaults.\<close>

definition NewServiceWithPresenceConfig ::
    "'s base_repository \<Rightarrow> 's command_repository option \<Rightarrow> (nat \<Rightarrow> string result)
     \<Rightarrow> (nat \<Rightarrow> string result) \<Rightarrow> (nat \<Rightarrow> string result) \<Rightarrow> (nat \<Rightarrow> go_time) \<Rightarrow> duration \<Rightarrow> duration
     \<Rightarrow> (string \<Rightarrow> string) \<Rightarrow> 's service" where
  "NewServiceWithPresenceConfig repo cmds code token playerID now grace heartbeat sha =
     \<lparr>sv_repository = repo, sv_commands = cmds, sv_generateCode = code, sv_generateToken = token,
      sv_generatePlayerID = playerID, sv_now = now,
      sv_gracePeriod = (if grace = 0 then DefaultPresenceGracePeriod else grace),
      sv_heartbeatInterval = (if heartbeat = 0 then PresenceHeartbeatInterval else heartbeat),
      sv_sha = sha\<rparr>"

section \<open>Presence windows and identities\<close>

definition presenceDeadline :: "'s service \<Rightarrow> go_time \<Rightarrow> go_time" where
  "presenceDeadline s now = now + i64 (sv_heartbeatInterval s + sv_gracePeriod s)"

definition presenceWindow :: "'s service \<Rightarrow> go_time \<Rightarrow> PresenceWindow" where
  "presenceWindow s now = (let deadline = presenceDeadline s now in
     \<lparr>w_ObservedAt = now, w_ProofAfter = deadline, w_Deadline = deadline,
      w_EvaluateAt = deadline + sv_heartbeatInterval s\<rparr>)"

definition identity :: "'s service \<Rightarrow> nat \<Rightarrow> (string \<times> string) result" where
  "identity s k = bindR (sv_generateToken s k) (\<lambda>token.
     bindR (sv_generatePlayerID s k) (\<lambda>i. Inr (token, i)))"

section \<open>Operations with room credentials\<close>

text \<open>The loops \<open>for range 8\<close>: \<open>n\<close> attempts are left, \<open>k\<close> have been made.\<close>

fun createAttempts ::
    "'s service \<Rightarrow> string \<Rightarrow> nat \<Rightarrow> nat \<Rightarrow> ('s, Credentials) op" where
  "createAttempts s a 0 k st = (Inl (Err ErrDuplicateRoom), st)"
| "createAttempts s a (Suc n) k st =
     (case sv_generateCode s k of
        Inl e \<Rightarrow> (Inl e, st)
      | Inr code \<Rightarrow>
         (case identity s k of
            Inl e \<Rightarrow> (Inl e, st)
          | Inr (token, i) \<Rightarrow>
             (case New code i of
                Inl e \<Rightarrow> (Inl e, st)
              | Inr r \<Rightarrow>
                 (case rb_Create (sv_repository s) r (sv_sha s token) a st of
                    (Inl e, st1) \<Rightarrow> if errors_Is e ErrDuplicateRoom
                                  then createAttempts s a n (Suc k) st1 else (Inl e, st1)
                  | (Inr _, st1) \<Rightarrow> (Inr \<lparr>cr_RoomCode = code, cr_PlayerToken = token\<rparr>, st1)))))"

definition Service_Create :: "'s service \<Rightarrow> string \<Rightarrow> ('s, Credentials) op" where
  "Service_Create s a st =
     (if a = '''' then (Inl (Err ErrUnauthorized), st)
      else case rb_Balance (sv_repository s) a st of
        (Inl e, st1) \<Rightarrow> (Inl e, st1)
      | (Inr balance, st1) \<Rightarrow>
          if balance < RoundStake then (Inl (Err ErrInsufficientFunds), st1)
          else createAttempts s a 8 0 st1)"

fun joinAttempts ::
    "'s service \<Rightarrow> string \<Rightarrow> string \<Rightarrow> nat \<Rightarrow> nat \<Rightarrow> ('s, Credentials) op" where
  "joinAttempts s code a 0 k st = (Inl (Err ErrDuplicatePlayer), st)"
| "joinAttempts s code a (Suc n) k st =
     (case identity s k of
        Inl e \<Rightarrow> (Inl e, st)
      | Inr (token, i) \<Rightarrow>
         (case rb_JoinFunded (sv_repository s) code i (sv_sha s token) a
                 (presenceWindow s (sv_now s k)) st of
            (Inl e, st1) \<Rightarrow> if errors_Is e ErrDuplicatePlayer
                          then joinAttempts s code a n (Suc k) st1 else (Inl e, st1)
          | (Inr _, st1) \<Rightarrow> (Inr \<lparr>cr_RoomCode = code, cr_PlayerToken = token\<rparr>, st1)))"

definition Service_Join :: "'s service \<Rightarrow> string \<Rightarrow> string \<Rightarrow> ('s, Credentials) op" where
  "Service_Join s code a st =
     (if a = '''' then (Inl (Err ErrUnauthorized), st) else joinAttempts s code a 8 0 st)"

text \<open>Operations that drop their result: \<open>_, err := ...; return err\<close>.\<close>

definition dropResult :: "('s, 'a) op \<Rightarrow> ('s, unit) op" where
  "dropResult f st = (case f st of (Inl e, st1) \<Rightarrow> (Inl e, st1) | (Inr _, st1) \<Rightarrow> (Inr (), st1))"

definition Service_Snapshot :: "'s service \<Rightarrow> string \<Rightarrow> ('s, Snapshot) op" where
  "Service_Snapshot s code = rb_Snapshot (sv_repository s) code"

definition Service_Authenticate ::
    "'s service \<Rightarrow> string \<Rightarrow> string \<Rightarrow> string \<Rightarrow> ('s, Snapshot \<times> string) op" where
  "Service_Authenticate s code token a = rb_Authenticate (sv_repository s) code (sv_sha s token) a"

definition Service_SubmitMove ::
    "'s service \<Rightarrow> string \<Rightarrow> string \<Rightarrow> string \<Rightarrow> move \<Rightarrow> ('s, unit) op" where
  "Service_SubmitMove s code token a m =
     dropResult (rb_SubmitMoveAndSettle (sv_repository s) code (sv_sha s token) a m)"

definition Service_RequestNextRound ::
    "'s service \<Rightarrow> string \<Rightarrow> string \<Rightarrow> string \<Rightarrow> uint64 \<Rightarrow> ('s, unit) op" where
  "Service_RequestNextRound s code token a k =
     dropResult (rb_RequestNextRoundAndFund (sv_repository s) code (sv_sha s token) a k)"

definition Service_Leave :: "'s service \<Rightarrow> string \<Rightarrow> string \<Rightarrow> string \<Rightarrow> ('s, unit) op" where
  "Service_Leave s code token a =
     dropResult (rb_Mutate (sv_repository s) code (sv_sha s token) a leaveMutation)"

definition Service_Balance :: "'s service \<Rightarrow> string \<Rightarrow> ('s, int) op" where
  "Service_Balance s a st =
     (if a = '''' then (Inl (Err ErrUnauthorized), st) else rb_Balance (sv_repository s) a st)"

definition Service_Recharge :: "'s service \<Rightarrow> string \<Rightarrow> int \<Rightarrow> string \<Rightarrow> ('s, int) op" where
  "Service_Recharge s a amount key st =
     (if a = '''' then (Inl (Err ErrUnauthorized), st)
      else if amount \<le> 0 then (Inl (Err ErrInvalidCoinAmount), st)
      else if key = '''' \<or> 128 < length key then (Inl (Err ErrIdempotencyRequired), st)
      else case sv_commands s of
        Some cmds \<Rightarrow>
          (case NewCommand (sv_sha s) key ''wallet.recharge'' (MeaningAmount amount) of
             Inl e \<Rightarrow> (Inl e, st)
           | Inr command \<Rightarrow>
               (case cr_RechargeCommand cmds a amount command st of
                  (Inl e, st1) \<Rightarrow> (Inl e, st1) | (Inr res, st1) \<Rightarrow> (Inr (cmd_Balance res), st1)))
      | None \<Rightarrow> rb_Recharge (sv_repository s) a amount key st)"

definition Service_Analytics :: "'s service \<Rightarrow> string \<Rightarrow> ('s, analytics) op" where
  "Service_Analytics s a st =
     (if a = '''' then (Inl (Err ErrUnauthorized), st) else rb_Analytics (sv_repository s) st)"

definition Service_RefreshPresence :: "'s service \<Rightarrow> string \<Rightarrow> string \<Rightarrow> string \<Rightarrow> ('s, unit) op" where
  "Service_RefreshPresence s code token a =
     dropResult (rb_RefreshPresence (sv_repository s) code (sv_sha s token) a
       (presenceWindow s (sv_now s 0)))"

section \<open>Idempotent commands\<close>

definition commandRepository :: "'s service \<Rightarrow> 's command_repository result" where
  "commandRepository s = (case sv_commands s of
     None \<Rightarrow> Inl (Err ErrUnsupportedCommandRepository) | Some r \<Rightarrow> Inr r)"

text \<open>The common start of the command methods: the command, then the repository.\<close>

definition withCommand ::
    "'s service \<Rightarrow> string \<Rightarrow> string \<Rightarrow> meaning
     \<Rightarrow> ('s command_repository \<Rightarrow> Command \<Rightarrow> ('s, 'a) op) \<Rightarrow> ('s, 'a) op" where
  "withCommand s key operation meaning k st =
     (case NewCommand (sv_sha s) key operation meaning of
        Inl e \<Rightarrow> (Inl e, st)
      | Inr command \<Rightarrow>
         (case commandRepository s of Inl e \<Rightarrow> (Inl e, st) | Inr r \<Rightarrow> k r command st))"

fun createCommandAttempts ::
    "'s service \<Rightarrow> 's command_repository \<Rightarrow> string \<Rightarrow> Command \<Rightarrow> nat \<Rightarrow> nat \<Rightarrow> ('s, Credentials) op" where
  "createCommandAttempts s r a c 0 k st = (Inl (Err ErrDuplicateRoom), st)"
| "createCommandAttempts s r a c (Suc n) k st =
     (case sv_generateCode s k of
        Inl e \<Rightarrow> (Inl e, st)
      | Inr code \<Rightarrow>
         (case identity s k of
            Inl e \<Rightarrow> (Inl e, st)
          | Inr (_, i) \<Rightarrow>
             (case New code i of
                Inl e \<Rightarrow> (Inl e, st)
              | Inr aggregate \<Rightarrow>
                 (case cr_CreateCommand r aggregate a c st of
                    (Inl e, st1) \<Rightarrow> if errors_Is e ErrDuplicateRoom
                                  then createCommandAttempts s r a c n (Suc k) st1 else (Inl e, st1)
                  | (Inr res, st1) \<Rightarrow>
                      (Inr \<lparr>cr_RoomCode = st_Code (sn_State (cmd_Snapshot res)),
                            cr_PlayerToken = ''''\<rparr>, st1)))))"

definition Service_CreateCommand :: "'s service \<Rightarrow> string \<Rightarrow> string \<Rightarrow> ('s, Credentials) op" where
  "Service_CreateCommand s a key st =
     (if a = '''' then (Inl (Err ErrUnauthorized), st)
      else withCommand s key ''room.create'' MeaningEmpty
        (\<lambda>r c. createCommandAttempts s r a c 8 0) st)"

fun joinCommandAttempts ::
    "'s service \<Rightarrow> 's command_repository \<Rightarrow> string \<Rightarrow> string \<Rightarrow> Command \<Rightarrow> nat \<Rightarrow> nat
     \<Rightarrow> ('s, Credentials) op" where
  "joinCommandAttempts s r code a c 0 k st = (Inl (Err ErrDuplicatePlayer), st)"
| "joinCommandAttempts s r code a c (Suc n) k st =
     (case identity s k of
        Inl e \<Rightarrow> (Inl e, st)
      | Inr (_, i) \<Rightarrow>
         (case cr_JoinCommand r code i a (presenceWindow s (sv_now s k)) c st of
            (Inl e, st1) \<Rightarrow> if errors_Is e ErrDuplicatePlayer
                          then joinCommandAttempts s r code a c n (Suc k) st1 else (Inl e, st1)
          | (Inr res, st1) \<Rightarrow>
              (Inr \<lparr>cr_RoomCode = st_Code (sn_State (cmd_Snapshot res)), cr_PlayerToken = ''''\<rparr>, st1)))"

definition Service_JoinCommand :: "'s service \<Rightarrow> string \<Rightarrow> string \<Rightarrow> string \<Rightarrow> ('s, Credentials) op" where
  "Service_JoinCommand s code a key st =
     (if a = '''' then (Inl (Err ErrUnauthorized), st)
      else withCommand s key ''room.join'' (MeaningRoom code)
        (\<lambda>r c. joinCommandAttempts s r code a c 8 0) st)"

definition Service_SubmitMoveCommand ::
    "'s service \<Rightarrow> string \<Rightarrow> string \<Rightarrow> move \<Rightarrow> string \<Rightarrow> ('s, unit) op" where
  "Service_SubmitMoveCommand s code a m key =
     withCommand s key ''room.move'' (MeaningMove code m)
       (\<lambda>r c. dropResult (cr_SubmitMoveCommand r code a m c))"

definition Service_RequestNextRoundCommand ::
    "'s service \<Rightarrow> string \<Rightarrow> string \<Rightarrow> uint64 \<Rightarrow> string \<Rightarrow> ('s, unit) op" where
  "Service_RequestNextRoundCommand s code a k key =
     withCommand s key ''room.next-round'' (MeaningRound code k)
       (\<lambda>r c. dropResult (cr_RequestNextRoundCommand r code a k c))"

definition Service_LeaveCommand :: "'s service \<Rightarrow> string \<Rightarrow> string \<Rightarrow> string \<Rightarrow> ('s, unit) op" where
  "Service_LeaveCommand s code a key =
     withCommand s key ''room.leave'' (MeaningRoom code)
       (\<lambda>r c. dropResult (cr_MutateCommand r code a leaveMutation c))"

definition Service_SnapshotForAccount :: "'s service \<Rightarrow> string \<Rightarrow> string \<Rightarrow> ('s, Snapshot) op" where
  "Service_SnapshotForAccount s code a st =
     (if a = '''' then (Inl (Err ErrUnauthorized), st)
      else case commandRepository s of
        Inl e \<Rightarrow> (Inl e, st) | Inr r \<Rightarrow> cr_SnapshotForAccount r code a st)"

section \<open>What the service relies on\<close>

text \<open>The operations of a repository that carry the command \<open>c\<close> of account \<open>a\<close>. \<open>admits\<close> is the set of
  moves that the repository does not refuse before it looks for a receipt.\<close>

definition command_ops ::
    "'s command_repository \<Rightarrow> (move \<Rightarrow> bool) \<Rightarrow> string \<Rightarrow> Command \<Rightarrow> ('s, CommandResult) op set" where
  "command_ops r admits a c =
     {f. (\<exists>agg. f = cr_CreateCommand r agg a c) \<or> (\<exists>code i w. f = cr_JoinCommand r code i a w c)
       \<or> (\<exists>code m. admits m \<and> f = cr_SubmitMoveCommand r code a m c)
       \<or> (\<exists>code k. f = cr_RequestNextRoundCommand r code a k c)
       \<or> (\<exists>code mu. f = cr_MutateCommand r code a mu c) \<or> (\<exists>n. f = cr_RechargeCommand r a n c)}"

text \<open>A successful command is recorded, a recorded command is answered without an effect, and
  records are kept.\<close>

locale command_receipts =
  fixes repo :: "'s command_repository"
    and admits :: "move \<Rightarrow> bool"
    and recorded :: "'s \<Rightarrow> string \<Rightarrow> Command \<Rightarrow> CommandResult option"
    and later :: "'s \<Rightarrow> 's \<Rightarrow> bool"
  assumes record_command: "f \<in> command_ops repo admits a c \<Longrightarrow> f st = (Inr res, st1)
      \<Longrightarrow> recorded st1 a c = Some (res\<lparr>cmd_Replayed := True\<rparr>)"
    and replay_command: "f \<in> command_ops repo admits a c \<Longrightarrow> recorded st a c = Some res
      \<Longrightarrow> f st = (Inr res, st)"
    and keep_command: "recorded st a c = Some res \<Longrightarrow> later st st' \<Longrightarrow> recorded st' a c = Some res"
begin

lemma create_records:
  assumes "createCommandAttempts s repo a c n k st = (Inr cred, st1)"
  shows "\<exists>res. recorded st1 a c = Some res
    \<and> cred = \<lparr>cr_RoomCode = st_Code (sn_State (cmd_Snapshot res)), cr_PlayerToken = []\<rparr>"
  using assms
proof (induction n arbitrary: k st)
  case (Suc n)
  from Suc.prems obtain code t i agg where
    g: "sv_generateCode s k = Inr code" "identity s k = Inr (t, i)" "New code i = Inr agg"
    by (auto split: sum.splits prod.splits)
  obtain res st2 where c: "cr_CreateCommand repo agg a c st = (res, st2)" by fastforce
  show ?case
  proof (cases res)
    case (Inl e)
    with Suc.prems g c have "createCommandAttempts s repo a c n (Suc k) st2 = (Inr cred, st1)"
      by (auto split: if_splits)
    then show ?thesis by (rule Suc.IH)
  next
    case (Inr x)
    with Suc.prems g c have "st1 = st2"
      "cred = \<lparr>cr_RoomCode = st_Code (sn_State (cmd_Snapshot x)), cr_PlayerToken = []\<rparr>" by auto
    moreover have "recorded st2 a c = Some (x\<lparr>cmd_Replayed := True\<rparr>)"
      by (rule record_command [of "cr_CreateCommand repo agg a c" a c st])
        (use c Inr in \<open>auto simp: command_ops_def\<close>)
    ultimately show ?thesis by simp
  qed
qed simp

lemma create_replays:
  assumes "recorded st a c = Some res" "sv_generateCode s k = Inr code"
    and "identity s k = Inr (t, i)" "New code i = Inr agg"
  shows "createCommandAttempts s repo a c (Suc n) k st
    = (Inr \<lparr>cr_RoomCode = st_Code (sn_State (cmd_Snapshot res)), cr_PlayerToken = []\<rparr>, st)"
proof -
  have "cr_CreateCommand repo agg a c st = (Inr res, st)"
    by (rule replay_command [OF _ assms(1)]) (auto simp: command_ops_def)
  with assms show ?thesis by simp
qed

text \<open>A create sent again with its key finds the room it made, whatever codes are drawn now.\<close>

lemma create_once:
  assumes "Service_CreateCommand s a key st = (Inr cred, st1)" "sv_commands s = Some repo"
    and "later st1 st2" "sv_commands s' = Some repo" "sv_sha s' = sv_sha s"
    and "sv_generateCode s' 0 = Inr code" "identity s' 0 = Inr (t, i)" "New code i = Inr agg"
  shows "Service_CreateCommand s' a key st2 = (Inr cred, st2)"
proof -
  from assms(1,2) obtain c where c: "NewCommand (sv_sha s) key ''room.create'' MeaningEmpty = Inr c"
    "a \<noteq> []" "createCommandAttempts s repo a c 8 0 st = (Inr cred, st1)"
    by (auto simp: Service_CreateCommand_def withCommand_def commandRepository_def
        split: if_splits sum.splits)
  from create_records [OF c(3)] obtain res where r: "recorded st1 a c = Some res"
    "cred = \<lparr>cr_RoomCode = st_Code (sn_State (cmd_Snapshot res)), cr_PlayerToken = []\<rparr>" by blast
  have eight: "(8 :: nat) = Suc 7" by simp
  have "createCommandAttempts s' repo a c 8 0 st2 = (Inr cred, st2)"
    unfolding r(2) eight by (rule create_replays [OF keep_command [OF r(1) assms(3)] assms(6-8)])
  with c assms(4,5) show ?thesis
    by (simp add: Service_CreateCommand_def withCommand_def commandRepository_def)
qed

text \<open>The same for a join, whatever player ids are drawn.\<close>

lemma join_op: "cr_JoinCommand repo code i a w c \<in> command_ops repo admits a c"
  unfolding command_ops_def by blast

lemma join_records:
  assumes "joinCommandAttempts s repo code a c n k st = (Inr cred, st1)"
  shows "\<exists>res. recorded st1 a c = Some res
    \<and> cred = \<lparr>cr_RoomCode = st_Code (sn_State (cmd_Snapshot res)), cr_PlayerToken = []\<rparr>"
  using assms
proof (induction n arbitrary: k st)
  case (Suc n)
  from Suc.prems obtain t i where g: "identity s k = Inr (t, i)" by (auto split: sum.splits prod.splits)
  let ?join = "cr_JoinCommand repo code i a (presenceWindow s (sv_now s k)) c"
  obtain res st2 where c: "?join st = (res, st2)" by fastforce
  show ?case
  proof (cases res)
    case (Inl e)
    with Suc.prems g c have "joinCommandAttempts s repo code a c n (Suc k) st2 = (Inr cred, st1)"
      by (auto split: if_splits)
    then show ?thesis by (rule Suc.IH)
  next
    case (Inr x)
    with Suc.prems g c have "st1 = st2"
      "cred = \<lparr>cr_RoomCode = st_Code (sn_State (cmd_Snapshot x)), cr_PlayerToken = []\<rparr>" by auto
    moreover have "recorded st2 a c = Some (x\<lparr>cmd_Replayed := True\<rparr>)"
      by (rule record_command [OF join_op]) (use c Inr in simp)
    ultimately show ?thesis by simp
  qed
qed simp

lemma join_replays:
  assumes "recorded st a c = Some res" "identity s k = Inr (t, i)"
  shows "joinCommandAttempts s repo code a c (Suc n) k st
    = (Inr \<lparr>cr_RoomCode = st_Code (sn_State (cmd_Snapshot res)), cr_PlayerToken = []\<rparr>, st)"
proof -
  have "cr_JoinCommand repo code i a (presenceWindow s (sv_now s k)) c st = (Inr res, st)"
    by (rule replay_command [OF join_op assms(1)])
  with assms show ?thesis by simp
qed

lemma join_once:
  assumes "Service_JoinCommand s code a key st = (Inr cred, st1)" "sv_commands s = Some repo"
    and "later st1 st2" "sv_commands s' = Some repo" "sv_sha s' = sv_sha s" "identity s' 0 = Inr (t, i)"
  shows "Service_JoinCommand s' code a key st2 = (Inr cred, st2)"
proof -
  from assms(1,2) obtain c where c: "NewCommand (sv_sha s) key ''room.join'' (MeaningRoom code) = Inr c"
    "a \<noteq> []" "joinCommandAttempts s repo code a c 8 0 st = (Inr cred, st1)"
    by (auto simp: Service_JoinCommand_def withCommand_def commandRepository_def
        split: if_splits sum.splits)
  from join_records [OF c(3)] obtain res where r: "recorded st1 a c = Some res"
    "cred = \<lparr>cr_RoomCode = st_Code (sn_State (cmd_Snapshot res)), cr_PlayerToken = []\<rparr>" by blast
  have eight: "(8 :: nat) = Suc 7" by simp
  have "joinCommandAttempts s' repo code a c 8 0 st2 = (Inr cred, st2)"
    unfolding r(2) eight by (rule join_replays [OF keep_command [OF r(1) assms(3)] assms(6)])
  with c assms(4,5) show ?thesis
    by (simp add: Service_JoinCommand_def withCommand_def commandRepository_def)
qed

text \<open>The commands without a retry loop: sent again, they succeed and change nothing.\<close>

lemma command_once:
  assumes "withCommand s key oper m (\<lambda>r c. dropResult (f r c)) st = (Inr (), st1)"
    and "sv_commands s = Some repo" "later st1 st2" "sv_commands s' = Some repo" "sv_sha s' = sv_sha s"
    and "\<And>c res. f repo c st = (Inr res, st1) \<Longrightarrow> f repo c \<in> command_ops repo admits a c"
  shows "withCommand s' key oper m (\<lambda>r c. dropResult (f r c)) st2 = (Inr (), st2)"
proof -
  from assms(1,2) obtain c res where c: "NewCommand (sv_sha s) key oper m = Inr c"
    "f repo c st = (Inr res, st1)"
    by (auto simp: withCommand_def commandRepository_def dropResult_def
        split: sum.splits prod.splits)
  note op = assms(6) [OF c(2)]
  have "recorded st1 a c = Some (res\<lparr>cmd_Replayed := True\<rparr>)"
    using op c(2) by (rule record_command)
  from keep_command [OF this assms(3)]
  have "f repo c st2 = (Inr (res\<lparr>cmd_Replayed := True\<rparr>), st2)" by (rule replay_command [OF op])
  with c(1) assms(4,5) show ?thesis
    by (simp add: withCommand_def commandRepository_def dropResult_def)
qed

lemma recharge_once:
  assumes "Service_Recharge s a n key st = (Inr b, st1)" "sv_commands s = Some repo" "later st1 st2"
    and "sv_commands s' = Some repo" "sv_sha s' = sv_sha s"
  shows "Service_Recharge s' a n key st2 = (Inr b, st2)"
proof -
  from assms(1,2) obtain c res where c: "NewCommand (sv_sha s) key ''wallet.recharge'' (MeaningAmount n) = Inr c"
    "cr_RechargeCommand repo a n c st = (Inr res, st1)" "b = cmd_Balance res"
    "a \<noteq> []" "0 < n" "key \<noteq> []" "length key \<le> 128"
    by (auto simp: Service_Recharge_def split: if_splits sum.splits prod.splits)
  have op: "cr_RechargeCommand repo a n c \<in> command_ops repo admits a c" by (auto simp: command_ops_def)
  from keep_command [OF record_command [OF op c(2)] assms(3)]
  have "cr_RechargeCommand repo a n c st2 = (Inr (res\<lparr>cmd_Replayed := True\<rparr>), st2)"
    by (rule replay_command [OF op])
  with c assms(4,5) show ?thesis by (simp add: Service_Recharge_def)
qed

end

section \<open>The in-memory repository as provider\<close>

definition readOnly :: "('s \<Rightarrow> 'a result) \<Rightarrow> ('s, 'a) op" where
  "readOnly f st = (f st, st)"

text \<open>\<open>now\<close> is the time a settlement records.\<close>

definition memory_base :: "go_time \<Rightarrow> repository base_repository" where
  "memory_base now =
     \<lparr>rb_Create = Create, rb_JoinFunded = JoinFunded,
      rb_SubmitMoveAndSettle = (\<lambda>code d a m. SubmitMoveAndSettle code d a m now),
      rb_RequestNextRoundAndFund = RequestNextRoundAndFund, rb_Mutate = Mutate,
      rb_Snapshot = (\<lambda>code. readOnly (repo_Snapshot code)),
      rb_Authenticate = (\<lambda>code d a. readOnly (Authenticate code d a)),
      rb_RefreshPresence = RefreshPresence, rb_Balance = Balance, rb_Recharge = Recharge,
      rb_Analytics = readOnly Analytics\<rparr>"

definition memory_commands :: "(string \<Rightarrow> string) \<Rightarrow> go_time \<Rightarrow> repository command_repository" where
  "memory_commands sha now =
     \<lparr>cr_CreateCommand = CreateCommand sha, cr_JoinCommand = JoinCommand sha,
      cr_SubmitMoveCommand = (\<lambda>code a m c. SubmitMoveCommand code a m c now),
      cr_RequestNextRoundCommand = RequestNextRoundCommand, cr_MutateCommand = MutateCommand,
      cr_RechargeCommand = RechargeCommand,
      cr_SnapshotForAccount = (\<lambda>code a. readOnly (SnapshotForAccount code a))\<rparr>"

definition memory_recorded :: "repository \<Rightarrow> string \<Rightarrow> Command \<Rightarrow> CommandResult option" where
  "memory_recorded st a c =
     (case fmlookup (rp_receipts st) (c_Key c) of
        None \<Rightarrow> None
      | Some rc \<Rightarrow> if sameRequest rc a c then Some ((rc_result rc)\<lparr>cmd_Replayed := True\<rparr>) else None)"

definition memory_later :: "repository \<Rightarrow> repository \<Rightarrow> bool" where
  "memory_later st st' \<longleftrightarrow> (\<exists>sha ops. st' = fold (runOp sha) ops st)"

lemma memory_command_ops:
  assumes "f \<in> command_ops (memory_commands sha now) (\<lambda>_. True) a c"
  obtains g where "f = executeCommand a c g"
  using assms
  by (auto simp: command_ops_def memory_commands_def CreateCommand_def JoinCommand_def
      SubmitMoveCommand_def RequestNextRoundCommand_def MutateCommand_def RechargeCommand_def)

interpretation memory: command_receipts "memory_commands sha now" "\<lambda>_. True" memory_recorded memory_later
  for sha now
proof
  fix f a c st res st1
  assume "f \<in> command_ops (memory_commands sha now) (\<lambda>_. True) a c" and "f st = (Inr res, st1)"
  then obtain g where g: "executeCommand a c g st = (Inr res, st1)"
    by (metis memory_command_ops)
  show "memory_recorded st1 a c = Some (res\<lparr>cmd_Replayed := True\<rparr>)"
  proof (cases "fmlookup (rp_receipts st) (c_Key c)")
    case None
    with g have "fmlookup (rp_receipts st1) (c_Key c)
      = Some \<lparr>rc_accountID = a, rc_command = c, rc_result = res\<rparr>"
      by (auto simp: executeCommand_def split: prod.splits sum.splits)
    then show ?thesis by (simp add: memory_recorded_def sameRequest_def)
  next
    case (Some rc)
    with g have "sameRequest rc a c" "res = (rc_result rc)\<lparr>cmd_Replayed := True\<rparr>" "st1 = st"
      by (auto simp: executeCommand_def split: if_splits)
    with Some show ?thesis by (simp add: memory_recorded_def)
  qed
next
  fix f a c st res
  assume "f \<in> command_ops (memory_commands sha now) (\<lambda>_. True) a c" and "memory_recorded st a c = Some res"
  then show "f st = (Inr res, st)"
    by (elim memory_command_ops)
      (auto simp: executeCommand_def memory_recorded_def split: option.splits if_splits)
next
  fix st a c res st'
  assume r: "memory_recorded st a c = Some res" and l: "memory_later st st'"
  then obtain rc where rc: "fmlookup (rp_receipts st) (c_Key c) = Some rc"
    by (auto simp: memory_recorded_def split: option.splits)
  from l obtain sha ops where "st' = fold (runOp sha) ops st" by (auto simp: memory_later_def)
  with receipt_kept_runOps [OF rc] have "fmlookup (rp_receipts st') (c_Key c) = Some rc" by simp
  with r rc show "memory_recorded st' a c = Some res" by (simp add: memory_recorded_def)
qed

section \<open>Properties\<close>

text \<open>a create sent again finds its room. Once a create has succeeded, the same key from the same
  account returns the same room code and changes nothing, however many other operations ran in
  between and whatever code is drawn this time: a client that retries never gets a second room.\<close>

theorem retried_create_returns_same_room:
  assumes "Service_CreateCommand s a key st = (Inr cred, st1)"
    and "sv_commands s = Some (memory_commands sha now)" "st2 = fold (runOp sha') ops st1"
    and "sv_generateCode s 0 = Inr code" "identity s 0 = Inr (t, i)" "code \<noteq> ''''" "i \<noteq> ''''"
  shows "Service_CreateCommand s a key st2 = (Inr cred, st2)"
proof -
  from assms(6,7) obtain agg where new: "New code i = Inr agg" by (simp add: New_def)
  have later: "memory_later st1 st2" using assms(3) by (auto simp: memory_later_def)
  show ?thesis
    by (rule memory.create_once [OF assms(1,2) later assms(2) refl assms(4,5) new])
qed

text \<open>A service over the in-memory repository whose generators always draw the same values.\<close>

definition demo_service :: "repository service" where
  "demo_service = NewServiceWithPresenceConfig (memory_base 7) (Some (memory_commands id 7))
     (\<lambda>_. Inr ''CODE'') (\<lambda>_. Inr ''token'') (\<lambda>_. Inr ''player'') (\<lambda>_. 0) 0 0 id"

lemma demo_service_simps [simp]:
  "sv_generateCode demo_service k = Inr ''CODE''" "identity demo_service k = Inr (''token'', ''player'')"
  "sv_commands demo_service = Some (memory_commands id 7)" "sv_sha demo_service = id"
  "sv_repository demo_service = memory_base 7"
  by (simp_all add: demo_service_def NewServiceWithPresenceConfig_def identity_def)

lemma demo_key: "validKey ''key-1''"
  by (simp add: validKey_def TrimSpace_printable printable_def ContainsAny_def byte_eq)

lemma demo_receipts [simp]: "rp_receipts demo_wallets = fmempty"
  by (simp add: demo_wallets_def NewRepository_def receipts_Recharge)

text \<open>One attempt of the loop, and what the repository does with a taken and with a free code.\<close>

lemma create_attempt:
  assumes "sv_generateCode s k = Inr code" "identity s k = Inr (t, i)" "New code i = Inr agg"
  shows "createCommandAttempts s r a c (Suc n) k st =
    (case cr_CreateCommand r agg a c st of
       (Inl e, st1) \<Rightarrow> if errors_Is e ErrDuplicateRoom
                     then createCommandAttempts s r a c n (Suc k) st1 else (Inl e, st1)
     | (Inr res, st1) \<Rightarrow> (Inr \<lparr>cr_RoomCode = st_Code (sn_State (cmd_Snapshot res)),
                              cr_PlayerToken = ''''\<rparr>, st1))"
  using assms by simp

lemma ensureWallet_id: "0 < wallet st a \<Longrightarrow> ensureWallet a st = st"
  by (auto simp: ensureWallet_def wallet_def get_or_notin)

lemma memory_create_command:
  assumes "New code i = Inr agg" "RoundStake \<le> wallet st a"
    and "fmlookup (rp_receipts st) (c_Key c) = None"
  shows "code |\<in>| fmdom (rp_rooms st) \<Longrightarrow> cr_CreateCommand (memory_commands sha now) agg a c st
      = (Inl (ErrQ ErrDuplicateRoom code), st)"
    and "code |\<notin>| fmdom (rp_rooms st) \<Longrightarrow> \<exists>res st' x.
      cr_CreateCommand (memory_commands sha now) agg a c st = (Inr res, st')
      \<and> st_Code (sn_State (cmd_Snapshot res)) = code
      \<and> rp_rooms st' = fmupd code x (rp_rooms st) \<and> s_owners x = fmupd i a fmempty"
proof -
  from assms(1) have new: "r_code agg = code" "r_players agg = [\<lparr>player_ID = i, player_Wins = 0\<rparr>]"
    by (auto simp: New_def split: if_splits)
  have res: "Restore (PersistenceState agg) = Inr agg"
    using wf_New [OF assms(1)] by (simp add: Restore_PersistenceState)
  obtain hv where hv: "st_Players (State agg) = [hv]" "pv_ID hv = i" using new by (simp add: State_def)
  have ens: "ensureWallet a st = st" using assms(2) by (intro ensureWallet_id) simp
  show "code |\<in>| fmdom (rp_rooms st) \<Longrightarrow> cr_CreateCommand (memory_commands sha now) agg a c st
      = (Inl (ErrQ ErrDuplicateRoom code), st)"
    using assms(2,3) new hv ens
    by (simp add: memory_commands_def CreateCommand_def executeCommand_def mapStep_def Create_def)
  show "code |\<notin>| fmdom (rp_rooms st) \<Longrightarrow> \<exists>res st' x.
      cr_CreateCommand (memory_commands sha now) agg a c st = (Inr res, st')
      \<and> st_Code (sn_State (cmd_Snapshot res)) = code
      \<and> rp_rooms st' = fmupd code x (rp_rooms st) \<and> s_owners x = fmupd i a fmempty"
    using assms(2,3) new hv ens res
    by (simp add: memory_commands_def CreateCommand_def executeCommand_def mapStep_def Create_def
        snapshotResult_def)
      (rule exI [of _ "\<lparr>s_room = agg, s_revision = 1, s_credentials = fmupd i (sha i) fmempty,
        s_owners = fmupd i a fmempty, s_presence = fmempty, s_funded = fmempty\<rparr>"], simp)
qed

lemma create_skips:
  assumes "RoundStake \<le> wallet st a" "fmlookup (rp_receipts st) (c_Key c) = None"
    and "\<And>k. sv_generateCode s k = Inr (code k)" "\<And>k. identity s k = Inr (t k, i k)"
    and "\<And>k. code k \<noteq> ''''" "\<And>k. i k \<noteq> ''''"
    and "\<forall>k'<j. code (k + k') |\<in>| fmdom (rp_rooms st)"
  shows "createCommandAttempts s (memory_commands sha now) a c (j + n) k st
    = createCommandAttempts s (memory_commands sha now) a c n (k + j) st"
  using assms(7)
proof (induction j arbitrary: k)
  case (Suc j)
  obtain agg where new: "New (code k) (i k) = Inr agg" using assms(5,6) by (simp add: New_def)
  from Suc.prems have "code k |\<in>| fmdom (rp_rooms st)" by (auto dest: spec [of _ 0])
  then have "createCommandAttempts s (memory_commands sha now) a c (Suc (j + n)) k st
    = createCommandAttempts s (memory_commands sha now) a c (j + n) (Suc k) st"
    using create_attempt [OF assms(3,4) new]
      memory_create_command(1) [OF new assms(1,2)] by simp
  also have "\<dots> = createCommandAttempts s (memory_commands sha now) a c n (Suc k + j) st"
    using Suc.prems by (intro Suc.IH) (auto dest: spec [of _ "Suc k'" for k'])
  finally show ?case by simp
qed simp

lemma demo_create:
  obtains st1 where "Service_CreateCommand demo_service ''alice'' ''key-1'' demo_wallets
    = (Inr \<lparr>cr_RoomCode = ''CODE'', cr_PlayerToken = ''''\<rparr>, st1)"
proof -
  obtain r where r: "New ''CODE'' ''player'' = Inr r" by (simp add: New_def)
  obtain c where c: "NewCommand id ''key-1'' ''room.create'' MeaningEmpty = Inr c"
    using demo_key by (simp add: NewCommand_def)
  have "wallet demo_wallets ''alice'' = 100" using demo_wallets_eval by (simp add: wallet_def)
  then obtain res st1 where "cr_CreateCommand (memory_commands id 7) r ''alice'' c demo_wallets = (Inr res, st1)"
    "st_Code (sn_State (cmd_Snapshot res)) = ''CODE''"
    using memory_create_command(2) [OF r, of demo_wallets "''alice''" c id 7] demo_wallets_eval by auto
  then have "createCommandAttempts demo_service (memory_commands id 7) ''alice'' c (Suc 7) 0 demo_wallets
    = (Inr \<lparr>cr_RoomCode = ''CODE'', cr_PlayerToken = ''''\<rparr>, st1)"
    by (subst create_attempt [OF _ _ r]) simp_all
  with c that show ?thesis
    by (simp add: Service_CreateCommand_def withCommand_def commandRepository_def)
qed

theorem retried_create_returns_same_room_witness:
  "\<exists>st1. Service_CreateCommand demo_service ''alice'' ''key-1'' (runOp id (MBalance ''bob'') st1)
     = (Inr \<lparr>cr_RoomCode = ''CODE'', cr_PlayerToken = ''''\<rparr>, runOp id (MBalance ''bob'') st1)"
proof -
  obtain st1 where c: "Service_CreateCommand demo_service ''alice'' ''key-1'' demo_wallets
    = (Inr \<lparr>cr_RoomCode = ''CODE'', cr_PlayerToken = ''''\<rparr>, st1)" by (rule demo_create)
  show ?thesis
    using retried_create_returns_same_room [OF c, of id 7 "runOp id (MBalance ''bob'') st1" id
        "[MBalance ''bob'']"]
    by (intro exI [of _ st1]) simp
qed

text \<open>retried moves, requests, leaves and recharges. A command that succeeded answers a retry with
  the same result and leaves the repository as it is, after any other operations: a move is
  recorded once, a next round is requested once and coins are added once.\<close>

theorem retried_commands_change_nothing:
  assumes "sv_commands s = Some (memory_commands sha now)" "st2 = fold (runOp sha') ops st1"
  shows "(Service_SubmitMoveCommand s code a m key st = (Inr (), st1) \<longrightarrow>
        Service_SubmitMoveCommand s code a m key st2 = (Inr (), st2))
    \<and> (Service_RequestNextRoundCommand s code a k key st = (Inr (), st1) \<longrightarrow>
        Service_RequestNextRoundCommand s code a k key st2 = (Inr (), st2))
    \<and> (Service_LeaveCommand s code a key st = (Inr (), st1) \<longrightarrow>
        Service_LeaveCommand s code a key st2 = (Inr (), st2))
    \<and> (Service_Recharge s a n key st = (Inr b, st1) \<longrightarrow> Service_Recharge s a n key st2 = (Inr b, st2))"
proof -
  have later: "memory_later st1 st2" using assms(2) by (auto simp: memory_later_def)
  note once = memory.command_once [OF _ assms(1) later assms(1) refl]
  have ops: "cr_SubmitMoveCommand (memory_commands sha now) code a m c \<in> command_ops (memory_commands sha now) (\<lambda>_. True) a c"
    "cr_RequestNextRoundCommand (memory_commands sha now) code a k c \<in> command_ops (memory_commands sha now) (\<lambda>_. True) a c"
    "cr_MutateCommand (memory_commands sha now) code a mu c \<in> command_ops (memory_commands sha now) (\<lambda>_. True) a c"
    for c mu by (auto simp: command_ops_def)
  show ?thesis
    unfolding Service_SubmitMoveCommand_def Service_RequestNextRoundCommand_def Service_LeaveCommand_def
    using once [where f = "\<lambda>r. cr_SubmitMoveCommand r code a m", OF _ ops(1)]
      once [where f = "\<lambda>r. cr_RequestNextRoundCommand r code a k", OF _ ops(2)]
      once [where f = "\<lambda>r. cr_MutateCommand r code a leaveMutation", OF _ ops(3)]
      memory.recharge_once [OF _ assms(1) later assms(1) refl]
    by blast
qed

theorem retried_commands_change_nothing_witness:
  "\<exists>st1. Service_Recharge demo_service ''alice'' 60 ''key-1'' demo_wallets = (Inr 160, st1)
     \<and> Service_Recharge demo_service ''alice'' 60 ''key-1'' st1 = (Inr 160, st1)"
proof -
  have k: "fmlookup (rp_recharges demo_wallets) ''alice:key-1'' = None"
    by (simp add: demo_wallets_def NewRepository_def Recharge_def Let_def)
  have "\<exists>st1. Service_Recharge demo_service ''alice'' 60 ''key-1'' demo_wallets = (Inr 160, st1)"
    using k demo_wallets_eval demo_key
    by (simp add: Service_Recharge_def NewCommand_def memory_commands_def RechargeCommand_def
        executeCommand_def mapStep_def Recharge_def Let_def wallet_def ensureWallet_def
        addWallet_def setWallet_def MaxInt64_def zeroCommandResult_def)
  then obtain st1 where r: "Service_Recharge demo_service ''alice'' 60 ''key-1'' demo_wallets = (Inr 160, st1)"
    by blast
  from retried_commands_change_nothing [of demo_service id 7 st1 id "[]" st1] r show ?thesis
    by (metis demo_service_simps(3) fold_simps(1))
qed

text \<open>no command without a usable key. With a key that is empty, longer than 128 bytes, padded or
  broken by white space, every command is refused before the repository is called; keys that pass
  carry no space, tab or line break.\<close>

theorem commands_need_a_key:
  assumes "\<not> validKey key" "a \<noteq> ''''"
  shows "Service_CreateCommand s a key st = (Inl (Err ErrIdempotencyRequired), st)
    \<and> Service_JoinCommand s code a key st = (Inl (Err ErrIdempotencyRequired), st)
    \<and> Service_SubmitMoveCommand s code a m key st = (Inl (Err ErrIdempotencyRequired), st)
    \<and> Service_RequestNextRoundCommand s code a k key st = (Inl (Err ErrIdempotencyRequired), st)
    \<and> Service_LeaveCommand s code a key st = (Inl (Err ErrIdempotencyRequired), st)"
  using assms
  by (simp add: Service_CreateCommand_def Service_JoinCommand_def Service_SubmitMoveCommand_def
      Service_RequestNextRoundCommand_def Service_LeaveCommand_def withCommand_def NewCommand_def)

theorem commands_need_a_key_witness:
  "Service_LeaveCommand demo_service ''ROOM'' ''alice'' ''a b'' demo_open
     = (Inl (Err ErrIdempotencyRequired), demo_open)"
proof -
  have "ContainsAny ''a b'' [byte 32, byte 9, byte 13, byte 10]" by (simp add: ContainsAny_def byte_eq)
  then have "\<not> validKey ''a b''" unfolding validKey_def by blast
  from commands_need_a_key [OF this, where a = "''alice''" and s = demo_service and st = demo_open
      and code = "''ROOM''"]
  show ?thesis by simp
qed

text \<open>taken codes are skipped. A create draws codes until it finds a free one, at most eight times;
  the room then exists under that code with the caller in the host's seat, and no other room has
  changed. When all eight codes are taken it reports a duplicate room and no room has changed.\<close>

theorem create_skips_taken_codes:
  assumes "RoundStake \<le> wallet st a" "a \<noteq> ''''" "validKey key"
    and "fmlookup (rp_receipts st) key = None" "sv_commands s = Some (memory_commands sha now)"
    and "\<And>k. sv_generateCode s k = Inr (code k)" "\<And>k. identity s k = Inr (t k, i k)"
    and "\<And>k. code k \<noteq> ''''" "\<And>k. i k \<noteq> ''''"
  shows "(\<forall>j<8. (\<forall>k<j. code k |\<in>| fmdom (rp_rooms st)) \<and> code j |\<notin>| fmdom (rp_rooms st) \<longrightarrow>
        (\<exists>st' x. Service_CreateCommand s a key st
             = (Inr \<lparr>cr_RoomCode = code j, cr_PlayerToken = ''''\<rparr>, st')
           \<and> rp_rooms st' = fmupd (code j) x (rp_rooms st) \<and> s_owners x = fmupd (i j) a fmempty))
    \<and> ((\<forall>k<8. code k |\<in>| fmdom (rp_rooms st)) \<longrightarrow>
        Service_CreateCommand s a key st = (Inl (Err ErrDuplicateRoom), st))"
proof -
  obtain c where c: "NewCommand (sv_sha s) key ''room.create'' MeaningEmpty = Inr c" "c_Key c = key"
    using assms(3) by (simp add: NewCommand_def)
  let ?loop = "createCommandAttempts s (memory_commands sha now) a c"
  have run: "Service_CreateCommand s a key st = ?loop 8 0 st"
    using c assms(2,5) by (simp add: Service_CreateCommand_def withCommand_def commandRepository_def)
  have skip: "?loop (j + n) 0 st = ?loop n j st" if "\<forall>k<j. code k |\<in>| fmdom (rp_rooms st)" for j n
    using create_skips [of st a c s code t i j 0 sha now n] assms(1,4,6-9) c(2) that by simp
  show ?thesis
  proof (intro conjI allI impI)
    fix j :: nat
    assume j: "j < 8" "(\<forall>k<j. code k |\<in>| fmdom (rp_rooms st)) \<and> code j |\<notin>| fmdom (rp_rooms st)"
    obtain agg where new: "New (code j) (i j) = Inr agg" using assms(8,9) by (simp add: New_def)
    from memory_create_command(2) [OF new assms(1)] assms(4) c(2) j(2) obtain res st' x where
      cr: "cr_CreateCommand (memory_commands sha now) agg a c st = (Inr res, st')"
      "st_Code (sn_State (cmd_Snapshot res)) = code j"
      "rp_rooms st' = fmupd (code j) x (rp_rooms st)" "s_owners x = fmupd (i j) a fmempty" by blast
    from j(1) have "?loop 8 0 st = ?loop (j + Suc (7 - j)) 0 st" by simp
    also have "\<dots> = ?loop (Suc (7 - j)) j st" using j(2) by (intro skip) blast
    also have "\<dots> = (Inr \<lparr>cr_RoomCode = code j, cr_PlayerToken = ''''\<rparr>, st')"
      by (subst create_attempt [OF assms(6,7) new]) (simp add: cr)
    finally show "\<exists>st' x. Service_CreateCommand s a key st
             = (Inr \<lparr>cr_RoomCode = code j, cr_PlayerToken = ''''\<rparr>, st')
           \<and> rp_rooms st' = fmupd (code j) x (rp_rooms st) \<and> s_owners x = fmupd (i j) a fmempty"
      using run cr(3,4) by auto
  next
    assume "\<forall>k<8. code k |\<in>| fmdom (rp_rooms st)"
    with skip [of 8 0] show "Service_CreateCommand s a key st = (Inl (Err ErrDuplicateRoom), st)"
      by (simp add: run)
  qed
qed

theorem create_skips_taken_codes_witness:
  "\<exists>st' x. Service_CreateCommand (demo_service\<lparr>sv_generateCode := (\<lambda>k. Inr (if k = 0 then ''ROOM'' else ''CODE''))\<rparr>)
       ''alice'' ''key-1'' demo_open = (Inr \<lparr>cr_RoomCode = ''CODE'', cr_PlayerToken = ''''\<rparr>, st')
     \<and> rp_rooms st' = fmupd ''CODE'' x (rp_rooms demo_open)"
proof -
  let ?s = "demo_service\<lparr>sv_generateCode := (\<lambda>k. Inr (if k = 0 then ''ROOM'' else ''CODE''))\<rparr>"
  obtain sr where "fmlookup (rp_rooms demo_open) ''ROOM'' = Some sr" by (rule demo_open_eval)
  then have taken: "''ROOM'' |\<in>| fmdom (rp_rooms demo_open)" by (rule fmdomI)
  have free: "''CODE'' |\<notin>| fmdom (rp_rooms demo_open)" and nokey: "rp_receipts demo_open = fmempty"
    by (simp_all add: demo_open_rooms demo_open_receipts)
  have i: "identity ?s k = Inr (''token'', ''player'')" for k
    using demo_service_simps(2) [of k] by (simp add: identity_def)
  let ?code = "\<lambda>k. if k = (0 :: nat) then ''ROOM'' else ''CODE''"
  have "1 < (8 :: nat) \<longrightarrow> (\<forall>k<1. ?code k |\<in>| fmdom (rp_rooms demo_open))
      \<and> ?code 1 |\<notin>| fmdom (rp_rooms demo_open) \<longrightarrow>
    (\<exists>st' x. Service_CreateCommand ?s ''alice'' ''key-1'' demo_open
       = (Inr \<lparr>cr_RoomCode = ?code 1, cr_PlayerToken = ''''\<rparr>, st')
     \<and> rp_rooms st' = fmupd (?code 1) x (rp_rooms demo_open)
     \<and> s_owners x = fmupd ''player'' ''alice'' fmempty)"
    by (rule create_skips_taken_codes [where code = ?code and t = "\<lambda>_. ''token''"
          and i = "\<lambda>_. ''player''", THEN conjunct1, THEN spec [where x = 1]])
      (use demo_open_wallets demo_key i nokey in simp_all)
  with taken free have "\<exists>st' x. Service_CreateCommand ?s ''alice'' ''key-1'' demo_open
       = (Inr \<lparr>cr_RoomCode = ?code 1, cr_PlayerToken = ''''\<rparr>, st')
     \<and> rp_rooms st' = fmupd (?code 1) x (rp_rooms demo_open)" by auto
  then show ?thesis by simp
qed

end
