(* ===== verification/Outbox.thy ===== *)
theory Outbox
  imports Service "HOL-Library.Signed_Division"
begin

text \<open>
  The transactional outbox: the table operations of \<open>adapter/postgres/outbox.go\<close>, each one SQL
  statement and so atomic, and the worker of \<open>worker/outbox.go\<close> that claims pending revisions,
  hands them to the publisher and marks them. The locale \<open>outbox_store\<close> is the worker's contract
  with its store and publisher; the table with the Redis publisher discharges it.
  Instants keep Go's nanoseconds; PostgreSQL's rounding to microseconds is not modelled.
\<close>

section \<open>Records and configuration\<close>

record OutboxRecord =
  or_ID :: int
  or_RoomID :: string
  or_Revision :: uint64
  or_ClaimToken :: string
  or_Attempts :: int

record OutboxPendingStats =
  os_BacklogDepth :: int
  os_OldestPendingAge :: duration

record OutboxConfig =
  oc_BatchSize :: int
  oc_ClaimLease :: duration
  oc_RetryBase :: duration
  oc_MaxRetry :: duration
  oc_PublishedRetain :: duration

record OutboxRunReport =
  rr_Claimed :: int
  rr_Published :: int
  rr_Attempts :: int
  rr_Retries :: int
  rr_PublishFailures :: int
  rr_BacklogDepth :: int
  rr_OldestPendingAge :: duration
  rr_Cleaned :: int

record 's OutboxStore =
  ob_Claim :: "go_time \<Rightarrow> int \<Rightarrow> duration \<Rightarrow> ('s, OutboxRecord list) op"
  ob_Stats :: "go_time \<Rightarrow> ('s, OutboxPendingStats) op"
  ob_Mark :: "OutboxRecord \<Rightarrow> go_time \<Rightarrow> ('s, unit) op"
  ob_Release :: "OutboxRecord \<Rightarrow> go_time \<Rightarrow> ('s, unit) op"
  ob_Cleanup :: "go_time \<Rightarrow> ('s, int) op"

type_synonym 's publisher = "string \<Rightarrow> uint64 \<Rightarrow> ('s, unit) op"

abbreviation Minute :: duration where "Minute \<equiv> 60 * Second"

definition orDefault :: "int \<Rightarrow> int \<Rightarrow> int" where
  "orDefault d v = (if v \<le> 0 then d else v)"

definition NewOutboxConfig :: "OutboxConfig \<Rightarrow> OutboxConfig" where
  "NewOutboxConfig c = \<lparr>oc_BatchSize = orDefault 100 (oc_BatchSize c),
     oc_ClaimLease = orDefault (30 * Second) (oc_ClaimLease c),
     oc_RetryBase = orDefault Second (oc_RetryBase c), oc_MaxRetry = orDefault Minute (oc_MaxRetry c),
     oc_PublishedRetain = orDefault (24 * Hour) (oc_PublishedRetain c)\<rparr>"

section \<open>The retry delay\<close>

text \<open>The loop \<open>for attempt := 1; attempt < attempts && delay < max; attempt++\<close>; \<open>Inl\<close> is the early
  return. Go's division truncates towards zero.\<close>

function retryLoop :: "duration \<Rightarrow> int \<Rightarrow> int \<Rightarrow> duration \<Rightarrow> duration + duration" where
  "retryLoop mx attempts attempt delay =
     (if attempt < attempts \<and> delay < mx
      then (if mx sdiv 2 < delay then Inl mx else retryLoop mx attempts (attempt + 1) (i64 (delay * 2)))
      else Inr delay)"
  by pat_completeness auto
termination
  by (relation "measure (\<lambda>(mx, attempts, attempt, delay). nat (attempts - attempt))") auto

declare retryLoop.simps [simp del]

definition retryDelay :: "OutboxConfig \<Rightarrow> int \<Rightarrow> duration" where
  "retryDelay c attempts =
     (case retryLoop (oc_MaxRetry c) attempts 1 (oc_RetryBase c) of
        Inl d \<Rightarrow> d
      | Inr d \<Rightarrow> if oc_MaxRetry c < d then oc_MaxRetry c else d)"

section \<open>The worker\<close>

definition zeroOutboxReport :: OutboxRunReport where
  "zeroOutboxReport = \<lparr>rr_Claimed = 0, rr_Published = 0, rr_Attempts = 0, rr_Retries = 0,
     rr_PublishFailures = 0, rr_BacklogDepth = 0, rr_OldestPendingAge = 0, rr_Cleaned = 0\<rparr>"

text \<open>The loop over the claimed records; the error list is empty for \<open>nil\<close> and has two elements for
  \<open>errors.Join\<close> of two errors. The flag says that the loop ran to its end.\<close>

fun publishRecords ::
    "'s OutboxStore \<Rightarrow> 's publisher \<Rightarrow> OutboxConfig \<Rightarrow> go_time \<Rightarrow> OutboxRecord list \<Rightarrow> OutboxRunReport
     \<Rightarrow> 's \<Rightarrow> (OutboxRunReport \<times> go_error list) \<times> 's" where
  "publishRecords store pub c now [] rep st = ((rep, []), st)"
| "publishRecords store pub c now (r # rs) rep0 st =
     (let rep = rep0\<lparr>rr_Attempts := rr_Attempts rep0 + 1,
                     rr_Retries := rr_Retries rep0 + (if 1 < or_Attempts r then 1 else 0)\<rparr>
      in case pub (or_RoomID r) (or_Revision r) st of
        (Inl e, st1) \<Rightarrow>
          (let (released, st2) = ob_Release store r (now + retryDelay c (or_Attempts r)) st1
           in ((rep\<lparr>rr_PublishFailures := rr_PublishFailures rep + 1\<rparr>,
                e # (case released of Inl e2 \<Rightarrow> [e2] | Inr _ \<Rightarrow> [])), st2))
      | (Inr _, st1) \<Rightarrow>
          (case ob_Mark store r now st1 of
             (Inl e, st2) \<Rightarrow> ((rep, [e]), st2)
           | (Inr _, st2) \<Rightarrow>
               publishRecords store pub c now rs (rep\<lparr>rr_Published := rr_Published rep + 1\<rparr>) st2))"

definition OutboxWorker_RunOnce ::
    "'s OutboxStore \<Rightarrow> 's publisher \<Rightarrow> OutboxConfig \<Rightarrow> go_time \<Rightarrow> 's
     \<Rightarrow> (OutboxRunReport \<times> go_error list) \<times> 's" where
  "OutboxWorker_RunOnce store pub c now st =
     (case ob_Stats store now st of
        (Inl e, st1) \<Rightarrow> ((zeroOutboxReport, [e]), st1)
      | (Inr stats, st1) \<Rightarrow>
         (let rep = zeroOutboxReport\<lparr>rr_BacklogDepth := os_BacklogDepth stats,
                      rr_OldestPendingAge := os_OldestPendingAge stats\<rparr>
          in case ob_Claim store now (oc_BatchSize c) (oc_ClaimLease c) st1 of
            (Inl e, st2) \<Rightarrow> ((rep, [e]), st2)
          | (Inr records, st2) \<Rightarrow>
             (case publishRecords store pub c now records
                     (rep\<lparr>rr_Claimed := int (length records)\<rparr>) st2 of
                ((rep1, []), st3) \<Rightarrow>
                  (case ob_Cleanup store (now - oc_PublishedRetain c) st3 of
                     (Inl e, st4) \<Rightarrow> ((rep1, [e]), st4)
                   | (Inr n, st4) \<Rightarrow> ((rep1\<lparr>rr_Cleaned := n\<rparr>, []), st4))
              | ((rep1, errs), st3) \<Rightarrow> ((rep1, errs), st3))))"

section \<open>The worker's contract\<close>

text \<open>
  \<open>pending st\<close> maps the rows not yet published to their room and revision; \<open>sent st\<close> is what the
  publisher has accepted. A store only takes a row out of \<open>pending\<close> by marking it, and a claim
  returns rows of \<open>pending\<close>.
\<close>

lemma publishRecords_claimed:
  "rr_Claimed (fst (fst (publishRecords store pub c now rs rep st))) = rr_Claimed rep"
proof (induction rs arbitrary: rep st)
  case (Cons r rs)
  obtain p st1 where p: "pub (or_RoomID r) (or_Revision r) st = (p, st1)" by fastforce
  obtain m st2 where m: "ob_Mark store r now st1 = (m, st2)" by fastforce
  show ?case
    by (cases p; cases m) (simp_all add: p m Let_def Cons.IH split: prod.split)
qed simp

lemma RunOnce_claimed:
  assumes "ob_Stats store now st = (Inr stats, st1)"
    and "ob_Claim store now (oc_BatchSize c) (oc_ClaimLease c) st1 = (Inr rs, st2)"
    and "publishRecords store pub c now rs
      (zeroOutboxReport\<lparr>rr_BacklogDepth := os_BacklogDepth stats,
         rr_OldestPendingAge := os_OldestPendingAge stats, rr_Claimed := int (length rs)\<rparr>) st2
      = ((rep1, errs1), st3)"
    and "ob_Cleanup store (now - oc_PublishedRetain c) st3 = (w, st4)"
  shows "OutboxWorker_RunOnce store pub c now st =
    (if errs1 \<noteq> [] then ((rep1, errs1), st3)
     else case w of Inl e \<Rightarrow> ((rep1, [e]), st4) | Inr n \<Rightarrow> ((rep1\<lparr>rr_Cleaned := n\<rparr>, []), st4))"
  unfolding OutboxWorker_RunOnce_def Let_def assms(1,2) sum.case prod.case assms(3)
  by (cases errs1) (simp_all add: assms(4))

locale outbox_store =
  fixes store :: "'s OutboxStore" and pub :: "'s publisher"
    and pending :: "'s \<Rightarrow> int \<Rightarrow> (string \<times> uint64) option"
    and sent :: "'s \<Rightarrow> (string \<times> uint64) set"
  assumes stats_keeps: "ob_Stats store now st = (x, st1) \<Longrightarrow> pending st1 = pending st \<and> sent st1 = sent st"
    and claim_keeps: "ob_Claim store now n lease st = (y, st1)
      \<Longrightarrow> pending st1 = pending st \<and> sent st1 = sent st"
    and claim_pending: "ob_Claim store now n lease st = (Inr rs, st1)
      \<Longrightarrow> \<forall>r\<in>set rs. pending st (or_ID r) = Some (or_RoomID r, or_Revision r)"
    and claim_distinct: "ob_Claim store now n lease st = (Inr rs, st1) \<Longrightarrow> distinct (map or_ID rs)"
    and release_keeps: "ob_Release store r t st = (z, st1)
      \<Longrightarrow> pending st1 = pending st \<and> sent st1 = sent st"
    and cleanup_keeps: "ob_Cleanup store t st = (w, st1)
      \<Longrightarrow> pending st1 = pending st \<and> sent st1 = sent st"
    and mark_fails: "ob_Mark store r t st = (Inl e, st1)
      \<Longrightarrow> pending st1 = pending st \<and> sent st1 = sent st"
    and mark_takes: "ob_Mark store r t st = (Inr (), st1)
      \<Longrightarrow> pending st1 = (pending st)(or_ID r := None) \<and> sent st1 = sent st"
    and publish_fails: "pub room k st = (Inl e, st1) \<Longrightarrow> pending st1 = pending st
      \<and> sent st \<subseteq> sent st1"
    and publish_sends: "pub room k st = (Inr (), st1) \<Longrightarrow> pending st1 = pending st
      \<and> insert (room, k) (sent st) \<subseteq> sent st1"
begin

lemma publishRecords_safe:
  assumes "publishRecords store pub c now rs rep st = ((rep', errs), st')"
    and "\<forall>r\<in>set rs. pending st (or_ID r) = Some (or_RoomID r, or_Revision r)"
    and "distinct (map or_ID rs)"
  shows "(\<forall>i. pending st' i = pending st i
      \<or> (\<exists>r\<in>set rs. i = or_ID r \<and> pending st' i = None \<and> (or_RoomID r, or_Revision r) \<in> sent st'))
    \<and> sent st \<subseteq> sent st'
    \<and> (errs = [] \<longrightarrow> (\<forall>r\<in>set rs. pending st' (or_ID r) = None)
         \<and> rr_Published rep' = rr_Published rep + int (length rs))
    \<and> rr_Attempts rep' - rr_Attempts rep
        = (rr_Published rep' - rr_Published rep) + (if errs = [] then 0 else 1)"
  using assms
proof (induction rs arbitrary: rep st)
  case (Cons r rs)
  let ?rep = "rep\<lparr>rr_Attempts := rr_Attempts rep + 1,
     rr_Retries := rr_Retries rep + (if 1 < or_Attempts r then 1 else 0)\<rparr>"
  obtain p st1 where p: "pub (or_RoomID r) (or_Revision r) st = (p, st1)" by fastforce
  show ?case
  proof (cases p)
    case (Inl e)
    obtain rel st2 where rel: "ob_Release store r (now + retryDelay c (or_Attempts r)) st1 = (rel, st2)"
      by fastforce
    with Cons.prems(1) p Inl have "st' = st2" "errs \<noteq> []" "rr_Published rep' = rr_Published rep"
      "rr_Attempts rep' = rr_Attempts rep + 1"
      by (auto simp: Let_def)
    with publish_fails [OF p [unfolded Inl]] release_keeps [OF rel] show ?thesis by simp
  next
    case (Inr u)
    obtain m st2 where m: "ob_Mark store r now st1 = (m, st2)" by fastforce
    from p Inr have "pub (or_RoomID r) (or_Revision r) st = (Inr (), st1)" by simp
    note sends = publish_sends [OF this]
    show ?thesis
    proof (cases m)
      case (Inl e)
      with Cons.prems(1) p Inr m have "st' = st2" "errs \<noteq> []" "rr_Published rep' = rr_Published rep"
        "rr_Attempts rep' = rr_Attempts rep + 1"
        by (auto simp: Let_def)
      with sends mark_fails [OF m [unfolded Inl]] show ?thesis by auto
    next
      case (Inr v)
      from m Inr have "ob_Mark store r now st1 = (Inr (), st2)" by simp
      note takes = mark_takes [OF this]
      have rec: "publishRecords store pub c now rs (?rep\<lparr>rr_Published := rr_Published ?rep + 1\<rparr>) st2
        = ((rep', errs), st')"
        using Cons.prems(1) p \<open>p = Inr u\<close> m Inr by (simp add: Let_def)
      have pend: "\<forall>q\<in>set rs. pending st2 (or_ID q) = Some (or_RoomID q, or_Revision q)"
        using Cons.prems(2,3) sends takes by (auto simp: image_iff)
      have dist: "distinct (map or_ID rs)" using Cons.prems(3) by simp
      note IH = Cons.IH [OF rec pend dist]
      have gone: "pending st' (or_ID r) = None"
        using IH takes by (metis fun_upd_same)
      have r_sent: "(or_RoomID r, or_Revision r) \<in> sent st'"
        using IH takes sends by blast
      have step: "pending st' i = pending st i \<or> (\<exists>q\<in>set (r # rs). i = or_ID q
          \<and> pending st' i = None \<and> (or_RoomID q, or_Revision q) \<in> sent st')" for i
      proof (cases "i = or_ID r")
        case True
        with gone r_sent show ?thesis by auto
      next
        case False
        with takes sends have "pending st2 i = pending st i" by simp
        with IH show ?thesis by (metis list.set_intros(2))
      qed
      have "sent st \<subseteq> sent st'" using IH takes sends by blast
      with IH gone step show ?thesis by simp
    qed
  qed
qed simp

text \<open>At least once: a row leaves the outbox only after its revision was handed to the publisher.\<close>

lemma run_at_least_once:
  assumes "OutboxWorker_RunOnce store pub c now st = ((rep, errs), st')"
    and "pending st i = Some (room, k)"
  shows "pending st' i = Some (room, k) \<or> pending st' i = None \<and> (room, k) \<in> sent st'"
proof -
  obtain x st1 where s1: "ob_Stats store now st = (x, st1)" by fastforce
  note k1 = stats_keeps [OF s1]
  show ?thesis
  proof (cases x)
    case (Inl e)
    with assms s1 k1 show ?thesis by (auto simp: OutboxWorker_RunOnce_def)
  next
    case (Inr stats)
    obtain y st2 where s2: "ob_Claim store now (oc_BatchSize c) (oc_ClaimLease c) st1 = (y, st2)"
      by fastforce
    note k2 = claim_keeps [OF s2]
    show ?thesis
    proof (cases y)
      case (Inl e)
      with assms s1 s2 k1 k2 \<open>x = Inr stats\<close> show ?thesis
        by (auto simp: OutboxWorker_RunOnce_def)
    next
      case (Inr rs)
      from s2 Inr have claim: "ob_Claim store now (oc_BatchSize c) (oc_ClaimLease c) st1 = (Inr rs, st2)"
        by simp
      let ?rep = "zeroOutboxReport\<lparr>rr_BacklogDepth := os_BacklogDepth stats,
        rr_OldestPendingAge := os_OldestPendingAge stats, rr_Claimed := int (length rs)\<rparr>"
      obtain rep1 errs1 st3 where pr: "publishRecords store pub c now rs ?rep st2 = ((rep1, errs1), st3)"
        by (metis prod.collapse)
      have "\<forall>r\<in>set rs. pending st2 (or_ID r) = Some (or_RoomID r, or_Revision r)"
        using claim_pending [OF claim] k2 by simp
      note safe = publishRecords_safe [OF pr this claim_distinct [OF claim]]
      have three: "pending st3 i = Some (room, k) \<or> pending st3 i = None \<and> (room, k) \<in> sent st3"
      proof (cases "pending st3 i = pending st2 i")
        case True
        with assms(2) k1 k2 show ?thesis by simp
      next
        case False
        with safe obtain r where r: "r \<in> set rs" "i = or_ID r" "pending st3 i = None"
          "(or_RoomID r, or_Revision r) \<in> sent st3" by blast
        with claim_pending [OF claim] assms(2) k1 show ?thesis by auto
      qed
      obtain w st4 where s4: "ob_Cleanup store (now - oc_PublishedRetain c) st3 = (w, st4)" by fastforce
      have "st' = st3 \<or> st' = st4"
        using assms(1) unfolding RunOnce_claimed [OF s1 [unfolded \<open>x = Inr stats\<close>] claim pr s4]
        by (cases w) (simp_all split: if_splits)
      then show ?thesis using three cleanup_keeps [OF s4] by (elim disjE) simp_all
    qed
  qed
qed

text \<open>A run without an error publishes everything it claimed.\<close>

lemma run_publishes_all:
  assumes "OutboxWorker_RunOnce store pub c now st = ((rep, []), st')"
  shows "rr_Published rep = rr_Claimed rep \<and> rr_Attempts rep = rr_Claimed rep"
proof -
  obtain x st1 where x: "ob_Stats store now st = (x, st1)" by fastforce
  obtain stats where "x = Inr stats"
    using assms x by (cases x) (simp_all add: OutboxWorker_RunOnce_def)
  note s1 = x [unfolded this]
  obtain y st2 where y: "ob_Claim store now (oc_BatchSize c) (oc_ClaimLease c) st1 = (y, st2)"
    by fastforce
  obtain rs where "y = Inr rs"
    using assms s1 y by (cases y) (simp_all add: OutboxWorker_RunOnce_def Let_def)
  note s2 = y [unfolded this]
  let ?rep = "zeroOutboxReport\<lparr>rr_BacklogDepth := os_BacklogDepth stats,
    rr_OldestPendingAge := os_OldestPendingAge stats, rr_Claimed := int (length rs)\<rparr>"
  obtain rep1 errs1 st3 where pr: "publishRecords store pub c now rs ?rep st2 = ((rep1, errs1), st3)"
    by (metis prod.collapse)
  have "\<forall>r\<in>set rs. pending st2 (or_ID r) = Some (or_RoomID r, or_Revision r)"
    using claim_pending [OF s2] claim_keeps [OF s2] by simp
  note safe = publishRecords_safe [OF pr this claim_distinct [OF s2]]
  have claimed: "rr_Claimed rep1 = int (length rs)"
    using publishRecords_claimed [of store pub c now rs ?rep st2] pr by simp
  obtain w st4 where s4: "ob_Cleanup store (now - oc_PublishedRetain c) st3 = (w, st4)" by fastforce
  from assms have "errs1 = []" "rr_Published rep = rr_Published rep1"
    "rr_Claimed rep = rr_Claimed rep1" "rr_Attempts rep = rr_Attempts rep1"
    unfolding RunOnce_claimed [OF s1 s2 pr s4] by (auto split: if_splits sum.splits)
  with safe claimed show ?thesis by (simp add: zeroOutboxReport_def)
qed

end

section \<open>The PostgreSQL table\<close>

record outbox_row =
  ob_room_code :: string
  ob_revision :: uint64
  ob_attempts :: int
  ob_next_attempt_at :: go_time
  ob_published_at :: "go_time option"
  ob_created_at :: go_time
  ob_claim_token :: "string option"
  ob_claimed_until :: "go_time option"

type_synonym outbox_table = "(int, outbox_row) fmap"

definition claimable :: "go_time \<Rightarrow> outbox_row \<Rightarrow> bool" where
  "claimable now row \<longleftrightarrow> ob_published_at row = None \<and> ob_next_attempt_at row \<le> now
     \<and> (case ob_claimed_until row of None \<Rightarrow> True | Some u \<Rightarrow> u \<le> now)"

text \<open>\<open>ORDER BY next_attempt_at, outbox_id LIMIT n\<close>; no other transaction holds a lock, as each
  statement is atomic here.\<close>

definition claim_candidates :: "go_time \<Rightarrow> int \<Rightarrow> outbox_table \<Rightarrow> int list" where
  "claim_candidates now n t =
     take (nat n) (sort_key (\<lambda>i. ob_next_attempt_at (the (fmlookup t i)))
       (filter (\<lambda>i. claimable now (the (fmlookup t i))) (sorted_list_of_fset (fmdom t))))"

definition claim_row :: "go_time \<Rightarrow> duration \<Rightarrow> string \<Rightarrow> outbox_row \<Rightarrow> outbox_row" where
  "claim_row now lease token row = row\<lparr>ob_claim_token := Some token,
     ob_claimed_until := Some (now + lease), ob_attempts := ob_attempts row + 1\<rparr>"

definition row_record :: "int \<Rightarrow> outbox_row \<Rightarrow> OutboxRecord" where
  "row_record i row = \<lparr>or_ID = i, or_RoomID = ob_room_code row, or_Revision = ob_revision row,
     or_ClaimToken = (case ob_claim_token row of None \<Rightarrow> '''' | Some x \<Rightarrow> x),
     or_Attempts = ob_attempts row\<rparr>"

text \<open>\<open>token\<close> is the outcome of \<open>newClaimToken\<close>. The rows come back in candidate order; SQL leaves the
  order of \<open>RETURNING\<close> open, and nothing below depends on it.\<close>

definition newClaimToken :: "string result \<Rightarrow> string result" where
  "newClaimToken random = bindR random (\<lambda>r. Inr (hex_EncodeToString r))"

definition ClaimOutbox ::
    "string result \<Rightarrow> go_time \<Rightarrow> int \<Rightarrow> duration \<Rightarrow> (outbox_table, OutboxRecord list) op" where
  "ClaimOutbox token now n lease t =
     (if n \<le> 0 \<or> lease \<le> 0
        then (Inl (ErrText ''outbox claim limit and lease must be positive''), t)
      else case token of
        Inl e \<Rightarrow> (Inl e, t)
      | Inr tok \<Rightarrow>
         (let cs = claim_candidates now n t;
              t1 = fmmap_keys (\<lambda>i row. if i \<in> set cs then claim_row now lease tok row else row) t
          in (Inr (map (\<lambda>i. row_record i (the (fmlookup t1 i))) cs), t1)))"

definition pending_rows :: "outbox_table \<Rightarrow> int list" where
  "pending_rows t = filter (\<lambda>i. ob_published_at (the (fmlookup t i)) = None)
     (sorted_list_of_fset (fmdom t))"

definition OutboxPendingStats_query :: "go_time \<Rightarrow> (outbox_table, OutboxPendingStats) op" where
  "OutboxPendingStats_query now t =
     (let ids = pending_rows t; created = map (\<lambda>i. ob_created_at (the (fmlookup t i))) ids in
      (Inr \<lparr>os_BacklogDepth = int (length ids),
            os_OldestPendingAge = (case created of
               [] \<Rightarrow> 0
             | c # cs \<Rightarrow> let oldest = fold min cs c in
                 if oldest < now then time_Sub now oldest else 0)\<rparr>, t))"

text \<open>\<open>WHERE outbox_id=$1 AND claim_token=$2 AND published_at IS NULL\<close>.\<close>

definition claimed_by :: "OutboxRecord \<Rightarrow> outbox_table \<Rightarrow> outbox_row option" where
  "claimed_by r t = (case fmlookup t (or_ID r) of
     None \<Rightarrow> None
   | Some row \<Rightarrow> if ob_claim_token row = Some (or_ClaimToken r) \<and> ob_published_at row = None
                 then Some row else None)"

definition MarkOutboxPublished :: "OutboxRecord \<Rightarrow> go_time \<Rightarrow> (outbox_table, unit) op" where
  "MarkOutboxPublished r publishedAt t = (case claimed_by r t of
     None \<Rightarrow> (Inl (Err ErrOutboxClaimLost), t)
   | Some row \<Rightarrow> (Inr (), fmupd (or_ID r) (row\<lparr>ob_published_at := Some publishedAt,
        ob_claim_token := None, ob_claimed_until := None\<rparr>) t))"

definition ReleaseOutbox :: "OutboxRecord \<Rightarrow> go_time \<Rightarrow> (outbox_table, unit) op" where
  "ReleaseOutbox r retryAt t = (case claimed_by r t of
     None \<Rightarrow> (Inl (Err ErrOutboxClaimLost), t)
   | Some row \<Rightarrow> (Inr (), fmupd (or_ID r) (row\<lparr>ob_next_attempt_at := retryAt,
        ob_claim_token := None, ob_claimed_until := None\<rparr>) t))"

definition expired_row :: "go_time \<Rightarrow> outbox_row \<Rightarrow> bool" where
  "expired_row before row = (case ob_published_at row of None \<Rightarrow> False | Some p \<Rightarrow> p < before)"

definition CleanupPublishedOutbox :: "go_time \<Rightarrow> (outbox_table, int) op" where
  "CleanupPublishedOutbox before t =
     (let keep = fmfilter (\<lambda>i. \<not> expired_row before (the (fmlookup t i))) t
      in (Inr (int (flen t) - int (flen keep)), keep))"

section \<open>The Redis publisher\<close>

record RevisionHint =
  rh_RoomID :: string
  rh_Revision :: uint64

definition RoomChannel :: "string \<Rightarrow> string" where
  "RoomChannel roomID = ''room:'' @ roomID"

definition hint_Marshal :: "RevisionHint \<Rightarrow> string" where
  "hint_Marshal h = ''{'' @ field ''room_id'' (json_string (rh_RoomID h)) @ '',''
     @ field ''revision'' (dec (unat (rh_Revision h))) @ ''}''"

definition EncodeRevisionHint :: "RevisionHint \<Rightarrow> string result" where
  "EncodeRevisionHint h =
     (if rh_RoomID h = '''' \<or> rh_Revision h = 0 then Inl (Err ErrInvalidRevisionHint)
      else Inr (hint_Marshal h))"

text \<open>\<open>decode\<close> is the strict JSON decoder filling a zero \<open>RevisionHint\<close>; \<open>None\<close> is its error.\<close>

definition DecodeRevisionHint ::
    "(string \<Rightarrow> RevisionHint option) \<Rightarrow> string \<Rightarrow> string \<Rightarrow> RevisionHint result" where
  "DecodeRevisionHint decode channel payload =
     (case decode payload of
        None \<Rightarrow> Inl (Err ErrInvalidRevisionHint)
      | Some h \<Rightarrow> if rh_RoomID h = '''' \<or> rh_Revision h = 0 \<or> channel \<noteq> RoomChannel (rh_RoomID h)
                  then Inl (Err ErrInvalidRevisionHint) else Inr h)"

text \<open>\<open>client\<close> is the Redis client's \<open>Publish\<close> of a channel and a payload.\<close>

definition PublishRevision ::
    "(string \<Rightarrow> string \<Rightarrow> ('s, unit) op) \<Rightarrow> string \<Rightarrow> uint64 \<Rightarrow> ('s, unit) op" where
  "PublishRevision client roomID revision st =
     (case EncodeRevisionHint \<lparr>rh_RoomID = roomID, rh_Revision = revision\<rparr> of
        Inl e \<Rightarrow> (Inl e, st)
      | Inr payload \<Rightarrow> client (RoomChannel roomID) payload st)"

section \<open>The deployment: the table with Redis\<close>

text \<open>
  The state a worker acts on: the table, and the messages Redis has accepted. \<open>reply\<close> decides what a
  \<open>Publish\<close> answers and whether the message was accepted (an error may hide an accepted message, a
  success may not hide a lost one); \<open>down\<close> decides which statements the database refuses.
\<close>

record outbox_world =
  ow_table :: outbox_table
  ow_accepted :: "(string \<times> string) list"

type_synonym redis_reply = "(string \<times> string) list \<Rightarrow> string \<times> string \<Rightarrow> go_error option \<times> bool"

definition redis_client :: "redis_reply \<Rightarrow> string \<Rightarrow> string \<Rightarrow> (outbox_world, unit) op" where
  "redis_client reply channel payload w =
     (let (err, accepted) = reply (ow_accepted w) (channel, payload);
          w1 = (if accepted \<or> err = None
                then w\<lparr>ow_accepted := ow_accepted w @ [(channel, payload)]\<rparr> else w)
      in (case err of None \<Rightarrow> Inr () | Some e \<Rightarrow> Inl e, w1))"

type_synonym db_faults = "outbox_world \<Rightarrow> string \<Rightarrow> go_error option"

definition statement ::
    "db_faults \<Rightarrow> string \<Rightarrow> (outbox_table, 'a) op \<Rightarrow> (outbox_world, 'a) op" where
  "statement down name oper w =
     (case down w name of
        Some e \<Rightarrow> (Inl e, w)
      | None \<Rightarrow> let (r, t) = oper (ow_table w) in (r, w\<lparr>ow_table := t\<rparr>))"

definition pg_outbox :: "db_faults \<Rightarrow> string result \<Rightarrow> outbox_world OutboxStore" where
  "pg_outbox down token =
     \<lparr>ob_Claim = \<lambda>now n lease. statement down ''claim'' (ClaimOutbox token now n lease),
      ob_Stats = \<lambda>now. statement down ''stats'' (OutboxPendingStats_query now),
      ob_Mark = \<lambda>r t. statement down ''mark'' (MarkOutboxPublished r t),
      ob_Release = \<lambda>r t. statement down ''release'' (ReleaseOutbox r t),
      ob_Cleanup = \<lambda>t. statement down ''cleanup'' (CleanupPublishedOutbox t)\<rparr>"

definition outbox_pending :: "outbox_table \<Rightarrow> int \<Rightarrow> (string \<times> uint64) option" where
  "outbox_pending t i = (case fmlookup t i of
     None \<Rightarrow> None
   | Some row \<Rightarrow> if ob_published_at row = None then Some (ob_room_code row, ob_revision row) else None)"

definition hint_message :: "string \<Rightarrow> uint64 \<Rightarrow> string \<times> string" where
  "hint_message room k = (RoomChannel room, hint_Marshal \<lparr>rh_RoomID = room, rh_Revision = k\<rparr>)"

definition hints_sent :: "outbox_world \<Rightarrow> (string \<times> uint64) set" where
  "hints_sent w = {(room, k). hint_message room k \<in> set (ow_accepted w)}"

section \<open>Lemmas on the table\<close>

lemma statement_cases:
  assumes "statement down name oper w = (r, w')"
  obtains (refused) e where "r = Inl e" "w' = w"
  | (ran) t where "oper (ow_table w) = (r, t)" "w' = w\<lparr>ow_table := t\<rparr>"
proof (cases "down w name")
  case None
  obtain r' t where "oper (ow_table w) = (r', t)" by fastforce
  with None assms ran show ?thesis by (simp add: statement_def)
next
  case (Some e)
  with assms have "r = Inl e" "w' = w" by (simp_all add: statement_def)
  then show ?thesis by (rule refused)
qed

lemma set_claim_candidates:
  "set (claim_candidates now n t) \<subseteq> {i. \<exists>row. fmlookup t i = Some row \<and> claimable now row}"
proof
  fix i assume "i \<in> set (claim_candidates now n t)"
  then have "i \<in> set (filter (\<lambda>i. claimable now (the (fmlookup t i))) (sorted_list_of_fset (fmdom t)))"
    unfolding claim_candidates_def by (metis in_set_takeD set_sort)
  then show "i \<in> {i. \<exists>row. fmlookup t i = Some row \<and> claimable now row}"
    by (auto simp: fmlookup_dom_iff)
qed

lemma distinct_claim_candidates: "distinct (claim_candidates now n t)"
proof -
  have "distinct (sorted_list_of_fset (fmdom t))"
    unfolding sorted_list_of_fset.rep_eq by simp
  then show ?thesis by (simp add: claim_candidates_def)
qed

lemma claim_keeps_pending:
  "outbox_pending (fmmap_keys (\<lambda>i row. if i \<in> S then claim_row now lease tok row else row) t)
    = outbox_pending t"
proof (rule ext)
  fix i show "outbox_pending (fmmap_keys (\<lambda>i row. if i \<in> S then claim_row now lease tok row else row) t) i
    = outbox_pending t i"
    by (cases "fmlookup t i") (simp_all add: outbox_pending_def claim_row_def)
qed

text \<open>What a successful claim returns and does.\<close>

lemma ClaimOutbox_Inr:
  assumes "ClaimOutbox (Inr tok) now n lease t = (Inr rs, t1)"
  shows "map or_ID rs = claim_candidates now n t" and "0 < n" and "0 < lease"
    and "t1 = fmmap_keys (\<lambda>i row. if i \<in> or_ID ` set rs then claim_row now lease tok row else row) t"
    and "\<And>r. r \<in> set rs \<Longrightarrow> \<exists>row. fmlookup t (or_ID r) = Some row \<and> claimable now row
       \<and> r = row_record (or_ID r) (claim_row now lease tok row)"
proof -
  let ?cs = "claim_candidates now n t"
  let ?t1 = "fmmap_keys (\<lambda>i row. if i \<in> set ?cs then claim_row now lease tok row else row) t"
  from assms have n: "0 < n" "0 < lease"
    and rs: "rs = map (\<lambda>i. row_record i (the (fmlookup ?t1 i))) ?cs" and t1: "t1 = ?t1"
    by (auto simp: ClaimOutbox_def Let_def split: if_splits)
  show "0 < n" "0 < lease" by (fact n)+
  show ids: "map or_ID rs = ?cs" by (simp add: rs row_record_def comp_def)
  then have "or_ID ` set rs = set ?cs" by (metis set_map)
  with t1 show "t1 = fmmap_keys (\<lambda>i row. if i \<in> or_ID ` set rs then claim_row now lease tok row else row) t"
    by simp
  show "\<exists>row. fmlookup t (or_ID r) = Some row \<and> claimable now row
       \<and> r = row_record (or_ID r) (claim_row now lease tok row)" if "r \<in> set rs" for r
  proof -
    from that obtain i where i: "i \<in> set ?cs" "r = row_record i (the (fmlookup ?t1 i))" by (auto simp: rs)
    then obtain row where "fmlookup t i = Some row" "claimable now row"
      using set_claim_candidates by blast
    with i show ?thesis by (simp add: row_record_def)
  qed
qed

lemma claimed_record:
  "or_ID (row_record i row) = i"
  "or_RoomID (row_record i (claim_row now lease tok row)) = ob_room_code row"
  "or_Revision (row_record i (claim_row now lease tok row)) = ob_revision row"
  "or_ClaimToken (row_record i (claim_row now lease tok row)) = tok"
  "or_Attempts (row_record i (claim_row now lease tok row)) = ob_attempts row + 1"
  by (simp_all add: row_record_def claim_row_def)

lemma ClaimOutbox_Inl: "ClaimOutbox token now n lease t = (Inl e, t1) \<Longrightarrow> t1 = t"
  by (auto simp: ClaimOutbox_def Let_def split: if_splits sum.splits)

lemma ClaimOutbox_token: "ClaimOutbox token now n lease t = (Inr rs, t1) \<Longrightarrow> \<exists>tok. token = Inr tok"
  by (auto simp: ClaimOutbox_def split: if_splits sum.splits)

lemma ClaimOutbox_pending:
  "ClaimOutbox token now n lease t = (y, t1) \<Longrightarrow> outbox_pending t1 = outbox_pending t"
proof (cases y)
  case (Inl e)
  moreover assume "ClaimOutbox token now n lease t = (y, t1)"
  ultimately show ?thesis using ClaimOutbox_Inl by blast
next
  case (Inr rs)
  assume "ClaimOutbox token now n lease t = (y, t1)"
  with Inr obtain tok where "ClaimOutbox (Inr tok) now n lease t = (Inr rs, t1)"
    using ClaimOutbox_token by blast
  from ClaimOutbox_Inr(4) [OF this] show ?thesis by (simp only: claim_keeps_pending)
qed

lemma claimed_by_Some:
  "claimed_by r t = Some row \<longleftrightarrow> fmlookup t (or_ID r) = Some row
     \<and> ob_claim_token row = Some (or_ClaimToken r) \<and> ob_published_at row = None"
  by (auto simp: claimed_by_def split: option.splits)

lemma pending_Mark:
  "MarkOutboxPublished r p t = (Inr u, t1) \<Longrightarrow> outbox_pending t1 = (outbox_pending t)(or_ID r := None)"
  "MarkOutboxPublished r p t = (Inl e, t1) \<Longrightarrow> t1 = t"
  by (auto simp: MarkOutboxPublished_def outbox_pending_def split: option.splits)

lemma pending_Release:
  "ReleaseOutbox r p t = (x, t1) \<Longrightarrow> outbox_pending t1 = outbox_pending t"
proof (cases "claimed_by r t")
  case (Some row)
  moreover from this have "fmlookup t (or_ID r) = Some row" "ob_published_at row = None"
    by (simp_all add: claimed_by_Some)
  moreover assume "ReleaseOutbox r p t = (x, t1)"
  ultimately show ?thesis by (auto simp: ReleaseOutbox_def outbox_pending_def fun_eq_iff)
qed (simp add: ReleaseOutbox_def)

lemma pending_Cleanup:
  "CleanupPublishedOutbox before t = (x, t1) \<Longrightarrow> outbox_pending t1 = outbox_pending t"
proof (rule ext)
  fix i assume "CleanupPublishedOutbox before t = (x, t1)"
  then have "t1 = fmfilter (\<lambda>i. \<not> expired_row before (the (fmlookup t i))) t"
    by (simp add: CleanupPublishedOutbox_def Let_def)
  then show "outbox_pending t1 i = outbox_pending t i"
    by (cases "fmlookup t i")
      (simp_all add: outbox_pending_def expired_row_def split: option.splits)
qed

lemma pending_Stats: "OutboxPendingStats_query now t = (x, t1) \<Longrightarrow> t1 = t"
  by (auto simp: OutboxPendingStats_query_def Let_def)

section \<open>The deployment satisfies the contract\<close>

lemma redis_client_accepts:
  "redis_client reply ch p w = (x, w1) \<Longrightarrow> ow_table w1 = ow_table w
     \<and> set (ow_accepted w) \<subseteq> set (ow_accepted w1) \<and> (x = Inr () \<longrightarrow> (ch, p) \<in> set (ow_accepted w1))"
  by (auto simp: redis_client_def Let_def split: prod.splits if_splits option.splits)

lemma PublishRevision_accepts:
  assumes "PublishRevision (redis_client reply) room k w = (x, w1)"
  shows "ow_table w1 = ow_table w \<and> hints_sent w \<subseteq> hints_sent w1
    \<and> (x = Inr () \<longrightarrow> (room, k) \<in> hints_sent w1)"
proof (cases "EncodeRevisionHint \<lparr>rh_RoomID = room, rh_Revision = k\<rparr>")
  case (Inl e)
  with assms have "w1 = w" "x = Inl e" by (simp_all add: PublishRevision_def)
  then show ?thesis by simp
next
  case (Inr payload)
  then have p: "payload = hint_Marshal \<lparr>rh_RoomID = room, rh_Revision = k\<rparr>"
    by (simp add: EncodeRevisionHint_def split: if_splits)
  from assms Inr have "redis_client reply (RoomChannel room) payload w = (x, w1)"
    by (simp add: PublishRevision_def)
  from redis_client_accepts [OF this] show ?thesis
    by (auto simp: hints_sent_def hint_message_def p)
qed

lemma hints_sent_table [simp]: "hints_sent (w\<lparr>ow_table := t\<rparr>) = hints_sent w"
  by (simp add: hints_sent_def)

text \<open>A statement that keeps the pending rows keeps them when the database may refuse it.\<close>

lemma statement_keeps:
  assumes "statement down name oper w = (r, w')"
    and "\<And>r t. oper (ow_table w) = (r, t) \<Longrightarrow> outbox_pending t = outbox_pending (ow_table w)"
  shows "outbox_pending (ow_table w') = outbox_pending (ow_table w) \<and> hints_sent w' = hints_sent w"
  using assms(1) by (cases rule: statement_cases) (simp_all add: assms(2))

lemma statement_Inr:
  "statement down name oper w = (Inr x, w') \<Longrightarrow>
     oper (ow_table w) = (Inr x, ow_table w') \<and> hints_sent w' = hints_sent w"
  by (cases rule: statement_cases, assumption) simp_all

interpretation pg: outbox_store "pg_outbox down token" "PublishRevision (redis_client reply)"
  "\<lambda>w. outbox_pending (ow_table w)" hints_sent
proof unfold_locales
  fix now st x st1 assume "ob_Stats (pg_outbox down token) now st = (x, st1)"
  then have "statement down ''stats'' (OutboxPendingStats_query now) st = (x, st1)"
    by (simp add: pg_outbox_def)
  from statement_keeps [OF this] pending_Stats
  show "outbox_pending (ow_table st1) = outbox_pending (ow_table st) \<and> hints_sent st1 = hints_sent st"
    by metis
next
  fix now n lease st y st1 assume "ob_Claim (pg_outbox down token) now n lease st = (y, st1)"
  then have "statement down ''claim'' (ClaimOutbox token now n lease) st = (y, st1)"
    by (simp add: pg_outbox_def)
  from statement_keeps [OF this] ClaimOutbox_pending
  show "outbox_pending (ow_table st1) = outbox_pending (ow_table st) \<and> hints_sent st1 = hints_sent st"
    by metis
next
  fix now n lease st rs st1 assume "ob_Claim (pg_outbox down token) now n lease st = (Inr rs, st1)"
  then have "ClaimOutbox token now n lease (ow_table st) = (Inr rs, ow_table st1)"
    using statement_Inr by (fastforce simp: pg_outbox_def)
  then obtain tok where c: "ClaimOutbox (Inr tok) now n lease (ow_table st) = (Inr rs, ow_table st1)"
    using ClaimOutbox_token by blast
  show "\<forall>r\<in>set rs. outbox_pending (ow_table st) (or_ID r) = Some (or_RoomID r, or_Revision r)"
  proof
    fix r assume "r \<in> set rs"
    from ClaimOutbox_Inr(5) [OF c this] obtain row where "fmlookup (ow_table st) (or_ID r) = Some row"
      "claimable now row" "r = row_record (or_ID r) (claim_row now lease tok row)" by blast
    moreover from this(3) have "or_RoomID r = ob_room_code row" "or_Revision r = ob_revision row"
      by (metis claimed_record)+
    ultimately show "outbox_pending (ow_table st) (or_ID r) = Some (or_RoomID r, or_Revision r)"
      by (simp add: outbox_pending_def claimable_def)
  qed
  show "distinct (map or_ID rs)"
    using ClaimOutbox_Inr(1) [OF c] distinct_claim_candidates by simp
next
  fix r t st z st1 assume "ob_Release (pg_outbox down token) r t st = (z, st1)"
  then have "statement down ''release'' (ReleaseOutbox r t) st = (z, st1)"
    by (simp add: pg_outbox_def)
  from statement_keeps [OF this] pending_Release
  show "outbox_pending (ow_table st1) = outbox_pending (ow_table st) \<and> hints_sent st1 = hints_sent st"
    by metis
next
  fix t st w st1 assume "ob_Cleanup (pg_outbox down token) t st = (w, st1)"
  then have "statement down ''cleanup'' (CleanupPublishedOutbox t) st = (w, st1)"
    by (simp add: pg_outbox_def)
  from statement_keeps [OF this] pending_Cleanup
  show "outbox_pending (ow_table st1) = outbox_pending (ow_table st) \<and> hints_sent st1 = hints_sent st"
    by metis
next
  fix r t st e st1 assume "ob_Mark (pg_outbox down token) r t st = (Inl e, st1)"
  then have "statement down ''mark'' (MarkOutboxPublished r t) st = (Inl e, st1)"
    by (simp add: pg_outbox_def)
  then show "outbox_pending (ow_table st1) = outbox_pending (ow_table st) \<and> hints_sent st1 = hints_sent st"
    by (cases rule: statement_cases) (auto dest: pending_Mark(2))
next
  fix r t st st1 assume "ob_Mark (pg_outbox down token) r t st = (Inr (), st1)"
  then have "MarkOutboxPublished r t (ow_table st) = (Inr (), ow_table st1) \<and> hints_sent st1 = hints_sent st"
    using statement_Inr by (fastforce simp: pg_outbox_def)
  then show "outbox_pending (ow_table st1) = (outbox_pending (ow_table st))(or_ID r := None)
      \<and> hints_sent st1 = hints_sent st"
    using pending_Mark(1) by blast
next
  fix room k st e st1 assume "PublishRevision (redis_client reply) room k st = (Inl e, st1)"
  from PublishRevision_accepts [OF this]
  show "outbox_pending (ow_table st1) = outbox_pending (ow_table st) \<and> hints_sent st \<subseteq> hints_sent st1"
    by simp
next
  fix room k st st1 assume "PublishRevision (redis_client reply) room k st = (Inr (), st1)"
  from PublishRevision_accepts [OF this]
  show "outbox_pending (ow_table st1) = outbox_pending (ow_table st)
      \<and> insert (room, k) (hints_sent st) \<subseteq> hints_sent st1"
    by simp
qed

section \<open>Properties\<close>

text \<open>C18: Every revision written to the outbox is announced at least once. Whatever Redis answers and
  whichever statements the database refuses, a run of the worker takes a row out of the pending set
  only after Redis accepted, on the channel of the row's room, the message that encodes its
  revision; every other row stays pending for a later run.
\<close>
theorem outbox_announces_every_revision:
  assumes "OutboxWorker_RunOnce (pg_outbox down token) (PublishRevision (redis_client reply)) c now w
      = ((rep, errs), w')"
    and "outbox_pending (ow_table w) i = Some (room, k)"
  shows "outbox_pending (ow_table w') i = Some (room, k)
    \<or> outbox_pending (ow_table w') i = None
      \<and> (RoomChannel room, hint_Marshal \<lparr>rh_RoomID = room, rh_Revision = k\<rparr>) \<in> set (ow_accepted w')"
  using pg.run_at_least_once [OF assms] by (auto simp: hints_sent_def hint_message_def)

lemma retryLoop_doubles:
  assumes "0 < d" "0 < mx" "mx \<le> MaxInt64"
  shows "min mx (case retryLoop mx n a d of Inl x \<Rightarrow> x | Inr x \<Rightarrow> x) = min mx (d * 2 ^ nat (n - a))"
  using assms
proof (induction mx n a d rule: retryLoop.induct)
  case (1 mx n a d)
  show ?case
  proof (cases "a < n \<and> d < mx")
    case False
    then have "nat (n - a) = 0 \<or> mx \<le> d" by auto
    moreover have "d \<le> d * 2 ^ nat (n - a)" using "1.prems" by (simp add: mult_le_cancel_left1)
    ultimately show ?thesis using False by (subst retryLoop.simps) auto
  next
    case True
    then have k: "nat (n - a) = Suc (nat (n - (a + 1)))" by arith
    have half: "mx sdiv 2 = mx div 2" using "1.prems" by (simp add: signed_divide_int_def)
    show ?thesis
    proof (cases "mx sdiv 2 < d")
      case over: True
      then have "mx \<le> 2 * d" using half by simp
      also have "\<dots> \<le> d * 2 ^ nat (n - a)" using "1.prems" by (simp add: k)
      finally show ?thesis using True over by (subst retryLoop.simps) simp
    next
      case under: False
      then have "2 * d \<le> mx" using half by simp
      then have "i64 (d * 2) = d * 2" using "1.prems" by (intro i64_small) auto
      moreover from this have "min mx (case retryLoop mx n (a + 1) (d * 2) of Inl x \<Rightarrow> x | Inr x \<Rightarrow> x)
        = min mx (d * 2 * 2 ^ nat (n - (a + 1)))"
        using "1.IH" [OF True under] "1.prems" by simp
      ultimately show ?thesis using True under k by (subst retryLoop.simps) (simp add: mult.assoc)
    qed
  qed
qed

lemma retryLoop_Inl: "retryLoop mx n a d = Inl x \<Longrightarrow> x = mx"
proof (induction mx n a d rule: retryLoop.induct)
  case (1 mx n a d)
  then show ?case by (subst (asm) (2) retryLoop.simps) (auto split: if_splits)
qed

text \<open>The retry delay doubles with every attempt and is capped: after the \<open>n\<close>-th attempt it is
  \<open>min MaxRetry (RetryBase * 2 ^ (n - 1))\<close>, computed without overflow for every positive base and
  cap, however large the attempt count.
\<close>
theorem retry_delay_doubles_up_to_cap:
  assumes "0 < oc_RetryBase c" "0 < oc_MaxRetry c" "oc_MaxRetry c \<le> MaxInt64"
  shows "retryDelay c n = min (oc_MaxRetry c) (oc_RetryBase c * 2 ^ nat (n - 1))"
proof -
  have "retryDelay c n = min (oc_MaxRetry c)
      (case retryLoop (oc_MaxRetry c) n 1 (oc_RetryBase c) of Inl x \<Rightarrow> x | Inr x \<Rightarrow> x)"
    by (auto simp: retryDelay_def min_def dest: retryLoop_Inl split: sum.splits)
  with retryLoop_doubles [OF assms] show ?thesis by simp
qed

definition default_outbox :: OutboxConfig where
  "default_outbox = NewOutboxConfig \<lparr>oc_BatchSize = 0, oc_ClaimLease = 0, oc_RetryBase = 0,
     oc_MaxRetry = 0, oc_PublishedRetain = 0\<rparr>"

lemma retry_delay_doubles_up_to_cap_witness:
  "retryDelay default_outbox 4 = 8 * Second \<and> retryDelay default_outbox 99 = Minute"
  using retry_delay_doubles_up_to_cap [of default_outbox 4]
    retry_delay_doubles_up_to_cap [of default_outbox 99]
  by (simp add: default_outbox_def NewOutboxConfig_def orDefault_def MaxInt64_def)

text \<open>Where a claimed row stands until the next write to it.\<close>

lemma claim_leases:
  assumes "ClaimOutbox (Inr tok) now n lease t = (Inr rs, t1)" and "r \<in> set rs"
  obtains row where "fmlookup t (or_ID r) = Some row" "claimable now row"
    "fmlookup t1 (or_ID r) = Some (claim_row now lease tok row)"
    "r = row_record (or_ID r) (claim_row now lease tok row)"
proof -
  from ClaimOutbox_Inr(5) [OF assms] obtain row where
    row: "fmlookup t (or_ID r) = Some row" "claimable now row"
    "r = row_record (or_ID r) (claim_row now lease tok row)" by blast
  have "or_ID r \<in> or_ID ` set rs" using assms(2) by simp
  with row(1) ClaimOutbox_Inr(4) [OF assms(1)]
  have "fmlookup t1 (or_ID r) = Some (claim_row now lease tok row)" by simp
  with row that show thesis by blast
qed

text \<open>C40: A claim is exclusive and leased. A row one worker claimed is not handed out again before its
  lease has run out; when another worker then claims it under a new token, the attempt count has
  grown by one, and the first worker can neither mark nor release it any more: both answer
  \<open>ErrOutboxClaimLost\<close> and change nothing.
\<close>
theorem outbox_claim_exclusive:
  assumes "ClaimOutbox (Inr tok) now n lease t = (Inr rs, t1)" "r \<in> set rs"
    and "ClaimOutbox (Inr tok') now' n' lease' t1 = (Inr rs', t2)" "r' \<in> set rs'"
    and "or_ID r' = or_ID r"
  shows "now + lease \<le> now' \<and> or_Attempts r' = or_Attempts r + 1
    \<and> (tok' \<noteq> tok \<longrightarrow> MarkOutboxPublished r p t2 = (Inl (Err ErrOutboxClaimLost), t2)
         \<and> ReleaseOutbox r p t2 = (Inl (Err ErrOutboxClaimLost), t2))"
proof -
  from claim_leases [OF assms(1,2)] obtain row where
    row: "fmlookup t1 (or_ID r) = Some (claim_row now lease tok row)"
    "r = row_record (or_ID r) (claim_row now lease tok row)" by metis
  from claim_leases [OF assms(3,4)] obtain row' where
    row': "fmlookup t1 (or_ID r') = Some row'" "claimable now' row'"
    "fmlookup t2 (or_ID r') = Some (claim_row now' lease' tok' row')"
    "r' = row_record (or_ID r') (claim_row now' lease' tok' row')" by metis
  have eq: "row' = claim_row now lease tok row" using row(1) row'(1) assms(5) by simp
  have "now + lease \<le> now'" using row'(2) by (simp add: eq claimable_def claim_row_def)
  moreover have "or_Attempts r' = or_Attempts r + 1"
    using row(2) row'(4) by (metis claimed_record(5) eq claim_row_def outbox_row.select_convs(3)
      outbox_row.surjective outbox_row.update_convs)
  moreover have "claimed_by r t2 = None" if "tok' \<noteq> tok"
  proof -
    have "or_ClaimToken r = tok" using row(2) by (metis claimed_record(4))
    with that row'(3) assms(5) show ?thesis by (simp add: claimed_by_def claim_row_def)
  qed
  ultimately show ?thesis by (simp add: MarkOutboxPublished_def ReleaseOutbox_def)
qed

text \<open>One pending row, and its run against a healthy and an unreachable Redis.\<close>

definition demo_outbox_row :: outbox_row where
  "demo_outbox_row = \<lparr>ob_room_code = ''ABC234'', ob_revision = 7, ob_attempts = 0,
     ob_next_attempt_at = 0, ob_published_at = None, ob_created_at = 0, ob_claim_token = None,
     ob_claimed_until = None\<rparr>"

definition demo_outbox :: outbox_world where
  "demo_outbox = \<lparr>ow_table = fmupd 1 demo_outbox_row fmempty, ow_accepted = []\<rparr>"

abbreviation demo_outbox_run ::
    "redis_reply \<Rightarrow> (OutboxRunReport \<times> go_error list) \<times> outbox_world" where
  "demo_outbox_run reply \<equiv> OutboxWorker_RunOnce (pg_outbox (\<lambda>_ _. None) (Inr ''t1''))
     (PublishRevision (redis_client reply)) default_outbox 10 demo_outbox"

lemma sorted_list_of_fset_single [simp]: "sorted_list_of_fset {|i|} = [i]"
  by (simp add: sorted_list_of_fset.rep_eq)

lemma default_outbox_simps [simp]:
  "oc_BatchSize default_outbox = 100" "oc_ClaimLease default_outbox = 30 * Second"
  "oc_RetryBase default_outbox = Second" "oc_MaxRetry default_outbox = Minute"
  "oc_PublishedRetain default_outbox = 24 * Hour"
  by (simp_all add: default_outbox_def NewOutboxConfig_def orDefault_def)

lemmas demo_outbox_eval = OutboxWorker_RunOnce_def pg_outbox_def statement_def demo_outbox_def
  OutboxPendingStats_query_def pending_rows_def ClaimOutbox_def claim_candidates_def claimable_def
  claim_row_def row_record_def demo_outbox_row_def PublishRevision_def EncodeRevisionHint_def
  redis_client_def MarkOutboxPublished_def ReleaseOutbox_def claimed_by_def CleanupPublishedOutbox_def
  expired_row_def zeroOutboxReport_def time_Sub_def

lemma demo_outbox_claim:
  "ClaimOutbox (Inr tok) 10 100 (30 * Second) (ow_table demo_outbox)
    = (Inr [row_record 1 (claim_row 10 (30 * Second) tok demo_outbox_row)],
       fmupd 1 (claim_row 10 (30 * Second) tok demo_outbox_row) fmempty)"
  by (simp add: demo_outbox_eval Let_def fmap_ext)

lemma outbox_announces_every_revision_witness:
  "fst (fst (demo_outbox_run (\<lambda>_ _. (Some (ErrText ''down''), False))))
     = zeroOutboxReport\<lparr>rr_BacklogDepth := 1, rr_OldestPendingAge := 10, rr_Claimed := 1,
         rr_Attempts := 1, rr_PublishFailures := 1\<rparr>
   \<and> outbox_pending (ow_table demo_outbox) 1 = Some (''ABC234'', 7)
   \<and> (let w' = snd (demo_outbox_run (\<lambda>_ _. (Some (ErrText ''down''), False)))
      in outbox_pending (ow_table w') 1 = Some (''ABC234'', 7)
        \<or> outbox_pending (ow_table w') 1 = None
          \<and> (RoomChannel ''ABC234'', hint_Marshal \<lparr>rh_RoomID = ''ABC234'', rh_Revision = 7\<rparr>)
            \<in> set (ow_accepted w'))"
proof -
  let ?reply = "\<lambda>_ _. (Some (ErrText ''down''), False)"
  have start: "outbox_pending (ow_table demo_outbox) 1 = Some (''ABC234'', 7)"
    by (simp add: outbox_pending_def demo_outbox_def demo_outbox_row_def)
  obtain rep errs w' where run: "demo_outbox_run ?reply = ((rep, errs), w')"
    by (metis prod.collapse)
  have "fst (fst (demo_outbox_run ?reply)) = zeroOutboxReport\<lparr>rr_BacklogDepth := 1,
      rr_OldestPendingAge := 10, rr_Claimed := 1, rr_Attempts := 1, rr_PublishFailures := 1\<rparr>"
    by (simp add: demo_outbox_eval Let_def retryDelay_def retryLoop.simps MaxInt64_def)
  with outbox_announces_every_revision [OF run start] start run show ?thesis by simp
qed

lemma outbox_claim_exclusive_witness:
  "let row = claim_row 10 (30 * Second) ''t1'' demo_outbox_row;
       r = row_record 1 row;
       t1 = fmupd 1 row fmempty;
       t2 = fmupd 1 (claim_row (30 * Second + 10) Second ''t2'' row) fmempty
   in ClaimOutbox (Inr ''t1'') 10 100 (30 * Second) (ow_table demo_outbox) = (Inr [r], t1)
     \<and> MarkOutboxPublished r 99 t2 = (Inl (Err ErrOutboxClaimLost), t2)"
proof -
  let ?row = "claim_row 10 (30 * Second) ''t1'' demo_outbox_row"
  let ?t1 = "fmupd 1 ?row fmempty"
  let ?row2 = "claim_row (30 * Second + 10) Second ''t2'' ?row"
  let ?t2 = "fmupd (1::int) ?row2 fmempty"
  have second: "ClaimOutbox (Inr ''t2'') (30 * Second + 10) 100 Second ?t1
      = (Inr [row_record 1 ?row2], ?t2)"
    by (simp add: demo_outbox_eval Let_def fmap_ext)
  have ids: "or_ID (row_record 1 ?row2) = or_ID (row_record 1 ?row)" by (simp add: row_record_def)
  show ?thesis
    using outbox_claim_exclusive [OF demo_outbox_claim _ second _ ids, where p = 99] demo_outbox_claim
    by (simp add: Let_def)
qed

text \<open>With the database and Redis up, the loop reaches its end.\<close>

abbreviation healthy_outbox :: "string \<Rightarrow> outbox_world OutboxStore" where
  "healthy_outbox token \<equiv> pg_outbox (\<lambda>_ _. None) (Inr token)"

abbreviation healthy_redis :: "string \<Rightarrow> uint64 \<Rightarrow> (outbox_world, unit) op" where
  "healthy_redis \<equiv> PublishRevision (redis_client (\<lambda>_ _. (None, True)))"

lemma healthy_publishes:
  assumes "\<forall>r\<in>set rs. claimed_by r (ow_table w) \<noteq> None \<and> or_RoomID r \<noteq> '''' \<and> or_Revision r \<noteq> 0"
    and "distinct (map or_ID rs)"
  shows "\<exists>rep' w'. publishRecords (healthy_outbox token) healthy_redis c now rs rep w = ((rep', []), w')"
  using assms
proof (induction rs arbitrary: rep w)
  case (Cons r rs)
  from Cons.prems(1) obtain row where row: "claimed_by r (ow_table w) = Some row" by auto
  let ?t = "fmupd (or_ID r) (row\<lparr>ob_published_at := Some now, ob_claim_token := None,
    ob_claimed_until := None\<rparr>) (ow_table w)"
  let ?w = "w\<lparr>ow_accepted := ow_accepted w @ [hint_message (or_RoomID r) (or_Revision r)], ow_table := ?t\<rparr>"
  have keep: "claimed_by q ?t = claimed_by q (ow_table w)" if "q \<in> set rs" for q
  proof -
    from that Cons.prems(2) have "or_ID q \<noteq> or_ID r" by (auto simp: image_iff)
    then show ?thesis by (simp add: claimed_by_def)
  qed
  from Cons.prems have "\<exists>rep' w'. publishRecords (healthy_outbox token) healthy_redis c now rs
      rep0 ?w = ((rep', []), w')" for rep0
    by (intro Cons.IH) (simp_all add: keep)
  moreover have "healthy_redis (or_RoomID r) (or_Revision r) w = (Inr (), ?w\<lparr>ow_table := ow_table w\<rparr>)"
    using Cons.prems(1)
    by (simp add: PublishRevision_def EncodeRevisionHint_def redis_client_def hint_message_def)
  moreover have "ob_Mark (healthy_outbox token) r now (?w\<lparr>ow_table := ow_table w\<rparr>) = (Inr (), ?w)"
    using row by (simp add: pg_outbox_def statement_def MarkOutboxPublished_def)
  ultimately show ?case by (simp add: Let_def)
qed simp

lemma due_rows_claimed:
  assumes "fmlookup t i = Some row" "claimable now row"
    and "length (filter (\<lambda>i. claimable now (the (fmlookup t i))) (sorted_list_of_fset (fmdom t))) \<le> nat n"
  shows "i \<in> set (claim_candidates now n t)"
  using assms fmdomI [OF assms(1)] by (simp add: claim_candidates_def)

definition due_rows :: "go_time \<Rightarrow> outbox_table \<Rightarrow> int list" where
  "due_rows now t = filter (\<lambda>i. claimable now (the (fmlookup t i))) (sorted_list_of_fset (fmdom t))"

text \<open>What a claim of everything that is due gives: records that can be announced, one for each due row.\<close>

lemma claimed_ready:
  assumes "ClaimOutbox (Inr token) now n lease t = (Inr rs, t1)" "r \<in> set rs"
    and "\<forall>i row. fmlookup t i = Some row \<longrightarrow> ob_room_code row \<noteq> '''' \<and> ob_revision row \<noteq> 0"
  shows "claimed_by r t1 \<noteq> None \<and> or_RoomID r \<noteq> '''' \<and> or_Revision r \<noteq> 0
    \<and> outbox_pending t1 (or_ID r) = Some (or_RoomID r, or_Revision r)"
proof -
  from claim_leases [OF assms(1,2)] obtain row where row: "fmlookup t (or_ID r) = Some row"
    "claimable now row" "fmlookup t1 (or_ID r) = Some (claim_row now lease token row)"
    "r = row_record (or_ID r) (claim_row now lease token row)" by metis
  then have "or_RoomID r = ob_room_code row" "or_Revision r = ob_revision row" "or_ClaimToken r = token"
    by (metis claimed_record)+
  with row(1-3) assms(3) show ?thesis
    by (simp add: claimed_by_def claim_row_def claimable_def outbox_pending_def)
qed

lemma claimed_due:
  assumes "ClaimOutbox (Inr token) now n lease t = (Inr rs, t1)" "length (due_rows now t) \<le> nat n"
  shows "distinct (map or_ID rs)" "or_ID ` set rs = set (due_rows now t)" "length rs = length (due_rows now t)"
proof -
  note ids = ClaimOutbox_Inr(1) [OF assms(1)]
  show dist: "distinct (map or_ID rs)" using ids distinct_claim_candidates by simp
  have "set (claim_candidates now n t) = set (due_rows now t)"
    using assms(2) by (simp add: claim_candidates_def due_rows_def)
  then show same: "or_ID ` set rs = set (due_rows now t)" by (metis ids set_map)
  show "length rs = length (due_rows now t)"
    using same dist distinct_card [of "map or_ID rs"] distinct_card [of "due_rows now t"]
    by (simp add: due_rows_def sorted_list_of_fset.rep_eq)
qed

text \<open>C39: With PostgreSQL and Redis up, one run drains the outbox: when the rows that are due fit in the
  batch, all of them are announced and none of them is pending afterwards, and the report counts as
  many publications as claims.
\<close>
theorem outbox_run_drains:
  assumes "length (due_rows now (ow_table w)) \<le> nat (oc_BatchSize c)" "0 < oc_BatchSize c"
      "0 < oc_ClaimLease c"
    and "\<forall>i row. fmlookup (ow_table w) i = Some row
           \<longrightarrow> ob_room_code row \<noteq> '''' \<and> ob_revision row \<noteq> 0"
    and "OutboxWorker_RunOnce (healthy_outbox token) healthy_redis c now w = ((rep, errs), w')"
  shows "errs = [] \<and> rr_Published rep = rr_Claimed rep
    \<and> rr_Claimed rep = int (length (due_rows now (ow_table w)))
    \<and> (\<forall>i\<in>set (due_rows now (ow_table w)). outbox_pending (ow_table w') i = None
        \<and> (\<exists>room k. outbox_pending (ow_table w) i = Some (room, k) \<and> (room, k) \<in> hints_sent w'))"
proof -
  let ?t = "ow_table w" and ?st = "healthy_outbox token"
  obtain stats where s1: "ob_Stats ?st now w = (Inr stats, w)"
    by (simp add: pg_outbox_def statement_def OutboxPendingStats_query_def Let_def)
  obtain rs t1 where c: "ClaimOutbox (Inr token) now (oc_BatchSize c) (oc_ClaimLease c) ?t = (Inr rs, t1)"
    using assms(2,3) by (simp add: ClaimOutbox_def Let_def)
  let ?w1 = "w\<lparr>ow_table := t1\<rparr>"
  have s2: "ob_Claim ?st now (oc_BatchSize c) (oc_ClaimLease c) w = (Inr rs, ?w1)"
    by (simp add: pg_outbox_def statement_def c)
  note due = claimed_due [OF c assms(1)] and ready = claimed_ready [OF c _ assms(4)]
  let ?rep = "zeroOutboxReport\<lparr>rr_BacklogDepth := os_BacklogDepth stats,
    rr_OldestPendingAge := os_OldestPendingAge stats, rr_Claimed := int (length rs)\<rparr>"
  obtain rep1 w2 where pr: "publishRecords ?st healthy_redis c now rs ?rep ?w1 = ((rep1, []), w2)"
    using healthy_publishes [of rs ?w1 token c now ?rep] ready due(1) by auto
  obtain k w3 where s4: "ob_Cleanup ?st (now - oc_PublishedRetain c) w2 = (Inr k, w3)"
    by (simp add: pg_outbox_def statement_def CleanupPublishedOutbox_def Let_def)
  have run: "errs = []" "rep = rep1\<lparr>rr_Cleaned := k\<rparr>" "w' = w3"
    using assms(5) RunOnce_claimed [OF s1 s2 pr s4] by simp_all
  have pend: "\<forall>r\<in>set rs. outbox_pending (ow_table ?w1) (or_ID r) = Some (or_RoomID r, or_Revision r)"
    using ready by simp
  note safe = pg.publishRecords_safe [OF pr pend due(1)]
  note keep = pg.cleanup_keeps [OF s4]
  have "outbox_pending (ow_table w') i = None
      \<and> (\<exists>room k. outbox_pending ?t i = Some (room, k) \<and> (room, k) \<in> hints_sent w')"
    if "i \<in> set (due_rows now ?t)" for i
  proof -
    from that due(2) obtain r where r: "r \<in> set rs" "i = or_ID r" by blast
    have gone: "outbox_pending (ow_table w2) i = None" using safe r by simp
    moreover have "outbox_pending (ow_table w2) i \<noteq> outbox_pending (ow_table ?w1) i"
      using gone ready r by simp
    ultimately obtain q where q: "q \<in> set rs" "i = or_ID q" "(or_RoomID q, or_Revision q) \<in> hints_sent w2"
      using safe by metis
    have "outbox_pending ?t i = Some (or_RoomID q, or_Revision q)"
      using ready [OF q(1)] q(2) ClaimOutbox_pending [OF c] by simp
    with gone q keep run show ?thesis by auto
  qed
  moreover have "rr_Published rep = int (length rs)" "rr_Claimed rep = int (length rs)"
    using safe run publishRecords_claimed [of ?st healthy_redis c now rs ?rep ?w1] pr
    by (simp_all add: zeroOutboxReport_def)
  ultimately show ?thesis using run due(3) by simp
qed

lemma outbox_run_drains_witness:
  "due_rows 10 (ow_table demo_outbox) = [1]
   \<and> (\<exists>rep w'. OutboxWorker_RunOnce (healthy_outbox ''t1'') healthy_redis default_outbox 10 demo_outbox
         = ((rep, []), w') \<and> rr_Published rep = 1 \<and> outbox_pending (ow_table w') 1 = None)"
proof -
  have due: "due_rows 10 (ow_table demo_outbox) = [1]"
    by (simp add: due_rows_def demo_outbox_def demo_outbox_row_def claimable_def)
  obtain rep errs w' where run:
    "OutboxWorker_RunOnce (healthy_outbox ''t1'') healthy_redis default_outbox 10 demo_outbox
      = ((rep, errs), w')"
    by (metis prod.collapse)
  have rows: "\<forall>i row. fmlookup (ow_table demo_outbox) i = Some row
      \<longrightarrow> ob_room_code row \<noteq> '''' \<and> ob_revision row \<noteq> 0"
    by (simp add: demo_outbox_def demo_outbox_row_def)
  from outbox_run_drains [OF _ _ _ rows run] due have "errs = []" "rr_Published rep = 1"
    "outbox_pending (ow_table w') 1 = None" by simp_all
  with due run show ?thesis by blast
qed

end
