(* ===== verification/Postgres_Db.thy ===== *)
theory Postgres_Db
  imports Outbox
begin

text \<open>
  The PostgreSQL repository's state and its two central statements, \<open>adapter/postgres/repository.go\<close>.
  A table is a finite map from its primary key to a row; the columns are those of the migrations
  that the Go code reads or writes. A transaction is a function from the database to an error, which
  rolls everything back, or to a value and the new database. A statement is atomic and so is a
  transaction: the row locks of the source (\<open>FOR UPDATE\<close>, advisory locks) serialise the
  transactions that touch the same room, wallet or idempotency key. Connection failures are not
  modelled, a failed transaction has no effect.

  \<open>load\<close> rebuilds the aggregate of a room from its rows and \<open>save\<close> writes one back. The lemmas show
  that \<open>load\<close> after \<open>save\<close> gives the saved aggregate.
\<close>

section \<open>Tables\<close>

record room_row =
  rm_status :: string
  rm_current_round :: uint64
  rm_revision :: uint64

record seat_row =
  se_player_id :: string
  se_auth :: string
  se_wins :: int

record round_row =
  rr_result :: "string option"
  rr_forfeited_role :: "string option"
  rr_status :: string
  rr_funded :: bool
  rr_created_at :: go_time

record wallet_row =
  wa_type :: string
  wa_balance :: int

record transaction_row =
  wt_id :: int
  wt_type :: string
  wt_auth :: "string option"
  wt_amount :: "int option"

record history_row =
  hr_host :: string
  hr_guest :: string
  hr_result :: outcome
  hr_winner :: string
  hr_forfeited :: bool
  hr_house :: int
  hr_resolved_at :: go_time

record presence_row =
  pr_generation :: uint64
  pr_deadline :: go_time
  pr_refreshed_at :: go_time
  pr_present :: bool

record connection_row =
  co_session :: string
  co_room :: string
  co_role :: string
  co_lease :: go_time
  co_closed :: "go_time option"

record deadline_row =
  dl_room :: string
  dl_round :: uint64
  dl_kind :: string
  dl_role :: string
  dl_generation :: uint64
  dl_due :: go_time
  dl_status :: string
  dl_completed :: "go_time option"

record receipt_row =
  re_account :: string
  re_operation :: string
  re_hash :: string
  re_result :: CommandResult
  re_expires :: go_time

record session_row =
  ws_account :: string
  ws_csrf :: string
  ws_created :: go_time
  ws_seen :: go_time
  ws_idle :: go_time
  ws_absolute :: go_time
  ws_revoked :: "go_time option"

text \<open>
  \<open>db_now\<close> is the clock that SQL's \<open>now()\<close> reads. Keys: a room code; code and role; code and round;
  code, round and role; account id; business key; code and round; code and player id; connection id;
  deadline id; outbox id; idempotency key; session digest. Postings are in insertion order.
\<close>

record db =
  db_rooms :: "(string, room_row) fmap"
  db_seats :: "(string \<times> string, seat_row) fmap"
  db_rounds :: "(string \<times> uint64, round_row) fmap"
  db_moves :: "(string \<times> uint64 \<times> string, move) fmap"
  db_requests :: "(string \<times> uint64 \<times> string, unit) fmap"
  db_wallets :: "(string, wallet_row) fmap"
  db_transactions :: "(string, transaction_row) fmap"
  db_postings :: "(int \<times> string \<times> int) list"
  db_history :: "(string \<times> uint64, history_row) fmap"
  db_presence :: "(string \<times> string, presence_row) fmap"
  db_connections :: "(string, connection_row) fmap"
  db_deadlines :: "(int, deadline_row) fmap"
  db_outbox :: outbox_table
  db_receipts :: "(string, receipt_row) fmap"
  db_sessions :: "(string, session_row) fmap"
  db_notified :: "string list"
  db_next_transaction :: int
  db_next_deadline :: int
  db_next_outbox :: int
  db_now :: go_time

section \<open>Transactions\<close>

type_synonym 'a tx = "db \<Rightarrow> ('a \<times> db) result"

definition returnT :: "'a \<Rightarrow> 'a tx" where
  "returnT x st = Inr (x, st)"

definition failT :: "go_error \<Rightarrow> 'a tx" where
  "failT e st = Inl e"

definition bindT :: "'a tx \<Rightarrow> ('a \<Rightarrow> 'b tx) \<Rightarrow> 'b tx" where
  "bindT m f st = (case m st of Inl e \<Rightarrow> Inl e | Inr (x, st1) \<Rightarrow> f x st1)"

definition thenT :: "unit tx \<Rightarrow> 'b tx \<Rightarrow> 'b tx" where
  "thenT m k = bindT m (\<lambda>_. k)"

text \<open>A query, an update, and the early return on a condition.\<close>

definition askT :: "(db \<Rightarrow> 'a) \<Rightarrow> 'a tx" where
  "askT f st = Inr (f st, st)"

definition execT :: "(db \<Rightarrow> db) \<Rightarrow> unit tx" where
  "execT f st = Inr ((), f st)"

definition failIf :: "bool \<Rightarrow> go_error \<Rightarrow> unit tx" where
  "failIf b e = (if b then failT e else returnT ())"

definition liftT :: "'a result \<Rightarrow> 'a tx" where
  "liftT r = (case r of Inl e \<Rightarrow> failT e | Inr x \<Rightarrow> returnT x)"

text \<open>\<open>QueryRow(...).Scan\<close> of a row that may be missing.\<close>

definition rowT :: "go_error \<Rightarrow> 'a option \<Rightarrow> 'a tx" where
  "rowT e r = (case r of None \<Rightarrow> failT e | Some x \<Rightarrow> returnT x)"

text \<open>\<open>Begin\<close>, the body, and \<open>Commit\<close> or the deferred \<open>Rollback\<close>.\<close>

definition transaction :: "'a tx \<Rightarrow> (db, 'a) op" where
  "transaction m st = (case m st of Inl e \<Rightarrow> (Inl e, st) | Inr (x, st1) \<Rightarrow> (Inr x, st1))"

abbreviation ErrNoRows :: go_error where "ErrNoRows \<equiv> ErrText ''no rows in result set''"

named_theorems tx_simps \<open>evaluation of the transaction combinators\<close>

lemma tx_eval [simp, tx_simps]:
  "returnT x st = Inr (x, st)" "failT e st = Inl e" "askT q st = Inr (q st, st)"
  "execT f st = Inr ((), f st)" "failIf True e st = Inl e" "failIf False e st = Inr ((), st)"
  "liftT (Inl e) st = Inl e" "liftT (Inr y) st = Inr (y, st)"
  "rowT e None st = Inl e" "rowT e (Some z) st = Inr (z, st)"
  by (simp_all add: returnT_def failT_def askT_def execT_def failIf_def liftT_def rowT_def)

lemma bindT_eq_Inr [tx_simps]:
  "bindT m f st = Inr (y, st2) \<longleftrightarrow> (\<exists>x st1. m st = Inr (x, st1) \<and> f x st1 = Inr (y, st2))"
  by (auto simp: bindT_def split: sum.split)

lemma thenT_eq_Inr [tx_simps]:
  "thenT m k st = Inr (y, st2) \<longleftrightarrow> (\<exists>st1. m st = Inr ((), st1) \<and> k st1 = Inr (y, st2))"
  by (simp add: thenT_def bindT_eq_Inr)

lemma failIf_eq_Inr [tx_simps]: "failIf b e st = Inr (u, st1) \<longleftrightarrow> \<not> b \<and> st1 = st"
  by (auto simp: failIf_def)

lemma query_eq_Inr [tx_simps]:
  "askT f st = Inr (z, st1) \<longleftrightarrow> z = f st \<and> st1 = st"
  "execT g st = Inr (u, st1) \<longleftrightarrow> st1 = g st"
  "returnT y st = Inr (x, st1) \<longleftrightarrow> x = y \<and> st1 = st"
  by auto

lemma liftT_eq_Inr [tx_simps]: "liftT r st = Inr (x, st1) \<longleftrightarrow> r = Inr x \<and> st1 = st"
  by (cases r) (auto simp: liftT_def)

lemma rowT_eq_Inr [tx_simps]: "rowT e r st = Inr (x, st1) \<longleftrightarrow> r = Some x \<and> st1 = st"
  by (cases r) (auto simp: rowT_def)

lemma transaction_cases:
  assumes "transaction m st = (r, st1)"
  obtains (rolled_back) e where "r = Inl e" "st1 = st" "m st = Inl e"
  | (committed) x where "r = Inr x" "m st = Inr (x, st1)"
  using assms by (auto simp: transaction_def split: sum.splits prod.splits)

text \<open>\<open>keeps I m\<close>: the transaction \<open>m\<close> keeps the invariant \<open>I\<close>.\<close>

named_theorems keeps_intros \<open>invariants kept by transactions, through their combinators\<close>

definition keeps :: "(db \<Rightarrow> bool) \<Rightarrow> 'a tx \<Rightarrow> bool" where
  "keeps I m \<longleftrightarrow> (\<forall>st x st1. I st \<longrightarrow> m st = Inr (x, st1) \<longrightarrow> I st1)"

lemma keepsI: "(\<And>st x st1. I st \<Longrightarrow> m st = Inr (x, st1) \<Longrightarrow> I st1) \<Longrightarrow> keeps I m"
  by (auto simp: keeps_def)

lemma keepsD: "keeps I m \<Longrightarrow> I st \<Longrightarrow> m st = Inr (x, st1) \<Longrightarrow> I st1"
  by (auto simp: keeps_def)

lemma keeps_transaction: "keeps I m \<Longrightarrow> I st \<Longrightarrow> transaction m st = (r, st1) \<Longrightarrow> I st1"
  by (auto simp: keeps_def transaction_def split: sum.splits prod.splits)

lemma keeps_bind [keeps_intros]: "keeps I m \<Longrightarrow> (\<And>x. keeps I (f x)) \<Longrightarrow> keeps I (bindT m f)"
  unfolding keeps_def bindT_eq_Inr by blast

lemma keeps_then [keeps_intros]: "keeps I m \<Longrightarrow> keeps I k \<Longrightarrow> keeps I (thenT m k)"
  unfolding keeps_def thenT_eq_Inr by blast

lemma keeps_pure [keeps_intros]:
  "keeps I (returnT x)" "keeps I (failT e)" "keeps I (askT f)" "keeps I (failIf b e)"
  "keeps I (liftT r)" "keeps I (rowT e' r')"
  unfolding keeps_def tx_simps by simp_all

lemma keeps_if [keeps_intros]: "keeps I m \<Longrightarrow> keeps I m' \<Longrightarrow> keeps I (if b then m else m')"
  by simp

lemma keeps_exec: "(\<And>st. I st \<Longrightarrow> I (f st)) \<Longrightarrow> keeps I (execT f)"
  by (auto simp: keeps_def)

section \<open>Loading the aggregate\<close>

type_synonym roles = "(string, string) fmap"

text \<open>\<open>ORDER BY CASE role WHEN 'host' THEN 0 ELSE 1 END\<close>; the role column admits only these two.\<close>

abbreviation role_names :: "string list" where "role_names \<equiv> [''host'', ''guest'']"

definition room_seats :: "string \<Rightarrow> db \<Rightarrow> (string \<times> seat_row) list" where
  "room_seats code st = List.map_filter
     (\<lambda>role. map_option (Pair role) (fmlookup (db_seats st) (code, role))) role_names"

definition move_rows :: "string \<Rightarrow> uint64 \<Rightarrow> db \<Rightarrow> (string \<times> move) list" where
  "move_rows code k st = List.map_filter
     (\<lambda>(role, s). map_option (Pair (se_player_id s)) (fmlookup (db_moves st) (code, k, role)))
     (room_seats code st)"

definition request_rows :: "string \<Rightarrow> uint64 \<Rightarrow> db \<Rightarrow> string list" where
  "request_rows code k st = map (\<lambda>(role, s). se_player_id s)
     (filter (\<lambda>(role, s). (code, k, role) |\<in>| fmdom (db_requests st)) (room_seats code st))"

definition decodeAggregateRows ::
    "(string \<times> seat_row) list \<Rightarrow> (string \<times> move) list \<Rightarrow> string list \<Rightarrow> persistenceState \<Rightarrow> roles
     \<Rightarrow> persistenceState \<times> roles" where
  "decodeAggregateRows seats moves requests s roles =
     (s\<lparr>ps_Players := ps_Players s
          @ map (\<lambda>(role, x). \<lparr>player_ID = se_player_id x, player_Wins = se_wins x\<rparr>) seats,
        ps_Moves := fold (\<lambda>(p, m). fmupd p m) moves (ps_Moves s),
        ps_NextRoundRequests := fold (\<lambda>p. fmupd p True) requests (ps_NextRoundRequests s)\<rparr>,
      fold (\<lambda>(role, x). fmupd role (se_player_id x)) seats roles)"

definition load_room :: "string \<Rightarrow> db \<Rightarrow> (room \<times> roles) result" where
  "load_room code st =
     (case fmlookup (db_rooms st) code of
        None \<Rightarrow> Inl ErrNoRows
      | Some r \<Rightarrow>
         (case fmlookup (db_rounds st) (code, rm_current_round r) of
            None \<Rightarrow> Inl ErrNoRows
          | Some rr \<Rightarrow>
             (let k = rm_current_round r;
                  (s, roles) = decodeAggregateRows (room_seats code st) (move_rows code k st)
                    (request_rows code k st)
                    \<lparr>ps_Code = code, ps_Players = [], ps_Round = k,
                     ps_Closed = (rm_status r = ''closed''), ps_Resolved = False, ps_Result = '''',
                     ps_ForfeitedPlayerID = '''', ps_Moves = fmempty,
                     ps_NextRoundRequests = fmempty\<rparr> fmempty;
                  s1 = (case rr_result rr of None \<Rightarrow> s
                        | Some res \<Rightarrow> s\<lparr>ps_Resolved := True, ps_Result := res\<rparr>);
                  s2 = (case rr_forfeited_role rr of None \<Rightarrow> s1
                        | Some role \<Rightarrow> s1\<lparr>ps_ForfeitedPlayerID := get_or '''' roles role\<rparr>)
              in bindR (Restore s2) (\<lambda>agg. Inr (agg, roles)))))"

definition load :: "string \<Rightarrow> (room \<times> roles) tx" where
  "load code = bindT (askT (load_room code)) liftT"

section \<open>Saving the aggregate\<close>

definition i32 :: "int \<Rightarrow> int" where
  "i32 x = (x + 2 ^ 31) mod 2 ^ 32 - 2 ^ 31"

record save_input =
  si_role :: string
  si_wins :: int
  si_move :: move
  si_has_move :: bool
  si_wants_next :: bool

text \<open>One turn of the loop over the roles; the last matching player's wins count.\<close>

definition save_row :: "persistenceState \<Rightarrow> roles \<Rightarrow> string \<Rightarrow> save_input option" where
  "save_row s roles role =
     map_option
       (\<lambda>i. \<lparr>si_role = role,
             si_wins = i32 (foldl (\<lambda>w p. if player_ID p = i then player_Wins p else w) 0 (ps_Players s)),
             si_move = get_or '''' (ps_Moves s) i, si_has_move = (i |\<in>| fmdom (ps_Moves s)),
             si_wants_next = get_or False (ps_NextRoundRequests s) i\<rparr>)
       (case fmlookup roles role of
          Some i \<Rightarrow> Some i
        | None \<Rightarrow> if role = ''guest'' \<and> length (ps_Players s) = 2
                  then Some (player_ID (ps_Players s ! 1)) else None)"

definition forfeited_role :: "persistenceState \<Rightarrow> roles \<Rightarrow> string option" where
  "forfeited_role s roles =
     (if ps_Resolved s
      then find (\<lambda>role. fmlookup roles role = Some (ps_ForfeitedPlayerID s)) role_names else None)"

text \<open>The statement's parts, each over the rows before it: moves and requests of a round.\<close>

definition save_moves ::
    "string \<Rightarrow> uint64 \<Rightarrow> save_input list \<Rightarrow> (string \<times> uint64 \<times> string, move) fmap
     \<Rightarrow> (string \<times> uint64 \<times> string, move) fmap" where
  "save_moves code k inputs t =
     fold (\<lambda>i. if si_has_move i then fmupd (code, k, si_role i) (si_move i) else id) inputs
       (fmfilter (\<lambda>(c, n, role). \<not> (c = code \<and> n = k
          \<and> \<not> list_ex (\<lambda>i. si_role i = role \<and> si_has_move i) inputs)) t)"

definition save_requests ::
    "string \<Rightarrow> uint64 \<Rightarrow> uint64 \<Rightarrow> save_input list \<Rightarrow> (string \<times> uint64 \<times> string, unit) fmap
     \<Rightarrow> (string \<times> uint64 \<times> string, unit) fmap" where
  "save_requests code k previous inputs t =
     fold (\<lambda>i. if si_wants_next i then fmupd (code, k, si_role i) () else id) inputs
       (fold (\<lambda>i. if previous < k then fmupd (code, previous, si_role i) () else id) inputs
         (fmfilter (\<lambda>(c, n, role). \<not> (c = code \<and> n = k
            \<and> \<not> list_ex (\<lambda>i. si_role i = role \<and> si_wants_next i) inputs)) t))"

definition save_seats ::
    "string \<Rightarrow> save_input list \<Rightarrow> (string \<times> string, seat_row) fmap
     \<Rightarrow> (string \<times> string, seat_row) fmap" where
  "save_seats code inputs t =
     fold (\<lambda>i t. case fmlookup t (code, si_role i) of None \<Rightarrow> t
                 | Some s \<Rightarrow> fmupd (code, si_role i) (s\<lparr>se_wins := si_wins i\<rparr>) t) inputs t"

definition upsert_round ::
    "string \<Rightarrow> uint64 \<Rightarrow> string option \<Rightarrow> string option \<Rightarrow> string \<Rightarrow> db \<Rightarrow> db" where
  "upsert_round code k res forfeited status st =
     st\<lparr>db_rounds := fmupd (code, k)
        (case fmlookup (db_rounds st) (code, k) of
           None \<Rightarrow> \<lparr>rr_result = res, rr_forfeited_role = forfeited, rr_status = status,
                    rr_funded = False, rr_created_at = db_now st\<rparr>
         | Some rr \<Rightarrow> rr\<lparr>rr_result := res, rr_forfeited_role := forfeited, rr_status := status\<rparr>)
        (db_rounds st)\<rparr>"

definition update_room ::
    "string \<Rightarrow> string \<Rightarrow> uint64 \<Rightarrow> uint64 \<Rightarrow> db \<Rightarrow> db" where
  "update_room code status k revision st =
     (case fmlookup (db_rooms st) code of
        None \<Rightarrow> st
      | Some r \<Rightarrow> st\<lparr>db_rooms := fmupd code
          \<lparr>rm_status = status, rm_current_round = k, rm_revision = revision\<rparr> (db_rooms st)\<rparr>)"

definition save_room :: "room \<Rightarrow> roles \<Rightarrow> uint64 \<Rightarrow> uint64 \<Rightarrow> db \<Rightarrow> db" where
  "save_room agg roles previousRound revision st =
     (let s = PersistenceState agg; code = ps_Code s; k = ps_Round s;
          inputs = List.map_filter (save_row s roles) role_names;
          st1 = update_room code (if ps_Closed s then ''closed'' else ''active'') k revision st;
          st2 = upsert_round code k (if ps_Resolved s then Some (ps_Result s) else None)
            (forfeited_role s roles) (if ps_Resolved s then ''resolved'' else ''active'') st1
      in st2\<lparr>db_seats := save_seats code inputs (db_seats st2),
             db_moves := save_moves code k inputs (db_moves st2),
             db_requests := save_requests code k previousRound inputs (db_requests st2)\<rparr>)"

definition save :: "room \<Rightarrow> roles \<Rightarrow> uint64 \<Rightarrow> uint64 \<Rightarrow> unit tx" where
  "save agg roles previousRound revision = execT (save_room agg roles previousRound revision)"

section \<open>Loading what was saved\<close>

lemma i32_id: "0 \<le> x \<Longrightarrow> x < 2 ^ 31 \<Longrightarrow> i32 x = x"
  by (simp add: i32_def)

text \<open>The seats of a room hold the players of an aggregate, in role order.\<close>

definition seats_match :: "string \<Rightarrow> db \<Rightarrow> room \<Rightarrow> bool" where
  "seats_match code st agg \<longleftrightarrow>
     (\<exists>h. fmlookup (db_seats st) (code, ''host'') = Some h
        \<and> player_ids agg = se_player_id h #
            (case fmlookup (db_seats st) (code, ''guest'') of None \<Rightarrow> [] | Some g \<Rightarrow> [se_player_id g]))"

definition roles_match :: "roles \<Rightarrow> room \<Rightarrow> bool" where
  "roles_match roles agg \<longleftrightarrow> fmlookup roles ''host'' = Some (hd (player_ids agg))
     \<and> fmlookup roles ''guest'' = (case tl (player_ids agg) of [] \<Rightarrow> None | i # _ \<Rightarrow> Some i)"

definition saveable :: "room \<Rightarrow> bool" where
  "saveable agg \<longleftrightarrow> wf_room agg \<and> list_all (\<lambda>p. player_Wins p < 2 ^ 31) (r_players agg)
     \<and> fmpred (\<lambda>_ b. b) (r_nextRoundRequests agg)"

text \<open>Which seat rows, inputs and maps arise, by the number of players.\<close>

lemma room_seats_cases:
  assumes "seats_match code st agg"
  obtains (host) h p where "fmlookup (db_seats st) (code, ''host'') = Some h"
    "fmlookup (db_seats st) (code, ''guest'') = None" "r_players agg = [p]"
    "player_ID p = se_player_id h" "room_seats code st = [(''host'', h)]"
  | (both) h g p q where "fmlookup (db_seats st) (code, ''host'') = Some h"
    "fmlookup (db_seats st) (code, ''guest'') = Some g" "r_players agg = [p, q]"
    "player_ID p = se_player_id h" "player_ID q = se_player_id g"
    "room_seats code st = [(''host'', h), (''guest'', g)]"
proof -
  from assms obtain h where h: "fmlookup (db_seats st) (code, ''host'') = Some h"
    "player_ids agg = se_player_id h #
       (case fmlookup (db_seats st) (code, ''guest'') of None \<Rightarrow> [] | Some g \<Rightarrow> [se_player_id g])"
    by (auto simp: seats_match_def)
  show thesis
  proof (cases "fmlookup (db_seats st) (code, ''guest'')")
    case None
    with h have "\<exists>p. r_players agg = [p] \<and> player_ID p = se_player_id h"
      by (auto simp: player_ids_def)
    with None h show thesis by (auto intro: host simp: room_seats_def map_filter_simps)
  next
    case (Some g)
    with h have "\<exists>p q. r_players agg = [p, q] \<and> player_ID p = se_player_id h \<and> player_ID q = se_player_id g"
      by (auto simp: player_ids_def)
    with Some h show thesis by (auto intro: both simp: room_seats_def map_filter_simps)
  qed
qed

lemma fold_pairs:
  "fmlookup (fold (\<lambda>(p, m). fmupd p m) xs t) i
     = (case map_of (rev xs) i of None \<Rightarrow> fmlookup t i | Some m \<Rightarrow> Some m)"
  by (induction xs arbitrary: t) (auto simp: map_add_def split: option.splits prod.splits)

lemma save_moves_lookup:
  "fmlookup (save_moves code k inputs t) (c, n, role) =
     (if c = code \<and> n = k then
        (if list_ex (\<lambda>i. si_role i = role \<and> si_has_move i) inputs
         then Some (si_move (last (filter (\<lambda>i. si_role i = role \<and> si_has_move i) inputs))) else None)
      else fmlookup t (c, n, role))"
proof -
  have "fmlookup (fold (\<lambda>i. if si_has_move i then fmupd (code, k, si_role i) (si_move i) else id) inputs u)
      (c, n, role) =
     (if c = code \<and> n = k \<and> list_ex (\<lambda>i. si_role i = role \<and> si_has_move i) inputs
      then Some (si_move (last (filter (\<lambda>i. si_role i = role \<and> si_has_move i) inputs)))
      else fmlookup u (c, n, role))" for u
    by (induction inputs arbitrary: u)
      (auto simp: list_ex_iff filter_empty_conv)
  then show ?thesis by (simp add: save_moves_def)
qed

lemma save_requests_lookup:
  "(code, k, role) |\<in>| fmdom (save_requests code k previous inputs t)
     \<longleftrightarrow> list_ex (\<lambda>i. si_role i = role \<and> si_wants_next i) inputs"
proof -
  have a: "x |\<in>| fmdom (fold (\<lambda>i. if si_wants_next i then fmupd (code, k, si_role i) () else id) inputs u)
      \<longleftrightarrow> x |\<in>| fmdom u \<or> list_ex (\<lambda>i. x = (code, k, si_role i) \<and> si_wants_next i) inputs" for u x
    by (induction inputs arbitrary: u) auto
  have b: "x |\<in>| fmdom (fold (\<lambda>i. if previous < k then fmupd (code, previous, si_role i) () else id) inputs u)
      \<longleftrightarrow> x |\<in>| fmdom u \<or> previous < k \<and> list_ex (\<lambda>i. x = (code, previous, si_role i)) inputs" for u x
    by (induction inputs arbitrary: u) auto
  show ?thesis unfolding save_requests_def a b by (auto simp: list_ex_iff)
qed

text \<open>The rows an aggregate is loaded from.\<close>

definition stored :: "string \<Rightarrow> db \<Rightarrow> room \<Rightarrow> bool" where
  "stored code st agg \<longleftrightarrow>
     (\<exists>r rr. fmlookup (db_rooms st) code = Some r \<and> rm_current_round r = r_round agg
        \<and> (rm_status r = ''closed'') = r_closed agg
        \<and> fmlookup (db_rounds st) (code, r_round agg) = Some rr
        \<and> rr_result rr = (if r_resolved agg then Some (r_result agg) else None)
        \<and> (case rr_forfeited_role rr of None \<Rightarrow> '''' = r_forfeitedPlayerID agg
           | Some role \<Rightarrow> \<exists>s. (role, s) \<in> set (room_seats code st)
               \<and> se_player_id s = r_forfeitedPlayerID agg))
     \<and> map (\<lambda>(role, x). \<lparr>player_ID = se_player_id x, player_Wins = se_wins x\<rparr>) (room_seats code st)
         = r_players agg
     \<and> (\<forall>(role, s)\<in>set (room_seats code st).
          fmlookup (db_moves st) (code, r_round agg, role) = fmlookup (r_moves agg) (se_player_id s)
          \<and> (code, r_round agg, role) |\<in>| fmdom (db_requests st)
              = (se_player_id s |\<in>| fmdom (r_nextRoundRequests agg)))
     \<and> r_code agg = code"

definition seat_roles :: "string \<Rightarrow> db \<Rightarrow> roles" where
  "seat_roles code st = fold (\<lambda>(role, x). fmupd role (se_player_id x)) (room_seats code st) fmempty"

lemma distinct_roles: "distinct (map fst (room_seats code st))"
  by (simp add: room_seats_def map_filter_simps split: option.split)

text \<open>A loop of updates under distinct keys.\<close>

lemma fold_fmupd_notin: "i \<notin> f ` set xs \<Longrightarrow> fmlookup (fold (\<lambda>x. fmupd (f x) (g x)) xs t) i = fmlookup t i"
  by (induction xs arbitrary: t) auto

lemma fold_fmupd_in:
  "x \<in> set xs \<Longrightarrow> distinct (map f xs) \<Longrightarrow> fmlookup (fold (\<lambda>x. fmupd (f x) (g x)) xs t) (f x) = Some (g x)"
proof (induction xs arbitrary: t)
  case (Cons y ys)
  then show ?case by (cases "x = y") (auto simp: fold_fmupd_notin)
qed simp

lemma get_seat_roles:
  assumes "(role, s) \<in> set (room_seats code st)"
  shows "fmlookup (seat_roles code st) role = Some (se_player_id s)"
  using fold_fmupd_in [OF assms distinct_roles, of "\<lambda>x. se_player_id (snd x)" fmempty]
  by (simp add: seat_roles_def split_def)

lemma move_rows_in:
  "(i, m) \<in> set (move_rows code k st) \<longleftrightarrow> (\<exists>role s. (role, s) \<in> set (room_seats code st)
     \<and> i = se_player_id s \<and> fmlookup (db_moves st) (code, k, role) = Some m)"
proof -
  have "x \<in> set (List.map_filter f xs) \<longleftrightarrow> (\<exists>y\<in>set xs. f y = Some x)" for f :: "string \<times> seat_row \<Rightarrow> (string \<times> move) option" and x xs
    by (induction xs) (auto split: option.split)
  then show ?thesis by (force simp: move_rows_def split_def Bex_def)
qed

lemma move_rows_keys:
  "distinct (map (\<lambda>x. se_player_id (snd x)) (room_seats code st)) \<Longrightarrow> distinct (map fst (move_rows code k st))"
proof -
  have "map fst (List.map_filter (\<lambda>(role, s). map_option (Pair (se_player_id s))
        (fmlookup (db_moves st) (code, k, role))) xs)
      = map (\<lambda>x. se_player_id (snd x))
          (filter (\<lambda>x. fmlookup (db_moves st) (code, k, fst x) \<noteq> None) xs)" for xs
    by (induction xs) (auto split: option.split)
  then have "map fst (move_rows code k st) = map (\<lambda>x. se_player_id (snd x))
      (filter (\<lambda>x. fmlookup (db_moves st) (code, k, fst x) \<noteq> None) (room_seats code st))"
    unfolding move_rows_def by simp
  then show "distinct (map (\<lambda>x. se_player_id (snd x)) (room_seats code st)) \<Longrightarrow> ?thesis"
    by (simp add: distinct_map_filter)
qed

lemma load_stored:
  assumes "stored code st agg" "wf_room agg" "fmpred (\<lambda>_ b. b) (r_nextRoundRequests agg)"
  shows "load_room code st = Inr (agg, seat_roles code st)"
proof -
  let ?k = "r_round agg" and ?seats = "room_seats code st"
  have players: "map (\<lambda>(role, x). \<lparr>player_ID = se_player_id x, player_Wins = se_wins x\<rparr>) ?seats = r_players agg"
    and acts_at: "\<forall>(role, s)\<in>set ?seats.
          fmlookup (db_moves st) (code, ?k, role) = fmlookup (r_moves agg) (se_player_id s)
          \<and> (code, ?k, role) |\<in>| fmdom (db_requests st)
              = (se_player_id s |\<in>| fmdom (r_nextRoundRequests agg))"
    using assms(1) by (simp_all add: stored_def)
  have ids: "player_ids agg = map (\<lambda>x. se_player_id (snd x)) ?seats"
    unfolding player_ids_def players [symmetric] by (simp add: comp_def split_def)
  have acts: "fset (fmdom (r_moves agg)) \<subseteq> set (player_ids agg)"
    "fset (fmdom (r_nextRoundRequests agg)) \<subseteq> set (player_ids agg)"
    using assms(2) by (auto simp: wf_room_def wf_actions_def)
  have dist: "distinct (player_ids agg)" using assms(2) by (simp add: wf_room_def wf_seats_def)
  have moves: "fold (\<lambda>(p, m). fmupd p m) (move_rows code ?k st) fmempty = r_moves agg"
  proof (rule fmap_ext)
    fix i
    let ?f = "fold (\<lambda>x. fmupd (fst x) (snd x)) (move_rows code ?k st) fmempty"
    have "fmlookup ?f i = fmlookup (r_moves agg) i"
    proof (cases "fmlookup (r_moves agg) i")
      case (Some m)
      then have "i \<in> set (player_ids agg)" using acts(1) fmdomI by fastforce
      then obtain role s where "(role, s) \<in> set ?seats" "i = se_player_id s" by (auto simp: ids)
      with Some acts_at have "(i, m) \<in> set (move_rows code ?k st)" by (fastforce simp: move_rows_in)
      from fold_fmupd_in [OF this, of fst snd fmempty] move_rows_keys Some dist ids show ?thesis by simp
    next
      case None
      then have "i \<notin> fst ` set (move_rows code ?k st)"
        using acts_at by (fastforce simp: move_rows_in)
      from fold_fmupd_notin [OF this, of snd fmempty] None show ?thesis by simp
    qed
    then show "fmlookup (fold (\<lambda>(p, m). fmupd p m) (move_rows code ?k st) fmempty) i
        = fmlookup (r_moves agg) i"
      by (simp add: split_def)
  qed
  have requests: "fold (\<lambda>p. fmupd p True) (request_rows code ?k st) fmempty = r_nextRoundRequests agg"
  proof (rule fmap_ext)
    fix i
    have rows: "i \<in> set (request_rows code ?k st) \<longleftrightarrow> i |\<in>| fmdom (r_nextRoundRequests agg)"
    proof
      assume "i |\<in>| fmdom (r_nextRoundRequests agg)"
      then have "i \<in> set (player_ids agg)" using acts(2) by blast
      then obtain role s where "(role, s) \<in> set ?seats" "i = se_player_id s" by (auto simp: ids)
      with acts_at \<open>i |\<in>| fmdom (r_nextRoundRequests agg)\<close> show "i \<in> set (request_rows code ?k st)"
        by (force simp: request_rows_def)
    qed (use acts_at in \<open>auto simp: request_rows_def\<close>)
    have "distinct (request_rows code ?k st)"
      using dist by (simp add: request_rows_def ids split_def distinct_map_filter)
    then have f: "fmlookup (fold (\<lambda>x. fmupd (id x) True) (request_rows code ?k st) fmempty) i
        = (if i \<in> set (request_rows code ?k st) then Some True else None)"
      using fold_fmupd_in [of i "request_rows code ?k st" id "\<lambda>_. True" fmempty]
        fold_fmupd_notin [of i id "request_rows code ?k st" "\<lambda>_. True" fmempty] by auto
    have "fmlookup (r_nextRoundRequests agg) i = (if i |\<in>| fmdom (r_nextRoundRequests agg) then Some True else None)"
      using assms(3) by (cases "fmlookup (r_nextRoundRequests agg) i") (auto simp: fmpred_iff fmlookup_dom_iff)
    then show "fmlookup (fold (\<lambda>p. fmupd p True) (request_rows code ?k st) fmempty) i
        = fmlookup (r_nextRoundRequests agg) i"
      using f rows by simp
  qed
  obtain r rr where rows: "fmlookup (db_rooms st) code = Some r" "rm_current_round r = ?k"
      "(rm_status r = ''closed'') = r_closed agg" "fmlookup (db_rounds st) (code, ?k) = Some rr"
      "rr_result rr = (if r_resolved agg then Some (r_result agg) else None)"
      "case rr_forfeited_role rr of None \<Rightarrow> '''' = r_forfeitedPlayerID agg
           | Some role \<Rightarrow> \<exists>s. (role, s) \<in> set (room_seats code st)
               \<and> se_player_id s = r_forfeitedPlayerID agg"
    using assms(1) by (auto simp: stored_def)
  have forf: "(case rr_forfeited_role rr of None \<Rightarrow> '''' | Some role \<Rightarrow> get_or '''' (seat_roles code st) role)
    = r_forfeitedPlayerID agg"
    using rows(6) get_seat_roles by (auto split: option.splits)
  have "\<not> r_resolved agg \<Longrightarrow> r_result agg = ''''"
    using assms(2) by (simp add: wf_room_def wf_outcome_def)
  then have "load_room code st = bindR (Restore (PersistenceState agg)) (\<lambda>agg. Inr (agg, seat_roles code st))"
    using rows(1-5) forf assms(1)
    by (auto simp: load_room_def decodeAggregateRows_def moves requests seat_roles_def [symmetric]
        PersistenceState_def stored_def Let_def split: option.splits)
  then show ?thesis using assms(2) by (simp add: Restore_PersistenceState)
qed

lemma last_wins:
  assumes "distinct (map player_ID ps)" "p \<in> set ps"
  shows "foldl (\<lambda>w q. if player_ID q = player_ID p then player_Wins q else w) w0 ps = player_Wins p"
  using assms
proof (induction ps rule: rev_induct)
  case (snoc x xs)
  then show ?case by (auto simp: image_iff)
qed simp

definition input_of :: "room \<Rightarrow> string \<Rightarrow> persistedPlayer \<Rightarrow> save_input" where
  "input_of agg role p = \<lparr>si_role = role, si_wins = player_Wins p,
     si_move = get_or '''' (r_moves agg) (player_ID p),
     si_has_move = (player_ID p |\<in>| fmdom (r_moves agg)),
     si_wants_next = get_or False (r_nextRoundRequests agg) (player_ID p)\<rparr>"

lemma save_row_eq:
  assumes "saveable agg" "p \<in> set (r_players agg)"
    and "fmlookup roles role = Some (player_ID p)
       \<or> fmlookup roles role = None \<and> role = ''guest'' \<and> length (r_players agg) = 2
          \<and> r_players agg ! 1 = p"
  shows "save_row (PersistenceState agg) roles role = Some (input_of agg role p)"
proof -
  have "distinct (map player_ID (r_players agg))" "0 \<le> player_Wins p" "player_Wins p < 2 ^ 31"
    using assms(1,2)
    by (auto simp: saveable_def wf_room_def wf_seats_def player_ids_def list_all_iff)
  then show ?thesis
    using assms(3) last_wins [OF _ assms(2)]
    by (auto simp: save_row_def input_of_def i32_id)
qed

lemma save_room_fields:
  assumes "fmlookup (db_rooms st) (r_code agg) = Some r0"
    and "List.map_filter (save_row (PersistenceState agg) roles) role_names = inputs"
  shows "fmlookup (db_rooms (save_room agg roles prev rv st)) (r_code agg)
      = Some \<lparr>rm_status = (if r_closed agg then ''closed'' else ''active''),
              rm_current_round = r_round agg, rm_revision = rv\<rparr>"
    and "\<exists>rr. fmlookup (db_rounds (save_room agg roles prev rv st)) (r_code agg, r_round agg) = Some rr
      \<and> rr_result rr = (if r_resolved agg then Some (r_result agg) else None)
      \<and> rr_forfeited_role rr = forfeited_role (PersistenceState agg) roles"
    and "db_seats (save_room agg roles prev rv st) = save_seats (r_code agg) inputs (db_seats st)"
    and "db_moves (save_room agg roles prev rv st) = save_moves (r_code agg) (r_round agg) inputs (db_moves st)"
    and "db_requests (save_room agg roles prev rv st)
      = save_requests (r_code agg) (r_round agg) prev inputs (db_requests st)"
  using assms by (simp_all add: save_room_def Let_def update_room_def upsert_round_def split: option.split)

lemma get_move_Some: "get_or '''' t i = m \<Longrightarrow> i |\<in>| fmdom t \<Longrightarrow> fmlookup t i = Some m"
  by (auto simp: fmlookup_dom_iff)

lemma wants_iff: "fmpred (\<lambda>_ b. b) t \<Longrightarrow> get_or False t i \<longleftrightarrow> i |\<in>| fmdom t"
  by (auto simp: get_or_def fmpred_iff fmlookup_dom_iff split: option.split)

lemma stored_save:
  assumes "fmlookup (db_rooms st) code = Some r0" "seats_match code st agg" "r_code agg = code"
    and "roles_match roles agg \<or> \<not> r_resolved agg \<and> length (r_players agg) = 2
           \<and> fmlookup roles ''host'' = Some (hd (player_ids agg)) \<and> fmlookup roles ''guest'' = None"
    and "saveable agg"
  shows "stored code (save_room agg roles prev rv st) agg"
  using assms(2)
proof (cases rule: room_seats_cases)
  case (host h p)
  have wf: "wf_room agg" using assms(5) by (simp add: saveable_def)
  then have un: "\<not> r_resolved agg" "r_nextRoundRequests agg = fmempty" "r_forfeitedPlayerID agg = ''''"
    using host(3) by (auto simp: wf_room_def wf_outcome_def split: if_splits)
  have roles: "fmlookup roles ''host'' = Some (player_ID p)" "fmlookup roles ''guest'' = None"
    using assms(4) host(3) by (auto simp: roles_match_def player_ids_def)
  have "save_row (PersistenceState agg) roles ''host'' = Some (input_of agg ''host'' p)"
    using roles host by (intro save_row_eq assms(5)) auto
  moreover have "save_row (PersistenceState agg) roles ''guest'' = None"
    using roles host by (simp add: save_row_def)
  ultimately have "List.map_filter (save_row (PersistenceState agg) roles) role_names = [input_of agg ''host'' p]"
    by simp
  note fields = save_room_fields [OF _ this, of st r0 prev rv, unfolded assms(3), OF assms(1)]
  have seats: "room_seats code (save_room agg roles prev rv st) = [(''host'', h\<lparr>se_wins := player_Wins p\<rparr>)]"
    using host by (simp add: room_seats_def fields(3) save_seats_def input_of_def)
  have acts: "fmlookup (save_moves code (r_round agg) [input_of agg ''host'' p] t)
      (code, r_round agg, ''host'') = fmlookup (r_moves agg) (player_ID p)" for t
    by (auto simp: save_moves_lookup input_of_def get_or_def fmlookup_dom_iff split: option.split)
  have reqs: "(code, r_round agg, ''host'') |\<notin>| fmdom (save_requests code (r_round agg) prev
      [input_of agg ''host'' p] t)" for t
    using un by (simp add: save_requests_lookup input_of_def)
  show ?thesis
    unfolding stored_def seats fields(4,5)
    using fields(1,2) host un assms(3) acts reqs by (auto simp: forfeited_role_def)
next
  case (both h g p q)
  have wf: "wf_room agg" "fmpred (\<lambda>_ b. b) (r_nextRoundRequests agg)"
    using assms(5) by (simp_all add: saveable_def)
  then have ne: "player_ID p \<noteq> player_ID q" "player_ID p \<noteq> ''''" "player_ID q \<noteq> ''''"
    using both by (auto simp: wf_room_def wf_seats_def player_ids_def)
  have roles: "fmlookup roles ''host'' = Some (player_ID p)"
    "fmlookup roles ''guest'' = Some (player_ID q) \<or> fmlookup roles ''guest'' = None \<and> \<not> r_resolved agg"
    using assms(4) both(3) by (auto simp: roles_match_def player_ids_def)
  have "save_row (PersistenceState agg) roles ''host'' = Some (input_of agg ''host'' p)"
    using roles both by (intro save_row_eq assms(5)) auto
  moreover have "save_row (PersistenceState agg) roles ''guest'' = Some (input_of agg ''guest'' q)"
    using roles both by (intro save_row_eq assms(5)) auto
  ultimately have "List.map_filter (save_row (PersistenceState agg) roles) role_names
      = [input_of agg ''host'' p, input_of agg ''guest'' q]" by simp
  note fields = save_room_fields [OF _ this, of st r0 prev rv, unfolded assms(3), OF assms(1)]
  have seats: "room_seats code (save_room agg roles prev rv st)
      = [(''host'', h\<lparr>se_wins := player_Wins p\<rparr>), (''guest'', g\<lparr>se_wins := player_Wins q\<rparr>)]"
    using both by (simp add: room_seats_def fields(3) save_seats_def input_of_def)
  have forf: "case forfeited_role (PersistenceState agg) roles of None \<Rightarrow> '''' = r_forfeitedPlayerID agg
     | Some role \<Rightarrow> \<exists>s. (role, s) \<in> set [(''host'', h\<lparr>se_wins := player_Wins p\<rparr>), (''guest'', g\<lparr>se_wins := player_Wins q\<rparr>)]
         \<and> se_player_id s = r_forfeitedPlayerID agg"
  proof (cases "r_resolved agg")
    case False
    then have "r_forfeitedPlayerID agg = ''''" using wf by (simp add: wf_room_def wf_outcome_def)
    with False show ?thesis by (simp add: forfeited_role_def)
  next
    case True
    then have "r_forfeitedPlayerID agg = '''' \<or> r_forfeitedPlayerID agg = player_ID p
        \<or> r_forfeitedPlayerID agg = player_ID q"
      using wf both by (auto simp: wf_room_def wf_outcome_def player_ids_def split: if_splits)
    with True roles ne both show ?thesis by (auto simp: forfeited_role_def)
  qed
  have acts: "fmlookup (save_moves code (r_round agg) [input_of agg ''host'' p, input_of agg ''guest'' q] t)
      (code, r_round agg, role) = fmlookup (r_moves agg) (player_ID x)"
    if "role = ''host'' \<and> x = p \<or> role = ''guest'' \<and> x = q" for role x t
    using that by (auto simp: save_moves_lookup input_of_def get_or_def fmlookup_dom_iff split: option.split)
  have reqs: "(code, r_round agg, role) |\<in>| fmdom (save_requests code (r_round agg) prev
        [input_of agg ''host'' p, input_of agg ''guest'' q] t)
      \<longleftrightarrow> player_ID x |\<in>| fmdom (r_nextRoundRequests agg)"
    if "role = ''host'' \<and> x = p \<or> role = ''guest'' \<and> x = q" for role x t
    using that wf(2) by (auto simp: save_requests_lookup input_of_def wants_iff)
  show ?thesis
    unfolding stored_def seats fields(4,5)
    using fields(1,2) both forf assms(3) acts reqs by auto
qed

text \<open>\<open>load\<close> after \<open>save\<close>.\<close>

lemma load_save_room:
  assumes "fmlookup (db_rooms st) code = Some r0" "seats_match code st agg" "r_code agg = code"
    and "roles_match roles agg \<or> \<not> r_resolved agg \<and> length (r_players agg) = 2
           \<and> fmlookup roles ''host'' = Some (hd (player_ids agg)) \<and> fmlookup roles ''guest'' = None"
    and "saveable agg"
  shows "load_room code (save_room agg roles prev rv st)
    = Inr (agg, seat_roles code (save_room agg roles prev rv st))"
  using load_stored [OF stored_save [OF assms]] assms(5) by (simp add: saveable_def)

lemma fmpred_fold_True: "fmpred (\<lambda>_ b. b) t \<Longrightarrow> fmpred (\<lambda>_ b. b) (fold (\<lambda>p. fmupd p True) xs t)"
proof (induction xs arbitrary: t)
  case (Cons x xs)
  have "fmpred (\<lambda>_ b. b) (fmupd x True t)" using Cons.prems by (auto simp: fmpred_iff)
  with Cons.IH show ?case by simp
qed simp

lemma load_room_Inr:
  assumes "load_room code st = Inr (agg, roles)"
  obtains r rr where "fmlookup (db_rooms st) code = Some r" "rm_current_round r = r_round agg"
    "fmlookup (db_rounds st) (code, r_round agg) = Some rr" "r_closed agg = (rm_status r = ''closed'')"
    "r_resolved agg = (rr_result rr \<noteq> None)"
    "wf_room agg" "r_code agg = code" "roles = seat_roles code st"
    "map (\<lambda>(role, x). \<lparr>player_ID = se_player_id x, player_Wins = se_wins x\<rparr>) (room_seats code st) = r_players agg"
    "fmpred (\<lambda>_ b. b) (r_nextRoundRequests agg)"
    "r_moves agg = fold (\<lambda>(p, m). fmupd p m) (move_rows code (r_round agg) st) fmempty"
proof -
  from assms obtain r where r: "fmlookup (db_rooms st) code = Some r"
    by (auto simp: load_room_def split: option.splits)
  from assms r obtain rr where rr: "fmlookup (db_rounds st) (code, rm_current_round r) = Some rr"
    by (auto simp: load_room_def split: option.splits)
  let ?k = "rm_current_round r"
  let ?s = "\<lparr>ps_Code = code,
      ps_Players = map (\<lambda>(role, x). \<lparr>player_ID = se_player_id x, player_Wins = se_wins x\<rparr>) (room_seats code st),
      ps_Round = ?k, ps_Closed = (rm_status r = ''closed''),
      ps_Resolved = (rr_result rr \<noteq> None), ps_Result = (case rr_result rr of None \<Rightarrow> '''' | Some x \<Rightarrow> x),
      ps_ForfeitedPlayerID = (case rr_forfeited_role rr of None \<Rightarrow> ''''
         | Some role \<Rightarrow> get_or '''' (seat_roles code st) role),
      ps_Moves = fold (\<lambda>(p, m). fmupd p m) (move_rows code ?k st) fmempty,
      ps_NextRoundRequests = fold (\<lambda>p. fmupd p True) (request_rows code ?k st) fmempty\<rparr>"
  have "load_room code st = bindR (Restore ?s) (\<lambda>agg. Inr (agg, seat_roles code st))"
    by (simp add: load_room_def r rr decodeAggregateRows_def seat_roles_def Let_def split: option.split)
  with assms have res: "Restore ?s = Inr agg" and roles: "roles = seat_roles code st"
    by (auto simp: bindR_eq_Inr)
  from res have s: "?s = PersistenceState agg" and wf: "wf_room agg" by (simp_all add: Restore_eq_Inr)
  have p: "ps_Code ?s = r_code agg" "ps_Players ?s = r_players agg" "ps_Round ?s = r_round agg"
    "ps_Closed ?s = r_closed agg" "ps_Resolved ?s = r_resolved agg" "ps_Moves ?s = r_moves agg"
    "ps_NextRoundRequests ?s = r_nextRoundRequests agg"
    unfolding s by simp_all
  show thesis
    using p rr
    by (intro that [OF r _ _ _ _ wf _ roles])
      (auto intro: fmpred_fold_True simp: p(7) [simplified, symmetric])
qed

end
