(* ===== verification/Postgres_Wallet.thy ===== *)
theory Postgres_Wallet
  imports Postgres_Db "HOL-Library.Product_Lexorder"
begin

text \<open>
  Wallets and the ledger of the PostgreSQL repository: the wallet part of
  \<open>adapter/postgres/repository.go\<close>. Every movement of coins is a transaction under a unique business
  key with its postings. The invariant \<open>ledger_ok\<close> is double-entry book-keeping: each balance is the
  sum of the account's postings, each transaction's postings cancel, and only the mint may be
  negative; \<open>escrow_ok_pg\<close> ties the escrow account of a round to its stake and settlement transactions.
\<close>

section \<open>Running a transaction symbolically\<close>

lemma bindT_Inr: "m st = Inr (x, st1) \<Longrightarrow> bindT m f st = f x st1"
  by (simp add: bindT_def)

lemma tx_run:
  "bindT (askT q) f st = f (q st) st" "thenT (execT g) k st = k (g st)"
  "thenT (failIf b e) k st = (if b then Inl e else k st)"
  "bindT (rowT e r) f st = (case r of None \<Rightarrow> Inl e | Some x \<Rightarrow> f x st)"
  "bindT (liftT v) f st = (case v of Inl e \<Rightarrow> Inl e | Inr x \<Rightarrow> f x st)"
  by (simp_all add: bindT_def thenT_def failIf_def rowT_def liftT_def split: option.split sum.split)

section \<open>Accounts\<close>

definition userAccountID :: "string \<Rightarrow> string" where
  "userAccountID authUserID = ''user:'' @ authUserID"

definition escrowAccountID :: "string \<Rightarrow> uint64 \<Rightarrow> string" where
  "escrowAccountID code k = ''escrow:'' @ code @ '':'' @ dec (unat k)"

definition balance :: "db \<Rightarrow> string \<Rightarrow> int" where
  "balance st a = (case fmlookup (db_wallets st) a of None \<Rightarrow> 0 | Some w \<Rightarrow> wa_balance w)"

text \<open>An insert that does nothing when the account is there. A user account's id is determined by its
  unique \<open>auth_user_id\<close>, an escrow account's by its unique room and round.\<close>

definition insert_wallet :: "string \<Rightarrow> string \<Rightarrow> db \<Rightarrow> db" where
  "insert_wallet typ a st =
     (if a |\<in>| fmdom (db_wallets st) then st
      else st\<lparr>db_wallets := fmupd a \<lparr>wa_type = typ, wa_balance = 0\<rparr> (db_wallets st)\<rparr>)"

definition ensureUserWallet :: "string \<Rightarrow> unit tx" where
  "ensureUserWallet authUserID = execT (insert_wallet ''user'' (userAccountID authUserID))"

definition lockWalletBalances :: "string list \<Rightarrow> (string, int) fmap tx" where
  "lockWalletBalances ids =
     bindT (askT (\<lambda>st. fmap_of_list (map (\<lambda>a. (a, balance st a))
              (filter (\<lambda>a. a |\<in>| fmdom (db_wallets st)) ids))))
       (\<lambda>balances. thenT (failIf (flen balances \<noteq> length ids)
                           (ErrText ''wallet account set is incomplete''))
                     (returnT balances))"

definition lockWallets :: "string list \<Rightarrow> unit tx" where
  "lockWallets ids = bindT (lockWalletBalances ids) (\<lambda>_. returnT ())"

section \<open>The ledger\<close>

text \<open>
  One posting with its update of the account, under the checks of the schema: the account exists, the
  amount is not zero, the balance is a \<open>bigint\<close> and only the mint's may be negative.
\<close>

definition post :: "int \<Rightarrow> string \<times> int \<Rightarrow> unit tx" where
  "post t = (\<lambda>(a, n) st.
     (case fmlookup (db_wallets st) a of
        None \<Rightarrow> Inl (ErrText ''wallet_postings_account_id_fkey'')
      | Some w \<Rightarrow>
         (let b = wa_balance w + n in
          if n = 0 then Inl (ErrText ''wallet_postings_amount_check'')
          else if b < - (2 ^ 63) \<or> MaxInt64 < b then Inl (ErrText ''bigint out of range'')
          else if wa_type w \<noteq> ''mint'' \<and> b < 0 then Inl (ErrText ''wallet_accounts_check'')
          else Inr ((), st\<lparr>db_wallets := fmupd a (w\<lparr>wa_balance := b\<rparr>) (db_wallets st),
                          db_postings := db_postings st @ [(t, a, n)]\<rparr>))))"

fun post_all :: "int \<Rightarrow> (string \<times> int) list \<Rightarrow> unit tx" where
  "post_all t [] = returnT ()"
| "post_all t (d # ds) = thenT (post t d) (post_all t ds)"

definition new_transaction :: "string \<Rightarrow> string \<Rightarrow> string option \<Rightarrow> int option \<Rightarrow> int tx" where
  "new_transaction key typ auth amount =
     bindT (askT db_next_transaction) (\<lambda>t.
       thenT (execT (\<lambda>st. st\<lparr>db_next_transaction := t + 1,
           db_transactions := fmupd key \<lparr>wt_id = t, wt_type = typ, wt_auth = auth, wt_amount = amount\<rparr>
             (db_transactions st)\<rparr>))
         (returnT t))"

text \<open>The CTE \<open>created_transaction\<close> with the postings and updates that depend on it.\<close>

definition record_transaction :: "string \<Rightarrow> string \<Rightarrow> (string \<times> int) list \<Rightarrow> bool tx" where
  "record_transaction key typ deltas =
     bindT (askT (\<lambda>st. key |\<in>| fmdom (db_transactions st))) (\<lambda>exists.
       if exists then returnT False
       else bindT (new_transaction key typ None None) (\<lambda>t.
              thenT (post_all t deltas) (returnT True)))"

section \<open>Deadlines of a funded round\<close>

abbreviation DisconnectGracePeriod :: duration where "DisconnectGracePeriod \<equiv> 20 * Second"
abbreviation FundedInactivityDeadline :: duration where "FundedInactivityDeadline \<equiv> 30 * Second"

text \<open>The unique index \<open>room_deadlines_identity_idx\<close>.\<close>

definition deadline_identity :: "deadline_row \<Rightarrow> string \<times> uint64 \<times> string \<times> string \<times> uint64" where
  "deadline_identity d = (dl_room d, dl_round d, dl_kind d, dl_role d, dl_generation d)"

definition insert_deadline :: "deadline_row \<Rightarrow> db \<Rightarrow> db" where
  "insert_deadline d st =
     (if fmpred (\<lambda>_ x. deadline_identity x \<noteq> deadline_identity d) (db_deadlines st)
      then st\<lparr>db_deadlines := fmupd (db_next_deadline st) d (db_deadlines st),
              db_next_deadline := db_next_deadline st + 1\<rparr>
      else st)"

definition new_deadline ::
    "string \<Rightarrow> uint64 \<Rightarrow> string \<Rightarrow> string \<Rightarrow> uint64 \<Rightarrow> go_time \<Rightarrow> deadline_row" where
  "new_deadline code k kind role generation due =
     \<lparr>dl_room = code, dl_round = k, dl_kind = kind, dl_role = role, dl_generation = generation,
      dl_due = due, dl_status = ''pending'', dl_completed = None\<rparr>"

definition scheduleInactivityDeadline :: "string \<Rightarrow> uint64 \<Rightarrow> unit tx" where
  "scheduleInactivityDeadline code k =
     execT (\<lambda>st. insert_deadline
       (new_deadline code k ''inactivity'' '''' k (db_now st + FundedInactivityDeadline)) st)"

section \<open>Funding and settling\<close>

definition insert_round :: "string \<Rightarrow> uint64 \<Rightarrow> db \<Rightarrow> db" where
  "insert_round code k st =
     (if (code, k) |\<in>| fmdom (db_rounds st) then st
      else st\<lparr>db_rounds := fmupd (code, k)
        \<lparr>rr_result = None, rr_forfeited_role = None, rr_status = ''active'', rr_funded = False,
         rr_created_at = db_now st\<rparr> (db_rounds st)\<rparr>)"

definition round_funded :: "string \<Rightarrow> uint64 \<Rightarrow> db \<Rightarrow> bool" where
  "round_funded code k st =
     (case fmlookup (db_rounds st) (code, k) of None \<Rightarrow> False | Some rr \<Rightarrow> rr_funded rr)"

definition mark_funded :: "string \<Rightarrow> uint64 \<Rightarrow> db \<Rightarrow> db" where
  "mark_funded code k st =
     (case fmlookup (db_rounds st) (code, k) of
        None \<Rightarrow> st
      | Some rr \<Rightarrow> st\<lparr>db_rounds := fmupd (code, k) (rr\<lparr>rr_funded := True\<rparr>) (db_rounds st)\<rparr>)"

definition seat_owners :: "string \<Rightarrow> db \<Rightarrow> string list" where
  "seat_owners code st = map (\<lambda>(role, s). se_auth s) (room_seats code st)"

definition stake_key :: "string \<Rightarrow> uint64 \<Rightarrow> string" where
  "stake_key code k = ''stake:'' @ code @ '':'' @ dec (unat k)"

definition settlement_key :: "string \<Rightarrow> uint64 \<Rightarrow> string" where
  "settlement_key code k = ''settlement:'' @ code @ '':'' @ dec (unat k)"

definition fundRound_pg :: "string \<Rightarrow> uint64 \<Rightarrow> string \<Rightarrow> unit tx" where
  "fundRound_pg code k joiningAuthUserID =
     thenT (execT (insert_round code k))
     (bindT (askT (\<lambda>st. (round_funded code k st, seat_owners code st))) (\<lambda>(funded, owners0).
      if funded then scheduleInactivityDeadline code k
      else
        let owners = (if joiningAuthUserID \<noteq> '''' then owners0 @ [joiningAuthUserID] else owners0)
        in if length owners \<noteq> 2 then failT (Err ErrRoomNotReady)
           else
             let a0 = userAccountID (owners ! 0); a1 = userAccountID (owners ! 1);
                 escrow = escrowAccountID code k
             in thenT (execT (\<lambda>st. insert_wallet ''escrow'' escrow
                    (insert_wallet ''user'' a1 (insert_wallet ''user'' a0 st))))
                (bindT (lockWalletBalances [a0, a1, escrow]) (\<lambda>balances.
                 thenT (failIf (get_or 0 balances a0 < RoundStake \<or> get_or 0 balances a1 < RoundStake)
                         (Err ErrInsufficientFunds))
                 (bindT (record_transaction (stake_key code k) ''stake''
                          [(a0, - RoundStake), (a1, - RoundStake), (escrow, RoundStake * 2)]) (\<lambda>_.
                 thenT (execT (mark_funded code k))
                       (scheduleInactivityDeadline code k)))))))"

definition settlementEffects ::
    "roomState \<Rightarrow> string list \<Rightarrow> string \<Rightarrow> (string \<times> int) list \<times> string \<times> int" where
  "settlementEffects state accounts escrow =
     (if st_Result state = Draw
      then ([(escrow, - RoundStake * 2), (accounts ! 0, RoundStake), (accounts ! 1, RoundStake)], '''', 0)
      else let winnerIndex = (if st_Result state = PlayerTwoWins then 1 else 0);
               winnerRole = (if st_Result state = PlayerTwoWins then ''guest'' else ''host'')
           in ([(escrow, - RoundStake * 2), (accounts ! winnerIndex, WinnerPayout), (''house'', HousePayout)],
               winnerRole, HousePayout))"

definition insert_history :: "string \<Rightarrow> uint64 \<Rightarrow> history_row \<Rightarrow> db \<Rightarrow> db" where
  "insert_history code k row st =
     (if (code, k) |\<in>| fmdom (db_history st) then st
      else st\<lparr>db_history := fmupd (code, k) row (db_history st)\<rparr>)"

definition settleRound_pg :: "string \<Rightarrow> roomState \<Rightarrow> unit tx" where
  "settleRound_pg code state =
     (let k = st_Round state in
      bindT (askT (\<lambda>st. ((code, k) |\<in>| fmdom (db_history st), map userAccountID (seat_owners code st))))
       (\<lambda>(alreadyRecorded, accounts).
        if alreadyRecorded then returnT ()
        else if length accounts \<noteq> 2 then failT (Err ErrRoomNotReady)
        else
          let escrow = escrowAccountID code k in
          bindT (lockWalletBalances [''house'', accounts ! 0, accounts ! 1, escrow]) (\<lambda>balances.
          thenT (failIf (get_or 0 balances escrow \<noteq> RoundStake * 2)
                  (ErrText ''funded round escrow has invalid balance''))
          (let (deltas, winnerRole, houseEarnings) = settlementEffects state accounts escrow in
           bindT (record_transaction (settlement_key code k) ''settlement'' deltas) (\<lambda>created.
             if created then execT (\<lambda>st. insert_history code k
                 \<lparr>hr_host = accounts ! 0, hr_guest = accounts ! 1, hr_result = st_Result state,
                  hr_winner = winnerRole, hr_forfeited = st_Forfeit state, hr_house = houseEarnings,
                  hr_resolved_at = db_now st\<rparr> st)
             else returnT ())))))"

section \<open>Recharges, balances and analytics\<close>

definition recharge_key :: "string \<Rightarrow> string \<Rightarrow> string" where
  "recharge_key authUserID key = ''recharge:'' @ authUserID @ '':'' @ key"

text \<open>The inserts and updates of a recharge; a taken business key violates its unique constraint.\<close>

definition rechargeEffects :: "string \<Rightarrow> int \<Rightarrow> string \<Rightarrow> int tx" where
  "rechargeEffects authUserID amount key =
     (let account = userAccountID authUserID in
      bindT (askT (\<lambda>st. recharge_key authUserID key |\<in>| fmdom (db_transactions st))) (\<lambda>taken.
      thenT (failIf taken (ErrText ''wallet_transactions_business_key_key''))
      (bindT (new_transaction (recharge_key authUserID key) ''recharge'' (Some authUserID) (Some amount)) (\<lambda>t.
       thenT (post_all t [(''mint'', - amount), (account, amount)])
             (askT (\<lambda>st. balance st account))))))"

definition pg_Recharge :: "string \<Rightarrow> int \<Rightarrow> string \<Rightarrow> (db, int) op" where
  "pg_Recharge authUserID amount key = transaction
     (let account = userAccountID authUserID in
      thenT (ensureUserWallet authUserID)
      (thenT (lockWallets [''mint'', account])
      (bindT (askT (\<lambda>st. fmlookup (db_transactions st) (recharge_key authUserID key))) (\<lambda>existing.
       case existing of
         Some t \<Rightarrow> thenT (failIf (wt_auth t \<noteq> Some authUserID \<or> wt_amount t \<noteq> Some amount)
                            (Err ErrIdempotencyConflict))
                         (askT (\<lambda>st. balance st account))
       | None \<Rightarrow> rechargeEffects authUserID amount key))))"

definition pg_Balance :: "string \<Rightarrow> (db, int) op" where
  "pg_Balance authUserID = transaction
     (thenT (ensureUserWallet authUserID) (askT (\<lambda>st. balance st (userAccountID authUserID))))"

text \<open>\<open>ORDER BY resolved_at DESC, room_code, round_number DESC LIMIT 500\<close>.\<close>

definition played_round :: "string \<times> uint64 \<Rightarrow> history_row \<Rightarrow> PlayedRound" where
  "played_round = (\<lambda>(code, k) h. \<lparr>h_RoomCode = code, h_Round = k, h_Result = hr_result h,
     h_WinnerRole = hr_winner h, h_Forfeit = hr_forfeited h, h_HouseEarnings = hr_house h,
     h_ResolvedAt = hr_resolved_at h\<rparr>)"

definition pg_Analytics :: "(db, analytics) op" where
  "pg_Analytics st =
     (case fmlookup (db_wallets st) ''house'' of
        None \<Rightarrow> (Inl ErrNoRows, st)
      | Some house \<Rightarrow>
         (Inr \<lparr>an_TotalHouseEarnings = wa_balance house,
               an_Rounds = take 500 (sort_key (\<lambda>p. (- h_ResolvedAt p, h_RoomCode p, - int (unat (h_Round p))))
                 (map (\<lambda>key. played_round key (the (fmlookup (db_history st) key)))
                   (sorted_list_of_fset (fmdom (db_history st)))))\<rparr>, st))"

text \<open>Deleting the rooms cascades to every table that references one.\<close>

definition ResetDisposableRooms :: "(db, unit) op" where
  "ResetDisposableRooms = transaction
     (bindT (askT (\<lambda>st. \<not> fmpred (\<lambda>_ w. wa_type w = ''escrow'' \<longrightarrow> wa_balance w = 0) (db_wallets st)))
       (\<lambda>funded. thenT (failIf funded (Err ErrFundedEscrowRemaining))
         (execT (\<lambda>st. st\<lparr>db_rooms := fmempty, db_seats := fmempty, db_rounds := fmempty,
             db_moves := fmempty, db_requests := fmempty, db_presence := fmempty,
             db_connections := fmempty, db_deadlines := fmempty, db_outbox := fmempty\<rparr>))))"

section \<open>Double-entry book-keeping\<close>

definition account_sum :: "string \<Rightarrow> (int \<times> string \<times> int) list \<Rightarrow> int" where
  "account_sum a ps = sum_list (map (\<lambda>(t, b, n). if b = a then n else 0) ps)"

definition transaction_sum :: "int \<Rightarrow> (int \<times> string \<times> int) list \<Rightarrow> int" where
  "transaction_sum t ps = sum_list (map (\<lambda>(u, a, n). if u = t then n else 0) ps)"

lemma sums_simps [simp]:
  "account_sum a [] = 0" "transaction_sum t [] = 0"
  "account_sum a (ps @ qs) = account_sum a ps + account_sum a qs"
  "transaction_sum t (ps @ qs) = transaction_sum t ps + transaction_sum t qs"
  "account_sum a (p # ps) = (if fst (snd p) = a then snd (snd p) else 0) + account_sum a ps"
  "transaction_sum t (p # ps) = (if fst p = t then snd (snd p) else 0) + transaction_sum t ps"
  by (simp_all add: account_sum_def transaction_sum_def split_def)

definition ledger_ok :: "db \<Rightarrow> bool" where
  "ledger_ok st \<longleftrightarrow>
     (\<forall>a. balance st a = account_sum a (db_postings st))
     \<and> (\<forall>t. transaction_sum t (db_postings st) = 0)
     \<and> (\<forall>p\<in>set (db_postings st). fst p < db_next_transaction st \<and> fst (snd p) |\<in>| fmdom (db_wallets st))
     \<and> (\<forall>a w. fmlookup (db_wallets st) a = Some w \<longrightarrow> wa_type w \<noteq> ''mint'' \<longrightarrow> 0 \<le> wa_balance w)"

definition escrow_ok_pg :: "db \<Rightarrow> bool" where
  "escrow_ok_pg st \<longleftrightarrow> (\<forall>code k.
     balance st (escrowAccountID code k)
       = (if stake_key code k |\<in>| fmdom (db_transactions st)
            \<and> settlement_key code k |\<notin>| fmdom (db_transactions st) then RoundStake * 2 else 0)
     \<and> (settlement_key code k |\<in>| fmdom (db_transactions st) \<longrightarrow> stake_key code k |\<in>| fmdom (db_transactions st))
     \<and> ((code, k) |\<in>| fmdom (db_history st)
          \<longleftrightarrow> settlement_key code k |\<in>| fmdom (db_transactions st)))"

definition wallet_inv :: "db \<Rightarrow> bool" where
  "wallet_inv st \<longleftrightarrow> ledger_ok st \<and> escrow_ok_pg st"

text \<open>The tables these invariants read; an update of any other table keeps them.\<close>

definition ledger :: "db \<Rightarrow> (string, wallet_row) fmap \<times> (string, transaction_row) fmap
    \<times> (int \<times> string \<times> int) list \<times> int \<times> (string \<times> uint64, history_row) fmap" where
  "ledger st = (db_wallets st, db_transactions st, db_postings st, db_next_transaction st, db_history st)"

lemma wallet_inv_ledger: "ledger st1 = ledger st \<Longrightarrow> wallet_inv st1 = wallet_inv st"
  by (simp add: ledger_def wallet_inv_def ledger_ok_def escrow_ok_pg_def balance_def)

lemma keeps_ledger: "(\<And>st. ledger (f st) = ledger st) \<Longrightarrow> keeps wallet_inv (execT f)"
  by (rule keeps_exec) (metis wallet_inv_ledger)

subsection \<open>Names\<close>

lemma split_at_colon:
  assumes "c @ '':'' @ dec m = c' @ '':'' @ dec n"
  shows "c = c' \<and> m = n"
proof -
  have "\<exists>us. c = c' @ us \<or> c @ us = c'"
    using assms append_eq_append_conv2 [of c "'':'' @ dec m" c' "'':'' @ dec n"] by blast
  then obtain us where us: "c = c' @ us \<or> c' = c @ us" by auto
  show ?thesis
  proof (cases us)
    case Nil
    with us assms show ?thesis by auto
  next
    case (Cons x xs)
    from us show ?thesis
    proof
      assume "c = c' @ us"
      with assms Cons have "xs @ CHR '':'' # dec m = dec n" by simp
      then have "CHR '':'' \<in> set (dec n)" by (metis in_set_conv_decomp)
      then show ?thesis by simp
    next
      assume "c' = c @ us"
      with assms Cons have "dec m = xs @ CHR '':'' # dec n" by simp
      then have "CHR '':'' \<in> set (dec m)" by (metis in_set_conv_decomp)
      then show ?thesis by simp
    qed
  qed
qed

lemma key_inject [simp]:
  "escrowAccountID c k = escrowAccountID c' k' \<longleftrightarrow> c = c' \<and> k = k'"
  "stake_key c k = stake_key c' k' \<longleftrightarrow> c = c' \<and> k = k'"
  "settlement_key c k = settlement_key c' k' \<longleftrightarrow> c = c' \<and> k = k'"
  using split_at_colon [of c "unat k" c' "unat k'"]
  by (auto simp: escrowAccountID_def stake_key_def settlement_key_def word_unat_eq_iff)

lemma key_neq [simp]:
  "stake_key c k \<noteq> settlement_key c' k'" "settlement_key c' k' \<noteq> stake_key c k"
  "recharge_key u x \<noteq> stake_key c k" "recharge_key u x \<noteq> settlement_key c k"
  "stake_key c k \<noteq> recharge_key u x" "settlement_key c k \<noteq> recharge_key u x"
  "userAccountID u \<noteq> escrowAccountID c k" "escrowAccountID c k \<noteq> userAccountID u"
  "escrowAccountID c k \<noteq> ''house''" "escrowAccountID c k \<noteq> ''mint''"
  "''house'' \<noteq> escrowAccountID c k" "''mint'' \<noteq> escrowAccountID c k"
  "userAccountID u \<noteq> ''house''" "''house'' \<noteq> userAccountID u"
  "userAccountID u \<noteq> ''mint''" "''mint'' \<noteq> userAccountID u"
  "userAccountID u = userAccountID u' \<longleftrightarrow> u = u'"
  by (auto simp: stake_key_def settlement_key_def recharge_key_def userAccountID_def escrowAccountID_def)

subsection \<open>Postings\<close>

lemma post_spec:
  assumes "post t (a, n) st = Inr (u, st1)"
  obtains w where "fmlookup (db_wallets st) a = Some w" "n \<noteq> 0"
    "st1 = st\<lparr>db_wallets := fmupd a (w\<lparr>wa_balance := wa_balance w + n\<rparr>) (db_wallets st),
              db_postings := db_postings st @ [(t, a, n)]\<rparr>"
    "wa_type w \<noteq> ''mint'' \<Longrightarrow> 0 \<le> wa_balance w + n"
  using assms by (auto simp: post_def Let_def split: option.splits if_splits)

definition nonneg_wallets :: "db \<Rightarrow> bool" where
  "nonneg_wallets st \<longleftrightarrow>
     (\<forall>a w. fmlookup (db_wallets st) a = Some w \<longrightarrow> wa_type w \<noteq> ''mint'' \<longrightarrow> 0 \<le> wa_balance w)"

lemma post_all_spec:
  assumes "post_all t ds st = Inr (u, st1)"
  shows "db_postings st1 = db_postings st @ map (Pair t) ds
    \<and> (\<forall>a. balance st1 a = balance st a + account_sum a (map (Pair t) ds))
    \<and> fmdom (db_wallets st1) = fmdom (db_wallets st) \<and> fst ` set ds \<subseteq> fset (fmdom (db_wallets st))
    \<and> (\<exists>ws ps. st1 = st\<lparr>db_wallets := ws, db_postings := ps\<rparr>)
    \<and> (nonneg_wallets st \<longrightarrow> nonneg_wallets st1)"
  using assms
proof (induction ds arbitrary: st)
  case (Cons d ds)
  obtain a n where d: "d = (a, n)" by (cases d)
  from Cons.prems obtain st2 where st2: "post t (a, n) st = Inr ((), st2)" "post_all t ds st2 = Inr (u, st1)"
    by (auto simp: d thenT_eq_Inr)
  from post_spec [OF st2(1)] obtain w where w: "fmlookup (db_wallets st) a = Some w"
    "st2 = st\<lparr>db_wallets := fmupd a (w\<lparr>wa_balance := wa_balance w + n\<rparr>) (db_wallets st),
              db_postings := db_postings st @ [(t, a, n)]\<rparr>"
    "wa_type w \<noteq> ''mint'' \<Longrightarrow> 0 \<le> wa_balance w + n" by metis
  have b: "balance st2 b = balance st b + (if b = a then n else 0)" for b
    using w by (simp add: balance_def)
  have dom: "fmdom (db_wallets st2) = fmdom (db_wallets st)" "a |\<in>| fmdom (db_wallets st)"
    using w fmdomI [OF w(1)] by auto
  have nn: "nonneg_wallets st \<Longrightarrow> nonneg_wallets st2"
    using w by (auto simp: nonneg_wallets_def)
  note IH = Cons.IH [OF st2(2)]
  from IH obtain ws ps where "st1 = st2\<lparr>db_wallets := ws, db_postings := ps\<rparr>" by blast
  then have "st1 = st\<lparr>db_wallets := ws, db_postings := ps\<rparr>" by (simp add: w(2))
  then have "\<exists>ws ps. st1 = st\<lparr>db_wallets := ws, db_postings := ps\<rparr>" by blast
  moreover have "db_postings st1 = db_postings st @ map (Pair t) (d # ds)"
    using IH w(2) by (simp add: d)
  moreover have "balance st1 c = balance st c + account_sum c (map (Pair t) (d # ds))" for c
    using IH b [of c] by (auto simp: d)
  ultimately show ?case using IH dom nn by (auto simp: d)
next
  case Nil
  have "\<exists>ws ps. st = st\<lparr>db_wallets := ws, db_postings := ps\<rparr>"
    by (intro exI [of _ "db_wallets st"] exI [of _ "db_postings st"]) simp
  moreover from Nil have "st1 = st" by (simp add: query_eq_Inr)
  ultimately show ?case by simp
qed

text \<open>A recorded transaction whose postings cancel keeps the books.\<close>

lemma nonneg_ledger: "ledger_ok st \<Longrightarrow> nonneg_wallets st"
  unfolding ledger_ok_def nonneg_wallets_def by blast

lemma transaction_sum_tagged:
  "transaction_sum u (map (Pair t) ds) = (if u = t then sum_list (map snd ds) else 0)"
  by (induction ds) auto

lemma transaction_sum_fresh: "\<forall>p\<in>set ps. fst p < t \<Longrightarrow> transaction_sum t ps = 0"
  by (induction ps) auto

lemma ledger_ok_post_all:
  assumes "ledger_ok st" "sum_list (map snd ds) = 0"
    and "new_transaction key typ auth amount st = Inr (t, st1)" "post_all t ds st1 = Inr (u, st2)"
  shows "ledger_ok st2 \<and> db_transactions st2 = fmupd key
      \<lparr>wt_id = t, wt_type = typ, wt_auth = auth, wt_amount = amount\<rparr> (db_transactions st)
    \<and> db_history st2 = db_history st
    \<and> (\<forall>a. balance st2 a = balance st a + account_sum a (map (Pair t) ds))"
proof -
  have t: "t = db_next_transaction st" and st1: "st1 = st\<lparr>db_next_transaction := t + 1,
      db_transactions := fmupd key \<lparr>wt_id = t, wt_type = typ, wt_auth = auth, wt_amount = amount\<rparr>
        (db_transactions st)\<rparr>"
    using assms(3) by (auto simp: new_transaction_def bindT_eq_Inr thenT_eq_Inr query_eq_Inr)
  note spec = post_all_spec [OF assms(4)]
  from spec obtain ws ps where st2: "st2 = st1\<lparr>db_wallets := ws, db_postings := ps\<rparr>" by blast
  have bal1: "balance st1 a = balance st a" for a by (simp add: st1 balance_def)
  have posts: "db_postings st2 = db_postings st @ map (Pair t) ds"
    and doms: "fmdom (db_wallets st2) = fmdom (db_wallets st)"
      "fst ` set ds \<subseteq> fset (fmdom (db_wallets st))"
    and bal: "balance st2 a = balance st a + account_sum a (map (Pair t) ds)" for a
    using spec bal1 by (simp_all add: st1)
  have nn: "nonneg_wallets st2"
    using spec nonneg_ledger [OF assms(1)] by (simp add: st1 nonneg_wallets_def)
  have fresh: "\<forall>p\<in>set (db_postings st). fst p < t" using assms(1) by (simp add: ledger_ok_def t)
  have "\<forall>a. balance st2 a = account_sum a (db_postings st2)"
    using assms(1) bal posts by (simp add: ledger_ok_def)
  moreover have "\<forall>u. transaction_sum u (db_postings st2) = 0"
    using assms(1,2) by (simp add: posts transaction_sum_tagged ledger_ok_def)
  moreover have "\<forall>p\<in>set (db_postings st2). fst p < db_next_transaction st2
      \<and> fst (snd p) |\<in>| fmdom (db_wallets st2)"
  proof
    have next_id: "db_next_transaction st2 = t + 1" by (simp add: st2 st1)
    fix p assume "p \<in> set (db_postings st2)"
    then consider "p \<in> set (db_postings st)" | d where "d \<in> set ds" "p = (t, d)"
      by (auto simp: posts)
    then show "fst p < db_next_transaction st2 \<and> fst (snd p) |\<in>| fmdom (db_wallets st2)"
    proof cases
      case 1
      with assms(1) fresh have "fst p < t" "fst (snd p) |\<in>| fmdom (db_wallets st)"
        unfolding ledger_ok_def by blast+
      then show ?thesis by (simp add: next_id doms(1))
    next
      case 2
      with doms(2) have "fst d |\<in>| fmdom (db_wallets st)" by blast
      with 2 show ?thesis by (simp add: next_id doms(1))
    qed
  qed
  ultimately have "ledger_ok st2" using nn unfolding ledger_ok_def nonneg_wallets_def by blast
  then show ?thesis using bal by (simp add: st2 st1)
qed

lemma insert_wallet_books:
  "ledger_ok st \<Longrightarrow> ledger_ok (insert_wallet typ a st)"
  "balance (insert_wallet typ a st) b = balance st b"
  "db_transactions (insert_wallet typ a st) = db_transactions st"
  "db_history (insert_wallet typ a st) = db_history st"
proof -
  show bal: "balance (insert_wallet typ a st) b = balance st b" for b
    by (auto simp: insert_wallet_def balance_def fmlookup_dom_iff split: option.split)
  then show "ledger_ok st \<Longrightarrow> ledger_ok (insert_wallet typ a st)"
    by (simp add: ledger_ok_def bal) (auto simp: insert_wallet_def)
qed (simp_all add: insert_wallet_def)

lemma insert_wallet_inv: "wallet_inv st \<Longrightarrow> wallet_inv (insert_wallet typ a st)"
  by (simp add: wallet_inv_def insert_wallet_books escrow_ok_pg_def)

lemma keeps_lock [keeps_intros]:
  "keeps wallet_inv (lockWalletBalances ids)" "keeps wallet_inv (lockWallets ids)"
  unfolding lockWalletBalances_def lockWallets_def by (intro keeps_intros)+

lemma keeps_ensure [keeps_intros]: "keeps wallet_inv (ensureUserWallet u)"
  unfolding ensureUserWallet_def by (rule keeps_exec) (rule insert_wallet_inv)

lemma lock_balance:
  assumes "lockWalletBalances ids st = Inr (balances, st1)"
  shows "st1 = st \<and> distinct ids \<and> (\<forall>a\<in>set ids. get_or 0 balances a = balance st a
    \<and> a |\<in>| fmdom (db_wallets st))"
proof -
  let ?ids = "filter (\<lambda>a. a |\<in>| fmdom (db_wallets st)) ids"
  from assms have b: "balances = fmap_of_list (map (\<lambda>a. (a, balance st a)) ?ids)" "st1 = st"
    and n: "flen balances = length ids"
    by (auto simp: lockWalletBalances_def bindT_eq_Inr thenT_eq_Inr query_eq_Inr failIf_eq_Inr)
  have "fmdom balances = fset_of_list ?ids" by (simp add: b(1) fmdom_fmap_of_list comp_def)
  then have "fset (fmdom balances) = set ?ids" by (simp only: fset_of_list.rep_eq)
  then have "card (set ?ids) = length ids" using n by (metis flen_card)
  moreover have "card (set ?ids) \<le> length ?ids" "length ?ids \<le> length ids" by (rule card_length, simp)
  ultimately have "length ?ids = length ids" "card (set ?ids) = length ?ids" by linarith+
  then have all: "\<forall>a\<in>set ids. a |\<in>| fmdom (db_wallets st)" and "distinct ?ids"
    by (metis length_filter_less linorder_neq_iff, metis card_distinct)
  then have ids: "?ids = ids" "distinct ids" by (simp_all add: filter_id_conv)
  have "fmlookup balances a = Some (balance st a)" if "a \<in> set ids" for a
  proof -
    have "map_of (map (\<lambda>a. (a, balance st a)) ids) a = Some (balance st a)"
      using that by (simp add: map_of_map_restrict)
    then show ?thesis by (simp add: b(1) ids fmlookup_of_list)
  qed
  with all ids b show ?thesis by simp
qed

subsection \<open>The operations keep the books\<close>

lemma ledger_updates [simp]:
  "ledger (insert_deadline d st) = ledger st" "ledger (insert_round code k st) = ledger st"
  "ledger (mark_funded code k st) = ledger st"
  by (simp_all add: insert_deadline_def insert_round_def mark_funded_def ledger_def split: option.split)

lemma keeps_schedule [keeps_intros]: "keeps wallet_inv (scheduleInactivityDeadline code k)"
  unfolding scheduleInactivityDeadline_def by (rule keeps_ledger) simp

lemma account_sum_other: "(\<forall>d\<in>set ds. fst d \<noteq> a) \<Longrightarrow> account_sum a (map (Pair t) ds) = 0"
  by (induction ds) auto

lemma keeps_stake:
  "keeps wallet_inv (record_transaction (stake_key code k) ''stake''
     [(userAccountID u, - RoundStake), (userAccountID v, - RoundStake), (escrowAccountID code k, RoundStake * 2)])"
    (is "keeps _ (record_transaction _ _ ?ds)")
proof (rule keepsI)
  fix st created st1 assume inv: "wallet_inv st"
    and run: "record_transaction (stake_key code k) ''stake'' ?ds st = Inr (created, st1)"
  show "wallet_inv st1"
  proof (cases "stake_key code k |\<in>| fmdom (db_transactions st)")
    case True
    with run inv show ?thesis by (simp add: record_transaction_def bindT_def)
  next
    case False
    with run obtain t st2 where new: "new_transaction (stake_key code k) ''stake'' None None st = Inr (t, st2)"
      "post_all t ?ds st2 = Inr ((), st1)"
      by (auto simp: record_transaction_def bindT_eq_Inr thenT_eq_Inr query_eq_Inr simp del: post_all.simps)
    have books: "ledger_ok st" and esc: "escrow_ok_pg st" using inv by (simp_all add: wallet_inv_def)
    note ok = ledger_ok_post_all [OF books _ new]
    have "escrow_ok_pg st1"
      unfolding escrow_ok_pg_def
    proof (intro allI)
      fix c n
      have "balance st1 (escrowAccountID c n)
          = balance st (escrowAccountID c n) + (if c = code \<and> n = k then RoundStake * 2 else 0)"
        using ok by auto
      then show "balance st1 (escrowAccountID c n)
            = (if stake_key c n |\<in>| fmdom (db_transactions st1)
                 \<and> settlement_key c n |\<notin>| fmdom (db_transactions st1) then RoundStake * 2 else 0)
          \<and> (settlement_key c n |\<in>| fmdom (db_transactions st1) \<longrightarrow> stake_key c n |\<in>| fmdom (db_transactions st1))
          \<and> ((c, n) |\<in>| fmdom (db_history st1) \<longleftrightarrow> settlement_key c n |\<in>| fmdom (db_transactions st1))"
        using ok esc [unfolded escrow_ok_pg_def, rule_format, of c n] False by auto
    qed
    with ok show ?thesis by (simp add: wallet_inv_def)
  qed
qed

lemma keeps_fundRound [keeps_intros]: "keeps wallet_inv (fundRound_pg code k joining)"
  unfolding fundRound_pg_def Let_def split_def
  by (intro keeps_intros keeps_stake keeps_ledger keeps_exec insert_wallet_inv) simp_all

lemma settlement_cancels:
  "sum_list (map snd (fst (settlementEffects state accounts escrow))) = 0"
  by (simp add: settlementEffects_def Let_def)

lemma settlement_empties_escrow:
  assumes "escrow \<noteq> ''house''" "\<forall>a\<in>set accounts. a \<noteq> escrow" "length accounts = 2"
  shows "account_sum escrow (map (Pair t) (fst (settlementEffects state accounts escrow))) = - RoundStake * 2"
    and "e \<noteq> escrow \<Longrightarrow> e \<noteq> ''house'' \<Longrightarrow> e \<notin> set accounts
      \<Longrightarrow> account_sum e (map (Pair t) (fst (settlementEffects state accounts escrow))) = 0"
proof -
  obtain a b where "accounts = [a, b]" using assms(3) by (auto simp: length_2_iff)
  with assms show "account_sum escrow (map (Pair t) (fst (settlementEffects state accounts escrow))) = - RoundStake * 2"
    and "e \<noteq> escrow \<Longrightarrow> e \<noteq> ''house'' \<Longrightarrow> e \<notin> set accounts
      \<Longrightarrow> account_sum e (map (Pair t) (fst (settlementEffects state accounts escrow))) = 0"
    by (auto simp: settlementEffects_def Let_def)
qed

text \<open>What \<open>settleRound_pg\<close> does, on its three successful paths.\<close>

lemma settleRound_cases:
  assumes "settleRound_pg code state st = Inr (u, st1)"
  obtains (recorded) "(code, st_Round state) |\<in>| fmdom (db_history st)" "st1 = st"
  | (unrecorded) a b where "(code, st_Round state) |\<notin>| fmdom (db_history st)"
    "map userAccountID (seat_owners code st) = [a, b]" "a \<noteq> b"
    "balance st (escrowAccountID code (st_Round state)) = RoundStake * 2"
    "settlement_key code (st_Round state) |\<in>| fmdom (db_transactions st)" "st1 = st"
  | (settled) a b t st2 st3 where "(code, st_Round state) |\<notin>| fmdom (db_history st)"
    "map userAccountID (seat_owners code st) = [a, b]" "a \<noteq> b"
    "balance st (escrowAccountID code (st_Round state)) = RoundStake * 2"
    "settlement_key code (st_Round state) |\<notin>| fmdom (db_transactions st)"
    "new_transaction (settlement_key code (st_Round state)) ''settlement'' None None st = Inr (t, st2)"
    "post_all t (fst (settlementEffects state [a, b] (escrowAccountID code (st_Round state)))) st2 = Inr ((), st3)"
    "st1 = insert_history code (st_Round state)
       \<lparr>hr_host = a, hr_guest = b, hr_result = st_Result state,
        hr_winner = fst (snd (settlementEffects state [a, b] (escrowAccountID code (st_Round state)))),
        hr_forfeited = st_Forfeit state,
        hr_house = snd (snd (settlementEffects state [a, b] (escrowAccountID code (st_Round state)))),
        hr_resolved_at = db_now st3\<rparr> st3"
proof (cases "(code, st_Round state) |\<in>| fmdom (db_history st)")
  case True
  with assms have "st1 = st" by (simp add: settleRound_pg_def Let_def bindT_eq_Inr query_eq_Inr)
  with True show ?thesis by (rule recorded)
next
  case False
  let ?accounts = "map userAccountID (seat_owners code st)" and ?e = "escrowAccountID code (st_Round state)"
  from assms False obtain a b where ab: "?accounts = [a, b]"
    by (auto simp: settleRound_pg_def Let_def bindT_eq_Inr query_eq_Inr length_2_iff split: if_splits)
  from assms False ab obtain balances st2 where
    lock: "lockWalletBalances [''house'', a, b, ?e] st = Inr (balances, st2)"
    by (auto simp: settleRound_pg_def Let_def bindT_eq_Inr query_eq_Inr split: if_splits)
  note bal = lock_balance [OF lock]
  have e: "get_or 0 balances ?e = balance st ?e" using bal by simp
  have locked: "bindT (lockWalletBalances [''house'', a, b, ?e]) f st = f balances st" for f :: "_ \<Rightarrow> unit tx"
    using lock bal by (simp add: bindT_def)
  from assms have run: "(if balance st ?e \<noteq> RoundStake * 2 then Inl (ErrText ''funded round escrow has invalid balance'')
    else bindT (record_transaction (settlement_key code (st_Round state)) ''settlement''
        (fst (settlementEffects state [a, b] ?e)))
      (\<lambda>created. if created then execT (\<lambda>st. insert_history code (st_Round state)
       \<lparr>hr_host = a, hr_guest = b, hr_result = st_Result state,
        hr_winner = fst (snd (settlementEffects state [a, b] ?e)),
        hr_forfeited = st_Forfeit state,
        hr_house = snd (snd (settlementEffects state [a, b] ?e)), hr_resolved_at = db_now st\<rparr> st)
        else returnT ()) st) = Inr (u, st1)"
    using False
    by (simp only: settleRound_pg_def Let_def tx_run split_def fst_conv snd_conv ab locked e
        list.size nth_Cons_0 nth_Cons_Suc One_nat_def if_False simp_thms numeral_2_eq_2 add_0 add_Suc_right
        add_0_right)
  then have esc: "balance st ?e = RoundStake * 2" by (auto split: if_splits)
  note rec = run [unfolded esc, simplified]
  have "a \<noteq> b" using bal by simp
  note common = False ab this esc
  show ?thesis
  proof (cases "settlement_key code (st_Round state) |\<in>| fmdom (db_transactions st)")
    case True
    with rec have "st1 = st" by (simp add: record_transaction_def bindT_def)
    with common True show ?thesis by (rule unrecorded)
  next
    case new: False
    with rec obtain t st2 st3 where
      "new_transaction (settlement_key code (st_Round state)) ''settlement'' None None st = Inr (t, st2)"
      "post_all t (fst (settlementEffects state [a, b] ?e)) st2 = Inr ((), st3)"
      "st1 = insert_history code (st_Round state)
       \<lparr>hr_host = a, hr_guest = b, hr_result = st_Result state,
        hr_winner = fst (snd (settlementEffects state [a, b] ?e)),
        hr_forfeited = st_Forfeit state,
        hr_house = snd (snd (settlementEffects state [a, b] ?e)), hr_resolved_at = db_now st3\<rparr> st3"
      by (auto simp: record_transaction_def bindT_eq_Inr thenT_eq_Inr query_eq_Inr)
    with common new show ?thesis by (rule settled)
  qed
qed

lemma insert_history_books:
  "ledger_ok (insert_history code k row st) = ledger_ok st" "balance (insert_history code k row st) a = balance st a"
  "db_transactions (insert_history code k row st) = db_transactions st"
  "fmdom (db_history (insert_history code k row st)) = finsert (code, k) (fmdom (db_history st))"
  by (auto simp: insert_history_def ledger_ok_def balance_def)

lemma keeps_settleRound [keeps_intros]: "keeps wallet_inv (settleRound_pg code state)"
proof (rule keepsI)
  fix st u st1 assume inv: "wallet_inv st" and run: "settleRound_pg code state st = Inr (u, st1)"
  let ?k = "st_Round state"
  from run show "wallet_inv st1"
  proof (cases rule: settleRound_cases)
    case recorded
    with inv show ?thesis by simp
  next
    case unrecorded
    with inv show ?thesis by simp
  next
    case (settled a b t st2 st3)
    let ?ds = "fst (settlementEffects state [a, b] (escrowAccountID code ?k))"
    have books: "ledger_ok st" and esc: "escrow_ok_pg st" using inv by (simp_all add: wallet_inv_def)
    note ok = ledger_ok_post_all [OF books settlement_cancels settled(6,7)]
    have staked: "stake_key code ?k |\<in>| fmdom (db_transactions st)"
      using esc [unfolded escrow_ok_pg_def, rule_format, of code ?k] settled(4) by (auto split: if_splits)
    have ab: "a \<in> range userAccountID" "b \<in> range userAccountID"
      using settled(2) by (auto simp: map_eq_Cons_conv)
    have "escrow_ok_pg st1"
      unfolding escrow_ok_pg_def
    proof (intro allI)
      fix c n
      have "account_sum (escrowAccountID c n) (map (Pair t) ?ds)
          = (if c = code \<and> n = ?k then - RoundStake * 2 else 0)"
        using ab settlement_empties_escrow(1) [of "escrowAccountID code ?k" "[a, b]" t state]
          settlement_empties_escrow(2) [of "escrowAccountID code ?k" "[a, b]" "escrowAccountID c n" t state]
        by auto
      then have "balance st1 (escrowAccountID c n)
          = balance st (escrowAccountID c n) - (if c = code \<and> n = ?k then RoundStake * 2 else 0)"
        using ok by (auto simp: settled(8) insert_history_books)
      then show "balance st1 (escrowAccountID c n)
            = (if stake_key c n |\<in>| fmdom (db_transactions st1)
                 \<and> settlement_key c n |\<notin>| fmdom (db_transactions st1) then RoundStake * 2 else 0)
          \<and> (settlement_key c n |\<in>| fmdom (db_transactions st1) \<longrightarrow> stake_key c n |\<in>| fmdom (db_transactions st1))
          \<and> ((c, n) |\<in>| fmdom (db_history st1) \<longleftrightarrow> settlement_key c n |\<in>| fmdom (db_transactions st1))"
        using ok esc [unfolded escrow_ok_pg_def, rule_format, of c n] settled(4,5) staked
        by (auto simp: settled(8) insert_history_books)
    qed
    with ok show ?thesis by (simp add: wallet_inv_def settled(8) insert_history_books)
  qed
qed

lemma keeps_rechargeEffects [keeps_intros]: "keeps wallet_inv (rechargeEffects u n key)"
proof (rule keepsI)
  fix st x st1 assume inv: "wallet_inv st" and run: "rechargeEffects u n key st = Inr (x, st1)"
  let ?ds = "[(''mint'', - n), (userAccountID u, n)]"
  from run obtain t st2 where free: "recharge_key u key |\<notin>| fmdom (db_transactions st)"
    and new: "new_transaction (recharge_key u key) ''recharge'' (Some u) (Some n) st = Inr (t, st2)"
      "post_all t ?ds st2 = Inr ((), st1)"
    by (auto simp: rechargeEffects_def Let_def bindT_eq_Inr thenT_eq_Inr query_eq_Inr failIf_eq_Inr
        simp del: post_all.simps)
  have books: "ledger_ok st" and esc: "escrow_ok_pg st" using inv by (simp_all add: wallet_inv_def)
  note ok = ledger_ok_post_all [OF books _ new]
  have "balance st1 (escrowAccountID c k) = balance st (escrowAccountID c k)" for c k
    using ok by simp
  then have "escrow_ok_pg st1" using ok esc by (simp add: escrow_ok_pg_def)
  with ok show "wallet_inv st1" by (simp add: wallet_inv_def)
qed

lemma keeps_case_option [keeps_intros]:
  "keeps I n \<Longrightarrow> (\<And>x. keeps I (s x)) \<Longrightarrow> keeps I (case r of None \<Rightarrow> n | Some x \<Rightarrow> s x)"
  by (cases r) simp_all

lemma transaction_keeps: "transaction m st = (r, st1) \<Longrightarrow> I st \<Longrightarrow> keeps I m \<Longrightarrow> I st1"
  by (rule keeps_transaction)

lemma wallet_inv_Recharge: "wallet_inv st \<Longrightarrow> pg_Recharge u n key st = (r, st1) \<Longrightarrow> wallet_inv st1"
  unfolding pg_Recharge_def Let_def by (erule transaction_keeps, assumption) (intro keeps_intros)

lemma wallet_inv_Balance: "wallet_inv st \<Longrightarrow> pg_Balance u st = (r, st1) \<Longrightarrow> wallet_inv st1"
  unfolding pg_Balance_def by (erule transaction_keeps, assumption) (intro keeps_intros)

lemma wallet_inv_Reset: "wallet_inv st \<Longrightarrow> ResetDisposableRooms st = (r, st1) \<Longrightarrow> wallet_inv st1"
  unfolding ResetDisposableRooms_def
  by (erule transaction_keeps, assumption) (intro keeps_intros keeps_ledger, simp add: ledger_def)

text \<open>Paying out: who gets what, and that it happens once.\<close>

lemma settleRound_pays:
  assumes "settleRound_pg code state st = Inr (u, st1)" "ledger_ok st"
    and "(code, st_Round state) |\<notin>| fmdom (db_history st)"
    and "settlement_key code (st_Round state) |\<notin>| fmdom (db_transactions st)"
    and "map userAccountID (seat_owners code st) = [a, b]" "st_Result state \<in> {Draw, PlayerOneWins, PlayerTwoWins}"
  shows "balance st1 (escrowAccountID code (st_Round state)) = 0
    \<and> balance st1 a = balance st a + (if st_Result state = Draw then RoundStake
        else if st_Result state = PlayerOneWins then WinnerPayout else 0)
    \<and> balance st1 b = balance st b + (if st_Result state = Draw then RoundStake
        else if st_Result state = PlayerTwoWins then WinnerPayout else 0)
    \<and> balance st1 ''house'' = balance st ''house'' + (if st_Result state = Draw then 0 else HousePayout)
    \<and> (code, st_Round state) |\<in>| fmdom (db_history st1)"
  using assms(1)
proof (cases rule: settleRound_cases)
  case (settled a' b' t st2 st3)
  have ab: "a' = a" "b' = b" using settled(2) assms(5) by simp_all
  have users: "a \<in> range userAccountID" "b \<in> range userAccountID" using assms(5) by (auto simp: map_eq_Cons_conv)
  note ok = ledger_ok_post_all [OF assms(2) settlement_cancels settled(6,7)]
  have bal: "balance st1 x = balance st x + account_sum x (map (Pair t)
      (fst (settlementEffects state [a, b] (escrowAccountID code (st_Round state)))))" for x
    using ok by (simp add: settled(8) insert_history_books ab)
  have "(code, st_Round state) |\<in>| fmdom (db_history st1)" by (simp add: settled(8) insert_history_books)
  then show ?thesis
    using users assms(6) settled(3,4) ab by (auto simp: bal settlementEffects_def Let_def)
qed (use assms in auto)

lemma settleRound_once:
  "settleRound_pg code state st = Inr (u, st1) \<Longrightarrow> wallet_inv st \<Longrightarrow> st_Round state' = st_Round state \<Longrightarrow>
     settleRound_pg code state' st1 = Inr ((), st1)"
proof (erule settleRound_cases, goal_cases)
  case 1
  then show ?case by (simp add: settleRound_pg_def Let_def tx_run)
next
  case (2 a b)
  then show ?case by (auto simp: wallet_inv_def escrow_ok_pg_def)
next
  case (3 a b t st2 st3)
  then show ?case by (simp add: settleRound_pg_def Let_def tx_run insert_history_books)
qed

end
