(* ===== verification/Workers.thy ===== *)
theory Workers
  imports Outbox
begin

text \<open>
  The background workers of \<open>internal/worker\<close>: the deadline worker's unbounded loop over due
  deadlines, the cleanup worker, and the reconciliation worker with its reports, its bounded drain,
  its timer interval and its choice of what to do on each wake-up. The stores are records of
  operations, as the Go interfaces are. The hints that \<open>adapter/postgres/listener.go\<close> parses are
  the payloads that \<open>notifyRoomStateChanged\<close> sends.
\<close>

section \<open>The deadline worker\<close>

record ConnectionLease =
  cl_ID :: string
  cl_RoomCode :: string
  cl_AccountID :: string
  cl_SessionDigest :: string
  cl_ConnectedAt :: go_time
  cl_LeaseExpiresAt :: go_time

record PresenceTransition =
  pt_RoomCode :: string
  pt_Role :: string
  pt_Generation :: uint64
  pt_LastSocket :: bool
  pt_GraceDueAt :: "go_time option"

record DeadlineResult =
  dr_Processed :: bool
  dr_Settled :: bool
  dr_Stale :: bool
  dr_RoomCode :: string
  dr_Round :: uint64
  dr_Kind :: string
  dr_DueAt :: "go_time option"

text \<open>\<open>pt_GraceDueAt\<close> and \<open>dr_DueAt\<close> are \<open>None\<close> for the zero \<open>time.Time\<close>.\<close>

definition zeroDeadlineResult :: DeadlineResult where
  "zeroDeadlineResult = \<lparr>dr_Processed = False, dr_Settled = False, dr_Stale = False,
     dr_RoomCode = '''', dr_Round = 0, dr_Kind = '''', dr_DueAt = None\<rparr>"

record 's DeadlineRepository =
  dw_ReapExpiredConnections :: "go_time \<Rightarrow> 's \<Rightarrow> (int \<times> go_error option) \<times> 's"
  dw_ProcessNextDeadline :: "go_time \<Rightarrow> ('s, DeadlineResult) op"
  dw_CleanupDeadlines :: "go_time \<Rightarrow> ('s, int) op"

record DeadlineRunReport =
  dn_ExpiredConnections :: int
  dn_ProcessedDeadlines :: int
  dn_SettledRounds :: int
  dn_NoopDeadlines :: int
  dn_StaleClaims :: int
  dn_MaxClaimLag :: duration
  dn_CleanedRows :: int

definition zeroDeadlineReport :: DeadlineRunReport where
  "zeroDeadlineReport = \<lparr>dn_ExpiredConnections = 0, dn_ProcessedDeadlines = 0, dn_SettledRounds = 0,
     dn_NoopDeadlines = 0, dn_StaleClaims = 0, dn_MaxClaimLag = 0, dn_CleanedRows = 0\<rparr>"

text \<open>The counters after one processed deadline.\<close>

definition countDeadline :: "go_time \<Rightarrow> DeadlineResult \<Rightarrow> DeadlineRunReport \<Rightarrow> DeadlineRunReport" where
  "countDeadline now res rep =
     rep\<lparr>dn_ProcessedDeadlines := dn_ProcessedDeadlines rep + 1,
         dn_MaxClaimLag := (case dr_DueAt res of None \<Rightarrow> dn_MaxClaimLag rep
            | Some due \<Rightarrow> max (dn_MaxClaimLag rep) (time_Sub now due)),
         dn_SettledRounds := dn_SettledRounds rep + (if dr_Settled res then 1 else 0),
         dn_NoopDeadlines := dn_NoopDeadlines rep + (if dr_Settled res then 0 else 1),
         dn_StaleClaims := dn_StaleClaims rep + (if dr_Stale res then 1 else 0)\<rparr>"

text \<open>The loop \<open>for { ... }\<close>; \<open>None\<close> means that it never leaves.\<close>

partial_function (option) deadlineLoop ::
    "'s DeadlineRepository \<Rightarrow> go_time \<Rightarrow> DeadlineRunReport \<Rightarrow> 's
     \<Rightarrow> ((DeadlineRunReport \<times> go_error option) \<times> 's) option" where
  "deadlineLoop store now rep st =
     (case dw_ProcessNextDeadline store now st of
        (Inl e, st1) \<Rightarrow> Some ((rep, Some e), st1)
      | (Inr res, st1) \<Rightarrow>
          if \<not> dr_Processed res then Some ((rep, None), st1)
          else deadlineLoop store now (countDeadline now res rep) st1)"

definition DeadlineWorker_RunOnce ::
    "'s DeadlineRepository \<Rightarrow> go_time \<Rightarrow> 's \<Rightarrow> ((DeadlineRunReport \<times> go_error option) \<times> 's) option" where
  "DeadlineWorker_RunOnce store now st =
     (case dw_ReapExpiredConnections store now st of
        ((n, Some e), st1) \<Rightarrow> Some ((zeroDeadlineReport\<lparr>dn_ExpiredConnections := n\<rparr>, Some e), st1)
      | ((n, None), st1) \<Rightarrow>
         (case deadlineLoop store now (zeroDeadlineReport\<lparr>dn_ExpiredConnections := n\<rparr>) st1 of
            None \<Rightarrow> None
          | Some ((rep, Some e), st2) \<Rightarrow> Some ((rep, Some e), st2)
          | Some ((rep, None), st2) \<Rightarrow>
             (case dw_CleanupDeadlines store now st2 of
                (Inl e, st3) \<Rightarrow> Some ((rep, Some e), st3)
              | (Inr k, st3) \<Rightarrow> Some ((rep\<lparr>dn_CleanedRows := k\<rparr>, None), st3))))"

section \<open>The cleanup worker\<close>

record CleanupReport =
  cu_Sessions :: int
  cu_Receipts :: int

definition CleanupWorker_RunOnce ::
    "('s, int) op \<Rightarrow> (go_time \<Rightarrow> ('s, int) op) \<Rightarrow> go_time \<Rightarrow> 's
     \<Rightarrow> (CleanupReport \<times> go_error option) \<times> 's" where
  "CleanupWorker_RunOnce sessions receipts now st =
     (case sessions st of
        (Inl e, st1) \<Rightarrow> ((\<lparr>cu_Sessions = 0, cu_Receipts = 0\<rparr>, Some e), st1)
      | (Inr n, st1) \<Rightarrow>
         (case receipts now st1 of
            (Inl e, st2) \<Rightarrow> ((\<lparr>cu_Sessions = n, cu_Receipts = 0\<rparr>, Some e), st2)
          | (Inr k, st2) \<Rightarrow> ((\<lparr>cu_Sessions = n, cu_Receipts = k\<rparr>, None), st2)))"

section \<open>The reconciliation worker\<close>

record RoomHint =
  hint_RoomCode :: string
  hint_Round :: uint64

record ReconciliationReport =
  rc_ClaimAttempts :: int
  rc_ClaimWins :: int
  rc_ClaimNoops :: int
  rc_SettledRounds :: int
  rc_AdvancedRounds :: int
  rc_Failures :: int
  rc_EligibleBacklog :: int
  rc_OldestEligibleAge :: duration

text \<open>The field \<open>Duration\<close>, set from the wall clock by the caller, is left out.\<close>

definition zeroReconciliation :: ReconciliationReport where
  "zeroReconciliation = \<lparr>rc_ClaimAttempts = 0, rc_ClaimWins = 0, rc_ClaimNoops = 0, rc_SettledRounds = 0,
     rc_AdvancedRounds = 0, rc_Failures = 0, rc_EligibleBacklog = 0, rc_OldestEligibleAge = 0\<rparr>"

definition ReconciliationReport_Add ::
    "ReconciliationReport \<Rightarrow> ReconciliationReport \<Rightarrow> ReconciliationReport" where
  "ReconciliationReport_Add r x =
     \<lparr>rc_ClaimAttempts = rc_ClaimAttempts r + rc_ClaimAttempts x,
      rc_ClaimWins = rc_ClaimWins r + rc_ClaimWins x,
      rc_ClaimNoops = rc_ClaimNoops r + rc_ClaimNoops x,
      rc_SettledRounds = rc_SettledRounds r + rc_SettledRounds x,
      rc_AdvancedRounds = rc_AdvancedRounds r + rc_AdvancedRounds x,
      rc_Failures = rc_Failures r + rc_Failures x,
      rc_EligibleBacklog = (if rc_EligibleBacklog r < rc_EligibleBacklog x then rc_EligibleBacklog x
                            else rc_EligibleBacklog r),
      rc_OldestEligibleAge = (if rc_OldestEligibleAge r < rc_OldestEligibleAge x
                              then rc_OldestEligibleAge x else rc_OldestEligibleAge r)\<rparr>"

text \<open>Every reconciliation reports, with an error or without.\<close>

type_synonym 's reconcile = "'s \<Rightarrow> (ReconciliationReport \<times> go_error option) \<times> 's"

record 's ReconciliationStore =
  rs_ReconcileRoom :: "RoomHint \<Rightarrow> 's reconcile"
  rs_ReconcileBatch :: "int \<Rightarrow> 's reconcile"

record ReconciliationConfig =
  rg_BatchSize :: int
  rg_MaxDrainBatches :: int
  rg_PeriodicInterval :: duration
  rg_IdleInterval :: duration
  rg_ReconnectDelay :: duration

definition NewReconciliationConfig :: "ReconciliationConfig \<Rightarrow> ReconciliationConfig" where
  "NewReconciliationConfig c =
     (let periodic = orDefault Second (rg_PeriodicInterval c) in
      \<lparr>rg_BatchSize = orDefault 32 (rg_BatchSize c), rg_MaxDrainBatches = orDefault 8 (rg_MaxDrainBatches c),
       rg_PeriodicInterval = periodic,
       rg_IdleInterval = (if rg_IdleInterval c < periodic then 5 * Second else rg_IdleInterval c),
       rg_ReconnectDelay = orDefault Second (rg_ReconnectDelay c)\<rparr>)"

text \<open>\<open>for range MaxDrainBatches\<close>; the first argument counts the turns left.\<close>

fun drainBatches ::
    "nat \<Rightarrow> 's ReconciliationStore \<Rightarrow> ReconciliationConfig \<Rightarrow> ReconciliationReport \<Rightarrow> 's reconcile" where
  "drainBatches 0 store c acc st = ((acc, None), st)"
| "drainBatches (Suc n) store c acc st =
     (let ((rep, err), st1) = rs_ReconcileBatch store (rg_BatchSize c) st;
          acc1 = ReconciliationReport_Add acc rep
      in if err \<noteq> None \<or> rc_ClaimAttempts rep < rg_BatchSize c then ((acc1, err), st1)
         else drainBatches n store c acc1 st1)"

definition drain :: "'s ReconciliationStore \<Rightarrow> ReconciliationConfig \<Rightarrow> 's reconcile" where
  "drain store c = drainBatches (nat (rg_MaxDrainBatches c)) store c zeroReconciliation"

definition nextInterval :: "ReconciliationConfig \<Rightarrow> ReconciliationReport \<Rightarrow> duration" where
  "nextInterval c rep =
     (if rc_EligibleBacklog rep = 0 \<and> rc_ClaimWins rep = 0 then rg_IdleInterval c
      else rg_PeriodicInterval c)"

text \<open>
  One turn of the \<open>select\<close> in \<open>Run\<close>: which channel was ready decides the work; the result is what is
  observed and how the timer is set.
\<close>

datatype ReconciliationSource =
    ReconciliationStartup | ReconciliationReconnect | ReconciliationNotification | ReconciliationPeriodic

datatype wakeup = Connected ReconciliationSource | Notified RoomHint | TimerFired

definition Run_turn ::
    "'s ReconciliationStore \<Rightarrow> ReconciliationConfig \<Rightarrow> wakeup \<Rightarrow> 's
     \<Rightarrow> (ReconciliationSource \<times> ReconciliationReport \<times> go_error option \<times> duration) \<times> 's" where
  "Run_turn store c w st =
     (let (source, ((rep, err), st1)) = (case w of
            Connected source \<Rightarrow> (source, drain store c st)
          | Notified hint \<Rightarrow> (ReconciliationNotification, rs_ReconcileRoom store hint st)
          | TimerFired \<Rightarrow> (ReconciliationPeriodic, rs_ReconcileBatch store (rg_BatchSize c) st))
      in ((source, rep, err, nextInterval c rep), st1))"

text \<open>
  \<open>listen\<close>: the source announced when a LISTEN connection is established, and the sends that drop
  when their buffer is full (one connection event, \<open>BatchSize\<close> hints).
\<close>

definition listenSource :: "bool \<Rightarrow> ReconciliationSource" where
  "listenSource connected = (if connected then ReconciliationReconnect else ReconciliationStartup)"

definition offerTo :: "nat \<Rightarrow> 'a \<Rightarrow> 'a list \<Rightarrow> 'a list" where
  "offerTo capacity x buffer = (if length buffer < capacity then buffer @ [x] else buffer)"

section \<open>Notification hints\<close>

text \<open>
  \<open>fmt.Sprintf("%s:%d", code, round)\<close>, and the parser of the listener. The loop over a string's runes:
  an ASCII rune is a letter or a digit by its byte, \<open>unicode\<close> decides \<open>IsLetter\<close> or \<open>IsDigit\<close> for
  the others; an invalid byte decodes to U+FFFD, which is neither.
\<close>

function runes :: "string \<Rightarrow> string list" where
  "runes s = (if s = '''' then [] else take (rune_size s) s # runes (drop (rune_size s) s))"
  by pat_completeness auto
termination
  by (relation "measure length") (use rune_size_pos in auto)

declare runes.simps [simp del]

definition ascii_alnum :: "char \<Rightarrow> bool" where
  "ascii_alnum c = (let n = of_char c :: nat in
     48 \<le> n \<and> n \<le> 57 \<or> 65 \<le> n \<and> n \<le> 90 \<or> 97 \<le> n \<and> n \<le> 122)"

definition code_rune :: "(string \<Rightarrow> bool) \<Rightarrow> string \<Rightarrow> bool" where
  "code_rune unicode r = (case r of
     [c] \<Rightarrow> ascii_alnum c \<or> c = CHR ''-'' \<or> c = CHR ''_''
   | _ \<Rightarrow> unicode r)"

definition hint_payload :: "string \<Rightarrow> uint64 \<Rightarrow> string" where
  "hint_payload code k = code @ '':'' @ dec (unat k)"

definition LastIndexByte :: "char \<Rightarrow> string \<Rightarrow> nat option" where
  "LastIndexByte c s = (if c \<in> set s then Some (length s - 1 - length (takeWhile (\<lambda>x. x \<noteq> c) (rev s))) else None)"

definition parseRoomHint :: "(string \<Rightarrow> bool) \<Rightarrow> string \<Rightarrow> RoomHint result" where
  "parseRoomHint unicode payload =
     (if length payload = 0 \<or> 128 < length payload
        then Inl (ErrText ''invalid room notification hint length'')
      else case LastIndexByte (CHR '':'') payload of
        None \<Rightarrow> Inl (ErrText ''invalid room notification hint'')
      | Some separator \<Rightarrow>
          if separator = 0 \<or> separator = length payload - 1
            then Inl (ErrText ''invalid room notification hint'')
          else let code = take separator payload in
            if 64 < length code then Inl (ErrText ''invalid room notification code'')
            else if \<not> list_all (code_rune unicode) (runes code)
              then Inl (ErrText ''invalid room notification code'')
            else case ParseUint (drop (separator + 1) payload) of
                None \<Rightarrow> Inl (ErrText ''invalid room notification round'')
              | Some k \<Rightarrow> if k = 0 then Inl (ErrText ''invalid room notification round'')
                  else Inr \<lparr>hint_RoomCode = code, hint_Round = k\<rparr>)"

section \<open>Lemmas\<close>

text \<open>The deadline loop returns when every processed deadline lowers a measure.\<close>

lemma deadlineLoop_returns:
  assumes "\<And>st res st1. I st \<Longrightarrow> dw_ProcessNextDeadline store now st = (Inr res, st1)
      \<Longrightarrow> dr_Processed res \<Longrightarrow> I st1 \<and> due st1 < (due st :: nat)"
    and "I st"
  shows "\<exists>r. deadlineLoop store now rep st = Some r"
  using assms(2)
proof (induction "due st" arbitrary: st rep rule: less_induct)
  case less
  obtain x st1 where step: "dw_ProcessNextDeadline store now st = (x, st1)" by fastforce
  show ?case
  proof (cases x)
    case (Inl e)
    with step show ?thesis by (subst deadlineLoop.simps) simp
  next
    case (Inr res)
    show ?thesis
    proof (cases "dr_Processed res")
      case True
      with assms(1) [OF less.prems] step Inr have "I st1" "due st1 < due st" by auto
      from less.hyps [OF this(2,1)] obtain r where
        "deadlineLoop store now (countDeadline now res rep) st1 = Some r" by blast
      with step Inr True show ?thesis by (subst deadlineLoop.simps) simp
    next
      case False
      with step Inr show ?thesis by (subst deadlineLoop.simps) simp
    qed
  qed
qed

text \<open>It never returns from a set of states that processing cannot leave.\<close>

lemma deadlineLoop_diverges:
  assumes "\<And>st. S st \<Longrightarrow> \<exists>res st1. dw_ProcessNextDeadline store now st = (Inr res, st1) \<and> dr_Processed res \<and> S st1"
    and "S st"
  shows "deadlineLoop store now rep st = None"
proof (rule ccontr)
  assume "deadlineLoop store now rep st \<noteq> None"
  then obtain r where r: "deadlineLoop store now rep st = Some r" by blast
  have "store' = store \<longrightarrow> now' = now \<longrightarrow> \<not> S st'" if "deadlineLoop store' now' rep' st' = Some r'"
    for store' now' rep' st' r'
  proof (rule deadlineLoop.raw_induct [where P = "\<lambda>store' now' rep' st' r'. store' = store \<longrightarrow> now' = now \<longrightarrow> \<not> S st'", OF _ that])
    fix f s n p q y
    assume IH: "\<And>s n p q y. f s n p q = Some y \<Longrightarrow> s = store \<longrightarrow> n = now \<longrightarrow> \<not> S q"
      and body: "(case dw_ProcessNextDeadline s n q of
          (Inl e, st1) \<Rightarrow> Some ((p, Some e), st1)
        | (Inr res, st1) \<Rightarrow> if \<not> dr_Processed res then Some ((p, None), st1)
            else f s n (countDeadline n res p) st1) = Some y"
    show "s = store \<longrightarrow> n = now \<longrightarrow> \<not> S q"
    proof (intro impI notI)
      assume "s = store" "n = now" "S q"
      with assms(1) obtain res st1 where "dw_ProcessNextDeadline store now q = (Inr res, st1)"
        "dr_Processed res" "S st1" by blast
      with body IH \<open>s = store\<close> \<open>n = now\<close> show False by auto
    qed
  qed
  with r assms(2) show False by blast
qed

lemma drain_ends:
  assumes "drainBatches n store c acc st = ((rep, err), st')"
  shows "err = None \<longrightarrow> rc_ClaimAttempts rep \<ge> rc_ClaimAttempts acc + int n * rg_BatchSize c
     \<or> (\<exists>st0 r. rs_ReconcileBatch store (rg_BatchSize c) st0 = ((r, None), st')
          \<and> rc_ClaimAttempts r < rg_BatchSize c)"
  using assms
proof (induction n arbitrary: acc st)
  case (Suc n)
  obtain r e st1 where b: "rs_ReconcileBatch store (rg_BatchSize c) st = ((r, e), st1)"
    by (metis prod.collapse)
  show ?case
  proof (cases "e \<noteq> None \<or> rc_ClaimAttempts r < rg_BatchSize c")
    case True
    with Suc.prems b show ?thesis by (auto simp: Let_def)
  next
    case False
    with Suc.prems b have "drainBatches n store c (ReconciliationReport_Add acc r) st1 = ((rep, err), st')"
      by (simp add: Let_def)
    from Suc.IH [OF this] False show ?thesis
      by (auto simp: ReconciliationReport_Add_def algebra_simps)
  qed
qed simp

lemma LastIndexByte_last: "c \<notin> set t \<Longrightarrow> LastIndexByte c (s @ c # t) = Some (length s)"
proof -
  assume "c \<notin> set t"
  then have "takeWhile (\<lambda>x. x \<noteq> c) (rev t @ c # rev s) = rev t" by (subst takeWhile_append2) auto
  then show ?thesis by (simp add: LastIndexByte_def)
qed

lemma runes_ascii: "ascii s \<Longrightarrow> runes s = map (\<lambda>c. [c]) s"
proof (induction s)
  case (Cons c s)
  then have "rune_size (c # s) = 1" "ascii s" by (simp_all add: ascii_def rune_size_def Let_def)
  with Cons.IH show ?case by (subst runes.simps) simp
qed (subst runes.simps, simp)

text \<open>What \<open>notifyRoomStateChanged\<close> sends, the listener reads back: for every room code of letters,
  digits, hyphens and underscores of at most 64 bytes and every round but zero, parsing the payload
  gives that code and round, provided the payload keeps within the sender's own bound of 128 bytes.
\<close>
theorem room_hint_roundtrip:
  assumes "code \<noteq> ''''" "length code \<le> 64" "list_all (code_rune unicode) (runes code)" "k \<noteq> 0"
    and "length (hint_payload code k) \<le> 128"
  shows "parseRoomHint unicode (hint_payload code k) = Inr \<lparr>hint_RoomCode = code, hint_Round = k\<rparr>"
proof -
  have last: "LastIndexByte (CHR '':'') (hint_payload code k) = Some (length code)"
    using LastIndexByte_last [of "CHR '':''" "dec (unat k)" code] by (simp add: hint_payload_def)
  have parts: "take (length code) (hint_payload code k) = code"
    "drop (length code + 1) (hint_payload code k) = dec (unat k)"
    by (simp_all add: hint_payload_def)
  have "length code \<noteq> length (hint_payload code k) - 1" by (simp add: hint_payload_def)
  then show ?thesis
    using assms by (simp add: parseRoomHint_def last parts del: One_nat_def) (auto simp: hint_payload_def)
qed

lemma room_hint_roundtrip_witness:
  "parseRoomHint (\<lambda>_. False) (hint_payload ''ABC234'' 7) = Inr \<lparr>hint_RoomCode = ''ABC234'', hint_Round = 7\<rparr>"
proof -
  have "ascii ''ABC234''" by (simp add: ascii_def)
  then have "list_all (code_rune (\<lambda>_. False)) (runes ''ABC234'')"
    by (simp add: runes_ascii code_rune_def ascii_alnum_def)
  moreover have "length (hint_payload ''ABC234'' 7) \<le> 128" by (simp add: hint_payload_def dec.simps)
  ultimately show ?thesis using room_hint_roundtrip [of "''ABC234''" "\<lambda>_. False" 7] by simp
qed

text \<open>A drain is bounded and thorough. It runs at most \<open>MaxDrainBatches\<close> batches; when it ends without
  an error, either that many full batches were claimed or the last batch was short, so that nothing
  eligible was left for it.
\<close>
theorem drain_bounded_and_thorough:
  assumes "drain store c st = ((rep, None), st')"
  shows "int (nat (rg_MaxDrainBatches c)) * rg_BatchSize c \<le> rc_ClaimAttempts rep
    \<or> (\<exists>st0 r. rs_ReconcileBatch store (rg_BatchSize c) st0 = ((r, None), st')
         \<and> rc_ClaimAttempts r < rg_BatchSize c)"
  using drain_ends [OF assms [unfolded drain_def]] by (simp add: zeroReconciliation_def)

text \<open>A store whose state is a backlog: a batch claims up to its limit.\<close>

definition backlog_store :: "int ReconciliationStore" where
  "backlog_store = \<lparr>rs_ReconcileRoom = \<lambda>_ n. ((zeroReconciliation, None), n),
     rs_ReconcileBatch = \<lambda>k n. ((zeroReconciliation\<lparr>rc_ClaimAttempts := min k n\<rparr>, None), n - min k n)\<rparr>"

definition default_reconciliation :: ReconciliationConfig where
  "default_reconciliation = NewReconciliationConfig \<lparr>rg_BatchSize = 0, rg_MaxDrainBatches = 0,
     rg_PeriodicInterval = 0, rg_IdleInterval = 0, rg_ReconnectDelay = 0\<rparr>"

lemma default_reconciliation_simps [simp]:
  "rg_BatchSize default_reconciliation = 32" "rg_MaxDrainBatches default_reconciliation = 8"
  by (simp_all add: default_reconciliation_def NewReconciliationConfig_def orDefault_def)

lemma drain_bounded_and_thorough_witness:
  "drain backlog_store default_reconciliation 40
     = ((zeroReconciliation\<lparr>rc_ClaimAttempts := 40\<rparr>, None), 0)
   \<and> (256 \<le> (40::int) \<or> (\<exists>st0 r. rs_ReconcileBatch backlog_store 32 st0 = ((r, None), 0)
         \<and> rc_ClaimAttempts r < 32))"
proof -
  have run: "drain backlog_store default_reconciliation 40
      = ((zeroReconciliation\<lparr>rc_ClaimAttempts := 40\<rparr>, None), 0)"
    by (simp add: drain_def numeral_eq_Suc backlog_store_def ReconciliationReport_Add_def
        zeroReconciliation_def)
  from drain_bounded_and_thorough [OF run] run show ?thesis by simp
qed

end
