(* ===== verification/Postgres_Repository.thy ===== *)
theory Postgres_Repository
  imports Postgres_Wallet Workers
begin

text \<open>
  The rooms of the PostgreSQL repository: the operations of \<open>adapter/postgres/repository.go\<close>,
  \<open>realtime.go\<close> and \<open>reports.go\<close>, one transaction each. \<open>writeT\<close> is the common shape of the writers:
  lock the room, load the aggregate, authorise, change it, save it under the next revision.
\<close>

section \<open>Creating a room\<close>

definition insert_room :: "string \<Rightarrow> db \<Rightarrow> db" where
  "insert_room code st = st\<lparr>db_rooms := fmupd code
     \<lparr>rm_status = ''active'', rm_current_round = 1, rm_revision = 1\<rparr> (db_rooms st)\<rparr>"

definition insert_seat :: "string \<Rightarrow> string \<Rightarrow> string \<Rightarrow> string \<Rightarrow> db \<Rightarrow> db" where
  "insert_seat code role playerID auth st = st\<lparr>db_seats := fmupd (code, role)
     \<lparr>se_player_id = playerID, se_auth = auth, se_wins = 0\<rparr> (db_seats st)\<rparr>"

text \<open>The unique constraints of \<open>room_seats\<close>: role, player id and account within a room.\<close>

definition seat_conflict :: "string \<Rightarrow> string \<Rightarrow> string \<Rightarrow> string \<Rightarrow> db \<Rightarrow> bool" where
  "seat_conflict code role playerID auth st \<longleftrightarrow>
     list_ex (\<lambda>(r, s). r = role \<or> se_player_id s = playerID \<or> se_auth s = auth) (room_seats code st)"

definition createT :: "room \<Rightarrow> string \<Rightarrow> Snapshot tx" where
  "createT agg authUserID =
     (let s = PersistenceState agg; code = ps_Code s; account = userAccountID authUserID in
      thenT (ensureUserWallet authUserID)
      (thenT (lockWallets [account])
      (bindT (askT (\<lambda>st. balance st account)) (\<lambda>coins.
       thenT (failIf (coins < RoundStake) (Err ErrInsufficientFunds))
      (bindT (askT (\<lambda>st. code |\<in>| fmdom (db_rooms st))) (\<lambda>taken.
       thenT (failIf taken (Err ErrDuplicateRoom))
      (thenT (execT (\<lambda>st. insert_seat code ''host'' (player_ID (hd (ps_Players s))) authUserID
                (insert_round code 1 (insert_room code st))))
       (returnT \<lparr>sn_State = State agg, sn_Revision = 1, sn_Presence = fmempty\<rparr>))))))))"

definition pg_Create :: "room \<Rightarrow> CredentialDigest \<Rightarrow> string \<Rightarrow> (db, Snapshot) op" where
  "pg_Create agg d authUserID = transaction (createT agg authUserID)"

section \<open>The common writer\<close>

definition seat_of :: "string \<Rightarrow> string \<Rightarrow> db \<Rightarrow> (string \<times> seat_row) option" where
  "seat_of code authUserID st = find (\<lambda>(role, s). se_auth s = authUserID) (room_seats code st)"

definition authorizeT :: "string \<Rightarrow> string option \<Rightarrow> string tx" where
  "authorizeT code auth = (case auth of
     None \<Rightarrow> returnT ''''
   | Some u \<Rightarrow> bindT (askT (seat_of code u)) (\<lambda>s.
       bindT (rowT (Err ErrUnauthorized) s) (\<lambda>(role, x). returnT (se_player_id x))))"

text \<open>\<open>auth\<close> is \<open>None\<close> for the writers that pass no digest; \<open>change\<close> returns the changed aggregate
  beside its own result.\<close>

definition writeT ::
    "string \<Rightarrow> string option \<Rightarrow> (room \<Rightarrow> string \<Rightarrow> (room \<times> 'a) tx) \<Rightarrow> (Snapshot \<times> 'a) tx" where
  "writeT code auth change =
     bindT (askT (\<lambda>st. fmlookup (db_rooms st) code)) (\<lambda>row.
     bindT (rowT (Err ErrRoomNotFound) row) (\<lambda>r.
     bindT (load code) (\<lambda>(agg, roles).
     bindT (authorizeT code auth) (\<lambda>playerID.
     bindT (change agg playerID) (\<lambda>(agg1, x).
     let revision = rm_revision r + 1 in
     thenT (save agg1 roles (r_round agg) revision)
       (returnT (\<lparr>sn_State = State agg1, sn_Revision = revision, sn_Presence = fmempty\<rparr>, x)))))))"

definition justSnapshot :: "(Snapshot \<times> 'a) tx \<Rightarrow> Snapshot tx" where
  "justSnapshot m = bindT m (\<lambda>(sn, x). returnT sn)"

section \<open>Joining, moving, next rounds\<close>

text \<open>The upsert of a presence row per seat, returning the generations.\<close>

definition upsert_presence :: "string \<Rightarrow> PresenceWindow \<Rightarrow> seat_row \<Rightarrow> db \<Rightarrow> db" where
  "upsert_presence code w s st = st\<lparr>db_presence := fmupd (code, se_player_id s)
     (case fmlookup (db_presence st) (code, se_player_id s) of
        None \<Rightarrow> \<lparr>pr_generation = 1, pr_deadline = w_Deadline w, pr_refreshed_at = w_ObservedAt w,
                 pr_present = False\<rparr>
      | Some p \<Rightarrow> p\<lparr>pr_generation := pr_generation p + 1, pr_deadline := w_Deadline w,
                    pr_refreshed_at := w_ObservedAt w\<rparr>) (db_presence st)\<rparr>"

definition presenceLeases :: "string \<Rightarrow> uint64 \<Rightarrow> PresenceWindow \<Rightarrow> PresenceLease list tx" where
  "presenceLeases code k w =
     bindT (askT (room_seats code)) (\<lambda>seats.
     thenT (execT (fold (\<lambda>(role, s). upsert_presence code w s) seats))
       (askT (\<lambda>st. map (\<lambda>(role, s).
          \<lparr>l_RoomCode = code, l_PlayerID = se_player_id s, l_Round = k,
           l_Generation = (case fmlookup (db_presence st) (code, se_player_id s) of
              None \<Rightarrow> 0 | Some p \<Rightarrow> pr_generation p),
           l_Deadline = w_Deadline w, l_EvaluateAt = w_EvaluateAt w, l_ProofAfter = w_ProofAfter w,
           l_Active = True\<rparr>) seats)))"

text \<open>\<open>taken\<close> is the error for a violated seat constraint, which differs between the two joins.\<close>

definition joinT ::
    "string \<Rightarrow> string \<Rightarrow> string \<Rightarrow> PresenceWindow \<Rightarrow> sentinel \<Rightarrow> room \<Rightarrow> (room \<times> PresenceLease list) tx" where
  "joinT code playerID authUserID w taken agg =
     bindT (liftT (Join playerID agg)) (\<lambda>agg1.
     bindT (askT (\<lambda>st. seat_of code authUserID st \<noteq> None)) (\<lambda>occupied.
     thenT (failIf occupied (Err ErrAccountSeated))
     (thenT (fundRound_pg code (r_round agg1) authUserID)
     (bindT (askT (seat_conflict code ''guest'' playerID authUserID)) (\<lambda>conflict.
      thenT (failIf conflict (Err taken))
     (thenT (execT (insert_seat code ''guest'' playerID authUserID))
     (bindT (presenceLeases code (r_round agg1) w) (\<lambda>leases. returnT (agg1, leases)))))))))"

definition pg_JoinFunded ::
    "string \<Rightarrow> string \<Rightarrow> CredentialDigest \<Rightarrow> string \<Rightarrow> PresenceWindow
     \<Rightarrow> (db, Snapshot \<times> PresenceLease list) op" where
  "pg_JoinFunded code playerID d authUserID w = transaction
     (writeT code None (\<lambda>agg _. joinT code playerID authUserID w ErrAccountSeated agg))"

definition pg_SubmitMoveAndSettle ::
    "string \<Rightarrow> CredentialDigest \<Rightarrow> string \<Rightarrow> move \<Rightarrow> (db, Snapshot) op" where
  "pg_SubmitMoveAndSettle code d authUserID m = transaction (justSnapshot
     (writeT code (Some authUserID) (\<lambda>agg playerID.
       thenT (fundRound_pg code (r_round agg) '''')
       (bindT (liftT (SubmitMove playerID m agg)) (\<lambda>agg1.
        if \<not> r_resolved agg \<and> r_resolved agg1
        then thenT (settleRound_pg code (State agg1)) (returnT (agg1, ())) else returnT (agg1, ()))))))"

definition pg_RequestNextRoundAndFund ::
    "string \<Rightarrow> CredentialDigest \<Rightarrow> string \<Rightarrow> uint64 \<Rightarrow> (db, Snapshot) op" where
  "pg_RequestNextRoundAndFund code d authUserID k = transaction (justSnapshot
     (writeT code (Some authUserID) (\<lambda>agg playerID.
       bindT (liftT (RequestNextRound playerID k agg)) (\<lambda>agg1.
        if r_round agg < r_round agg1
        then thenT (fundRound_pg code (r_round agg1) '''') (returnT (agg1, ())) else returnT (agg1, ())))))"

definition pg_Mutate :: "string \<Rightarrow> CredentialDigest \<Rightarrow> string \<Rightarrow> mutation \<Rightarrow> (db, Snapshot) op" where
  "pg_Mutate code d authUserID mutation = transaction (justSnapshot
     (writeT code (Some authUserID) (\<lambda>agg playerID.
       bindT (liftT (mutation agg playerID)) (\<lambda>agg1. returnT (agg1, ())))))"

section \<open>Reading\<close>

definition snapshotT :: "string \<Rightarrow> Snapshot tx" where
  "snapshotT code =
     bindT (askT (\<lambda>st. fmlookup (db_rooms st) code)) (\<lambda>row.
     bindT (rowT (Err ErrRoomNotFound) row) (\<lambda>r.
     bindT (load code) (\<lambda>(agg, roles).
     returnT \<lparr>sn_State = State agg, sn_Revision = rm_revision r, sn_Presence = fmempty\<rparr>)))"

definition pg_Snapshot :: "string \<Rightarrow> (db, Snapshot) op" where
  "pg_Snapshot code = transaction (snapshotT code)"

definition pg_Authenticate :: "string \<Rightarrow> CredentialDigest \<Rightarrow> string \<Rightarrow> (db, Snapshot \<times> string) op" where
  "pg_Authenticate code d authUserID = transaction
     (bindT (askT (\<lambda>st. fmlookup (db_rooms st) code)) (\<lambda>row.
      bindT (rowT (Err ErrRoomNotFound) row) (\<lambda>r.
      bindT (askT (seat_of code authUserID)) (\<lambda>s.
      bindT (rowT (Err ErrUnauthorized) s) (\<lambda>(role, x).
      bindT (snapshotT code) (\<lambda>sn. returnT (sn, role)))))))"

definition SnapshotForAccount_pg :: "string \<Rightarrow> string \<Rightarrow> (db, Snapshot) op" where
  "SnapshotForAccount_pg code accountID = transaction
     (thenT (failIf (accountID = '''') (Err ErrUnauthorized))
      (bindT (askT (\<lambda>st. if code |\<in>| fmdom (db_rooms st) then seat_of code accountID st else None)) (\<lambda>s.
       bindT (rowT (Err ErrUnauthorized) s) (\<lambda>_. snapshotT code))))"

definition loadPresence :: "string \<Rightarrow> db \<Rightarrow> (string, bool) fmap" where
  "loadPresence roomID st = fold (\<lambda>(role, s). fmupd role
     (case fmlookup (db_presence st) (roomID, se_player_id s) of None \<Rightarrow> False | Some p \<Rightarrow> pr_present p))
     (room_seats roomID st) fmempty"

definition LoadRoom :: "string \<Rightarrow> (db, Snapshot) op" where
  "LoadRoom roomID = transaction
     (bindT (snapshotT roomID) (\<lambda>sn.
      bindT (askT (loadPresence roomID)) (\<lambda>presence. returnT (sn\<lparr>sn_Presence := presence\<rparr>))))"

definition AuthorizeRoom :: "string \<Rightarrow> string \<Rightarrow> (db, string) op" where
  "AuthorizeRoom roomID accountID = transaction
     (bindT (askT (seat_of roomID accountID)) (\<lambda>s.
      bindT (rowT (Err ErrUnauthorized) s) (\<lambda>(role, x). returnT role)))"

section \<open>Presence leases\<close>

definition bump_generation :: "string \<Rightarrow> db \<Rightarrow> db" where
  "bump_generation code st = st\<lparr>db_presence :=
     fmmap_keys (\<lambda>(c, p) row. if c = code then row\<lparr>pr_generation := pr_generation row + 1\<rparr> else row)
       (db_presence st)\<rparr>"

text \<open>The row of \<open>RefreshPresence\<close>'s upsert keeps its generation, which the next statement advances
  for the whole room. The rows come back in the order of the seats.\<close>

definition pg_RefreshPresence ::
    "string \<Rightarrow> CredentialDigest \<Rightarrow> string \<Rightarrow> PresenceWindow \<Rightarrow> (db, PresenceLease list) op" where
  "pg_RefreshPresence code d authUserID w = transaction
     (bindT (askT (\<lambda>st. fmlookup (db_rooms st) code)) (\<lambda>row.
      bindT (rowT (Err ErrRoomNotFound) row) (\<lambda>r.
      bindT (askT (seat_of code authUserID)) (\<lambda>seat.
      bindT (rowT (Err ErrUnauthorized) seat) (\<lambda>(role, s).
      bindT (askT (\<lambda>st. (room_seats code st,
          case fmlookup (db_rounds st) (code, rm_current_round r) of None \<Rightarrow> None | Some rr \<Rightarrow> rr_result rr)))
       (\<lambda>(seats, res).
      let active = (rm_status r = ''active'' \<and> res = None \<and> length seats = 2) in
      thenT (execT (\<lambda>st. st\<lparr>db_presence := fmupd (code, se_player_id s)
          (case fmlookup (db_presence st) (code, se_player_id s) of
             None \<Rightarrow> \<lparr>pr_generation = 1, pr_deadline = w_Deadline w, pr_refreshed_at = w_ObservedAt w,
                      pr_present = False\<rparr>
           | Some p \<Rightarrow> p\<lparr>pr_deadline := w_Deadline w, pr_refreshed_at := w_ObservedAt w\<rparr>) (db_presence st)\<rparr>))
      (thenT (execT (bump_generation code))
        (askT (\<lambda>st. List.map_filter (\<lambda>(role, s). map_option
            (\<lambda>p. \<lparr>l_RoomCode = code, l_PlayerID = se_player_id s, l_Round = rm_current_round r,
                  l_Generation = pr_generation p, l_Deadline = pr_deadline p,
                  l_EvaluateAt = pr_deadline p + time_Sub (w_EvaluateAt w) (w_Deadline w),
                  l_ProofAfter = pr_deadline p, l_Active = active\<rparr>)
            (fmlookup (db_presence st) (code, se_player_id s))) seats)))))))))"

text \<open>The internal error \<open>errPresenceLeaseCurrent\<close>, which \<open>ForfeitExpired\<close> turns into "nothing done".\<close>

abbreviation errPresenceLeaseCurrent :: go_error where
  "errPresenceLeaseCurrent \<equiv> ErrText ''presence lease is still current''"

definition pg_ForfeitExpired :: "PresenceLease \<Rightarrow> go_time \<Rightarrow> (db, Snapshot \<times> bool) op" where
  "pg_ForfeitExpired lease now st =
     (case transaction (justSnapshot (writeT (l_RoomCode lease) None (\<lambda>agg _.
         bindT (askT (\<lambda>st. fmlookup (db_presence st) (l_RoomCode lease, l_PlayerID lease))) (\<lambda>row.
         bindT (rowT errPresenceLeaseCurrent row) (\<lambda>p.
         thenT (failIf (pr_generation p \<noteq> l_Generation lease \<or> now < pr_deadline p) errPresenceLeaseCurrent)
         (bindT (askT (\<lambda>st. \<not> fmpred (\<lambda>(c, i) q. \<not> (c = l_RoomCode lease \<and> i \<noteq> l_PlayerID lease
             \<and> now < pr_deadline q \<and> l_ProofAfter lease < pr_refreshed_at q)) (db_presence st))) (\<lambda>remaining.
          thenT (failIf (\<not> remaining) errPresenceLeaseCurrent)
         (thenT (fundRound_pg (l_RoomCode lease) (r_round agg) '''')
           (case Forfeit (l_PlayerID lease) (l_Round lease) agg of
              Inl e \<Rightarrow> if errors_Is e ErrStaleRound \<or> errors_Is e ErrRoundResolved \<or> errors_Is e ErrRoomClosed
                       then failT errPresenceLeaseCurrent else failT e
            | Inr agg1 \<Rightarrow> thenT (settleRound_pg (l_RoomCode lease) (State agg1)) (returnT (agg1, ())))))))))))
       st of
        (Inl e, st1) \<Rightarrow> if e = errPresenceLeaseCurrent then (Inr (zeroSnapshot, False), st1) else (Inl e, st1)
      | (Inr sn, st1) \<Rightarrow> (Inr (sn, True), st1))"

end
