(* ===== verification/Postgres_Commands.thy ===== *)
theory Postgres_Commands
  imports Postgres_Repository
begin

text \<open>
  The idempotent commands of \<open>adapter/postgres/commands.go\<close> and the reconciliation of rounds in
  \<open>reconciliation.go\<close>. A command looks for the receipt of its key, does its work, queues the new
  revision in the outbox and stores its receipt, in one transaction. A move or a next-round request
  only inserts its row; the transaction of \<open>ReconcileRoom\<close> then claims the round, resolves or advances
  the aggregate and moves the coins.
\<close>

section \<open>Receipts and the outbox\<close>

text \<open>The advisory lock on the key serialises the commands that carry it. A stored result is the
  \<open>encoding/json\<close> image of the command's result, kept here as the value itself.\<close>

definition commandReceipt :: "string \<Rightarrow> Command \<Rightarrow> CommandResult option tx" where
  "commandReceipt accountID c =
     bindT (askT (\<lambda>st. fmlookup (db_receipts st) (c_Key c))) (\<lambda>row.
       case row of
         None \<Rightarrow> returnT None
       | Some re \<Rightarrow>
          thenT (failIf (re_account re \<noteq> accountID \<or> re_operation re \<noteq> c_Operation c
                   \<or> re_hash re \<noteq> c_RequestHash c) (Err ErrIdempotencyConflict))
                (returnT (Some ((re_result re)\<lparr>cmd_Replayed := True\<rparr>))))"

definition finishCommandReceipt :: "string \<Rightarrow> Command \<Rightarrow> CommandResult \<Rightarrow> unit tx" where
  "finishCommandReceipt accountID c res = execT (\<lambda>st. st\<lparr>db_receipts := fmupd (c_Key c)
     \<lparr>re_account = accountID, re_operation = c_Operation c, re_hash = c_RequestHash c,
      re_result = res, re_expires = db_now st + 7 * (24 * Hour)\<rparr> (db_receipts st)\<rparr>)"

definition insert_outbox :: "string \<Rightarrow> uint64 \<Rightarrow> unit tx" where
  "insert_outbox code revision =
     bindT (askT (\<lambda>st. \<not> fmpred (\<lambda>_ o'. \<not> (ob_room_code o' = code \<and> ob_revision o' = revision)) (db_outbox st)))
       (\<lambda>taken. thenT (failIf taken (ErrText ''room_outbox_room_code_revision_key''))
         (execT (\<lambda>st. st\<lparr>db_outbox := fmupd (db_next_outbox st)
              \<lparr>ob_room_code = code, ob_revision = revision, ob_attempts = 0,
               ob_next_attempt_at = db_now st, ob_published_at = None, ob_created_at = db_now st,
               ob_claim_token = None, ob_claimed_until = None\<rparr> (db_outbox st),
             db_next_outbox := db_next_outbox st + 1\<rparr>)))"

definition persistCommandEffects ::
    "string \<Rightarrow> uint64 \<Rightarrow> string \<Rightarrow> Command \<Rightarrow> CommandResult \<Rightarrow> unit tx" where
  "persistCommandEffects code revision accountID c res =
     thenT (insert_outbox code revision) (finishCommandReceipt accountID c res)"

definition notifyRoomStateChanged :: "string \<Rightarrow> uint64 \<Rightarrow> unit tx" where
  "notifyRoomStateChanged code k =
     (let payload = hint_payload code k in
      thenT (failIf (128 < length payload) (ErrText ''room notification hint exceeds safe bound''))
        (execT (\<lambda>st. st\<lparr>db_notified := db_notified st @ [payload]\<rparr>)))"

definition CleanupCommandReceipts :: "go_time \<Rightarrow> (db, int) op" where
  "CleanupCommandReceipts now st =
     (let keep = fmfilter (\<lambda>key. now < re_expires (the (fmlookup (db_receipts st) key))) (db_receipts st)
      in (Inr (int (flen (db_receipts st)) - int (flen keep)), st\<lparr>db_receipts := keep\<rparr>))"

text \<open>A replay returns the stored result; otherwise the command's body runs.\<close>

definition receipted :: "string \<Rightarrow> Command \<Rightarrow> CommandResult tx \<Rightarrow> CommandResult tx" where
  "receipted accountID c body =
     bindT (commandReceipt accountID c) (\<lambda>r. case r of Some res \<Rightarrow> returnT res | None \<Rightarrow> body)"

section \<open>Reconciliation\<close>

definition count_moves :: "string \<Rightarrow> uint64 \<Rightarrow> db \<Rightarrow> nat" where
  "count_moves code k st = length (filter (\<lambda>role. (code, k, role) |\<in>| fmdom (db_moves st)) role_names)"

definition count_requests :: "string \<Rightarrow> uint64 \<Rightarrow> db \<Rightarrow> nat" where
  "count_requests code k st = length (filter (\<lambda>role. (code, k, role) |\<in>| fmdom (db_requests st)) role_names)"

definition current_active :: "string \<Rightarrow> uint64 \<Rightarrow> db \<Rightarrow> bool" where
  "current_active code k st \<longleftrightarrow> (case fmlookup (db_rooms st) code of
     None \<Rightarrow> False | Some r \<Rightarrow> rm_current_round r = k \<and> rm_status r = ''active'')"

definition resolvable :: "string \<Rightarrow> uint64 \<Rightarrow> db \<Rightarrow> bool" where
  "resolvable code k st \<longleftrightarrow> (case fmlookup (db_rounds st) (code, k) of
     None \<Rightarrow> False
   | Some rr \<Rightarrow> rr_status rr = ''active'' \<and> rr_funded rr \<and> current_active code k st
       \<and> count_moves code k st = 2)"

definition advanceable :: "string \<Rightarrow> uint64 \<Rightarrow> db \<Rightarrow> bool" where
  "advanceable code k st \<longleftrightarrow> (case fmlookup (db_rounds st) (code, k) of
     None \<Rightarrow> False
   | Some rr \<Rightarrow> rr_status rr = ''resolved'' \<and> current_active code k st \<and> count_requests code k st = 2)"

definition set_round_status :: "string \<Rightarrow> uint64 \<Rightarrow> string \<Rightarrow> db \<Rightarrow> db" where
  "set_round_status code k status st =
     (case fmlookup (db_rounds st) (code, k) of
        None \<Rightarrow> st
      | Some rr \<Rightarrow> st\<lparr>db_rounds := fmupd (code, k) (rr\<lparr>rr_status := status\<rparr>) (db_rounds st)\<rparr>)"

definition round_status :: "string \<Rightarrow> uint64 \<Rightarrow> db \<Rightarrow> string" where
  "round_status code k st = (case fmlookup (db_rounds st) (code, k) of None \<Rightarrow> '''' | Some rr \<Rightarrow> rr_status rr)"

datatype transition = Resolve | Advance

text \<open>Two conditional updates to \<open>settling\<close>; the first that touches a row is the claim.\<close>

definition claimRoomTransition :: "RoomHint \<Rightarrow> transition option tx" where
  "claimRoomTransition hint =
     (let code = hint_RoomCode hint; k = hint_Round hint in
      bindT (askT (\<lambda>st. (resolvable code k st, advanceable code k st))) (\<lambda>(res, adv).
        if res then thenT (execT (set_round_status code k ''settling'')) (returnT (Some Resolve))
        else if adv then thenT (execT (set_round_status code k ''settling'')) (returnT (Some Advance))
        else returnT None))"

text \<open>\<open>UPDATE room_deadlines SET status=... WHERE ...\<close>, over the rows that satisfy \<open>P\<close>.\<close>

definition finish_deadlines ::
    "(int \<Rightarrow> deadline_row \<Rightarrow> bool) \<Rightarrow> (int \<Rightarrow> string) \<Rightarrow> go_time \<Rightarrow> db \<Rightarrow> db" where
  "finish_deadlines P status t st = st\<lparr>db_deadlines :=
     fmmap_keys (\<lambda>i d. if P i d then d\<lparr>dl_status := status i, dl_completed := Some t\<rparr> else d) (db_deadlines st)\<rparr>"

definition pending_of :: "string \<Rightarrow> uint64 \<Rightarrow> int \<Rightarrow> deadline_row \<Rightarrow> bool" where
  "pending_of code k i d \<longleftrightarrow> dl_room d = code \<and> dl_round d = k \<and> dl_status d = ''pending''"

text \<open>The work on a claimed round, up to the settlement or the funding of the next round; the
  returned value is the new revision and the aggregate's round.\<close>

definition transitionT :: "RoomHint \<Rightarrow> transition \<Rightarrow> (uint64 \<times> uint64) tx" where
  "transitionT hint tr =
     (let code = hint_RoomCode hint; k = hint_Round hint in
      bindT (load code) (\<lambda>(agg, roles).
      bindT (liftT (case tr of Resolve \<Rightarrow> ResolveCommittedMoves k agg
                            | Advance \<Rightarrow> AdvanceCommittedNextRound k agg)) (\<lambda>agg1.
      bindT (askT (\<lambda>st. fmlookup (db_rooms st) code)) (\<lambda>row.
      bindT (rowT ErrNoRows row) (\<lambda>r.
      let revision = rm_revision r + 1 in
      thenT (save agg1 roles (r_round agg) revision)
      (thenT
        (case tr of
           Resolve \<Rightarrow>
             thenT (settleRound_pg code (State agg1))
               (execT (\<lambda>st. finish_deadlines (pending_of code k) (\<lambda>_. ''cancelled'') (db_now st) st))
         | Advance \<Rightarrow>
             thenT (fundRound_pg code (r_round agg1) '''')
               (execT (\<lambda>st. if round_status code k st = ''settling'' then set_round_status code k ''resolved'' st
                           else st)))
        (returnT (revision, r_round agg1))))))))"

definition announceT :: "string \<Rightarrow> uint64 \<Rightarrow> uint64 \<Rightarrow> unit tx" where
  "announceT code revision k = thenT (insert_outbox code revision) (notifyRoomStateChanged code k)"

text \<open>The report is filled step by step and returned as it stands when a step fails.\<close>

definition ReconcileRoom :: "RoomHint \<Rightarrow> db reconcile" where
  "ReconcileRoom hint st =
     (let attempt = zeroReconciliation\<lparr>rc_ClaimAttempts := 1\<rparr> in
      case claimRoomTransition hint st of
        Inl e \<Rightarrow> ((attempt, Some e), st)
      | Inr (None, st1) \<Rightarrow> ((attempt\<lparr>rc_ClaimNoops := 1\<rparr>, None), st1)
      | Inr (Some tr, st1) \<Rightarrow>
         (let won = attempt\<lparr>rc_ClaimWins := 1\<rparr> in
          case transitionT hint tr st1 of
            Inl e \<Rightarrow> ((won, Some e), st)
          | Inr ((revision, k), st2) \<Rightarrow>
             (let progress = (case tr of Resolve \<Rightarrow> won\<lparr>rc_SettledRounds := 1\<rparr>
                                       | Advance \<Rightarrow> won\<lparr>rc_AdvancedRounds := 1\<rparr>) in
              case announceT (hint_RoomCode hint) revision k st2 of
                Inl e \<Rightarrow> ((progress, Some e), st)
              | Inr (_, st3) \<Rightarrow> ((progress, None), st3))))"

text \<open>The rounds a batch finds, oldest first. \<open>clock\<close> is the wall clock of \<open>time.Since\<close>.\<close>

definition eligible_rounds :: "db \<Rightarrow> (go_time \<times> string \<times> uint64) list" where
  "eligible_rounds st = map (\<lambda>(code, k). (rr_created_at (the (fmlookup (db_rounds st) (code, k))), code, k))
     (filter (\<lambda>(code, k). resolvable code k st \<or> advanceable code k st)
       (sorted_list_of_fset (fmdom (db_rounds st))))"

fun reconcileCandidates ::
    "(go_time \<times> string \<times> uint64) list \<Rightarrow> ReconciliationReport \<Rightarrow> go_error list \<Rightarrow> db
     \<Rightarrow> (ReconciliationReport \<times> go_error list) \<times> db" where
  "reconcileCandidates [] rep errs st = ((rep, errs), st)"
| "reconcileCandidates ((t, code, k) # cs) rep errs st =
     (let ((r, err), st1) = ReconcileRoom \<lparr>hint_RoomCode = code, hint_Round = k\<rparr> st;
          rep1 = ReconciliationReport_Add rep r
      in case err of
           None \<Rightarrow> reconcileCandidates cs rep1 errs st1
         | Some e \<Rightarrow> reconcileCandidates cs (rep1\<lparr>rc_Failures := rc_Failures rep1 + 1\<rparr>) (errs @ [e]) st1)"

definition ReconcileBatch ::
    "go_time \<Rightarrow> int \<Rightarrow> db \<Rightarrow> (ReconciliationReport \<times> go_error list) \<times> db" where
  "ReconcileBatch clock limit0 st =
     (let limit = (if limit0 \<le> 0 then 32 else limit0);
          eligible = sort_key (\<lambda>(t, code, k). (t, code, unat k)) (eligible_rounds st);
          rep = zeroReconciliation\<lparr>rc_EligibleBacklog := int (length eligible),
            rc_OldestEligibleAge := (case eligible of [] \<Rightarrow> 0 | (t, _) # _ \<Rightarrow> time_Sub clock t)\<rparr>
      in reconcileCandidates (take (nat limit) eligible) rep [] st)"

section \<open>The commands\<close>

definition CreateCommand_pg :: "room \<Rightarrow> string \<Rightarrow> Command \<Rightarrow> (db, CommandResult) op" where
  "CreateCommand_pg agg accountID c = transaction (receipted accountID c
     (bindT (createT agg accountID) (\<lambda>sn.
       let res = zeroCommandResult\<lparr>cmd_Snapshot := sn\<rparr> in
       thenT (persistCommandEffects (r_code agg) 1 accountID c res) (returnT res))))"

text \<open>The writer of the commands. \<open>change\<close> also returns the roles, which a join extends.\<close>

definition writeAccountCommand ::
    "string \<Rightarrow> string \<Rightarrow> Command \<Rightarrow> bool
     \<Rightarrow> (room \<Rightarrow> roles \<Rightarrow> string \<Rightarrow> (room \<times> roles \<times> PresenceLease list) tx) \<Rightarrow> (db, CommandResult) op" where
  "writeAccountCommand code accountID c authorize change = transaction (receipted accountID c
     (bindT (askT (\<lambda>st. fmlookup (db_rooms st) code)) (\<lambda>row.
      bindT (rowT (Err ErrRoomNotFound) row) (\<lambda>r.
      bindT (load code) (\<lambda>(agg, roles).
      bindT (authorizeT code (if authorize then Some accountID else None)) (\<lambda>playerID.
      bindT (change agg roles playerID) (\<lambda>(agg1, roles1, leases).
      let revision = rm_revision r + 1 in
      thenT (save agg1 roles1 (r_round agg) revision)
      (let res = zeroCommandResult\<lparr>cmd_Snapshot := \<lparr>sn_State = State agg1, sn_Revision = revision,
                   sn_Presence = fmempty\<rparr>, cmd_Leases := leases\<rparr> in
       thenT (persistCommandEffects code revision accountID c res) (returnT res)))))))))"

definition JoinCommand_pg ::
    "string \<Rightarrow> string \<Rightarrow> string \<Rightarrow> PresenceWindow \<Rightarrow> Command \<Rightarrow> (db, CommandResult) op" where
  "JoinCommand_pg code playerID accountID w c =
     writeAccountCommand code accountID c False (\<lambda>agg roles _.
       bindT (joinT code playerID accountID w ErrRoomFull agg) (\<lambda>(agg1, leases).
         returnT (agg1, fmupd ''guest'' playerID roles, leases)))"

definition MutateCommand_pg ::
    "string \<Rightarrow> string \<Rightarrow> mutation \<Rightarrow> Command \<Rightarrow> (db, CommandResult) op" where
  "MutateCommand_pg code accountID mutation c =
     writeAccountCommand code accountID c True (\<lambda>agg roles playerID.
       bindT (liftT (mutation agg playerID)) (\<lambda>agg1. returnT (agg1, roles, [])))"

text \<open>The row that \<open>recordRoomAction\<close> locks: round, room status, round status, readiness.\<close>

definition action_view :: "string \<Rightarrow> db \<Rightarrow> (uint64 \<times> string \<times> string \<times> bool) option" where
  "action_view code st = (case fmlookup (db_rooms st) code of
     None \<Rightarrow> None
   | Some r \<Rightarrow> (case fmlookup (db_rounds st) (code, rm_current_round r) of
       None \<Rightarrow> None
     | Some rr \<Rightarrow> Some (rm_current_round r, rm_status r, rr_status rr,
         rr_funded rr \<and> length (room_seats code st) = 2)))"

definition bump_revision :: "string \<Rightarrow> uint64 tx" where
  "bump_revision code = bindT (askT (\<lambda>st. fmlookup (db_rooms st) code)) (\<lambda>row.
     bindT (rowT ErrNoRows row) (\<lambda>r.
     thenT (execT (\<lambda>st. st\<lparr>db_rooms := fmupd code (r\<lparr>rm_revision := rm_revision r + 1\<rparr>) (db_rooms st)\<rparr>))
       (returnT (rm_revision r + 1))))"

text \<open>The transaction; \<open>None\<close> beside the result marks a replay, \<open>Some\<close> the round acted on.\<close>

definition actionT ::
    "string \<Rightarrow> string \<Rightarrow> Command \<Rightarrow> string \<Rightarrow> uint64 \<Rightarrow> (uint64 \<Rightarrow> string \<Rightarrow> unit tx)
     \<Rightarrow> (CommandResult \<times> uint64 option) tx" where
  "actionT code accountID c requiredRoundStatus expectedRound insertRow =
     bindT (commandReceipt accountID c) (\<lambda>receipt. case receipt of
        Some res \<Rightarrow> returnT (res, None)
      | None \<Rightarrow>
         bindT (askT (action_view code)) (\<lambda>view.
         bindT (rowT (Err ErrRoomNotFound) view) (\<lambda>(k, roomStatus, roundStatus, ready).
         thenT (failIf (roomStatus = ''closed'') (Err ErrRoomClosed))
         (thenT (failIf (expectedRound \<noteq> 0 \<and> expectedRound \<noteq> k) (Err ErrStaleRound))
         (thenT (failIf (roundStatus \<noteq> requiredRoundStatus)
                  (Err (if requiredRoundStatus = ''active'' then ErrRoundResolved else ErrRoundNotResolved)))
         (bindT (askT (seat_of code accountID)) (\<lambda>seat.
          bindT (rowT (Err ErrUnauthorized) seat) (\<lambda>(role, s).
          thenT (failIf (\<not> ready) (Err ErrRoomNotReady))
         (thenT (insertRow k role)
         (bindT (bump_revision code) (\<lambda>revision.
          let res = zeroCommandResult\<lparr>cmd_Snapshot := \<lparr>sn_State = zeroState\<lparr>st_Code := code, st_Round := k,
                      st_Ready := True, st_Resolved := (requiredRoundStatus = ''resolved'')\<rparr>,
                    sn_Revision = revision, sn_Presence = fmempty\<rparr>\<rparr> in
          thenT (persistCommandEffects code revision accountID c res)
         (thenT (notifyRoomStateChanged code k) (returnT (res, Some k))))))))))))))"

text \<open>After the commit the round is reconciled once, and the outcome of that is ignored.\<close>

definition recordRoomAction ::
    "string \<Rightarrow> string \<Rightarrow> Command \<Rightarrow> string \<Rightarrow> uint64 \<Rightarrow> (uint64 \<Rightarrow> string \<Rightarrow> unit tx)
     \<Rightarrow> (db, CommandResult) op" where
  "recordRoomAction code accountID c requiredRoundStatus expectedRound insertRow st =
     (case transaction (actionT code accountID c requiredRoundStatus expectedRound insertRow) st of
        (Inl e, st1) \<Rightarrow> (Inl e, st1)
      | (Inr (res, None), st1) \<Rightarrow> (Inr res, st1)
      | (Inr (res, Some k), st1) \<Rightarrow>
          (Inr res, snd (ReconcileRoom \<lparr>hint_RoomCode = code, hint_Round = k\<rparr> st1)))"

definition insert_move :: "string \<Rightarrow> move \<Rightarrow> uint64 \<Rightarrow> string \<Rightarrow> unit tx" where
  "insert_move code m k role =
     bindT (askT (\<lambda>st. (code, k, role) |\<in>| fmdom (db_moves st))) (\<lambda>taken.
       thenT (failIf taken (Err ErrDuplicateMove))
         (execT (\<lambda>st. st\<lparr>db_moves := fmupd (code, k, role) m (db_moves st)\<rparr>)))"

definition insert_request :: "string \<Rightarrow> uint64 \<Rightarrow> string \<Rightarrow> unit tx" where
  "insert_request code k role =
     bindT (askT (\<lambda>st. (code, k, role) |\<in>| fmdom (db_requests st))) (\<lambda>taken.
       thenT (failIf taken (Err ErrNextRoundRequested))
         (execT (\<lambda>st. st\<lparr>db_requests := fmupd (code, k, role) () (db_requests st)\<rparr>)))"

definition SubmitMoveCommand_pg :: "string \<Rightarrow> string \<Rightarrow> move \<Rightarrow> Command \<Rightarrow> (db, CommandResult) op" where
  "SubmitMoveCommand_pg code accountID m c st =
     (if \<not> IsValidMove m then (Inl (ErrQ ErrInvalidMove m), st)
      else recordRoomAction code accountID c ''active'' 0 (insert_move code m) st)"

definition RequestNextRoundCommand_pg ::
    "string \<Rightarrow> string \<Rightarrow> uint64 \<Rightarrow> Command \<Rightarrow> (db, CommandResult) op" where
  "RequestNextRoundCommand_pg code accountID k c =
     recordRoomAction code accountID c ''resolved'' k (insert_request code)"

definition RechargeCommand_pg :: "string \<Rightarrow> int \<Rightarrow> Command \<Rightarrow> (db, CommandResult) op" where
  "RechargeCommand_pg accountID amount c = transaction (receipted accountID c
     (thenT (ensureUserWallet accountID)
     (thenT (lockWallets [''mint'', userAccountID accountID])
     (bindT (rechargeEffects accountID amount (c_Key c)) (\<lambda>coins.
      let res = zeroCommandResult\<lparr>cmd_Balance := coins\<rparr> in
      thenT (finishCommandReceipt accountID c res) (returnT res))))))"

end
