(* ===== verification/Postgres_Deadlines.thy ===== *)
theory Postgres_Deadlines
  imports Postgres_Commands
begin

text \<open>
  Connections, presence and deadlines, \<open>adapter/postgres/deadlines.go\<close>: a WebSocket connection is a
  lease on a seat; when the last connection of a seat disappears its presence ends and a disconnect
  deadline is scheduled; a due deadline forfeits, draws or resolves the round. One transaction per
  operation; \<open>ReapExpiredConnections\<close> runs one per expired connection.
\<close>

section \<open>Connections\<close>

definition zeroTransition :: PresenceTransition where
  "zeroTransition = \<lparr>pt_RoomCode = '''', pt_Role = '''', pt_Generation = 0, pt_LastSocket = False,
     pt_GraceDueAt = None\<rparr>"

definition session_valid :: "session_row \<Rightarrow> go_time \<Rightarrow> bool" where
  "session_valid ws t \<longleftrightarrow> ws_revoked ws = None \<and> t < ws_idle ws \<and> t < ws_absolute ws"

definition advancePresenceRevision :: "string \<Rightarrow> uint64 tx" where
  "advancePresenceRevision code = bindT (bump_revision code) (\<lambda>revision.
     thenT (insert_outbox code revision) (returnT revision))"

definition set_presence :: "string \<Rightarrow> string \<Rightarrow> presence_row \<Rightarrow> db \<Rightarrow> db" where
  "set_presence code playerID p st = st\<lparr>db_presence := fmupd (code, playerID) p (db_presence st)\<rparr>"

text \<open>The seat that an account may connect to with a valid session.\<close>

definition connectable_seat :: "ConnectionLease \<Rightarrow> db \<Rightarrow> (string \<times> seat_row) option" where
  "connectable_seat lease st =
     (case fmlookup (db_sessions st) (cl_SessionDigest lease) of
        None \<Rightarrow> None
      | Some ws \<Rightarrow> if ws_account ws = cl_AccountID lease \<and> session_valid ws (cl_ConnectedAt lease)
                   then seat_of (cl_RoomCode lease) (cl_AccountID lease) st else None)"

definition OpenConnection :: "ConnectionLease \<Rightarrow> (db, PresenceTransition) op" where
  "OpenConnection lease = transaction
     (let code = cl_RoomCode lease; t = cl_ConnectedAt lease in
      thenT (failIf (\<not> t < cl_LeaseExpiresAt lease) (ErrText ''connection lease must expire after connection time''))
      (bindT (askT (\<lambda>st. fmlookup (db_rooms st) code)) (\<lambda>row.
       bindT (rowT (Err ErrRoomNotFound) row) (\<lambda>r.
       bindT (askT (connectable_seat lease)) (\<lambda>seat.
       bindT (rowT (Err ErrUnauthorized) seat) (\<lambda>(role, s).
       bindT (askT (\<lambda>st. cl_ID lease |\<in>| fmdom (db_connections st))) (\<lambda>taken.
       thenT (failIf taken (ErrText ''connection identifier already exists''))
      (thenT (execT (\<lambda>st. st\<lparr>db_connections := fmupd (cl_ID lease)
         \<lparr>co_session = cl_SessionDigest lease, co_room = code, co_role = role,
          co_lease = cl_LeaseExpiresAt lease, co_closed = None\<rparr> (db_connections st)\<rparr>))
      (bindT (askT (\<lambda>st. fmlookup (db_presence st) (code, se_player_id s))) (\<lambda>presence.
       let generation = (case presence of None \<Rightarrow> 1 | Some p \<Rightarrow> pr_generation p);
           changed = (case presence of None \<Rightarrow> True | Some p \<Rightarrow> \<not> pr_present p) in
       thenT (execT (\<lambda>st. case presence of
            None \<Rightarrow> set_presence code (se_player_id s)
              \<lparr>pr_generation = 1, pr_deadline = cl_LeaseExpiresAt lease, pr_refreshed_at = t,
               pr_present = True\<rparr> st
          | Some p \<Rightarrow> set_presence code (se_player_id s)
              (p\<lparr>pr_present := True, pr_deadline := cl_LeaseExpiresAt lease, pr_refreshed_at := t\<rparr>)
              (if pr_present p then st
               else finish_deadlines (\<lambda>i d. dl_room d = code \<and> dl_round d = rm_current_round r
                      \<and> dl_kind d = ''disconnect'' \<and> dl_role d = role \<and> dl_generation d = generation
                      \<and> dl_status d = ''pending'') (\<lambda>_. ''cancelled'') t st)))
      (thenT (if changed then bindT (advancePresenceRevision code) (\<lambda>_. returnT ()) else returnT ())
        (returnT (zeroTransition\<lparr>pt_RoomCode := code, pt_Role := role,
            pt_Generation := generation\<rparr>)))))))))))))"

definition RenewConnection :: "string \<Rightarrow> go_time \<Rightarrow> go_time \<Rightarrow> (db, unit) op" where
  "RenewConnection connectionID observedAt leaseExpiresAt = transaction
     (thenT (failIf (\<not> observedAt < leaseExpiresAt) (ErrText ''connection lease must expire after observation time''))
      (bindT (askT (\<lambda>st. case fmlookup (db_connections st) connectionID of
           None \<Rightarrow> None
         | Some c \<Rightarrow>
            (case (fmlookup (db_sessions st) (co_session c), fmlookup (db_seats st) (co_room c, co_role c)) of
               (Some ws, Some s) \<Rightarrow> if co_closed c = None \<and> se_auth s = ws_account ws
                  \<and> session_valid ws observedAt then Some c else None
             | _ \<Rightarrow> None))) (\<lambda>found.
       bindT (rowT (Err ErrUnauthorized) found) (\<lambda>c.
       execT (\<lambda>st. st\<lparr>db_connections := fmupd connectionID (c\<lparr>co_lease := leaseExpiresAt\<rparr>)
         (db_connections st)\<rparr>)))))"

definition role_connected :: "string \<Rightarrow> string \<Rightarrow> go_time \<Rightarrow> db \<Rightarrow> bool" where
  "role_connected code role t st \<longleftrightarrow> \<not> fmpred (\<lambda>_ c. \<not> (co_room c = code \<and> co_role c = role
     \<and> co_closed c = None \<and> t < co_lease c)) (db_connections st)"

text \<open>\<open>leaseExpiredBy\<close> is the extra condition of the reaper.\<close>

definition closeConnectionT :: "string \<Rightarrow> go_time \<Rightarrow> go_time option \<Rightarrow> PresenceTransition tx" where
  "closeConnectionT connectionID t leaseExpiredBy =
     bindT (askT (\<lambda>st. case fmlookup (db_connections st) connectionID of
          None \<Rightarrow> None
        | Some c \<Rightarrow> map_option (Pair c) (fmlookup (db_seats st) (co_room c, co_role c)))) (\<lambda>found.
     case found of
       None \<Rightarrow> returnT zeroTransition
     | Some (c, s) \<Rightarrow>
        (let code = co_room c; role = co_role c in
         bindT (askT (\<lambda>st. fmlookup (db_rooms st) code)) (\<lambda>row.
         bindT (rowT ErrNoRows row) (\<lambda>r.
         if co_closed c \<noteq> None \<or> (case leaseExpiredBy of None \<Rightarrow> False | Some u \<Rightarrow> u < co_lease c)
         then returnT zeroTransition
         else
           thenT (execT (\<lambda>st. st\<lparr>db_connections := fmupd connectionID (c\<lparr>co_closed := Some t\<rparr>)
              (db_connections st)\<rparr>))
          (bindT (askT (role_connected code role t)) (\<lambda>connected.
           let transition = zeroTransition\<lparr>pt_RoomCode := code, pt_Role := role\<rparr> in
           if connected then returnT transition
           else
             bindT (askT (\<lambda>st. fmlookup (db_presence st) (code, se_player_id s))) (\<lambda>presence.
             bindT (rowT ErrNoRows presence) (\<lambda>p.
             if \<not> pr_present p then returnT (transition\<lparr>pt_Generation := pr_generation p\<rparr>)
             else
               let generation = pr_generation p + 1; due = t + DisconnectGracePeriod in
               thenT (execT (\<lambda>st. insert_deadline
                   (new_deadline code (rm_current_round r) ''disconnect'' role generation due)
                   (set_presence code (se_player_id s)
                      (p\<lparr>pr_present := False, pr_generation := generation, pr_deadline := due\<rparr>) st)))
              (bindT (advancePresenceRevision code) (\<lambda>_.
               returnT (transition\<lparr>pt_Generation := generation, pt_LastSocket := True,
                 pt_GraceDueAt := Some due\<rparr>)))))))))))"

definition CloseConnection :: "string \<Rightarrow> go_time \<Rightarrow> (db, PresenceTransition) op" where
  "CloseConnection connectionID t = transaction (closeConnectionT connectionID t None)"

definition expired_connections :: "go_time \<Rightarrow> db \<Rightarrow> (go_time \<times> string) list" where
  "expired_connections now st = sort_key id
     (map (\<lambda>i. (co_lease (the (fmlookup (db_connections st) i)), i))
       (filter (\<lambda>i. let c = the (fmlookup (db_connections st) i) in co_closed c = None \<and> co_lease c \<le> now)
         (sorted_list_of_fset (fmdom (db_connections st)))))"

fun reapEach :: "go_time \<Rightarrow> (go_time \<times> string) list \<Rightarrow> int \<Rightarrow> db \<Rightarrow> (int \<times> go_error option) \<times> db" where
  "reapEach now [] reaped st = ((reaped, None), st)"
| "reapEach now ((t, i) # cs) reaped st =
     (case transaction (closeConnectionT i t (Some now)) st of
        (Inl e, st1) \<Rightarrow> ((reaped, Some e), st1)
      | (Inr transition, st1) \<Rightarrow>
          reapEach now cs (if pt_RoomCode transition \<noteq> '''' then reaped + 1 else reaped) st1)"

definition ReapExpiredConnections :: "go_time \<Rightarrow> db \<Rightarrow> (int \<times> go_error option) \<times> db" where
  "ReapExpiredConnections now st = reapEach now (expired_connections now st) 0 st"

section \<open>Deadlines\<close>

text \<open>\<open>ORDER BY due_at, CASE kind WHEN 'disconnect' THEN 0 ELSE 1 END, deadline_id\<close>.\<close>

definition due_deadlines :: "(deadline_row \<Rightarrow> bool) \<Rightarrow> go_time \<Rightarrow> db \<Rightarrow> (int \<times> deadline_row) list" where
  "due_deadlines P now st =
     sort_key (\<lambda>(i, d). (dl_due d, if dl_kind d = ''disconnect'' then 0 else 1 :: int, i))
       (map (\<lambda>i. (i, the (fmlookup (db_deadlines st) i)))
         (filter (\<lambda>i. let d = the (fmlookup (db_deadlines st) i) in
             dl_status d = ''pending'' \<and> dl_due d \<le> now \<and> P d)
           (sorted_list_of_fset (fmdom (db_deadlines st)))))"

definition cancel_deadline :: "int \<Rightarrow> go_time \<Rightarrow> db \<Rightarrow> db" where
  "cancel_deadline i now = finish_deadlines (\<lambda>j d. j = i) (\<lambda>_. ''cancelled'') now"

definition round_live :: "string \<Rightarrow> uint64 \<Rightarrow> db \<Rightarrow> bool" where
  "round_live code k st \<longleftrightarrow> round_status code k st = ''active'' \<and> current_active code k st"

text \<open>Whether a due deadline still applies to the current round.\<close>

definition applicable :: "string \<Rightarrow> uint64 \<Rightarrow> room \<Rightarrow> db \<Rightarrow> deadline_row \<Rightarrow> bool" where
  "applicable code k agg st d \<longleftrightarrow>
     r_round agg = k \<and> \<not> r_resolved agg \<and> \<not> r_closed agg \<and> round_funded code k st
     \<and> (dl_kind d = ''disconnect'' \<longrightarrow>
          (case fmlookup (db_seats st) (code, dl_role d) of
             None \<Rightarrow> False
           | Some s \<Rightarrow> (case fmlookup (db_presence st) (code, se_player_id s) of
               None \<Rightarrow> False
             | Some p \<Rightarrow> pr_generation p = dl_generation d \<and> \<not> pr_present p)))"

fun firstApplicable ::
    "string \<Rightarrow> uint64 \<Rightarrow> room \<Rightarrow> go_time \<Rightarrow> (int \<times> deadline_row) list \<Rightarrow> (int \<times> deadline_row) option tx" where
  "firstApplicable code k agg now [] = returnT None"
| "firstApplicable code k agg now ((i, d) # ds) =
     bindT (askT (\<lambda>st. applicable code k agg st d)) (\<lambda>ok.
       if ok then returnT (Some (i, d))
       else thenT (execT (cancel_deadline i now)) (firstApplicable code k agg now ds))"

definition nextApplicableDeadline ::
    "string \<Rightarrow> uint64 \<Rightarrow> room \<Rightarrow> go_time \<Rightarrow> (int \<times> deadline_row) option tx" where
  "nextApplicableDeadline code k agg now =
     bindT (askT (due_deadlines (\<lambda>d. dl_room d = code) now)) (firstApplicable code k agg now)"

definition activeRoles :: "string \<Rightarrow> go_time \<Rightarrow> db \<Rightarrow> (string, bool) fmap" where
  "activeRoles code now st = fold (\<lambda>(role, s). fmupd role (role_connected code role now st))
     (room_seats code st) fmempty"

definition reactivate :: "string \<Rightarrow> uint64 \<Rightarrow> db \<Rightarrow> db" where
  "reactivate code k st =
     (if round_status code k st = ''settling'' then set_round_status code k ''active'' st else st)"

definition stale_result :: "string \<Rightarrow> uint64 \<Rightarrow> string \<Rightarrow> go_time \<Rightarrow> DeadlineResult" where
  "stale_result code k kind due = zeroDeadlineResult\<lparr>dr_Processed := True, dr_Stale := True,
     dr_RoomCode := code, dr_Round := k, dr_Kind := kind, dr_DueAt := Some due\<rparr>"

definition otherRole :: "string \<Rightarrow> string" where
  "otherRole role = (if role = ''host'' then ''guest'' else ''host'')"

text \<open>What the applicable deadline does to the aggregate; \<open>None\<close> when the player is connected.\<close>

definition deadlineOutcome ::
    "deadline_row \<Rightarrow> (string, bool) fmap \<Rightarrow> roles \<Rightarrow> uint64 \<Rightarrow> room \<Rightarrow> room result option" where
  "deadlineOutcome d present roles k agg =
     (if dl_kind d = ''disconnect'' then
        (if get_or False present (dl_role d) then None
         else if get_or False present (otherRole (dl_role d))
           then Some (Forfeit (get_or '''' roles (dl_role d)) k agg)
         else Some (ResolveDeadlineDraw k agg))
      else Some (ResolveInactivity k agg))"

definition insert_outbox_once :: "string \<Rightarrow> uint64 \<Rightarrow> unit tx" where
  "insert_outbox_once code revision =
     bindT (askT (\<lambda>st. fmpred (\<lambda>_ o'. \<not> (ob_room_code o' = code \<and> ob_revision o' = revision)) (db_outbox st)))
       (\<lambda>free. if free then insert_outbox code revision else returnT ())"

text \<open>The end of a claim that does nothing: cancel the deadline, give the round back.\<close>

definition releaseT :: "int \<Rightarrow> string \<Rightarrow> uint64 \<Rightarrow> deadline_row \<Rightarrow> go_time \<Rightarrow> DeadlineResult tx" where
  "releaseT i code k d now = thenT (execT (cancel_deadline i now))
     (thenT (execT (reactivate code k)) (returnT (stale_result code k (dl_kind d) (dl_due d))))"

definition settleDeadlineT ::
    "int \<Rightarrow> deadline_row \<Rightarrow> string \<Rightarrow> uint64 \<Rightarrow> go_time \<Rightarrow> room \<Rightarrow> roles \<Rightarrow> DeadlineResult tx" where
  "settleDeadlineT i d code k now agg1 roles =
     bindT (askT (\<lambda>st. fmlookup (db_rooms st) code)) (\<lambda>row.
     bindT (rowT ErrNoRows row) (\<lambda>r.
     let revision = rm_revision r + 1 in
     thenT (save agg1 roles k revision)
     (thenT (settleRound_pg code (State agg1))
     (thenT (insert_outbox_once code revision)
     (thenT (execT (finish_deadlines (pending_of code k)
               (\<lambda>j. if j = i then ''completed'' else ''cancelled'') now))
       (returnT (zeroDeadlineResult\<lparr>dr_Processed := True, dr_Settled := True, dr_RoomCode := code,
          dr_Round := k, dr_Kind := dl_kind d, dr_DueAt := Some (dl_due d)\<rparr>)))))))"

definition claimedDeadlineT :: "int \<Rightarrow> deadline_row \<Rightarrow> go_time \<Rightarrow> DeadlineResult tx" where
  "claimedDeadlineT i0 d0 now =
     (let code = dl_room d0 in
      bindT (askT (\<lambda>st. fmlookup (db_rooms st) code)) (\<lambda>row.
      case row of
        None \<Rightarrow> thenT (execT (cancel_deadline i0 now)) (returnT (stale_result code 0 '''' (dl_due d0)))
      | Some r \<Rightarrow>
         let k = rm_current_round r in
         bindT (load code) (\<lambda>(agg, roles).
         bindT (nextApplicableDeadline code k agg now) (\<lambda>found.
         case found of
           None \<Rightarrow> thenT (execT (reactivate code k)) (returnT (stale_result code k '''' (dl_due d0)))
         | Some (i, d) \<Rightarrow>
            bindT (askT (activeRoles code now)) (\<lambda>present.
            case deadlineOutcome d present roles k agg of
              None \<Rightarrow> releaseT i code k d now
            | Some (Inl e) \<Rightarrow>
                if errors_Is e ErrRoundResolved \<or> errors_Is e ErrStaleRound \<or> errors_Is e ErrRoomClosed
                then releaseT i code k d now else failT e
            | Some (Inr agg1) \<Rightarrow> settleDeadlineT i d code k now agg1 roles)))))"

definition processNextT :: "go_time \<Rightarrow> DeadlineResult tx" where
  "processNextT now =
     bindT (askT (due_deadlines (\<lambda>_. True) now)) (\<lambda>due.
     case due of
       [] \<Rightarrow> returnT zeroDeadlineResult
     | (i, d) # _ \<Rightarrow>
        let code = dl_room d; k = dl_round d in
        bindT (askT (\<lambda>st. round_live code k st \<and> round_funded code k st)) (\<lambda>claim.
        if \<not> claim
        then thenT (execT (\<lambda>st. if round_live code k st then st else cancel_deadline i now st))
               (returnT (stale_result code k '''' (dl_due d)))
        else thenT (execT (set_round_status code k ''settling'')) (claimedDeadlineT i d now)))"

definition ProcessNextDeadline :: "go_time \<Rightarrow> (db, DeadlineResult) op" where
  "ProcessNextDeadline now = transaction (processNextT now)"

definition CleanupDeadlines :: "go_time \<Rightarrow> (db, int) op" where
  "CleanupDeadlines before st =
     (let old = (\<lambda>t. case t of None \<Rightarrow> False | Some u \<Rightarrow> u < before);
          deadlines = fmfilter (\<lambda>i. let d = the (fmlookup (db_deadlines st) i) in
            \<not> ((dl_status d = ''completed'' \<or> dl_status d = ''cancelled'') \<and> old (dl_completed d))) (db_deadlines st);
          connections = fmfilter (\<lambda>i. \<not> old (co_closed (the (fmlookup (db_connections st) i)))) (db_connections st)
      in (Inr (int (flen (db_deadlines st)) - int (flen deadlines)
               + (int (flen (db_connections st)) - int (flen connections))),
          st\<lparr>db_deadlines := deadlines, db_connections := connections\<rparr>))"

definition pg_deadlines :: "db DeadlineRepository" where
  "pg_deadlines = \<lparr>dw_ReapExpiredConnections = ReapExpiredConnections,
     dw_ProcessNextDeadline = ProcessNextDeadline, dw_CleanupDeadlines = CleanupDeadlines\<rparr>"

end
