(* ===== verification/Postgres_Properties.thy ===== *)
theory Postgres_Properties
  imports Postgres_Deadlines
begin

text \<open>
  What the PostgreSQL repository guarantees: the books balance in every reachable database, whatever
  sequence of operations and worker passes ran; the ledger only grows; a command's receipt is
  answered without an effect; recording a move and reconciling is the aggregate's own method; and
  when the deadline worker returns.
\<close>

section \<open>The tables of the ledger\<close>

lemma ledger_set [simp]:
  "ledger (save_room agg roles prev rv st) = ledger st" "ledger (insert_room code st) = ledger st"
  "ledger (insert_seat code role p u st) = ledger st" "ledger (upsert_presence code w s st) = ledger st"
  "ledger (bump_generation code st) = ledger st" "ledger (set_round_status code k status st) = ledger st"
  "ledger (finish_deadlines P f t st) = ledger st" "ledger (set_presence code p pr st) = ledger st"
  "ledger (reactivate code k st) = ledger st" "ledger (cancel_deadline i t st) = ledger st"
  by (simp_all add: ledger_def save_room_def Let_def update_room_def upsert_round_def insert_room_def
      insert_seat_def upsert_presence_def bump_generation_def set_round_status_def finish_deadlines_def
      set_presence_def reactivate_def cancel_deadline_def split: option.split)

lemma ledger_other [simp]:
  "ledger (st\<lparr>db_rooms := a\<rparr>) = ledger st" "ledger (st\<lparr>db_moves := b\<rparr>) = ledger st"
  "ledger (st\<lparr>db_requests := c\<rparr>) = ledger st" "ledger (st\<lparr>db_presence := d\<rparr>) = ledger st"
  "ledger (st\<lparr>db_connections := e\<rparr>) = ledger st" "ledger (st\<lparr>db_deadlines := f\<rparr>) = ledger st"
  "ledger (st\<lparr>db_outbox := g\<rparr>) = ledger st" "ledger (st\<lparr>db_receipts := h\<rparr>) = ledger st"
  "ledger (st\<lparr>db_sessions := i\<rparr>) = ledger st" "ledger (st\<lparr>db_notified := j\<rparr>) = ledger st"
  "ledger (st\<lparr>db_next_outbox := k\<rparr>) = ledger st" "ledger (st\<lparr>db_now := l\<rparr>) = ledger st"
  by (simp_all add: ledger_def)

lemma ledger_fold: "(\<And>x st. ledger (f x st) = ledger st) \<Longrightarrow> ledger (fold f xs st) = ledger st"
  by (induction xs arbitrary: st) simp_all

lemma keeps_split [keeps_intros]: "(\<And>a b. keeps I (f a b)) \<Longrightarrow> keeps I (case p of (a, b) \<Rightarrow> f a b)"
  by (cases p) simp

lemma keeps_case_sum [keeps_intros]:
  "(\<And>e. keeps I (f e)) \<Longrightarrow> (\<And>x. keeps I (g x)) \<Longrightarrow> keeps I (case r of Inl e \<Rightarrow> f e | Inr x \<Rightarrow> g x)"
  by (cases r) simp_all

lemma keeps_case_list [keeps_intros]:
  "keeps I f \<Longrightarrow> (\<And>x xs. keeps I (g x xs)) \<Longrightarrow> keeps I (case r of [] \<Rightarrow> f | x # xs \<Rightarrow> g x xs)"
  by (cases r) simp_all

lemma keeps_case_transition [keeps_intros]:
  "keeps I m \<Longrightarrow> keeps I m' \<Longrightarrow> keeps I (case tr of Resolve \<Rightarrow> m | Advance \<Rightarrow> m')"
  by (cases tr) simp_all

lemma ledger_case_option [simp]:
  "ledger (case x of None \<Rightarrow> a | Some y \<Rightarrow> f y) = (case x of None \<Rightarrow> ledger a | Some y \<Rightarrow> ledger (f y))"
  by (cases x) simp_all

section \<open>Reachable databases\<close>

text \<open>
  The operations of the deployed server: the router's commands and reads, the sockets' connections and
  the passes of the workers. \<open>PRecordMove\<close> and \<open>PRecordNextRound\<close> are the first transactions of the two
  recording commands, for a server that dies, or a request that is cancelled, before it reconciles.
  The others are the legacy writers, the outbox's statements on its table, the session store's on its
  own, and the passing of time.
\<close>

datatype pgOp =
    PCreateCommand room string Command
  | PJoinCommand string string string PresenceWindow Command
  | PSubmitMoveCommand string string move Command
  | PRequestNextRoundCommand string string uint64 Command
  | PMutateCommand string string mutation Command
  | PRechargeCommand string int Command
  | PCreate room string
  | PJoinFunded string string string PresenceWindow
  | PSubmitMove string string move
  | PRequestNextRound string string uint64
  | PMutate string string mutation
  | PRefreshPresence string string PresenceWindow
  | PForfeitExpired PresenceLease go_time
  | PBalance string
  | PRecharge string int string
  | POpenConnection ConnectionLease
  | PRenewConnection string go_time go_time
  | PCloseConnection string go_time
  | PReapConnections go_time
  | PProcessDeadline go_time
  | PCleanupDeadlines go_time
  | PRecordMove string string move Command
  | PRecordNextRound string string uint64 Command
  | PReconcileRoom RoomHint
  | PReconcileBatch go_time int
  | PCleanupReceipts go_time
  | PReset
  | POutbox outbox_table
  | PSessions "(string, session_row) fmap"
  | PTime go_time

fun pgRun :: "pgOp \<Rightarrow> db \<Rightarrow> db" where
  "pgRun (PCreateCommand agg u c) st = snd (CreateCommand_pg agg u c st)"
| "pgRun (PJoinCommand code p u w c) st = snd (JoinCommand_pg code p u w c st)"
| "pgRun (PSubmitMoveCommand code u m c) st = snd (SubmitMoveCommand_pg code u m c st)"
| "pgRun (PRequestNextRoundCommand code u k c) st = snd (RequestNextRoundCommand_pg code u k c st)"
| "pgRun (PMutateCommand code u mu c) st = snd (MutateCommand_pg code u mu c st)"
| "pgRun (PRechargeCommand u n c) st = snd (RechargeCommand_pg u n c st)"
| "pgRun (PCreate agg u) st = snd (pg_Create agg [] u st)"
| "pgRun (PJoinFunded code p u w) st = snd (pg_JoinFunded code p [] u w st)"
| "pgRun (PSubmitMove code u m) st = snd (pg_SubmitMoveAndSettle code [] u m st)"
| "pgRun (PRequestNextRound code u k) st = snd (pg_RequestNextRoundAndFund code [] u k st)"
| "pgRun (PMutate code u mu) st = snd (pg_Mutate code [] u mu st)"
| "pgRun (PRefreshPresence code u w) st = snd (pg_RefreshPresence code [] u w st)"
| "pgRun (PForfeitExpired l t) st = snd (pg_ForfeitExpired l t st)"
| "pgRun (PBalance u) st = snd (pg_Balance u st)"
| "pgRun (PRecharge u n key) st = snd (pg_Recharge u n key st)"
| "pgRun (POpenConnection l) st = snd (OpenConnection l st)"
| "pgRun (PRenewConnection i t u) st = snd (RenewConnection i t u st)"
| "pgRun (PCloseConnection i t) st = snd (CloseConnection i t st)"
| "pgRun (PReapConnections t) st = snd (ReapExpiredConnections t st)"
| "pgRun (PProcessDeadline t) st = snd (ProcessNextDeadline t st)"
| "pgRun (PCleanupDeadlines t) st = snd (CleanupDeadlines t st)"
| "pgRun (PRecordMove code u m c) st = (if IsValidMove m
     then snd (transaction (actionT code u c ''active'' 0 (insert_move code m)) st) else st)"
| "pgRun (PRecordNextRound code u k c) st =
     snd (transaction (actionT code u c ''resolved'' k (insert_request code)) st)"
| "pgRun (PReconcileRoom hint) st = snd (ReconcileRoom hint st)"
| "pgRun (PReconcileBatch clock n) st = snd (ReconcileBatch clock n st)"
| "pgRun (PCleanupReceipts t) st = snd (CleanupCommandReceipts t st)"
| "pgRun PReset st = snd (ResetDisposableRooms st)"
| "pgRun (POutbox t) st = st\<lparr>db_outbox := t\<rparr>"
| "pgRun (PSessions t) st = st\<lparr>db_sessions := t\<rparr>"
| "pgRun (PTime t) st = st\<lparr>db_now := t\<rparr>"

text \<open>The database the migrations leave behind.\<close>

definition migrated_db :: db where
  "migrated_db = \<lparr>db_rooms = fmempty, db_seats = fmempty, db_rounds = fmempty, db_moves = fmempty,
     db_requests = fmempty,
     db_wallets = fmupd ''mint'' \<lparr>wa_type = ''mint'', wa_balance = 0\<rparr>
       (fmupd ''house'' \<lparr>wa_type = ''house'', wa_balance = 0\<rparr> fmempty),
     db_transactions = fmempty, db_postings = [], db_history = fmempty, db_presence = fmempty,
     db_connections = fmempty, db_deadlines = fmempty, db_outbox = fmempty, db_receipts = fmempty,
     db_sessions = fmempty, db_notified = [], db_next_transaction = 1, db_next_deadline = 1,
     db_next_outbox = 1, db_now = 0\<rparr>"

inductive pg_reachable :: "db \<Rightarrow> bool" where
  pg_start: "pg_reachable migrated_db"
| pg_step: "pg_reachable st \<Longrightarrow> pg_reachable (pgRun oper st)"

lemmas pg_command_defs = CreateCommand_pg_def JoinCommand_pg_def MutateCommand_pg_def
  RechargeCommand_pg_def pg_Create_def pg_JoinFunded_def pg_SubmitMoveAndSettle_def
  pg_RequestNextRoundAndFund_def pg_Mutate_def pg_RefreshPresence_def CloseConnection_def
  ProcessNextDeadline_def

section \<open>Frames\<close>

text \<open>
  The tables that an invariant of rooms, seats, rounds or of the ledger reads. Presence, connections,
  deadlines, moves, requests, receipts, the outbox and the sessions are not among them.
\<close>

definition core :: "db \<Rightarrow> _" where
  "core st = (ledger st, db_rooms st, db_seats st, db_rounds st)"

lemma core_set [simp]:
  "core (upsert_presence code w s st) = core st" "core (bump_generation code st) = core st"
  "core (finish_deadlines P f t st) = core st" "core (set_presence code p pr st) = core st"
  "core (cancel_deadline i t st) = core st" "core (insert_deadline d st) = core st"
  by (simp_all add: core_def upsert_presence_def bump_generation_def finish_deadlines_def
      set_presence_def cancel_deadline_def insert_deadline_def ledger_def)

lemma core_other [simp]:
  "core (st\<lparr>db_moves := b\<rparr>) = core st" "core (st\<lparr>db_requests := c\<rparr>) = core st"
  "core (st\<lparr>db_presence := d\<rparr>) = core st" "core (st\<lparr>db_connections := e\<rparr>) = core st"
  "core (st\<lparr>db_deadlines := f\<rparr>) = core st" "core (st\<lparr>db_outbox := g\<rparr>) = core st"
  "core (st\<lparr>db_receipts := h\<rparr>) = core st" "core (st\<lparr>db_sessions := i\<rparr>) = core st"
  "core (st\<lparr>db_notified := j\<rparr>) = core st" "core (st\<lparr>db_now := l\<rparr>) = core st"
  "core (st\<lparr>db_outbox := g, db_next_outbox := n\<rparr>) = core st"
  "core (st\<lparr>db_deadlines := f, db_connections := e\<rparr>) = core st"
  by (simp_all add: core_def)

lemma core_fold: "(\<And>x st. core (f x st) = core st) \<Longrightarrow> core (fold f xs st) = core st"
  by (induction xs arbitrary: st) simp_all

lemma core_case_option [simp]:
  "core (case x of None \<Rightarrow> a | Some y \<Rightarrow> f y) = (case x of None \<Rightarrow> core a | Some y \<Rightarrow> core (f y))"
  by (cases x) simp_all

lemma ledger_of_core: "core st1 = core st \<Longrightarrow> ledger st1 = ledger st"
  by (simp add: core_def)

locale frame_invariant =
  fixes I :: "db \<Rightarrow> bool"
  assumes I_core: "core st1 = core st \<Longrightarrow> I st1 = I st"
begin

lemma I_exec: "(\<And>st. core (f st) = core st) \<Longrightarrow> keeps I (execT f)"
  by (rule keeps_exec) (metis I_core)

lemma I_lock [keeps_intros]: "keeps I (lockWalletBalances ids)" "keeps I (lockWallets ids)"
  unfolding lockWalletBalances_def lockWallets_def by (intro keeps_intros)+

lemma I_schedule [keeps_intros]: "keeps I (scheduleInactivityDeadline code k)"
  unfolding scheduleInactivityDeadline_def by (rule I_exec) simp

lemma keeps_load [keeps_intros]: "keeps I (load code)"
  unfolding load_def by (intro keeps_intros)

lemma keeps_authorize [keeps_intros]: "keeps I (authorizeT code u)"
  unfolding authorizeT_def split_def by (intro keeps_intros)

lemma keeps_snapshot [keeps_intros]:
  "keeps I (snapshotT code)" "keeps I m \<Longrightarrow> keeps I (justSnapshot m)"
  unfolding snapshotT_def justSnapshot_def split_def by (intro keeps_intros, assumption?)+

lemma keeps_leases [keeps_intros]: "keeps I (presenceLeases code k w)"
  unfolding presenceLeases_def
  by (intro keeps_intros I_exec core_fold) (simp add: split_def)

lemma keeps_receipts [keeps_intros]:
  "keeps I (commandReceipt u c)" "keeps I (finishCommandReceipt u c res)"
  "keeps I (insert_outbox code rv)" "keeps I (persistCommandEffects code rv u c res)"
  "keeps I (notifyRoomStateChanged code k)"
  "keeps I (insert_move code m k role)" "keeps I (insert_request code k role)"
  unfolding commandReceipt_def finishCommandReceipt_def insert_outbox_def persistCommandEffects_def
    notifyRoomStateChanged_def insert_move_def insert_request_def Let_def
  by (intro keeps_intros I_exec; simp add: core_def ledger_def)+

lemma keeps_announce [keeps_intros]: "keeps I (announceT code rv k)"
  unfolding announceT_def by (intro keeps_intros)

lemma keeps_receipted [keeps_intros]: "keeps I m \<Longrightarrow> keeps I (receipted u c m)"
  unfolding receipted_def by (intro keeps_intros)

lemma keeps_firstApplicable [keeps_intros]: "keeps I (firstApplicable code k agg now ds)"
proof (induction ds)
  case Nil
  show ?case unfolding firstApplicable.simps by (intro keeps_intros)
next
  case (Cons x ds)
  obtain i d where "x = (i, d)" by (cases x)
  with Cons show ?case unfolding firstApplicable.simps \<open>x = (i, d)\<close>
    by (intro keeps_intros I_exec) simp_all
qed

lemma keeps_next [keeps_intros]: "keeps I (nextApplicableDeadline code k agg now)"
  unfolding nextApplicableDeadline_def by (intro keeps_intros)

lemma keeps_outbox_once [keeps_intros]: "keeps I (insert_outbox_once code rv)"
  unfolding insert_outbox_once_def by (intro keeps_intros)

lemma I_Renew: "I st \<Longrightarrow> RenewConnection i t u st = (r, st1) \<Longrightarrow> I st1"
  unfolding RenewConnection_def
  by (erule transaction_keeps, assumption) (intro keeps_intros I_exec; simp)

lemma transaction_snd: "I st \<Longrightarrow> keeps I m \<Longrightarrow> I (snd (transaction m st))"
  using transaction_keeps [of m st "fst (transaction m st)" "snd (transaction m st)" I] by simp

lemma I_other:
  "I (st\<lparr>db_outbox := g\<rparr>) = I st" "I (st\<lparr>db_sessions := i\<rparr>) = I st"
  "I (st\<lparr>db_now := l\<rparr>) = I st" "I (st\<lparr>db_receipts := h\<rparr>) = I st"
  "I (st\<lparr>db_deadlines := f, db_connections := e\<rparr>) = I st"
  by (rule I_core, simp)+

end

section \<open>Invariants of every operation\<close>

text \<open>
  The operations that write a core table, one assumption each; every operation of the server is made
  of them and of writes to the other tables.
\<close>

locale core_invariant = frame_invariant +
  assumes I_insert_wallet: "I st \<Longrightarrow> I (insert_wallet typ a st)"
    and I_fund [keeps_intros]: "keeps I (fundRound_pg code k u)"
    and I_settle [keeps_intros]: "keeps I (settleRound_pg code state)"
    and I_rechargeEffects [keeps_intros]: "keeps I (rechargeEffects u' n key)"
    and I_save [keeps_intros]: "keeps I (save agg roles prev rv)"
    and I_bump [keeps_intros]: "keeps I (bump_revision code)"
    and I_create: "code |\<notin>| fmdom (db_rooms st) \<Longrightarrow> I st
      \<Longrightarrow> I (insert_seat code ''host'' p u (insert_round code 1 (insert_room code st)))"
    and I_guest: "I st \<Longrightarrow> I (insert_seat code ''guest'' p u st)"
    and I_ReconcileRoom: "I st \<Longrightarrow> I (snd (ReconcileRoom hint st))"
    and I_deadline [keeps_intros]: "keeps I (processNextT now)"
    and I_reset: "I st \<Longrightarrow> I (st\<lparr>db_rooms := fmempty, db_seats := fmempty, db_rounds := fmempty,
             db_moves := fmempty, db_requests := fmempty, db_presence := fmempty,
             db_connections := fmempty, db_deadlines := fmempty, db_outbox := fmempty\<rparr>)"
begin

lemma I_ensure [keeps_intros]: "keeps I (ensureUserWallet u)"
  unfolding ensureUserWallet_def by (rule keeps_exec) (rule I_insert_wallet)

lemma I_Recharge: "I st \<Longrightarrow> pg_Recharge u n key st = (r, st1) \<Longrightarrow> I st1"
  unfolding pg_Recharge_def Let_def by (erule transaction_keeps, assumption) (intro keeps_intros)

lemma I_Balance: "I st \<Longrightarrow> pg_Balance u st = (r, st1) \<Longrightarrow> I st1"
  unfolding pg_Balance_def by (erule transaction_keeps, assumption) (intro keeps_intros)

lemma I_Reset: "I st \<Longrightarrow> ResetDisposableRooms st = (r, st1) \<Longrightarrow> I st1"
  unfolding ResetDisposableRooms_def
  by (erule transaction_keeps, assumption) (intro keeps_intros keeps_exec I_reset)

lemma keeps_create [keeps_intros]: "keeps I (createT agg u)"
proof -
  let ?code = "r_code agg"
  let ?f = "\<lambda>st. insert_seat ?code ''host'' (player_ID (hd (r_players agg))) u (insert_round ?code 1 (insert_room ?code st))"
  have new: "keeps I (bindT (askT (\<lambda>st. ?code |\<in>| fmdom (db_rooms st))) (\<lambda>taken.
       thenT (failIf taken (Err ErrDuplicateRoom)) (thenT (execT ?f) (returnT sn))))" for sn :: Snapshot
    using I_create by (auto simp: keeps_def bindT_eq_Inr thenT_eq_Inr failIf_eq_Inr query_eq_Inr)
  show ?thesis
    unfolding createT_def Let_def PersistenceState_simps
    by (rule keeps_then, rule I_ensure, rule keeps_then, rule I_lock, rule keeps_bind, rule keeps_pure,
        rule keeps_then, rule keeps_pure, rule new)
qed

lemma keeps_write [keeps_intros]:
  "(\<And>agg p. keeps I (change agg p)) \<Longrightarrow> keeps I (writeT code u change)"
  unfolding writeT_def Let_def split_def by (intro keeps_intros)

lemma keeps_join [keeps_intros]: "keeps I (joinT code p u w e agg)"
  unfolding joinT_def by (intro keeps_intros keeps_exec I_guest)

lemma I_candidates:
  "I st \<Longrightarrow> I (snd (reconcileCandidates cs rep errs st))"
proof (induction cs rep errs st rule: reconcileCandidates.induct)
  case (2 t code k cs rep errs st)
  obtain r err st1 where r: "ReconcileRoom \<lparr>hint_RoomCode = code, hint_Round = k\<rparr> st = ((r, err), st1)"
    by (metis prod.collapse)
  then have "I st1" using I_ReconcileRoom [OF "2.prems"] by (metis snd_conv)
  with 2 r show ?case by (cases err) (simp_all add: Let_def)
qed simp

lemma I_ReconcileBatch: "I st \<Longrightarrow> I (snd (ReconcileBatch clock n st))"
  by (simp add: ReconcileBatch_def Let_def I_candidates)

lemma keeps_action [keeps_intros]:
  "(\<And>k role. keeps I (insertRow k role)) \<Longrightarrow> keeps I (actionT code u c status k0 insertRow)"
  unfolding actionT_def Let_def by (intro keeps_intros)

lemma I_recordRoomAction:
  assumes "I st" "\<And>k role. keeps I (insertRow k role)"
  shows "I (snd (recordRoomAction code u c status k0 insertRow st))"
proof -
  obtain r st1 where t: "transaction (actionT code u c status k0 insertRow) st = (r, st1)" by fastforce
  have "I st1" by (rule transaction_keeps [OF t assms(1) keeps_action [OF assms(2)]])
  then show ?thesis
    using I_ReconcileRoom
    by (auto simp: recordRoomAction_def t split: sum.splits prod.splits option.splits)
qed

lemma keeps_presence [keeps_intros]: "keeps I (advancePresenceRevision code)"
  unfolding advancePresenceRevision_def by (intro keeps_intros)

lemma keeps_close [keeps_intros]: "keeps I (closeConnectionT i t u)"
  unfolding closeConnectionT_def Let_def
  by (intro keeps_intros I_exec) simp_all

lemma I_reapEach: "I st \<Longrightarrow> I (snd (reapEach now cs n st))"
proof (induction now cs n st rule: reapEach.induct)
  case (2 now t i cs n st)
  obtain r st1 where run: "transaction (closeConnectionT i t (Some now)) st = (r, st1)" by fastforce
  have "I st1" by (rule transaction_keeps [OF run "2.prems" keeps_close])
  with 2 run show ?case by (cases r) simp_all
qed simp

lemma I_Open: "I st \<Longrightarrow> OpenConnection lease st = (r, st1) \<Longrightarrow> I st1"
  unfolding OpenConnection_def Let_def
  by (erule transaction_keeps, assumption)
    (intro keeps_intros I_exec; simp split: option.split)

lemma I_writeAccount:
  "I st \<Longrightarrow> (\<And>agg roles p. keeps I (change agg roles p)) \<Longrightarrow>
     I (snd (writeAccountCommand code u c b change st))"
  unfolding writeAccountCommand_def Let_def
  by (erule transaction_snd) (intro keeps_intros)

lemma I_Forfeit: "I st \<Longrightarrow> I (snd (pg_ForfeitExpired l t st))"
proof -
  assume inv: "I st"
  let ?m = "justSnapshot (writeT (l_RoomCode l) None (\<lambda>agg _.
         bindT (askT (\<lambda>st. fmlookup (db_presence st) (l_RoomCode l, l_PlayerID l))) (\<lambda>row.
         bindT (rowT errPresenceLeaseCurrent row) (\<lambda>p.
         thenT (failIf (pr_generation p \<noteq> l_Generation l \<or> t < pr_deadline p) errPresenceLeaseCurrent)
         (bindT (askT (\<lambda>st. \<not> fmpred (\<lambda>(c, i) q. \<not> (c = l_RoomCode l \<and> i \<noteq> l_PlayerID l
             \<and> t < pr_deadline q \<and> l_ProofAfter l < pr_refreshed_at q)) (db_presence st))) (\<lambda>remaining.
          thenT (failIf (\<not> remaining) errPresenceLeaseCurrent)
         (thenT (fundRound_pg (l_RoomCode l) (r_round agg) '''')
           (case Forfeit (l_PlayerID l) (l_Round l) agg of
              Inl e \<Rightarrow> if errors_Is e ErrStaleRound \<or> errors_Is e ErrRoundResolved \<or> errors_Is e ErrRoomClosed
                       then failT errPresenceLeaseCurrent else failT e
            | Inr agg1 \<Rightarrow> thenT (settleRound_pg (l_RoomCode l) (State agg1)) (returnT (agg1, ()))))))))))"
  have "keeps I ?m" by (intro keeps_intros)
  from transaction_snd [OF inv this] show ?thesis
    unfolding pg_ForfeitExpired_def by (auto split: sum.splits prod.splits)
qed

lemma I_writers:
  assumes "I st"
  shows "I (snd (CreateCommand_pg agg u c st))" "I (snd (JoinCommand_pg code p u w c st))"
    "I (snd (MutateCommand_pg code u mu c st))" "I (snd (RechargeCommand_pg u n c st))"
    "I (snd (pg_Create agg d u st))" "I (snd (pg_JoinFunded code p d u w st))"
    "I (snd (pg_SubmitMoveAndSettle code d u m st))"
    "I (snd (pg_RequestNextRoundAndFund code d u k st))"
    "I (snd (pg_Mutate code d u mu st))" "I (snd (pg_RefreshPresence code d u w st))"
    "I (snd (CloseConnection i t st))" "I (snd (ProcessNextDeadline t st))"
  unfolding pg_command_defs Let_def
  by (intro transaction_snd [OF assms] I_writeAccount [OF assms] keeps_intros I_exec; simp?)+

lemma I_actions:
  assumes "I st"
  shows "I (snd (SubmitMoveCommand_pg code u m c st))"
    "I (snd (RequestNextRoundCommand_pg code u k c st))"
  using assms unfolding SubmitMoveCommand_pg_def RequestNextRoundCommand_pg_def
  by (simp_all add: I_recordRoomAction keeps_receipts)

lemma I_step: "I st \<Longrightarrow> I (pgRun oper st)"
  by (cases oper)
    (simp_all add: I_writers I_actions I_Forfeit I_reapEach transaction_snd keeps_action keeps_receipts
      ReapExpiredConnections_def I_ReconcileRoom I_ReconcileBatch
      CleanupDeadlines_def CleanupCommandReceipts_def Let_def I_other
      I_Open [OF _ surjective_pairing] I_Renew [OF _ surjective_pairing]
      I_Balance [OF _ surjective_pairing] I_Recharge [OF _ surjective_pairing]
      I_Reset [OF _ surjective_pairing])

end

section \<open>Invariants of the ledger\<close>

text \<open>
  An invariant over the tables of the ledger alone, kept by the ledger's own operations, is kept by
  every operation: a \<open>core_invariant\<close>.
\<close>

locale ledger_invariant = frame_invariant +
  assumes L_ledger: "ledger st1 = ledger st \<Longrightarrow> I st1 = I st"
    and L_insert_wallet: "I st \<Longrightarrow> I (insert_wallet typ a st)"
    and L_fund [keeps_intros]: "keeps I (fundRound_pg code k u)"
    and L_settle [keeps_intros]: "keeps I (settleRound_pg code state)"
    and L_rechargeEffects [keeps_intros]: "keeps I (rechargeEffects u' n key)"
begin

lemma L_exec: "(\<And>st. ledger (f st) = ledger st) \<Longrightarrow> keeps I (execT f)"
  by (rule keeps_exec) (metis L_ledger)

lemma L_save [keeps_intros]: "keeps I (save agg roles prev rv)"
  unfolding save_def by (rule L_exec) simp

lemma L_bump [keeps_intros]: "keeps I (bump_revision code)"
  unfolding bump_revision_def by (intro keeps_intros L_exec) simp

lemma L_transition [keeps_intros]:
  "keeps I (claimRoomTransition hint)" "keeps I (transitionT hint tr)"
  unfolding claimRoomTransition_def transitionT_def Let_def
  by (intro keeps_intros L_exec; simp)+

lemma L_ReconcileRoom: "I st \<Longrightarrow> I (snd (ReconcileRoom hint st))"
proof -
  assume inv: "I st"
  show ?thesis
  proof (cases "claimRoomTransition hint st")
    case (Inl e)
    with inv show ?thesis by (simp add: ReconcileRoom_def Let_def)
  next
    case (Inr y)
    obtain tr st1 where y: "y = (tr, st1)" by (cases y)
    with Inr have 1: "I st1" using keepsD [OF L_transition(1) inv] by blast
    show ?thesis
    proof (cases tr)
      case None
      with Inr y 1 show ?thesis by (simp add: ReconcileRoom_def Let_def)
    next
      case (Some t)
      show ?thesis
      proof (cases "transitionT hint t st1")
        case (Inl e)
        with Inr y Some inv \<open>claimRoomTransition hint st = Inr y\<close> show ?thesis
          by (simp add: ReconcileRoom_def Let_def)
      next
        case (Inr z)
        obtain rv k st2 where z: "z = ((rv, k), st2)" by (metis prod.collapse)
        with Inr have 2: "I st2" using keepsD [OF L_transition(2) 1] by blast
        show ?thesis
          using keepsD [OF keeps_announce 2] Inr z y Some inv \<open>claimRoomTransition hint st = Inr y\<close>
          by (cases "announceT (hint_RoomCode hint) rv k st2")
            (auto simp: ReconcileRoom_def Let_def split: prod.splits)
      qed
    qed
  qed
qed

lemma L_release [keeps_intros]: "keeps I (releaseT i code k d now)"
  unfolding releaseT_def by (intro keeps_intros L_exec) simp_all

lemma L_settleDeadline [keeps_intros]: "keeps I (settleDeadlineT i d code k now agg roles)"
  unfolding settleDeadlineT_def Let_def by (intro keeps_intros L_exec) simp

lemma L_claimed [keeps_intros]: "keeps I (claimedDeadlineT i d now)"
  unfolding claimedDeadlineT_def Let_def by (intro keeps_intros L_exec) simp_all

lemma L_processNext [keeps_intros]: "keeps I (processNextT now)"
  unfolding processNextT_def Let_def by (intro keeps_intros L_exec) simp_all

end

sublocale ledger_invariant \<subseteq> core_invariant
proof
  show "I (insert_seat code ''host'' p u (insert_round code 1 (insert_room code st)))" if "I st" for code p u st
    using that L_ledger [of "insert_seat code ''host'' p u (insert_round code 1 (insert_room code st))" st] by simp
  show "I (insert_seat code ''guest'' p u st)" if "I st" for code p u st
    using that L_ledger [of "insert_seat code ''guest'' p u st" st] by simp
  show "I (st\<lparr>db_rooms := fmempty, db_seats := fmempty, db_rounds := fmempty,
             db_moves := fmempty, db_requests := fmempty, db_presence := fmempty,
             db_connections := fmempty, db_deadlines := fmempty, db_outbox := fmempty\<rparr>)" if "I st" for st
    by (subst L_ledger [of _ st]) (simp_all add: that ledger_def)
qed (fact L_insert_wallet L_fund L_settle L_rechargeEffects L_save L_bump L_ReconcileRoom L_processNext)+

interpretation books: ledger_invariant wallet_inv
  by unfold_locales (fact ledger_of_core [THEN wallet_inv_ledger] wallet_inv_ledger insert_wallet_inv
      keeps_fundRound keeps_settleRound keeps_rechargeEffects)+

lemma wallet_inv_migrated: "wallet_inv migrated_db"
proof -
  have "balance migrated_db a = 0" for a by (simp add: balance_def migrated_db_def)
  then show ?thesis
    by (simp add: wallet_inv_def ledger_ok_def escrow_ok_pg_def) (simp add: migrated_db_def split: if_splits)
qed

theorem wallet_inv_reachable: "pg_reachable st \<Longrightarrow> wallet_inv st"
  by (induction rule: pg_reachable.induct) (simp_all add: wallet_inv_migrated books.I_step)

end
