(* ===== verification/Postgres_Rows.thy ===== *)
theory Postgres_Rows
  imports Postgres_Properties
begin

text \<open>
  The rows of rooms and rounds in every reachable database: a round is marked resolved exactly when it
  has a result, no round is left claimed, and every room has its host's seat and its current round.
\<close>

section \<open>Frames of the ledger's transactions\<close>

text \<open>A part of the database that a transaction leaves alone.\<close>

lemma keeps_part: "(\<And>st. part (f st) = part st) \<Longrightarrow> keeps (\<lambda>st. part st = x) (execT f)"
  by (rule keeps_exec) simp

lemma keeps_part_post:
  assumes "\<And>st ws ps. part (st\<lparr>db_wallets := ws, db_postings := ps\<rparr>) = part st"
  shows "keeps (\<lambda>st. part st = x) (post_all t ds)"
proof (rule keepsI)
  fix st u st1 assume "part st = x" and run: "post_all t ds st = Inr (u, st1)"
  moreover obtain ws ps where "st1 = st\<lparr>db_wallets := ws, db_postings := ps\<rparr>"
    using post_all_spec [OF run] by blast
  ultimately show "part st1 = x" using assms by simp
qed

lemma keeps_part_record:
  assumes "\<And>st ws ps. part (st\<lparr>db_wallets := ws, db_postings := ps\<rparr>) = part st"
    and "\<And>st n ts. part (st\<lparr>db_next_transaction := n, db_transactions := ts\<rparr>) = part st"
  shows "keeps (\<lambda>st. part st = x) (record_transaction key typ ds)"
  unfolding record_transaction_def new_transaction_def
  by (intro keeps_intros keeps_part keeps_part_post assms)

abbreviation rows :: "db \<Rightarrow> _" where
  "rows st \<equiv> (db_rooms st, db_seats st, db_rounds st)"

lemma rows_record: "keeps (\<lambda>st. rows st = x) (record_transaction key typ ds)"
  by (rule keeps_part_record) simp_all

lemma rows_settle: "keeps (\<lambda>st. rows st = x) (settleRound_pg code state)"
  unfolding settleRound_pg_def Let_def split_def lockWalletBalances_def
  by (intro keeps_intros rows_record keeps_part) (simp add: insert_history_def)

lemma rows_recharge: "keeps (\<lambda>st. rows st = x) (rechargeEffects u n key)"
  unfolding rechargeEffects_def new_transaction_def Let_def
  by (intro keeps_intros keeps_part_post keeps_part) simp_all

section \<open>Consistent rows\<close>

abbreviation has_host :: "string \<Rightarrow> db \<Rightarrow> bool" where
  "has_host code st \<equiv> (code, ''host'') |\<in>| fmdom (db_seats st)"

definition consistent :: "round_row \<Rightarrow> bool" where
  "consistent rr \<longleftrightarrow> rr_status rr = (if rr_result rr = None then ''active'' else ''resolved'')"

text \<open>Up to the rounds in \<open>X\<close>, which a transaction has claimed.\<close>

definition rows_ok :: "(string \<times> uint64) set \<Rightarrow> db \<Rightarrow> bool" where
  "rows_ok X st \<longleftrightarrow> (\<forall>key rr. fmlookup (db_rounds st) key = Some rr \<longrightarrow> key \<notin> X \<longrightarrow> consistent rr)
     \<and> (\<forall>code r. fmlookup (db_rooms st) code = Some r \<longrightarrow> rm_status r \<in> {''active'', ''closed''}
          \<and> has_host code st \<and> (code, rm_current_round r) |\<in>| fmdom (db_rounds st))"

lemma rows_ok_rows: "rows st1 = rows st \<Longrightarrow> rows_ok X st1 = rows_ok X st"
  by (simp add: rows_ok_def)

lemma rows_ok_insert_round: "rows_ok X st \<Longrightarrow> rows_ok X (insert_round code k st)"
  by (auto simp: rows_ok_def insert_round_def consistent_def)

lemma rows_ok_mark_funded: "rows_ok X st \<Longrightarrow> rows_ok X (mark_funded code k st)"
  by (auto simp: rows_ok_def mark_funded_def consistent_def split: option.split)

lemma save_seats_dom: "fmdom (save_seats code inputs t) = fmdom t"
proof (induction inputs arbitrary: t)
  case (Cons i inputs)
  then show ?case by (auto simp: save_seats_def dest: fmdomI split: option.split)
qed (simp add: save_seats_def)

text \<open>A save leaves the saved round consistent, and the others as they are.\<close>

lemma rows_upsert:
  "\<exists>rr. db_rounds (upsert_round code k res forf status st) = fmupd (code, k) rr (db_rounds st)
     \<and> rr_result rr = res \<and> rr_status rr = status"
proof -
  let ?rr = "case fmlookup (db_rounds st) (code, k) of
           None \<Rightarrow> \<lparr>rr_result = res, rr_forfeited_role = forf, rr_status = status,
                    rr_funded = False, rr_created_at = db_now st\<rparr>
         | Some rr \<Rightarrow> rr\<lparr>rr_result := res, rr_forfeited_role := forf, rr_status := status\<rparr>"
  have "db_rounds (upsert_round code k res forf status st) = fmupd (code, k) ?rr (db_rounds st)"
    by (simp add: upsert_round_def)
  moreover have "rr_result ?rr = res" "rr_status ?rr = status" by (simp_all split: option.split)
  ultimately show ?thesis by blast
qed

lemma rows_save:
  shows "fmdom (db_seats (save_room agg roles prev rv st)) = fmdom (db_seats st)"
    and "db_rooms (save_room agg roles prev rv st) = (if r_code agg |\<in>| fmdom (db_rooms st)
      then fmupd (r_code agg) \<lparr>rm_status = (if r_closed agg then ''closed'' else ''active''),
        rm_current_round = r_round agg, rm_revision = rv\<rparr> (db_rooms st) else db_rooms st)"
    and "\<exists>rr. db_rounds (save_room agg roles prev rv st) = fmupd (r_code agg, r_round agg) rr (db_rounds st)
      \<and> consistent rr \<and> (rr_result rr = None) = (\<not> r_resolved agg)"
proof -
  let ?st1 = "update_room (r_code agg) (if r_closed agg then ''closed'' else ''active'') (r_round agg) rv st"
  have rounds: "db_rounds ?st1 = db_rounds st" by (simp add: update_room_def split: option.split)
  show "fmdom (db_seats (save_room agg roles prev rv st)) = fmdom (db_seats st)"
    by (simp add: save_room_def Let_def update_room_def upsert_round_def save_seats_dom split: option.split)
  show "db_rooms (save_room agg roles prev rv st) = (if r_code agg |\<in>| fmdom (db_rooms st)
      then fmupd (r_code agg) \<lparr>rm_status = (if r_closed agg then ''closed'' else ''active''),
        rm_current_round = r_round agg, rm_revision = rv\<rparr> (db_rooms st) else db_rooms st)"
    by (auto simp: save_room_def Let_def update_room_def upsert_round_def fmlookup_dom_iff split: option.split)
  show "\<exists>rr. db_rounds (save_room agg roles prev rv st) = fmupd (r_code agg, r_round agg) rr (db_rounds st)
      \<and> consistent rr \<and> (rr_result rr = None) = (\<not> r_resolved agg)"
  proof -
    let ?res = "if r_resolved agg then Some (r_result agg) else None"
      and ?status = "if r_resolved agg then ''resolved'' else ''active''"
      and ?forf = "forfeited_role (PersistenceState agg) roles"
    have saved: "db_rounds (save_room agg roles prev rv st)
        = db_rounds (upsert_round (r_code agg) (r_round agg) ?res ?forf ?status ?st1)"
      by (simp add: save_room_def Let_def)
    obtain rr where "db_rounds (upsert_round (r_code agg) (r_round agg) ?res ?forf ?status ?st1)
        = fmupd (r_code agg, r_round agg) rr (db_rounds st)" "rr_result rr = ?res" "rr_status rr = ?status"
      using rows_upsert [of "r_code agg" "r_round agg" ?res ?forf ?status ?st1] unfolding rounds by blast
    then show ?thesis unfolding saved by (intro exI [of _ rr]) (simp add: consistent_def)
  qed
qed

lemma rows_ok_save:
  assumes "rows_ok X st"
  shows "rows_ok (X - {(r_code agg, r_round agg)}) (save_room agg roles prev rv st)"
proof -
  obtain rr where "db_rounds (save_room agg roles prev rv st) = fmupd (r_code agg, r_round agg) rr (db_rounds st)"
    "consistent rr" using rows_save(3) by blast
  then show ?thesis using assms by (auto simp: rows_ok_def rows_save(1,2) split: if_splits)
qed

lemma keeps_rows_exec: "(\<And>st. rows (f st) = rows st) \<Longrightarrow> keeps (rows_ok X) (execT f)"
  by (rule keeps_exec) (metis rows_ok_rows)

lemma keeps_of_part: "(\<And>x. keeps (\<lambda>st. part st = x) m) \<Longrightarrow> (\<And>st st1. part st1 = part st \<Longrightarrow> I st1 = I st) \<Longrightarrow> keeps I m"
  unfolding keeps_def by blast

lemma rows_ok_ledger: "keeps (rows_ok X) (settleRound_pg code state)" "keeps (rows_ok X) (rechargeEffects u n key)"
  by (rule keeps_of_part [OF rows_settle] keeps_of_part [OF rows_recharge], rule rows_ok_rows, assumption)+

lemmas rows_ok_settle = rows_ok_ledger(1)

lemma rows_ok_fund: "keeps (rows_ok X) (fundRound_pg code k u)"
proof -
  have "keeps (rows_ok X) (record_transaction key ty ds)" for key ty ds
    by (rule keeps_of_part [OF rows_record]) (rule rows_ok_rows)
  then show ?thesis
    unfolding fundRound_pg_def Let_def split_def lockWalletBalances_def scheduleInactivityDeadline_def
    by (intro keeps_intros keeps_exec rows_ok_insert_round rows_ok_mark_funded;
        simp add: insert_wallet_def insert_deadline_def rows_ok_def)
qed

section \<open>Claims\<close>

text \<open>The row of a claimed round; \<open>b\<close> says whether the round is still without a result.\<close>

definition claimed_row :: "string \<times> uint64 \<Rightarrow> bool \<Rightarrow> db \<Rightarrow> bool" where
  "claimed_row key b st \<longleftrightarrow> (\<exists>rr. fmlookup (db_rounds st) key = Some rr \<and> rr_status rr = ''settling''
     \<and> (rr_result rr = None) = b)"

lemma rows_ok_claim:
  assumes "rows_ok {} st" "round_status code k st \<in> {''active'', ''resolved''}"
  shows "rows_ok {(code, k)} (set_round_status code k ''settling'' st)
    \<and> claimed_row (code, k) (round_status code k st = ''active'') (set_round_status code k ''settling'' st)"
proof -
  from assms(2) obtain rr where rr: "fmlookup (db_rounds st) (code, k) = Some rr"
    by (auto simp: round_status_def split: option.splits)
  with assms have "consistent rr" unfolding rows_ok_def by blast
  with assms rr show ?thesis
    by (auto simp: rows_ok_def claimed_row_def set_round_status_def round_status_def consistent_def split: if_splits)
qed

lemma rows_ok_release:
  assumes "rows_ok {(code, k)} st" "claimed_row (code, k) b st"
  shows "rows_ok {} (set_round_status code k (if b then ''active'' else ''resolved'') st)"
proof -
  from assms(2) obtain rr where rr: "fmlookup (db_rounds st) (code, k) = Some rr" "(rr_result rr = None) = b"
    by (auto simp: claimed_row_def)
  then have "consistent (rr\<lparr>rr_status := (if b then ''active'' else ''resolved'')\<rparr>)" by (simp add: consistent_def)
  with assms(1) rr(1) show ?thesis by (cases b) (auto simp: rows_ok_def set_round_status_def)
qed

definition claimed :: "string \<Rightarrow> uint64 \<Rightarrow> bool \<Rightarrow> db \<Rightarrow> bool" where
  "claimed code k b st \<longleftrightarrow> rows_ok {(code, k)} st \<and> claimed_row (code, k) b st"

lemma claimed_rows: "rows st1 = rows st \<Longrightarrow> claimed code k b st1 = claimed code k b st"
  by (simp add: claimed_def rows_ok_def claimed_row_def)

lemma claimed_status: "claimed code k b st \<Longrightarrow> round_status code k st = ''settling''"
  by (auto simp: claimed_def claimed_row_def round_status_def)

lemma claimed_insert_round: "claimed code k b st \<Longrightarrow> claimed code k b (insert_round c n st)"
proof -
  assume c: "claimed code k b st"
  then obtain rr where rr: "fmlookup (db_rounds st) (code, k) = Some rr" "rr_status rr = ''settling''"
    "(rr_result rr = None) = b" unfolding claimed_def claimed_row_def by blast
  have "fmlookup (db_rounds (insert_round c n st)) (code, k) = Some rr"
    using rr(1) fmdomI [OF rr(1)] unfolding insert_round_def by auto
  with rr c show ?thesis unfolding claimed_def claimed_row_def by (blast intro: rows_ok_insert_round)
qed

lemma claimed_mark_funded: "claimed code k b st \<Longrightarrow> claimed code k b (mark_funded c n st)"
proof -
  assume c: "claimed code k b st"
  then obtain rr where rr: "fmlookup (db_rounds st) (code, k) = Some rr" "rr_status rr = ''settling''"
    "(rr_result rr = None) = b" unfolding claimed_def claimed_row_def by blast
  have "\<exists>rr1. fmlookup (db_rounds (mark_funded c n st)) (code, k) = Some rr1
      \<and> rr_status rr1 = rr_status rr \<and> rr_result rr1 = rr_result rr"
    using rr(1) unfolding mark_funded_def by (auto split: option.split)
  with rr c show ?thesis unfolding claimed_def claimed_row_def by (metis rows_ok_mark_funded)
qed

lemma claimed_fund: "keeps (claimed code k b) (fundRound_pg c n u)"
proof -
  have "keeps (claimed code k b) (record_transaction key ty ds)" for key ty ds
    by (rule keeps_of_part [OF rows_record]) (rule claimed_rows)
  then show ?thesis
    unfolding fundRound_pg_def Let_def split_def lockWalletBalances_def scheduleInactivityDeadline_def
    by (intro keeps_intros keeps_exec claimed_insert_round claimed_mark_funded;
        simp add: insert_wallet_def insert_deadline_def claimed_def rows_ok_def claimed_row_def)
qed

section \<open>Reconciling\<close>

definition committed :: "transition \<Rightarrow> uint64 \<Rightarrow> room \<Rightarrow> room result" where
  "committed tr k agg = (case tr of Resolve \<Rightarrow> ResolveCommittedMoves k agg
                                  | Advance \<Rightarrow> AdvanceCommittedNextRound k agg)"

definition after_save :: "RoomHint \<Rightarrow> transition \<Rightarrow> room \<Rightarrow> unit tx" where
  "after_save hint tr agg1 = (let code = hint_RoomCode hint; k = hint_Round hint in
     case tr of
       Resolve \<Rightarrow> thenT (settleRound_pg code (State agg1))
         (execT (\<lambda>st. finish_deadlines (pending_of code k) (\<lambda>_. ''cancelled'') (db_now st) st))
     | Advance \<Rightarrow> thenT (fundRound_pg code (r_round agg1) '''')
         (execT (\<lambda>st. if round_status code k st = ''settling'' then set_round_status code k ''resolved'' st
                     else st)))"

lemma transition_saved:
  assumes "transitionT hint tr st = Inr (y, st2)"
  obtains agg roles agg1 rv where "load_room (hint_RoomCode hint) st = Inr (agg, roles)"
    "committed tr (hint_Round hint) agg = Inr agg1"
    "after_save hint tr agg1 (save_room agg1 roles (r_round agg) rv st) = Inr ((), st2)"
proof -
  have "transitionT hint tr = bindT (load (hint_RoomCode hint)) (\<lambda>(agg, roles).
      bindT (liftT (committed tr (hint_Round hint) agg)) (\<lambda>agg1.
      bindT (askT (\<lambda>st. fmlookup (db_rooms st) (hint_RoomCode hint))) (\<lambda>row. bindT (rowT ErrNoRows row) (\<lambda>r.
      thenT (save agg1 roles (r_round agg) (rm_revision r + 1))
      (thenT (after_save hint tr agg1) (returnT (rm_revision r + 1, r_round agg1)))))))"
    by (simp add: transitionT_def committed_def after_save_def Let_def)
  with assms have "\<exists>agg roles agg1 rv. load_room (hint_RoomCode hint) st = Inr (agg, roles)
      \<and> committed tr (hint_Round hint) agg = Inr agg1
      \<and> after_save hint tr agg1 (save_room agg1 roles (r_round agg) rv st) = Inr ((), st2)"
    by (auto simp: load_def save_def split_def bindT_eq_Inr thenT_eq_Inr query_eq_Inr liftT_eq_Inr rowT_eq_Inr)
  then show thesis using that by blast
qed

lemma committed_fields:
  assumes "committed tr k agg = Inr agg1"
  shows "r_code agg1 = r_code agg \<and> r_round agg = k \<and> r_round agg1 = (case tr of Resolve \<Rightarrow> k | Advance \<Rightarrow> k + 1)"
  using assms
  by (cases tr) (auto simp: committed_def ResolveCommittedMoves_def AdvanceCommittedNextRound_def guarded_eq_Inr
      resolve_def startNextRound_def Let_def split: list.splits)

lemma rows_ok_transition:
  assumes "claimed code k (tr = Resolve) st" "transitionT \<lparr>hint_RoomCode = code, hint_Round = k\<rparr> tr st = Inr (y, st2)"
  shows "rows_ok {} st2"
proof -
  let ?hint = "\<lparr>hint_RoomCode = code, hint_Round = k\<rparr>"
  obtain agg roles agg1 rv where load: "load_room code st = Inr (agg, roles)"
    and c: "committed tr k agg = Inr agg1"
    and rest: "after_save ?hint tr agg1 (save_room agg1 roles (r_round agg) rv st) = Inr ((), st2)"
    by (rule transition_saved [OF assms(2)]) simp
  let ?st1 = "save_room agg1 roles (r_round agg) rv st"
  from load have code: "r_code agg = code" by (auto elim: load_room_Inr)
  note f = committed_fields [OF c]
  note saved = rows_ok_save [of "{(code, k)}" st agg1 roles "r_round agg" rv]
  show ?thesis
  proof (cases tr)
    case Resolve
    with saved assms(1) f code have ok1: "rows_ok {} ?st1" by (simp add: claimed_def)
    have "keeps (rows_ok {}) (after_save ?hint Resolve agg1)"
      unfolding after_save_def Let_def transition.case
      by (intro keeps_intros rows_ok_settle keeps_rows_exec) (simp_all add: finish_deadlines_def)
    from keepsD [OF this ok1 rest [unfolded Resolve]] show ?thesis .
  next
    case Advance
    have agg1: "r_code agg1 = code" "r_round agg1 = k + 1" using f code Advance by simp_all
    obtain rr where rr: "db_rounds ?st1 = fmupd (code, k + 1) rr (db_rounds st)"
      using rows_save(3) [of agg1 roles "r_round agg" rv st] unfolding agg1 by blast
    have "rows_ok {(code, k)} ?st1" using saved assms(1) unfolding agg1 claimed_def by simp
    moreover have "claimed_row (code, k) False ?st1"
      using assms(1) Advance by (simp add: claimed_def claimed_row_def rr)
    ultimately have "claimed code k False ?st1" by (simp add: claimed_def)
    moreover from rest Advance obtain st3 where fund: "fundRound_pg code (k + 1) '''' ?st1 = Inr ((), st3)"
      and st2: "st2 = (if round_status code k st3 = ''settling'' then set_round_status code k ''resolved'' st3 else st3)"
      using f by (auto simp: after_save_def Let_def thenT_eq_Inr query_eq_Inr)
    ultimately have c3: "claimed code k False st3" using keepsD [OF claimed_fund] by blast
    from st2 have "st2 = set_round_status code k ''resolved'' st3" by (simp add: claimed_status [OF c3])
    with c3 show ?thesis using rows_ok_release [of code k st3 False] by (simp add: claimed_def)
  qed
qed

lemma rows_ok_ReconcileRoom: "rows_ok {} st \<Longrightarrow> rows_ok {} (snd (ReconcileRoom hint st))"
proof -
  assume ok: "rows_ok {} st"
  obtain code k where hint: "hint = \<lparr>hint_RoomCode = code, hint_Round = k\<rparr>" by (cases hint) simp
  show ?thesis
  proof (cases "claimRoomTransition hint st")
    case (Inl e)
    with ok show ?thesis by (simp add: ReconcileRoom_def Let_def)
  next
    case (Inr x)
    obtain tr st1 where x: "x = (tr, st1)" by (cases x)
    show ?thesis
    proof (cases tr)
      case None
      with Inr x have "st1 = st"
        by (auto simp: claimRoomTransition_def Let_def split_def bindT_eq_Inr query_eq_Inr thenT_eq_Inr
            split: if_splits)
      with None Inr x ok show ?thesis by (simp add: ReconcileRoom_def Let_def)
    next
      case (Some t)
      with Inr x have st1: "st1 = set_round_status code k ''settling'' st"
        and status: "round_status code k st = (if t = Resolve then ''active'' else ''resolved'')"
        by (auto simp: claimRoomTransition_def Let_def split_def bindT_eq_Inr query_eq_Inr thenT_eq_Inr hint
            resolvable_def advanceable_def round_status_def split: if_splits option.splits)
      have claimed: "claimed code k (t = Resolve) st1"
        using rows_ok_claim [OF ok, of code k] status by (auto simp: st1 claimed_def split: if_splits)
      show ?thesis
      proof (cases "transitionT hint t st1")
        case (Inl e)
        with \<open>claimRoomTransition hint st = Inr x\<close> x Some ok show ?thesis by (simp add: ReconcileRoom_def Let_def)
      next
        case (Inr z)
        obtain rv k1 st2 where z: "z = ((rv, k1), st2)" by (metis prod.collapse)
        with Inr claimed rows_ok_transition have ok2: "rows_ok {} st2" by (auto simp: hint)
        have "keeps (rows_ok {}) (announceT (hint_RoomCode hint) rv k1)"
          unfolding announceT_def insert_outbox_def notifyRoomStateChanged_def Let_def
          by (intro keeps_intros keeps_rows_exec) simp_all
        from keepsD [OF this ok2] show ?thesis
          using \<open>claimRoomTransition hint st = Inr x\<close> x Some Inr z ok
          by (cases "announceT (hint_RoomCode hint) rv k1 st2")
            (auto simp: ReconcileRoom_def Let_def split: prod.splits)
      qed
    qed
  qed
qed

section \<open>Deadlines\<close>

interpretation fixed_rows: frame_invariant "\<lambda>st. rows st = x" for x
  by unfold_locales (simp add: core_def)

lemma awardSubmitters_fields [simp]:
  "r_code (awardSubmitters ps agg) = r_code agg" "r_round (awardSubmitters ps agg) = r_round agg"
  by (induction ps agg rule: awardSubmitters.induct) simp_all

lemma deadlineOutcome_fields:
  assumes "deadlineOutcome d present roles k agg = Some (Inr agg1)"
  shows "r_code agg1 = r_code agg \<and> r_round agg1 = r_round agg \<and> r_resolved agg1"
  using assms
  by (auto simp: deadlineOutcome_def Forfeit_def ResolveDeadlineDraw_def ResolveInactivity_def guarded_eq_Inr
      bindR_eq_Inr Let_def split: if_splits)

lemma keeps_settled_rows:
  "keeps (rows_ok {}) (insert_outbox_once code rv)"
  "keeps (rows_ok {}) (execT (finish_deadlines P f t))"
  unfolding insert_outbox_once_def insert_outbox_def Let_def
  by (intro keeps_intros keeps_rows_exec; simp add: finish_deadlines_def)+

lemma rows_ok_reactivate:
  assumes "claimed code k True st" shows "rows_ok {} (reactivate code k st)"
  using claimed_status [OF assms] rows_ok_release [of code k st True] assms
  by (simp add: reactivate_def claimed_def)

lemma rows_cancel [simp]: "rows (cancel_deadline i t st) = rows st"
  by (simp add: cancel_deadline_def finish_deadlines_def)

lemma rows_ok_releaseT:
  assumes "releaseT i code k d t st = Inr (y, st1)" "claimed code k True st"
  shows "rows_ok {} st1"
proof -
  have "claimed code k True (cancel_deadline i t st)" using assms(2) claimed_rows [OF rows_cancel] by blast
  moreover have "st1 = reactivate code k (cancel_deadline i t st)"
    using assms(1) by (simp add: releaseT_def thenT_eq_Inr query_eq_Inr)
  ultimately show ?thesis by (simp add: rows_ok_reactivate)
qed

lemma rows_ok_settleDeadlineT:
  assumes "settleDeadlineT i d code k t agg1 roles st = Inr (y, st1)" "claimed code k True st"
    and "r_code agg1 = code" "r_round agg1 = k"
  shows "rows_ok {} st1"
proof -
  from assms(1) obtain rv where rest: "thenT (settleRound_pg code (State agg1))
      (thenT (insert_outbox_once code rv)
      (thenT (execT (finish_deadlines (pending_of code k)
               (\<lambda>j. if j = i then ''completed'' else ''cancelled'') t)) (returnT y)))
      (save_room agg1 roles k rv st) = Inr (y, st1)"
    by (auto simp: settleDeadlineT_def Let_def save_def bindT_eq_Inr thenT_eq_Inr query_eq_Inr rowT_eq_Inr)
  have ok: "rows_ok {} (save_room agg1 roles k rv st)"
    using rows_ok_save [of "{(code, k)}" st agg1 roles k rv] assms(2-4) by (simp add: claimed_def)
  have "keeps (rows_ok {}) (thenT (settleRound_pg code (State agg1))
      (thenT (insert_outbox_once code rv)
      (thenT (execT (finish_deadlines (pending_of code k)
               (\<lambda>j. if j = i then ''completed'' else ''cancelled'') t)) (returnT y))))"
    by (intro keeps_intros rows_ok_settle keeps_settled_rows)
  from keepsD [OF this ok rest] show ?thesis .
qed

text \<open>The endings of a claimed deadline: nothing applied, the claim was given back, or the round settled.\<close>

lemma claimedDeadline_cases:
  assumes "claimedDeadlineT i0 d0 t st = Inr (y, st1)" "current_active (dl_room d0) k st"
  obtains (none) agg st2 where "nextApplicableDeadline (dl_room d0) k agg t st = Inr (None, st2)"
      "st1 = reactivate (dl_room d0) k st2"
  | (released) agg i d st2 where "nextApplicableDeadline (dl_room d0) k agg t st = Inr (Some (i, d), st2)"
      "releaseT i (dl_room d0) k d t st2 = Inr (y, st1)"
  | (settled) agg i d agg1 roles st2 where "nextApplicableDeadline (dl_room d0) k agg t st = Inr (Some (i, d), st2)"
      "settleDeadlineT i d (dl_room d0) k t agg1 roles st2 = Inr (y, st1)"
      "r_code agg1 = dl_room d0" "r_round agg1 = k" "r_resolved agg1"
proof -
  let ?code = "dl_room d0"
  from assms(2) obtain r where r: "fmlookup (db_rooms st) ?code = Some r" "rm_current_round r = k"
    by (auto simp: current_active_def split: option.splits)
  with assms(1) obtain agg roles found st2 where load: "load_room ?code st = Inr (agg, roles)"
    and found: "nextApplicableDeadline ?code k agg t st = Inr (found, st2)"
    and rest: "(case found of
           None \<Rightarrow> thenT (execT (reactivate ?code k)) (returnT (stale_result ?code k '''' (dl_due d0)))
         | Some (i, d) \<Rightarrow>
            bindT (askT (activeRoles ?code t)) (\<lambda>present.
            case deadlineOutcome d present roles k agg of
              None \<Rightarrow> releaseT i ?code k d t
            | Some (Inl e) \<Rightarrow>
                if errors_Is e ErrRoundResolved \<or> errors_Is e ErrStaleRound \<or> errors_Is e ErrRoomClosed
                then releaseT i ?code k d t else failT e
            | Some (Inr agg1) \<Rightarrow> settleDeadlineT i d ?code k t agg1 roles)) st2 = Inr (y, st1)"
    by (auto simp: claimedDeadlineT_def Let_def load_def bindT_eq_Inr query_eq_Inr liftT_eq_Inr)
  have agg: "r_code agg = ?code" "r_round agg = k" using load r by (auto elim: load_room_Inr)
  show thesis
  proof (cases found)
    case None
    with rest have "st1 = reactivate ?code k st2" by (simp add: thenT_eq_Inr query_eq_Inr)
    with found None show thesis by (intro none) simp_all
  next
    case (Some x)
    obtain i d where x: "x = (i, d)" by (cases x)
    show thesis
    proof (cases "deadlineOutcome d (activeRoles ?code t st2) roles k agg")
      case None
      with rest Some x have "releaseT i ?code k d t st2 = Inr (y, st1)" by (simp add: bindT_eq_Inr query_eq_Inr)
      with found Some x show thesis by (intro released) simp_all
    next
      case out: (Some z)
      show thesis
      proof (cases z)
        case (Inl e)
        with rest Some x out have "releaseT i ?code k d t st2 = Inr (y, st1)"
          by (simp add: bindT_eq_Inr query_eq_Inr split: if_splits)
        with found Some x show thesis by (intro released) simp_all
      next
        case (Inr agg1)
        with rest Some x out have "settleDeadlineT i d ?code k t agg1 roles st2 = Inr (y, st1)"
          by (simp add: bindT_eq_Inr query_eq_Inr)
        with found Some x show thesis
          using deadlineOutcome_fields [OF out [unfolded Inr]] agg
          by (intro settled [of agg i d st2 agg1 roles]) simp_all
      qed
    qed
  qed
qed

lemma rows_ok_claimedDeadline:
  assumes "claimedDeadlineT i0 d0 t st = Inr (y, st1)" "claimed (dl_room d0) k True st"
    and "current_active (dl_room d0) k st"
  shows "rows_ok {} st1"
proof -
  have next_claimed: "claimed (dl_room d0) k True st2" if "nextApplicableDeadline (dl_room d0) k agg t st = Inr (f, st2)"
    for agg f st2 using keepsD [OF fixed_rows.keeps_next refl that] claimed_rows assms(2) by blast
  from assms(1,3) show ?thesis
  proof (cases rule: claimedDeadline_cases)
    case none
    then show ?thesis using next_claimed by (simp add: rows_ok_reactivate)
  next
    case released
    then show ?thesis using next_claimed rows_ok_releaseT by blast
  next
    case settled
    then show ?thesis using next_claimed rows_ok_settleDeadlineT by blast
  qed
qed

text \<open>A turn that found a due deadline: skipped or cancelled, or claimed and worked on.\<close>

lemma processNextT_cases:
  assumes "processNextT t st = Inr (y, st1)"
  obtains (idle) "due_deadlines (\<lambda>_. True) t st = []" "y = zeroDeadlineResult" "st1 = st"
  | (skipped) i d ds where "due_deadlines (\<lambda>_. True) t st = (i, d) # ds" "dr_Processed y"
      "\<not> (round_live (dl_room d) (dl_round d) st \<and> round_funded (dl_room d) (dl_round d) st)"
      "st1 = (if round_live (dl_room d) (dl_round d) st then st else cancel_deadline i t st)"
  | (worked) i d ds where "due_deadlines (\<lambda>_. True) t st = (i, d) # ds"
      "round_live (dl_room d) (dl_round d) st" "round_funded (dl_room d) (dl_round d) st"
      "claimedDeadlineT i d t (set_round_status (dl_room d) (dl_round d) ''settling'' st) = Inr (y, st1)"
      "current_active (dl_room d) (dl_round d) (set_round_status (dl_room d) (dl_round d) ''settling'' st)"
proof (cases "due_deadlines (\<lambda>_. True) t st")
  case Nil
  with assms show thesis by (intro idle) (simp_all add: processNextT_def bindT_eq_Inr query_eq_Inr)
next
  case (Cons x ds)
  obtain i d where x: "x = (i, d)" by (cases x)
  let ?code = "dl_room d" and ?k = "dl_round d"
  show thesis
  proof (cases "round_live ?code ?k st \<and> round_funded ?code ?k st")
    case False
    with assms Cons x have "y = stale_result ?code ?k '''' (dl_due d)"
      "st1 = (if round_live ?code ?k st then st else cancel_deadline i t st)"
      by (auto simp: processNextT_def Let_def bindT_eq_Inr thenT_eq_Inr query_eq_Inr)
    with Cons x False show thesis by (intro skipped) (simp_all add: stale_result_def)
  next
    case True
    with assms Cons x have "claimedDeadlineT i d t (set_round_status ?code ?k ''settling'' st) = Inr (y, st1)"
      by (auto simp: processNextT_def Let_def bindT_eq_Inr thenT_eq_Inr query_eq_Inr)
    moreover have "current_active ?code ?k (set_round_status ?code ?k ''settling'' st)"
      using True by (auto simp: round_live_def current_active_def set_round_status_def split: option.splits)
    ultimately show thesis using Cons x True by (intro worked) simp_all
  qed
qed

lemma rows_ok_deadline: "keeps (rows_ok {}) (processNextT t)"
proof (rule keepsI)
  fix st y st1 assume ok: "rows_ok {} st" and "processNextT t st = Inr (y, st1)"
  from this(2) show "rows_ok {} st1"
  proof (cases rule: processNextT_cases)
    case idle
    with ok show ?thesis by simp
  next
    case skipped
    with ok show ?thesis using rows_ok_rows [OF rows_cancel] by simp
  next
    case (worked i d ds)
    have "round_status (dl_room d) (dl_round d) st = ''active''" using worked by (simp add: round_live_def)
    with rows_ok_claim [OF ok, of "dl_room d" "dl_round d"]
    have "claimed (dl_room d) (dl_round d) True (set_round_status (dl_room d) (dl_round d) ''settling'' st)"
      by (simp add: claimed_def)
    with worked show ?thesis using rows_ok_claimedDeadline by blast
  qed
qed

section \<open>Every reachable database\<close>

lemma rows_ok_create:
  assumes "code |\<notin>| fmdom (db_rooms st)" "rows_ok {} st"
  shows "rows_ok {} (insert_seat code ''host'' p u (insert_round code 1 (insert_room code st)))"
  using assms(2) rows_ok_insert_round [of "{}" st code 1]
  by (auto simp: rows_ok_def insert_seat_def insert_room_def insert_round_def consistent_def split: if_splits)

lemma rows_ok_guest: "rows_ok {} st \<Longrightarrow> rows_ok {} (insert_seat code ''guest'' p u st)"
  by (auto simp: rows_ok_def insert_seat_def)

lemma rows_ok_saveT: "keeps (rows_ok {}) (save agg roles prev rv)"
  unfolding save_def by (intro keeps_intros keeps_exec) (use rows_ok_save [of "{}"] in simp)

lemma rows_ok_bump: "keeps (rows_ok {}) (bump_revision code)"
proof (rule keepsI)
  fix st y st1 assume ok: "rows_ok {} st" and "bump_revision code st = Inr (y, st1)"
  then obtain r where "fmlookup (db_rooms st) code = Some r"
    and "st1 = st\<lparr>db_rooms := fmupd code (r\<lparr>rm_revision := rm_revision r + 1\<rparr>) (db_rooms st)\<rparr>"
    by (auto simp: bump_revision_def bindT_eq_Inr thenT_eq_Inr query_eq_Inr rowT_eq_Inr)
  with ok show "rows_ok {} st1" by (simp add: rows_ok_def)
qed

interpretation rounds: core_invariant "rows_ok {}"
proof (unfold_locales, goal_cases)
  case (1 st1 st)
  then show ?case by (intro rows_ok_rows) (simp add: core_def)
next
  case (2 st ty a)
  then show ?case using rows_ok_rows [of "insert_wallet ty a st" st] by (simp add: insert_wallet_def)
qed (simp_all add: rows_ok_fund rows_ok_ledger rows_ok_saveT rows_ok_bump rows_ok_create rows_ok_guest
    rows_ok_ReconcileRoom rows_ok_deadline, simp add: rows_ok_def)

lemma rows_ok_reachable: "pg_reachable st \<Longrightarrow> rows_ok {} st"
  by (induction rule: pg_reachable.induct) (simp_all add: rounds.I_step, simp add: rows_ok_def migrated_db_def)

end
