(* ===== verification/Postgres_Claims.thy ===== *)
theory Postgres_Claims
  imports Postgres_Rows Service
begin

text \<open>
  The properties of the PostgreSQL ledger and writers: the books in every reachable database, the
  settlement of a round, the growth of the ledger, the receipts of commands, and the aggregate that
  the rows hold after a writer.
\<close>

section \<open>A short game\<close>

text \<open>Two accounts recharge, one creates a room, the other joins, both move. Evaluated by the witnesses.\<close>

definition recharged_db :: db where
  "recharged_db = pgRun (PRecharge ''bob'' 200 ''k2'') (pgRun (PRecharge ''ana'' 200 ''k1'') migrated_db)"

definition ana_room :: room where
  "ana_room = \<lparr>r_code = ''R'', r_players = [\<lparr>player_ID = ''p1'', player_Wins = 0\<rparr>], r_moves = fmempty,
     r_resolved = False, r_result = '''', r_forfeitedPlayerID = '''', r_round = 1,
     r_nextRoundRequests = fmempty, r_closed = False\<rparr>"

definition ten_seconds :: PresenceWindow where
  "ten_seconds = \<lparr>w_ObservedAt = 0, w_ProofAfter = 0, w_Deadline = 10 * Second, w_EvaluateAt = 12 * Second\<rparr>"

definition created_db :: db where
  "created_db = pgRun (PCreate ana_room ''ana'') recharged_db"

definition funded_db :: db where
  "funded_db = pgRun (PJoinFunded ''R'' ''p2'' ''bob'' ten_seconds) created_db"

definition moved_db :: db where
  "moved_db = pgRun (PSubmitMove ''R'' ''ana'' ''rock'') funded_db"

definition settled_db :: db where
  "settled_db = pgRun (PSubmitMove ''R'' ''bob'' ''paper'') moved_db"

lemma game_reachable:
  "pg_reachable recharged_db" "pg_reachable created_db" "pg_reachable funded_db"
  "pg_reachable moved_db" "pg_reachable settled_db"
  unfolding settled_db_def moved_db_def funded_db_def created_db_def recharged_db_def
  by (intro pg_start pg_step)+

section \<open>The books of every reachable database\<close>

text \<open>C3: Double-entry book-keeping. In every database the server can reach, the balance of every account
  is the sum of its postings, the postings of every transaction cancel, and only the mint's balance
  may be negative: coins are moved, and made by recharges alone.
\<close>
theorem pg_books_balance:
  assumes "pg_reachable st"
  shows "balance st a = account_sum a (db_postings st) \<and> transaction_sum t (db_postings st) = 0
    \<and> (\<forall>b w. fmlookup (db_wallets st) b = Some w \<longrightarrow> wa_type w \<noteq> ''mint'' \<longrightarrow> 0 \<le> wa_balance w)"
  using wallet_inv_reachable [OF assms] by (simp add: wallet_inv_def ledger_ok_def)

theorem pg_books_balance_witness:
  "balance settled_db ''user:bob'' = account_sum ''user:bob'' (db_postings settled_db)
   \<and> transaction_sum 4 (db_postings settled_db) = 0 \<and> balance settled_db ''user:bob'' = 225"
proof -
  have "balance settled_db ''user:bob'' = 225" by code_simp
  then show ?thesis using pg_books_balance [OF game_reachable(5), of "''user:bob''" 4] by simp
qed

text \<open>C6: The escrow of a round. In every reachable database the escrow account of a round holds exactly
  the two stakes from the moment they are posted until the settlement is, and nothing before or
  after; nothing is settled that was not staked, and the history lists exactly the settled rounds.
\<close>
theorem pg_escrow_backed:
  assumes "pg_reachable st"
  shows "balance st (escrowAccountID code k)
      = (if stake_key code k |\<in>| fmdom (db_transactions st)
           \<and> settlement_key code k |\<notin>| fmdom (db_transactions st) then RoundStake * 2 else 0)
    \<and> (settlement_key code k |\<in>| fmdom (db_transactions st)
         \<longrightarrow> stake_key code k |\<in>| fmdom (db_transactions st))
    \<and> ((code, k) |\<in>| fmdom (db_history st)
         \<longleftrightarrow> settlement_key code k |\<in>| fmdom (db_transactions st))"
  using wallet_inv_reachable [OF assms] unfolding wallet_inv_def escrow_ok_pg_def by blast

theorem pg_escrow_backed_witness:
  "balance moved_db (escrowAccountID ''R'' 1) = 100 \<and> (''R'', 1) |\<notin>| fmdom (db_history moved_db)
   \<and> balance settled_db (escrowAccountID ''R'' 1) = 0"
proof -
  have "stake_key ''R'' 1 |\<in>| fmdom (db_transactions moved_db)"
    "settlement_key ''R'' 1 |\<notin>| fmdom (db_transactions moved_db)"
    "settlement_key ''R'' 1 |\<in>| fmdom (db_transactions settled_db)" by code_simp+
  then show ?thesis
    using pg_escrow_backed [OF game_reachable(4), of "''R''" 1]
      pg_escrow_backed [OF game_reachable(5), of "''R''" 1] by simp
qed

text \<open>C4: Settling a round. In a reachable database, a settlement that goes through for a round that is
  not in the history empties the escrow and pays the winner 75 and the house 25, or on a draw each
  player the stake; and a second settlement of the round, with whatever outcome, changes nothing.
\<close>
theorem settlement_pays_exactly_once:
  assumes "pg_reachable st" "settleRound_pg code state st = Inr (u, st1)"
    and "(code, st_Round state) |\<notin>| fmdom (db_history st)"
    and "seat_owners code st = [host, guest]"
    and "st_Result state \<in> {Draw, PlayerOneWins, PlayerTwoWins}"
  shows "balance st1 (escrowAccountID code (st_Round state)) = 0
    \<and> balance st1 (userAccountID host) = balance st (userAccountID host)
        + (if st_Result state = Draw then RoundStake
           else if st_Result state = PlayerOneWins then WinnerPayout else 0)
    \<and> balance st1 (userAccountID guest) = balance st (userAccountID guest)
        + (if st_Result state = Draw then RoundStake
           else if st_Result state = PlayerTwoWins then WinnerPayout else 0)
    \<and> balance st1 ''house'' = balance st ''house'' + (if st_Result state = Draw then 0 else HousePayout)
    \<and> (st_Round state' = st_Round state \<longrightarrow> settleRound_pg code state' st1 = Inr ((), st1))"
proof -
  have inv: "wallet_inv st" by (rule wallet_inv_reachable [OF assms(1)])
  then have "settlement_key code (st_Round state) |\<notin>| fmdom (db_transactions st)"
    using assms(3) unfolding wallet_inv_def escrow_ok_pg_def by blast
  with settleRound_pays [OF assms(2) _ assms(3) _ _ assms(5)] settleRound_once [OF assms(2) inv]
  show ?thesis using inv assms(4) by (simp add: wallet_inv_def)
qed

definition paper_wins :: roomState where
  "paper_wins = \<lparr>st_Code = ''R'', st_Players = [], st_Ready = True, st_Resolved = True, st_Round = 1,
     st_Closed = False, st_Moves = [], st_Result = PlayerTwoWins, st_Forfeit = False\<rparr>"

theorem settlement_pays_exactly_once_witness:
  "\<exists>st1. settleRound_pg ''R'' paper_wins moved_db = Inr ((), st1) \<and> balance st1 ''user:bob'' = 225
     \<and> balance st1 ''house'' = 25 \<and> settleRound_pg ''R'' paper_wins st1 = Inr ((), st1)"
proof -
  have "(case settleRound_pg ''R'' paper_wins moved_db of Inl e \<Rightarrow> False | Inr r \<Rightarrow> True)"
    "(''R'', st_Round paper_wins) |\<notin>| fmdom (db_history moved_db)"
    "seat_owners ''R'' moved_db = [''ana'', ''bob'']" "balance moved_db ''user:bob'' = 150"
    "balance moved_db ''house'' = 0" by code_simp+
  moreover from this(1) obtain st1 where "settleRound_pg ''R'' paper_wins moved_db = Inr ((), st1)"
    by (auto split: sum.splits)
  ultimately show ?thesis
    using settlement_pays_exactly_once [OF game_reachable(4), of "''R''" paper_wins "()" st1 "''ana''" "''bob''" paper_wins]
    by (simp add: paper_wins_def userAccountID_def)
qed

text \<open>C10: The state machine of a round's row. In every reachable database, between transactions, a round is
  marked resolved exactly when it has a result and active otherwise: no transaction commits with a
  round left in \<open>settling\<close>, so a claim is never leaked. And every room has its host's seat and the row
  of its current round, which is what \<open>load\<close> and the locks of the commands rely on.
\<close>
theorem round_rows_consistent:
  assumes "pg_reachable st"
  shows "(fmlookup (db_rounds st) (code, k) = Some rr
      \<longrightarrow> rr_status rr = (if rr_result rr = None then ''active'' else ''resolved''))
    \<and> (fmlookup (db_rooms st) code = Some r \<longrightarrow> rm_status r \<in> {''active'', ''closed''}
         \<and> (code, ''host'') |\<in>| fmdom (db_seats st)
         \<and> (code, rm_current_round r) |\<in>| fmdom (db_rounds st))"
  using rows_ok_reachable [OF assms] unfolding rows_ok_def consistent_def by blast

theorem round_rows_consistent_witness:
  "round_status ''R'' 1 moved_db = ''active'' \<and> round_status ''R'' 1 settled_db = ''resolved''
   \<and> (''R'', 1) |\<in>| fmdom (db_rounds settled_db)"
proof -
  have "fmlookup (db_rounds moved_db) (''R'', 1) = Some \<lparr>rr_result = None, rr_forfeited_role = None,
      rr_status = ''active'', rr_funded = True, rr_created_at = 0\<rparr>"
    "fmlookup (db_rounds settled_db) (''R'', 1) = Some \<lparr>rr_result = Some PlayerTwoWins,
      rr_forfeited_role = None, rr_status = ''resolved'', rr_funded = True, rr_created_at = 0\<rparr>"
    "fmlookup (db_rooms settled_db) ''R'' = Some \<lparr>rm_status = ''active'', rm_current_round = 1, rm_revision = 4\<rparr>"
    by code_simp+
  then show ?thesis
    using round_rows_consistent [OF game_reachable(4), of "''R''" 1]
      round_rows_consistent [OF game_reachable(5), of "''R''" 1] by (auto simp: round_status_def dest: fmdomI)
qed

section \<open>The ledger only grows\<close>

definition ledger_grows :: "db \<Rightarrow> db \<Rightarrow> bool" where
  "ledger_grows st0 st \<longleftrightarrow> (\<exists>ps. db_postings st = db_postings st0 @ ps)
     \<and> (\<forall>key t. fmlookup (db_transactions st0) key = Some t \<longrightarrow> fmlookup (db_transactions st) key = Some t)
     \<and> (\<forall>round h. fmlookup (db_history st0) round = Some h \<longrightarrow> fmlookup (db_history st) round = Some h)"

lemma ledger_grows_trans: "ledger_grows st0 st \<Longrightarrow> ledger_grows st st1 \<Longrightarrow> ledger_grows st0 st1"
  unfolding ledger_grows_def by (metis append.assoc)

lemma ledger_grows_post_all:
  assumes "new_transaction key typ auth amount st = Inr (t, st1)" "post_all t ds st1 = Inr (u, st2)"
    and "key |\<notin>| fmdom (db_transactions st)"
  shows "ledger_grows st st2"
proof -
  have st1: "st1 = st\<lparr>db_next_transaction := t + 1,
      db_transactions := fmupd key \<lparr>wt_id = t, wt_type = typ, wt_auth = auth, wt_amount = amount\<rparr>
        (db_transactions st)\<rparr>"
    using assms(1) by (auto simp: new_transaction_def bindT_eq_Inr thenT_eq_Inr query_eq_Inr)
  obtain ws ps where "st2 = st1\<lparr>db_wallets := ws, db_postings := ps\<rparr>"
    and "db_postings st2 = db_postings st1 @ map (Pair t) ds"
    using post_all_spec [OF assms(2)] by blast
  then show ?thesis using assms(3) by (auto simp: ledger_grows_def st1 fmlookup_dom_iff)
qed

lemma ledger_grows_record:
  assumes "record_transaction key typ ds st = Inr (created, st1)"
  shows "ledger_grows st st1"
proof (cases "key |\<in>| fmdom (db_transactions st)")
  case True
  with assms show ?thesis by (simp add: record_transaction_def bindT_def ledger_grows_def)
next
  case False
  with assms obtain t st2 where "new_transaction key typ None None st = Inr (t, st2)"
    "post_all t ds st2 = Inr ((), st1)"
    by (auto simp: record_transaction_def bindT_eq_Inr thenT_eq_Inr query_eq_Inr simp del: post_all.simps)
  from ledger_grows_post_all [OF this False] show ?thesis .
qed

lemma ledger_grows_ledger: "ledger st1 = ledger st \<Longrightarrow> ledger_grows st0 st1 = ledger_grows st0 st"
  by (simp add: ledger_grows_def ledger_def)

lemma ledger_grows_wallet: "ledger_grows st0 st \<Longrightarrow> ledger_grows st0 (insert_wallet typ a st)"
  by (simp add: ledger_grows_def insert_wallet_def)

lemma keeps_grows_record [keeps_intros]: "keeps (ledger_grows st0) (record_transaction key typ ds)"
  by (rule keepsI) (blast intro: ledger_grows_trans ledger_grows_record)

lemma keeps_grows_exec: "(\<And>st. ledger (f st) = ledger st) \<Longrightarrow> keeps (ledger_grows st0) (execT f)"
  by (rule keeps_exec) (metis ledger_grows_ledger)

lemma ledger_grows_fund: "keeps (ledger_grows st0) (fundRound_pg code k u)"
  unfolding fundRound_pg_def Let_def split_def lockWalletBalances_def scheduleInactivityDeadline_def
  by (intro keeps_intros keeps_grows_exec keeps_exec ledger_grows_wallet) simp_all

lemma ledger_grows_history: "ledger_grows st0 st \<Longrightarrow> ledger_grows st0 (insert_history code k row st)"
  by (auto simp: ledger_grows_def insert_history_def fmlookup_dom_iff)

lemma ledger_grows_settle: "keeps (ledger_grows st0) (settleRound_pg code state)"
  unfolding settleRound_pg_def Let_def split_def lockWalletBalances_def
  by (intro keeps_intros keeps_exec ledger_grows_history)

lemma ledger_grows_recharge: "keeps (ledger_grows st0) (rechargeEffects u n key)"
proof (rule keepsI)
  fix st x st1 assume inv: "ledger_grows st0 st" and run: "rechargeEffects u n key st = Inr (x, st1)"
  from run obtain t st2 where "recharge_key u key |\<notin>| fmdom (db_transactions st)"
    "new_transaction (recharge_key u key) ''recharge'' (Some u) (Some n) st = Inr (t, st2)"
    "post_all t [(''mint'', - n), (userAccountID u, n)] st2 = Inr ((), st1)"
    by (auto simp: rechargeEffects_def Let_def bindT_eq_Inr thenT_eq_Inr query_eq_Inr failIf_eq_Inr
        simp del: post_all.simps)
  then show "ledger_grows st0 st1" using inv ledger_grows_trans ledger_grows_post_all by blast
qed

interpretation growing: ledger_invariant "ledger_grows st0" for st0
  by unfold_locales (fact ledger_of_core [THEN ledger_grows_ledger] ledger_grows_ledger ledger_grows_wallet ledger_grows_fund ledger_grows_settle
      ledger_grows_recharge)+

text \<open>C26: The ledger of the PostgreSQL server is append-only. Whatever operation or worker pass runs and
  however it ends, the postings of before are a prefix of the postings after, and no recorded
  transaction or entry of the history is changed or removed.
\<close>
theorem ledger_append_only:
  "(\<exists>ps. db_postings (pgRun oper st) = db_postings st @ ps)
   \<and> (\<forall>key t. fmlookup (db_transactions st) key = Some t
        \<longrightarrow> fmlookup (db_transactions (pgRun oper st)) key = Some t)
   \<and> (\<forall>round h. fmlookup (db_history st) round = Some h
        \<longrightarrow> fmlookup (db_history (pgRun oper st)) round = Some h)"
  using growing.I_step [of st st oper] by (simp add: ledger_grows_def)

theorem ledger_append_only_witness:
  "(\<exists>ps. db_postings settled_db = db_postings moved_db @ ps) \<and> length (db_postings settled_db) = 10
   \<and> fmlookup (db_transactions settled_db) (stake_key ''R'' 1)
       = fmlookup (db_transactions moved_db) (stake_key ''R'' 1)"
proof -
  have t: "fmlookup (db_transactions moved_db) (stake_key ''R'' 1)
      = Some \<lparr>wt_id = 3, wt_type = ''stake'', wt_auth = None, wt_amount = None\<rparr>"
    "length (db_postings settled_db) = 10" by code_simp+
  show ?thesis
    using ledger_append_only [of "PSubmitMove ''R'' ''bob'' ''paper''" moved_db] t
    unfolding settled_db_def by simp
qed

section \<open>Receipts\<close>

lemma receipts_set [simp]:
  "db_receipts (save_room agg roles prev rv st) = db_receipts st"
  "db_receipts (insert_wallet typ a st) = db_receipts st" "db_receipts (insert_round code k st) = db_receipts st"
  "db_receipts (mark_funded code k st) = db_receipts st" "db_receipts (insert_deadline d st) = db_receipts st"
  "db_receipts (insert_history code k row st) = db_receipts st"
  "db_receipts (set_round_status code k status st) = db_receipts st"
  "db_receipts (finish_deadlines P f t st) = db_receipts st"
  by (simp_all add: save_room_def Let_def update_room_def upsert_round_def insert_wallet_def insert_round_def
      mark_funded_def insert_deadline_def insert_history_def set_round_status_def finish_deadlines_def
      split: option.split)

lemma keeps_receipts_ledger:
  "keeps (\<lambda>st. db_receipts st = x) (fundRound_pg code k u)"
  "keeps (\<lambda>st. db_receipts st = x) (settleRound_pg code state)"
  unfolding fundRound_pg_def settleRound_pg_def Let_def split_def lockWalletBalances_def
    scheduleInactivityDeadline_def
  by (intro keeps_intros keeps_part keeps_part_record; simp)+

lemma keeps_receipts_reconcile:
  "keeps (\<lambda>st. db_receipts st = x) (claimRoomTransition hint)"
  "keeps (\<lambda>st. db_receipts st = x) (transitionT hint tr)"
  "keeps (\<lambda>st. db_receipts st = x) (announceT code rv k)"
  "keeps (\<lambda>st. db_receipts st = x) (notifyRoomStateChanged code k)"
  unfolding claimRoomTransition_def transitionT_def announceT_def insert_outbox_def notifyRoomStateChanged_def
    load_def save_def Let_def
  by (intro keeps_intros keeps_part keeps_receipts_ledger; simp)+

lemma receipts_ReconcileRoom [simp]: "db_receipts (snd (ReconcileRoom hint st)) = db_receipts st"
  using keeps_receipts_reconcile(1-3) [THEN keepsD, OF refl]
  by (auto simp: ReconcileRoom_def Let_def split: sum.splits option.splits prod.splits transition.splits)

definition pg_commands :: "db command_repository" where
  "pg_commands =
     \<lparr>cr_CreateCommand = CreateCommand_pg, cr_JoinCommand = JoinCommand_pg,
      cr_SubmitMoveCommand = SubmitMoveCommand_pg, cr_RequestNextRoundCommand = RequestNextRoundCommand_pg,
      cr_MutateCommand = MutateCommand_pg, cr_RechargeCommand = RechargeCommand_pg,
      cr_SnapshotForAccount = SnapshotForAccount_pg\<rparr>"

definition pg_recorded :: "db \<Rightarrow> string \<Rightarrow> Command \<Rightarrow> CommandResult option" where
  "pg_recorded st a c =
     (case fmlookup (db_receipts st) (c_Key c) of
        None \<Rightarrow> None
      | Some re \<Rightarrow> if re_account re = a \<and> re_operation re = c_Operation c \<and> re_hash re = c_RequestHash c
                   then Some ((re_result re)\<lparr>cmd_Replayed := True\<rparr>) else None)"

text \<open>A later database in which no receipt of the earlier one has been cleaned up.\<close>

definition receipts_kept :: "db \<Rightarrow> db \<Rightarrow> bool" where
  "receipts_kept st st' \<longleftrightarrow> (\<forall>key re. fmlookup (db_receipts st) key = Some re
     \<longrightarrow> fmlookup (db_receipts st') key = Some re)"

lemma receipt_found:
  assumes "commandReceipt a c st = Inr (Some res, st1)"
  shows "st1 = st \<and> pg_recorded st1 a c = Some res \<and> res\<lparr>cmd_Replayed := True\<rparr> = res"
  using assms
  by (auto simp: commandReceipt_def pg_recorded_def tx_simps split: option.splits)

lemma receipt_recorded:
  "pg_recorded st a c = Some res \<Longrightarrow> commandReceipt a c st = Inr (Some res, st)"
  by (auto simp: commandReceipt_def pg_recorded_def bindT_def thenT_def failIf_def split: option.splits if_splits)

lemma receipt_finished:
  "finishCommandReceipt a c res st = Inr (u, st1) \<Longrightarrow> pg_recorded st1 a c = Some (res\<lparr>cmd_Replayed := True\<rparr>)"
  by (auto simp: finishCommandReceipt_def pg_recorded_def)

lemma pg_recorded_cong: "db_receipts st1 = db_receipts st \<Longrightarrow> pg_recorded st1 a c = pg_recorded st a c"
  by (simp add: pg_recorded_def)

text \<open>A body that ends by storing the receipt of its own result.\<close>

definition receipts_result :: "string \<Rightarrow> Command \<Rightarrow> CommandResult tx \<Rightarrow> bool" where
  "receipts_result a c m \<longleftrightarrow> (\<forall>st res st1. m st = Inr (res, st1)
     \<longrightarrow> pg_recorded st1 a c = Some (res\<lparr>cmd_Replayed := True\<rparr>))"

lemma receipts_result_bind: "(\<And>x. receipts_result a c (f x)) \<Longrightarrow> receipts_result a c (bindT m f)"
  unfolding receipts_result_def bindT_eq_Inr by blast

lemma receipts_result_then: "receipts_result a c k \<Longrightarrow> receipts_result a c (thenT m k)"
  unfolding receipts_result_def thenT_eq_Inr by blast

lemma receipts_result_split:
  "(\<And>x y. receipts_result a c (f x y)) \<Longrightarrow> receipts_result a c (case p of (x, y) \<Rightarrow> f x y)"
  by (cases p) simp

lemma receipts_result_finish:
  "receipts_result a c (thenT (finishCommandReceipt a c res) (returnT res))"
  "receipts_result a c (thenT (persistCommandEffects code rv a c res) (returnT res))"
  unfolding receipts_result_def persistCommandEffects_def thenT_eq_Inr
  by (auto dest: receipt_finished)

lemmas receipts_result_intros = receipts_result_finish receipts_result_split receipts_result_bind
  receipts_result_then

lemma receipted_record:
  assumes "transaction (receipted a c m) st = (Inr res, st1)" "receipts_result a c m"
  shows "pg_recorded st1 a c = Some (res\<lparr>cmd_Replayed := True\<rparr>)"
proof -
  from assms(1) obtain r st2 where r: "commandReceipt a c st = Inr (r, st2)"
    "(case r of Some x \<Rightarrow> returnT x | None \<Rightarrow> m) st2 = Inr (res, st1)"
    by (auto simp: receipted_def transaction_def bindT_eq_Inr split: sum.splits)
  show ?thesis
  proof (cases r)
    case None
    with r(2) assms(2) show ?thesis by (simp add: receipts_result_def)
  next
    case (Some x)
    with r have "x = res" "st1 = st2" by simp_all
    with receipt_found [OF r(1) [unfolded Some]] show ?thesis by auto
  qed
qed

lemma receipted_replay:
  "pg_recorded st a c = Some res \<Longrightarrow> transaction (receipted a c m) st = (Inr res, st)"
  by (simp add: receipted_def transaction_def bindT_def receipt_recorded)

lemma action_record:
  assumes "recordRoomAction code a c status k0 insertRow st = (Inr res, st1)"
  shows "pg_recorded st1 a c = Some (res\<lparr>cmd_Replayed := True\<rparr>)"
proof -
  obtain r st2 where t: "transaction (actionT code a c status k0 insertRow) st = (r, st2)" by fastforce
  from assms obtain j where r: "r = Inr (res, j)" by (auto simp: recordRoomAction_def t split: sum.splits option.splits)
  then have run: "actionT code a c status k0 insertRow st = Inr ((res, j), st2)"
    using t by (auto elim: transaction_cases)
  then obtain q st3 where q: "commandReceipt a c st = Inr (q, st3)" by (auto simp: actionT_def bindT_eq_Inr)
  have "pg_recorded st2 a c = Some (res\<lparr>cmd_Replayed := True\<rparr>) \<and> pg_recorded st1 a c = pg_recorded st2 a c"
  proof (cases q)
    case (Some x)
    with run q have "j = None" "x = res" "st2 = st3" by (simp_all add: actionT_def bindT_def)
    with assms t r q Some show ?thesis
      using receipt_found [of a c st x st3] by (auto simp: recordRoomAction_def)
  next
    case None
    with run q obtain st4 st5 code' rv k where effects: "persistCommandEffects code' rv a c res st4 = Inr ((), st5)"
      "notifyRoomStateChanged code k st5 = Inr ((), st2)" "j = Some k"
      by (auto simp: actionT_def bindT_eq_Inr thenT_eq_Inr Let_def split_def failIf_eq_Inr rowT_eq_Inr query_eq_Inr)
    have "pg_recorded st5 a c = Some (res\<lparr>cmd_Replayed := True\<rparr>)"
      using effects(1) receipt_finished by (auto simp: persistCommandEffects_def thenT_eq_Inr)
    moreover have "db_receipts st2 = db_receipts st5"
      using keepsD [OF keeps_receipts_reconcile(4) refl effects(2)] .
    moreover have "db_receipts st1 = db_receipts st2"
      using assms t r effects(3) by (auto simp: recordRoomAction_def)
    ultimately show ?thesis by (simp cong: pg_recorded_cong add: pg_recorded_def)
  qed
  then show ?thesis by simp
qed

lemma action_replay:
  "pg_recorded st a c = Some res \<Longrightarrow> recordRoomAction code a c status k0 insertRow st = (Inr res, st)"
  by (simp add: recordRoomAction_def actionT_def transaction_def bindT_def receipt_recorded)

lemma pg_op_cases:
  assumes "f \<in> command_ops pg_commands IsValidMove a c"
  obtains (body) m where "f = transaction (receipted a c m)" "receipts_result a c m"
  | (action) code status k0 insertRow where "f = recordRoomAction code a c status k0 insertRow"
proof -
  note body_defs = CreateCommand_pg_def JoinCommand_pg_def MutateCommand_pg_def writeAccountCommand_def
    RechargeCommand_pg_def Let_def
  from assms consider (create) agg where "f = CreateCommand_pg agg a c"
    | (join) code i w where "f = JoinCommand_pg code i a w c"
    | (move) code m where "IsValidMove m" "f = SubmitMoveCommand_pg code a m c"
    | (request) code k where "f = RequestNextRoundCommand_pg code a k c"
    | (mutate) code mu where "f = MutateCommand_pg code a mu c"
    | (recharge) n where "f = RechargeCommand_pg a n c"
    by (auto simp: command_ops_def pg_commands_def)
  then show thesis
  proof cases
    case move
    then have "f = recordRoomAction code a c ''active'' 0 (insert_move code m)"
      by (simp add: fun_eq_iff SubmitMoveCommand_pg_def)
    then show thesis by (rule action)
  next
    case request
    then show thesis unfolding RequestNextRoundCommand_pg_def by (rule action)
  qed (unfold body_defs, (erule body, intro receipts_result_intros)+)
qed

interpretation pgcmd: command_receipts pg_commands IsValidMove pg_recorded receipts_kept
proof
  show "f \<in> command_ops pg_commands IsValidMove a c \<Longrightarrow> f st = (Inr res, st1)
    \<Longrightarrow> pg_recorded st1 a c = Some (res\<lparr>cmd_Replayed := True\<rparr>)" for f a c st res st1
    by (cases rule: pg_op_cases) (auto intro: receipted_record action_record)
  show "f \<in> command_ops pg_commands IsValidMove a c \<Longrightarrow> pg_recorded st a c = Some res
    \<Longrightarrow> f st = (Inr res, st)" for f a c st res
    by (cases rule: pg_op_cases) (auto intro: receipted_replay action_replay)
  show "pg_recorded st a c = Some res \<Longrightarrow> receipts_kept st st' \<Longrightarrow> pg_recorded st' a c = Some res"
    for st a c res st'
    by (auto simp: pg_recorded_def receipts_kept_def split: option.splits)
qed

text \<open>C17: Retries against PostgreSQL. Until receipts are cleaned up (\<open>receipts_kept\<close>), each of the six commands, once it
  succeeded, answers a retry with the same key from the same account with the same result and leaves every table as it
  is: a move is recorded once, a next round requested once, a seat left once, coins are added once, and, when the
  generators of the retry succeed at the first attempt, a create sent again finds the room it made and a join sent again the room
  it joined, whatever code, token and player id are drawn this time, and from whichever server \<open>s'\<close> with the same
  database and the same digest.
\<close>
theorem pg_retries_change_nothing:
  assumes "sv_commands s = Some pg_commands" "receipts_kept st1 st2"
    and "sv_commands s' = Some pg_commands" "sv_sha s' = sv_sha s"
  shows "(Service_SubmitMoveCommand s code a m key st = (Inr (), st1) \<longrightarrow>
        Service_SubmitMoveCommand s' code a m key st2 = (Inr (), st2))
    \<and> (Service_RequestNextRoundCommand s code a k key st = (Inr (), st1) \<longrightarrow>
        Service_RequestNextRoundCommand s' code a k key st2 = (Inr (), st2))
    \<and> (Service_LeaveCommand s code a key st = (Inr (), st1) \<longrightarrow>
        Service_LeaveCommand s' code a key st2 = (Inr (), st2))
    \<and> (Service_Recharge s a n key st = (Inr b, st1) \<longrightarrow> Service_Recharge s' a n key st2 = (Inr b, st2))
    \<and> (Service_CreateCommand s a key st = (Inr cred, st1) \<longrightarrow>
        sv_generateCode s' 0 = Inr fresh \<longrightarrow> identity s' 0 = Inr (t, i) \<longrightarrow> fresh \<noteq> '''' \<longrightarrow> i \<noteq> '''' \<longrightarrow>
        Service_CreateCommand s' a key st2 = (Inr cred, st2))
    \<and> (Service_JoinCommand s code a key st = (Inr cred, st1) \<longrightarrow> identity s' 0 = Inr (t, i) \<longrightarrow>
        Service_JoinCommand s' code a key st2 = (Inr cred, st2))"
proof -
  note once = pgcmd.command_once [OF _ assms]
  have move_op: "cr_SubmitMoveCommand pg_commands code a m c \<in> command_ops pg_commands IsValidMove a c"
    if "cr_SubmitMoveCommand pg_commands code a m c st = (Inr res, st1)" for c res
    using that by (auto simp: command_ops_def pg_commands_def SubmitMoveCommand_pg_def split: if_splits)
  have ops: "cr_RequestNextRoundCommand pg_commands code a k c \<in> command_ops pg_commands IsValidMove a c"
    "cr_MutateCommand pg_commands code a mu c \<in> command_ops pg_commands IsValidMove a c"
    for c mu by (auto simp: command_ops_def)
  have "Service_SubmitMoveCommand s code a m key st = (Inr (), st1) \<Longrightarrow>
      Service_SubmitMoveCommand s' code a m key st2 = (Inr (), st2)"
    unfolding Service_SubmitMoveCommand_def
    by (rule once [where f = "\<lambda>r. cr_SubmitMoveCommand r code a m", OF _ move_op])
  moreover have "Service_RequestNextRoundCommand s code a k key st = (Inr (), st1) \<Longrightarrow>
      Service_RequestNextRoundCommand s' code a k key st2 = (Inr (), st2)"
    unfolding Service_RequestNextRoundCommand_def
    by (rule once [where f = "\<lambda>r. cr_RequestNextRoundCommand r code a k", OF _ ops(1)])
  moreover have "Service_LeaveCommand s code a key st = (Inr (), st1) \<Longrightarrow>
      Service_LeaveCommand s' code a key st2 = (Inr (), st2)"
    unfolding Service_LeaveCommand_def
    by (rule once [where f = "\<lambda>r. cr_MutateCommand r code a leaveMutation", OF _ ops(2)])
  moreover have "Service_CreateCommand s' a key st2 = (Inr cred, st2)"
    if create: "Service_CreateCommand s a key st = (Inr cred, st1)" "sv_generateCode s' 0 = Inr fresh"
      "identity s' 0 = Inr (t, i)" "fresh \<noteq> ''''" "i \<noteq> ''''"
  proof -
    obtain agg where "New fresh i = Inr agg" using create(4,5) by (simp add: New_def)
    from pgcmd.create_once [OF create(1) assms create(2,3) this] show ?thesis .
  qed
  moreover note pgcmd.join_once [OF _ assms] pgcmd.recharge_once [OF _ assms]
  ultimately show ?thesis by blast
qed

text \<open>An idempotency key belongs to one request. When the key of a command is stored with another
  account, another operation or another request hash, every command is refused as a conflict and
  no table changes.
\<close>
theorem pg_key_conflict:
  assumes "f \<in> command_ops pg_commands IsValidMove a c"
    and "fmlookup (db_receipts st) (c_Key c) = Some re"
    and "re_account re \<noteq> a \<or> re_operation re \<noteq> c_Operation c \<or> re_hash re \<noteq> c_RequestHash c"
  shows "f st = (Inl (Err ErrIdempotencyConflict), st)"
proof -
  have "commandReceipt a c st = Inl (Err ErrIdempotencyConflict)"
    using assms(2,3) by (auto simp: commandReceipt_def bindT_def thenT_def failIf_def)
  with assms(1) show ?thesis
    by (cases rule: pg_op_cases)
      (simp_all add: receipted_def recordRoomAction_def actionT_def transaction_def bindT_def)
qed

definition rock_command :: Command where
  "rock_command = \<lparr>c_Key = ''m1'', c_Operation = ''room.move'', c_RequestHash = ''h1'', c_ResponseStatus = 200\<rparr>"

definition rock_db :: db where
  "rock_db = pgRun (PSubmitMoveCommand ''R'' ''ana'' ''rock'' rock_command) funded_db"

lemma rock_receipt:
  "map_option (\<lambda>re. (re_account re, re_operation re, re_hash re)) (fmlookup (db_receipts rock_db) ''m1'')
     = Some (''ana'', ''room.move'', ''h1'')"
  by code_simp

theorem pg_key_conflict_witness:
  "RequestNextRoundCommand_pg ''R'' ''bob'' 1 rock_command rock_db
     = (Inl (Err ErrIdempotencyConflict), rock_db)"
proof -
  obtain re where "fmlookup (db_receipts rock_db) ''m1'' = Some re" "re_account re = ''ana''"
    using rock_receipt by (auto simp: map_option_eq_Some)
  moreover have "RequestNextRoundCommand_pg ''R'' ''bob'' 1 rock_command
      \<in> command_ops pg_commands IsValidMove ''bob'' rock_command"
    by (auto simp: command_ops_def pg_commands_def)
  ultimately show ?thesis
    by (intro pg_key_conflict [of _ "''bob''" rock_command rock_db re]) (simp_all add: rock_command_def)
qed

text \<open>A service over PostgreSQL whose generators always draw the same values.\<close>

definition pg_base :: "db base_repository" where
  "pg_base =
     \<lparr>rb_Create = pg_Create, rb_JoinFunded = pg_JoinFunded,
      rb_SubmitMoveAndSettle = pg_SubmitMoveAndSettle,
      rb_RequestNextRoundAndFund = pg_RequestNextRoundAndFund, rb_Mutate = pg_Mutate,
      rb_Snapshot = pg_Snapshot, rb_Authenticate = pg_Authenticate,
      rb_RefreshPresence = pg_RefreshPresence, rb_Balance = pg_Balance, rb_Recharge = pg_Recharge,
      rb_Analytics = pg_Analytics\<rparr>"

definition pg_service :: "db service" where
  "pg_service = NewServiceWithPresenceConfig pg_base (Some pg_commands)
     (\<lambda>_. Inr ''CODE'') (\<lambda>_. Inr ''token'') (\<lambda>_. Inr ''player'') (\<lambda>_. 0) 0 0 id"

theorem pg_retries_change_nothing_witness:
  "\<exists>st1. Service_Recharge pg_service ''ana'' 50 ''key-1'' funded_db = (Inr 200, st1)
     \<and> Service_Recharge pg_service ''ana'' 50 ''key-1'' st1 = (Inr 200, st1)"
proof -
  have "fst (Service_Recharge pg_service ''ana'' 50 ''key-1'' funded_db) = Inr 200" by code_simp
  then obtain st1 where run: "Service_Recharge pg_service ''ana'' 50 ''key-1'' funded_db = (Inr 200, st1)"
    by (metis prod.collapse)
  have "sv_commands pg_service = Some pg_commands"
    by (simp add: pg_service_def NewServiceWithPresenceConfig_def)
  from pg_retries_change_nothing [OF this _ this refl, of st1 st1] run show ?thesis
    by (auto simp: receipts_kept_def)
qed

end
