(* ===== verification/Postgres_Refinement.thy ===== *)
theory Postgres_Refinement
  imports Postgres_Claims
begin

text \<open>
  The rows refine the aggregate. \<open>load_room\<close> is the abstraction: what the tables of a room hold, as the
  aggregate of the domain. Every writer that succeeds moves the abstraction by the aggregate's own
  method; a move recorded by a command and the reconciliation that follows it are together the
  method \<open>SubmitMove\<close>.
\<close>

section \<open>What a load reads\<close>

definition room_view :: "string \<Rightarrow> db \<Rightarrow> (uint64 \<times> string \<times> string option \<times> string option
    \<times> (string \<times> seat_row) list \<times> (string \<times> move) list \<times> string list) option" where
  "room_view code st = (case fmlookup (db_rooms st) code of
     None \<Rightarrow> None
   | Some r \<Rightarrow> (case fmlookup (db_rounds st) (code, rm_current_round r) of
       None \<Rightarrow> None
     | Some rr \<Rightarrow> Some (rm_current_round r, rm_status r, rr_result rr, rr_forfeited_role rr,
         room_seats code st, move_rows code (rm_current_round r) st,
         request_rows code (rm_current_round r) st)))"

text \<open>The persisted state that a view holds.\<close>

definition view_state :: "string \<Rightarrow> (uint64 \<times> string \<times> string option \<times> string option
    \<times> (string \<times> seat_row) list \<times> (string \<times> move) list \<times> string list) \<Rightarrow> persistenceState \<times> roles" where
  "view_state code = (\<lambda>(k, status, res, forf, seats, moves, requests).
     let roles = fold (\<lambda>(role, x). fmupd role (se_player_id x)) seats fmempty in
     (\<lparr>ps_Code = code,
       ps_Players = map (\<lambda>(role, x). \<lparr>player_ID = se_player_id x, player_Wins = se_wins x\<rparr>) seats,
       ps_Round = k, ps_Closed = (status = ''closed''), ps_Resolved = (res \<noteq> None),
       ps_Result = (case res of None \<Rightarrow> '''' | Some x \<Rightarrow> x),
       ps_ForfeitedPlayerID = (case forf of None \<Rightarrow> '''' | Some role \<Rightarrow> get_or '''' roles role),
       ps_Moves = fold (\<lambda>(p, m). fmupd p m) moves fmempty,
       ps_NextRoundRequests = fold (\<lambda>p. fmupd p True) requests fmempty\<rparr>, roles))"

lemma load_room_view:
  "load_room code st = (case room_view code st of None \<Rightarrow> Inl ErrNoRows
     | Some v \<Rightarrow> bindR (Restore (fst (view_state code v))) (\<lambda>agg. Inr (agg, snd (view_state code v))))"
  by (simp add: load_room_def room_view_def view_state_def decodeAggregateRows_def Let_def split: option.split)

lemma load_room_cong: "room_view code st1 = room_view code st \<Longrightarrow> load_room code st1 = load_room code st"
  by (simp add: load_room_view)

lemma load_room_view_eq:
  "load_room code st = Inr (agg, roles) \<longleftrightarrow> (\<exists>v. room_view code st = Some v
     \<and> fst (view_state code v) = PersistenceState agg \<and> snd (view_state code v) = roles \<and> wf_room agg)"
  by (auto simp: load_room_view bindR_eq_Inr Restore_eq_Inr Restore_PersistenceState split: option.splits)

lemma room_view_other [simp]:
  "room_view code (st\<lparr>db_wallets := a, db_postings := b\<rparr>) = room_view code st"
  "room_view code (st\<lparr>db_next_transaction := i, db_transactions := d\<rparr>) = room_view code st"
  "room_view code (st\<lparr>db_presence := e\<rparr>) = room_view code st"
  "room_view code (st\<lparr>db_receipts := f\<rparr>) = room_view code st"
  "room_view code (st\<lparr>db_notified := g\<rparr>) = room_view code st"
  "room_view code (st\<lparr>db_outbox := h, db_next_outbox := j\<rparr>) = room_view code st"
  "room_view code (st\<lparr>db_wallets := a\<rparr>) = room_view code st"
  "room_view code (insert_wallet typ a' st) = room_view code st"
  "room_view code (insert_deadline d' st) = room_view code st"
  "room_view code (insert_history code' k row st) = room_view code st"
  "room_view code (finish_deadlines P s t st) = room_view code st"
  "room_view code (upsert_presence code' w s' st) = room_view code st"
  by (simp_all add: room_view_def room_seats_def move_rows_def request_rows_def insert_wallet_def
      insert_deadline_def insert_history_def finish_deadlines_def upsert_presence_def
      cong: option.case_cong)

lemma room_view_status [simp]: "room_view code (set_round_status code' k status st) = room_view code st"
  by (auto simp: room_view_def room_seats_def move_rows_def request_rows_def set_round_status_def
      split: option.split)

lemma room_view_funded [simp]: "room_view code (mark_funded code' k st) = room_view code st"
  by (auto simp: room_view_def room_seats_def move_rows_def request_rows_def mark_funded_def
      split: option.split)

lemma room_view_Some:
  "room_view code st = Some v \<longleftrightarrow> (\<exists>r rr. fmlookup (db_rooms st) code = Some r
     \<and> fmlookup (db_rounds st) (code, rm_current_round r) = Some rr
     \<and> v = (rm_current_round r, rm_status r, rr_result rr, rr_forfeited_role rr, room_seats code st,
         move_rows code (rm_current_round r) st, request_rows code (rm_current_round r) st))"
  unfolding room_view_def by (cases "fmlookup (db_rooms st) code") (auto split: option.splits)

lemma rows_other_table [simp]:
  "room_seats code (st\<lparr>db_rooms := a\<rparr>) = room_seats code st" "room_seats code (st\<lparr>db_rounds := b\<rparr>) = room_seats code st"
  "move_rows code k (st\<lparr>db_rooms := a\<rparr>) = move_rows code k st" "move_rows code k (st\<lparr>db_rounds := b\<rparr>) = move_rows code k st"
  "request_rows code k (st\<lparr>db_rooms := a\<rparr>) = request_rows code k st"
  "request_rows code k (st\<lparr>db_rounds := b\<rparr>) = request_rows code k st"
  by (simp_all add: room_seats_def move_rows_def request_rows_def)

lemma room_view_insert_round:
  assumes "room_view code st = Some v"
  shows "room_view code (insert_round code' k st) = Some v"
proof (cases "(code', k) |\<in>| fmdom (db_rounds st)")
  case True
  with assms show ?thesis by (simp add: insert_round_def)
next
  case False
  from assms obtain r rr where r: "fmlookup (db_rooms st) code = Some r"
    "fmlookup (db_rounds st) (code, rm_current_round r) = Some rr"
    "v = (rm_current_round r, rm_status r, rr_result rr, rr_forfeited_role rr, room_seats code st,
         move_rows code (rm_current_round r) st, request_rows code (rm_current_round r) st)"
    unfolding room_view_Some by blast
  with False have ne: "\<not> (code' = code \<and> k = rm_current_round r)" by (metis fmdomI)
  then show ?thesis using r False by (auto simp: insert_round_def room_view_def)
qed

lemma room_view_revision [simp]:
  assumes "fmlookup (db_rooms st) code' = Some r"
  shows "room_view code (st\<lparr>db_rooms := fmupd code' (r\<lparr>rm_revision := rv\<rparr>) (db_rooms st)\<rparr>) = room_view code st"
proof (cases "code' = code")
  case True
  with assms show ?thesis by (simp add: room_view_def split: option.split)
qed (simp add: room_view_def split: option.split)

lemma keeps_view_exec: "(\<And>st. room_view code (f st) = room_view code st) \<Longrightarrow> keeps (\<lambda>st. room_view code st = x) (execT f)"
  by (rule keeps_part)

lemma keeps_view_record: "keeps (\<lambda>st. room_view code st = x) (record_transaction key typ ds)"
  by (rule keeps_part_record) simp_all

lemma keeps_view_lock: "keeps (\<lambda>st. room_view code st = x) (lockWalletBalances ids)"
  unfolding lockWalletBalances_def by (intro keeps_intros)

lemma keeps_view_settle: "keeps (\<lambda>st. room_view code st = x) (settleRound_pg code' state)"
  unfolding settleRound_pg_def Let_def split_def
  by (intro keeps_intros keeps_view_exec keeps_view_record keeps_view_lock room_view_other)

lemma keeps_view_fund: "keeps (\<lambda>st. room_view code st = Some v) (fundRound_pg code' k u)"
  unfolding fundRound_pg_def Let_def split_def scheduleInactivityDeadline_def
  by (intro keeps_intros keeps_view_record keeps_view_lock; rule keeps_exec;
      simp add: room_view_insert_round)

lemma keeps_view_effects:
  "keeps (\<lambda>st. room_view code st = x) (insert_outbox code' rv)"
  "keeps (\<lambda>st. room_view code st = x) (finishCommandReceipt u c res)"
  "keeps (\<lambda>st. room_view code st = x) (persistCommandEffects code' rv u c res)"
  "keeps (\<lambda>st. room_view code st = x) (notifyRoomStateChanged code' k)"
  "keeps (\<lambda>st. room_view code st = x) (announceT code' rv k)"
  "keeps (\<lambda>st. room_view code st = x) (claimRoomTransition hint)"
  unfolding persistCommandEffects_def announceT_def insert_outbox_def finishCommandReceipt_def
    notifyRoomStateChanged_def claimRoomTransition_def Let_def split_def
  by (intro keeps_intros keeps_view_exec; simp)+

section \<open>Loading after saving\<close>

text \<open>Counters that fit their columns: \<open>wins integer\<close> and a round below \<open>2^63\<close>.\<close>

definition small_counters :: "room \<Rightarrow> bool" where
  "small_counters agg \<longleftrightarrow> list_all (\<lambda>p. player_Wins p < 2 ^ 31 - 1) (r_players agg) \<and> unat (r_round agg) < 2 ^ 63"

lemma loaded_seats:
  assumes "load_room code st = Inr (agg, roles)" "has_host code st"
  shows "seats_match code st agg \<and> roles_match roles agg"
proof -
  from assms(2) obtain h where h: "fmlookup (db_seats st) (code, ''host'') = Some h"
    by (auto simp: fmlookup_dom_iff)
  from assms(1) have roles: "roles = seat_roles code st"
    and players: "r_players agg = map (\<lambda>(role, x). \<lparr>player_ID = se_player_id x, player_Wins = se_wins x\<rparr>) (room_seats code st)"
    by (auto elim: load_room_Inr)
  show ?thesis
  proof (cases "fmlookup (db_seats st) (code, ''guest'')")
    case None
    with h have "room_seats code st = [(''host'', h)]" by (simp add: room_seats_def)
    with h None show ?thesis
      by (simp add: roles players seats_match_def roles_match_def player_ids_def seat_roles_def)
  next
    case (Some g)
    with h have "room_seats code st = [(''host'', h), (''guest'', g)]" by (simp add: room_seats_def)
    with h Some show ?thesis
      by (simp add: roles players seats_match_def roles_match_def player_ids_def seat_roles_def)
  qed
qed

lemma seats_match_ids: "seats_match code st agg \<Longrightarrow> player_ids agg1 = player_ids agg \<Longrightarrow> seats_match code st agg1"
  by (simp add: seats_match_def)

lemma roles_match_ids: "roles_match roles agg \<Longrightarrow> player_ids agg1 = player_ids agg \<Longrightarrow> roles_match roles agg1"
  by (simp add: roles_match_def)

lemma load_after_save:
  assumes "load_room code st = Inr (agg, roles)" "has_host code st"
    and "player_ids agg1 = player_ids agg" "r_code agg1 = r_code agg" "saveable agg1"
  shows "\<exists>roles1. load_room code (save_room agg1 roles prev rv st) = Inr (agg1, roles1)"
proof -
  from assms(1) obtain r0 where "fmlookup (db_rooms st) code = Some r0" "r_code agg = code"
    by (auto elim: load_room_Inr)
  then show ?thesis
    using load_save_room [of st code r0 agg1 roles prev rv] assms(3-5) loaded_seats [OF assms(1,2)]
      seats_match_ids roles_match_ids by metis
qed

lemma saveable_of:
  assumes "wf_room agg1" "list_all (\<lambda>p. player_Wins p < 2 ^ 31) (r_players agg1)"
    and "fmpred (\<lambda>_ b. b) (r_nextRoundRequests agg1)"
  shows "saveable agg1"
  using assms by (simp add: saveable_def)

text \<open>The aggregate's two committed transitions keep what a save needs.\<close>

lemma resolve_saveable:
  assumes "ResolveCommittedMoves k agg = Inr agg1" "wf_room agg" "small_counters agg"
    and "fmpred (\<lambda>_ b. b) (r_nextRoundRequests agg)"
  shows "saveable agg1 \<and> player_ids agg1 = player_ids agg \<and> r_code agg1 = r_code agg"
proof -
  have below: "wins_below agg"
    using assms(3) by (auto simp: small_counters_def wins_below_def list_all_iff MaxInt64_def)
  from assms(1) have res: "resolve agg = Inr agg1" "length (r_players agg) = 2" "\<not> r_resolved agg"
    by (auto simp: ResolveCommittedMoves_def guarded_eq_Inr)
  then have agg1: "agg1 = settled (roundOutcome agg) '''' agg"
    using resolve_settled wf_unresolved(2) [OF assms(2)] by fastforce
  obtain p q where pq: "r_players agg = [p, q]" using res(2) by (rule two_players)
  have "list_all (\<lambda>p. player_Wins p < 2 ^ 31) (r_players agg1)"
    using assms(3) assms(2) by (auto simp: agg1 pq small_counters_def award_def wf_room_def wf_seats_def i64_def)
  moreover have "fmpred (\<lambda>_ b. b) (r_nextRoundRequests agg1)" using assms(4) by (simp add: agg1)
  ultimately show ?thesis
    using wf_ResolveCommittedMoves [OF assms(1,2) below] by (simp add: saveable_of agg1)
qed

lemma advance_saveable:
  assumes "AdvanceCommittedNextRound k agg = Inr agg1" "wf_room agg" "small_counters agg"
  shows "saveable agg1 \<and> player_ids agg1 = player_ids agg \<and> r_code agg1 = r_code agg"
proof -
  from assms(1) have agg1: "agg1 = startNextRound agg"
    by (auto simp: AdvanceCommittedNextRound_def guarded_eq_Inr)
  have "wf_room agg1" using wf_AdvanceCommittedNextRound [OF assms(1,2)] assms(3) by (simp add: small_counters_def)
  with assms(3) show ?thesis
    by (auto simp: saveable_def agg1 startNextRound_def small_counters_def list_all_iff player_ids_def)
qed

section \<open>Reconciling a round\<close>

lemma committed_saveable:
  assumes "committed tr k agg = Inr agg1" "load_room code st = Inr (agg, roles)" "small_counters agg"
  shows "saveable agg1 \<and> player_ids agg1 = player_ids agg \<and> r_code agg1 = r_code agg"
proof -
  have "wf_room agg" "fmpred (\<lambda>_ b. b) (r_nextRoundRequests agg)" using assms(2) by (auto elim: load_room_Inr)
  with assms(1,3) resolve_saveable advance_saveable show ?thesis
    by (cases tr) (auto simp: committed_def)
qed

lemma transition_steps:
  assumes "transitionT hint tr st = Inr (y, st2)" "load_room (hint_RoomCode hint) st = Inr (agg, roles)"
  obtains agg1 rv st1 where "committed tr (hint_Round hint) agg = Inr agg1"
    "st1 = save_room agg1 roles (r_round agg) rv st"
    "\<And>v. room_view (hint_RoomCode hint) st1 = Some v \<Longrightarrow> room_view (hint_RoomCode hint) st2 = Some v"
proof -
  let ?code = "hint_RoomCode hint"
  obtain agg1 rv where c: "committed tr (hint_Round hint) agg = Inr agg1"
    "after_save hint tr agg1 (save_room agg1 roles (r_round agg) rv st) = Inr ((), st2)"
    by (rule transition_saved [OF assms(1)]) (use assms(2) in auto)
  have "keeps (\<lambda>st. room_view ?code st = Some v) (after_save hint tr agg1)" for v
    unfolding after_save_def Let_def
    by (intro keeps_intros keeps_view_settle keeps_view_fund keeps_view_exec) simp_all
  then show thesis using that [OF c(1) refl] c(2) unfolding keeps_def by blast
qed

lemma transition_loads:
  assumes "transitionT hint tr st = Inr (y, st2)" "load_room (hint_RoomCode hint) st = Inr (agg, roles)"
    and "has_host (hint_RoomCode hint) st" "small_counters agg"
  shows "\<exists>agg1 roles1. committed tr (hint_Round hint) agg = Inr agg1
    \<and> load_room (hint_RoomCode hint) st2 = Inr (agg1, roles1)"
proof -
  from assms(1,2) obtain agg1 rv st1 where c: "committed tr (hint_Round hint) agg = Inr agg1"
    "st1 = save_room agg1 roles (r_round agg) rv st"
    "\<And>v. room_view (hint_RoomCode hint) st1 = Some v \<Longrightarrow> room_view (hint_RoomCode hint) st2 = Some v"
    by (rule transition_steps) blast
  with load_after_save [OF assms(2,3), of agg1 "r_round agg" rv] committed_saveable [OF c(1) assms(2,4)]
  obtain roles1 where "load_room (hint_RoomCode hint) st1 = Inr (agg1, roles1)" by auto
  with c show ?thesis unfolding load_room_view_eq by blast
qed

lemma claim_steps:
  assumes "claimRoomTransition hint st = Inr (tr, st1)"
  shows "(tr = None \<longrightarrow> st1 = st) \<and> room_view code st1 = room_view code st \<and> db_seats st1 = db_seats st"
  using assms keepsD [OF keeps_view_effects(6) refl assms]
  by (auto simp: claimRoomTransition_def Let_def split_def bindT_eq_Inr thenT_eq_Inr query_eq_Inr
      set_round_status_def split: if_splits option.splits)

lemma reconcile_won:
  assumes "claimRoomTransition hint st = Inr (Some t, st2)" "ReconcileRoom hint st = ((rep, None), st1)"
  obtains rv k st3 where "transitionT hint t st2 = Inr ((rv, k), st3)"
    "announceT (hint_RoomCode hint) rv k st3 = Inr ((), st1)"
    "t = Resolve \<Longrightarrow> rc_SettledRounds rep = 1" "t = Advance \<Longrightarrow> rc_AdvancedRounds rep = 1"
proof (cases "transitionT hint t st2")
  case (Inl e)
  with assms show thesis by (simp add: ReconcileRoom_def Let_def)
next
  case (Inr z)
  obtain rv k st3 where z: "z = ((rv, k), st3)" by (metis prod.collapse)
  show thesis
  proof (cases "announceT (hint_RoomCode hint) rv k st3")
    case Inl
    with Inr z assms show thesis by (simp add: ReconcileRoom_def Let_def)
  next
    case (Inr y)
    with \<open>transitionT hint t st2 = Inr z\<close> z assms show thesis
      by (intro that [of rv k st3]; cases y; cases t) (auto simp: ReconcileRoom_def Let_def)
  qed
qed

text \<open>The aggregate of a room, when its rows load.\<close>

definition loaded :: "string \<Rightarrow> db \<Rightarrow> room option" where
  "loaded code st = (case load_room code st of Inl e \<Rightarrow> None | Inr (agg, roles) \<Rightarrow> Some agg)"

lemma loaded_eq_Some: "loaded code st = Some agg \<longleftrightarrow> (\<exists>roles. load_room code st = Inr (agg, roles))"
  by (auto simp: loaded_def split: sum.splits)

lemma loaded_host: "pg_reachable st \<Longrightarrow> load_room code st = Inr (agg, roles) \<Longrightarrow> has_host code st"
  using rows_ok_reachable unfolding rows_ok_def by (blast elim: load_room_Inr)

text \<open>C2: Reconciliation refines the aggregate. When \<open>ReconcileRoom\<close> succeeds, either nothing was claimed and
  no table changed, or the room's rows, which held an aggregate before, hold afterwards exactly what
  the aggregate's \<open>ResolveCommittedMoves\<close> or \<open>AdvanceCommittedNextRound\<close> makes of it, as reported.
\<close>
theorem reconcile_refines_aggregate:
  assumes "ReconcileRoom \<lparr>hint_RoomCode = code, hint_Round = k\<rparr> st = ((rep, None), st1)"
    and "pg_reachable st" "loaded code st = Some agg" "small_counters agg"
  shows "(rc_ClaimNoops rep = 1 \<and> st1 = st)
    \<or> (rc_SettledRounds rep = 1 \<and> (\<exists>agg1. ResolveCommittedMoves k agg = Inr agg1 \<and> loaded code st1 = Some agg1))
    \<or> (rc_AdvancedRounds rep = 1 \<and> (\<exists>agg1. AdvanceCommittedNextRound k agg = Inr agg1 \<and> loaded code st1 = Some agg1))"
proof -
  obtain roles where load: "load_room code st = Inr (agg, roles)" using assms(3) by (auto simp: loaded_eq_Some)
  let ?hint = "\<lparr>hint_RoomCode = code, hint_Round = k\<rparr>"
  from assms(1) obtain tr st2 where claim: "claimRoomTransition ?hint st = Inr (tr, st2)"
    by (auto simp: ReconcileRoom_def Let_def split: sum.splits)
  note c = claim_steps [OF claim, of code]
  show ?thesis
  proof (cases tr)
    case None
    with claim c assms(1) show ?thesis by (auto simp: ReconcileRoom_def Let_def)
  next
    case (Some t)
    from reconcile_won [OF claim [unfolded Some] assms(1)]
    obtain rv k1 st3 where t: "transitionT ?hint t st2 = Inr ((rv, k1), st3)"
      "announceT code rv k1 st3 = Inr ((), st1)"
      "t = Resolve \<Longrightarrow> rc_SettledRounds rep = 1" "t = Advance \<Longrightarrow> rc_AdvancedRounds rep = 1" by auto
    have "load_room code st2 = Inr (agg, roles)" "has_host code st2"
      using load loaded_host [OF assms(2) load] c load_room_cong [of code st2 st] by simp_all
    with transition_loads [OF t(1), of agg roles] assms(4) obtain agg1 roles1
      where a: "committed t k agg = Inr agg1" "load_room code st3 = Inr (agg1, roles1)" by auto
    have "load_room code st1 = load_room code st3"
      using keepsD [OF keeps_view_effects(5) refl t(2)] by (rule load_room_cong)
    with a have loads: "loaded code st1 = Some agg1" by (simp add: loaded_def)
    show ?thesis
    proof (cases t)
      case Resolve
      with a t(3) have "ResolveCommittedMoves k agg = Inr agg1" "rc_SettledRounds rep = 1"
        by (simp_all add: committed_def)
      with loads show ?thesis by blast
    next
      case Advance
      with a t(4) have "AdvanceCommittedNextRound k agg = Inr agg1" "rc_AdvancedRounds rep = 1"
        by (simp_all add: committed_def)
      with loads show ?thesis by blast
    qed
  qed
qed

text \<open>Both moves recorded, and the server gone before the reconciliation.\<close>

definition ana_rock :: Command where
  "ana_rock = \<lparr>c_Key = ''m1'', c_Operation = ''move'', c_RequestHash = ''h1'', c_ResponseStatus = 200\<rparr>"

definition bob_paper :: Command where
  "bob_paper = \<lparr>c_Key = ''m2'', c_Operation = ''move'', c_RequestHash = ''h2'', c_ResponseStatus = 200\<rparr>"

definition half_db :: db where
  "half_db = pgRun (PRecordMove ''R'' ''ana'' ''rock'' ana_rock) funded_db"

definition pending_db :: db where
  "pending_db = pgRun (PRecordMove ''R'' ''bob'' ''paper'' bob_paper) half_db"

definition first_round :: RoomHint where
  "first_round = \<lparr>hint_RoomCode = ''R'', hint_Round = 1\<rparr>"

lemma pending_reachable: "pg_reachable half_db" "pg_reachable pending_db"
  unfolding pending_db_def half_db_def by (intro pg_step game_reachable)+

definition half_agg :: room where
  "half_agg = ana_room\<lparr>r_players := [\<lparr>player_ID = ''p1'', player_Wins = 0\<rparr>, \<lparr>player_ID = ''p2'', player_Wins = 0\<rparr>],
     r_moves := fmupd ''p1'' ''rock'' fmempty\<rparr>"

definition pending_agg :: room where
  "pending_agg = half_agg\<lparr>r_moves := fmupd ''p2'' ''paper'' (r_moves half_agg)\<rparr>"

lemma scenario_loads: "loaded ''R'' half_db = Some half_agg" "loaded ''R'' pending_db = Some pending_agg"
  by code_simp+

lemma scenario_small: "small_counters half_agg" "small_counters pending_agg"
  by (simp_all add: small_counters_def pending_agg_def half_agg_def ana_room_def)

theorem reconcile_refines_aggregate_witness:
  "\<exists>agg1. ResolveCommittedMoves 1 pending_agg = Inr agg1
     \<and> loaded ''R'' (snd (ReconcileRoom first_round pending_db)) = Some agg1"
proof -
  have "fst (ReconcileRoom first_round pending_db)
      = (zeroReconciliation\<lparr>rc_ClaimAttempts := 1, rc_ClaimWins := 1, rc_SettledRounds := 1\<rparr>, None)"
    by code_simp
  then have "ReconcileRoom first_round pending_db
      = ((zeroReconciliation\<lparr>rc_ClaimAttempts := 1, rc_ClaimWins := 1, rc_SettledRounds := 1\<rparr>, None),
         snd (ReconcileRoom first_round pending_db))" by (metis prod.collapse)
  from reconcile_refines_aggregate [OF this [unfolded first_round_def] pending_reachable(2) scenario_loads(2)
      scenario_small(2)]
  show ?thesis by (simp add: first_round_def zeroReconciliation_def)
qed

end
