(* ===== verification/Postgres_Moves.thy ===== *)
theory Postgres_Moves
  imports Postgres_Refinement
begin

text \<open>
  The command that records a move, against the aggregate's \<open>SubmitMove\<close>: the transaction inserts the row
  of the move, the reconciliation after it resolves the round when it was the second one, and the two
  together are the method of the domain.
\<close>

section \<open>The transaction\<close>

text \<open>What the transaction of a recorded move has checked, and what it changed.\<close>

lemma recorded_steps:
  assumes "actionT code u c ''active'' 0 (insert_move code m) st = Inr ((res, Some k), st1)"
  obtains rs role s r st2 where "action_view code st = Some (k, rs, ''active'', True)" "rs \<noteq> ''closed''"
    "seat_of code u st = Some (role, s)" "(code, k, role) |\<notin>| fmdom (db_moves st)"
    "fmlookup (db_rooms st) code = Some r"
    "st2 = st\<lparr>db_moves := fmupd (code, k, role) m (db_moves st),
        db_rooms := fmupd code (r\<lparr>rm_revision := rm_revision r + 1\<rparr>) (db_rooms st)\<rparr>"
    "thenT (persistCommandEffects code (rm_revision r + 1) u c res) (notifyRoomStateChanged code k) st2 = Inr ((), st1)"
proof -
  have "\<exists>rs role s r. action_view code st = Some (k, rs, ''active'', True) \<and> rs \<noteq> ''closed''
      \<and> seat_of code u st = Some (role, s) \<and> (code, k, role) |\<notin>| fmdom (db_moves st)
      \<and> fmlookup (db_rooms st) code = Some r
      \<and> thenT (persistCommandEffects code (rm_revision r + 1) u c res) (notifyRoomStateChanged code k)
         (st\<lparr>db_moves := fmupd (code, k, role) m (db_moves st),
            db_rooms := fmupd code (r\<lparr>rm_revision := rm_revision r + 1\<rparr>) (db_rooms st)\<rparr>) = Inr ((), st1)"
    using assms
    by (auto simp: actionT_def commandReceipt_def insert_move_def bump_revision_def Let_def tx_simps
        split: option.splits)
  then show thesis using that by blast
qed

section \<open>The recorded move in the aggregate\<close>

abbreviation moves_of :: "(string \<times> move) list \<Rightarrow> (string, move) fmap" where
  "moves_of ms \<equiv> fold (\<lambda>(p, m). fmupd p m) ms fmempty"

abbreviation with_move :: "string \<Rightarrow> uint64 \<Rightarrow> string \<Rightarrow> move \<Rightarrow> db \<Rightarrow> db" where
  "with_move code k role m st \<equiv> st\<lparr>db_moves := fmupd (code, k, role) m (db_moves st)\<rparr>"

lemma seat_of_Some:
  "seat_of code u st = Some (role, s) \<Longrightarrow> role \<in> {''host'', ''guest''} \<and> fmlookup (db_seats st) (code, role) = Some s"
  by (cases "fmlookup (db_seats st) (code, ''host'')"; cases "fmlookup (db_seats st) (code, ''guest'')")
    (auto simp: seat_of_def room_seats_def split: if_splits)

lemma moves_with_move:
  assumes "fmlookup (db_seats st) (code, role) = Some s" "role \<in> {''host'', ''guest''}"
    and "(code, k, role) |\<notin>| fmdom (db_moves st)" "distinct (map (\<lambda>(role, s). se_player_id s) (room_seats code st))"
  shows "moves_of (move_rows code k (with_move code k role m st)) = fmupd (se_player_id s) m (moves_of (move_rows code k st))"
    and "se_player_id s |\<notin>| fmdom (moves_of (move_rows code k st))"
proof -
  have no: "fmlookup (db_moves st) (code, k, role) = None" using assms(3) by (simp add: fmlookup_dom_iff)
  show "moves_of (move_rows code k (with_move code k role m st)) = fmupd (se_player_id s) m (moves_of (move_rows code k st))"
    using assms no
    by (cases "fmlookup (db_seats st) (code, ''host'')"; cases "fmlookup (db_seats st) (code, ''guest'')";
        cases "fmlookup (db_moves st) (code, k, ''host'')"; cases "fmlookup (db_moves st) (code, k, ''guest'')")
      (auto simp: move_rows_def room_seats_def fmupd_reorder_neq)
  show "se_player_id s |\<notin>| fmdom (moves_of (move_rows code k st))"
    using assms no
    by (cases "fmlookup (db_seats st) (code, ''host'')"; cases "fmlookup (db_seats st) (code, ''guest'')";
        cases "fmlookup (db_moves st) (code, k, ''host'')"; cases "fmlookup (db_moves st) (code, k, ''guest'')")
      (auto simp: move_rows_def room_seats_def)
qed

definition record_move :: "string \<Rightarrow> move \<Rightarrow> room \<Rightarrow> room" where
  "record_move p m agg = agg\<lparr>r_moves := fmupd p m (r_moves agg)\<rparr>"

lemma rows_with_move [simp]:
  "room_seats code' (st\<lparr>db_moves := x\<rparr>) = room_seats code' st"
  "request_rows code' k (st\<lparr>db_moves := x\<rparr>) = request_rows code' k st"
  by (simp_all add: room_seats_def request_rows_def)

lemma loaded_with_move:
  assumes "load_room code st = Inr (agg, roles)" "fmlookup (db_seats st) (code, role) = Some s"
    and "role \<in> {''host'', ''guest''}" "(code, r_round agg, role) |\<notin>| fmdom (db_moves st)"
    and "\<not> r_resolved agg" "IsValidMove m"
    and "room_view code st1 = room_view code (with_move code (r_round agg) role m st)"
  shows "loaded code st1 = Some (record_move (se_player_id s) m agg)" "se_player_id s |\<notin>| fmdom (r_moves agg)"
    and "se_player_id s \<in> set (player_ids agg)"
proof -
  let ?k = "r_round agg" and ?st = "with_move code (r_round agg) role m st"
  from assms(1) obtain v where v: "room_view code st = Some v" "fst (view_state code v) = PersistenceState agg"
    "snd (view_state code v) = roles" "wf_room agg" unfolding load_room_view_eq by blast
  obtain k status res forf seats moves requests where vs: "v = (k, status, res, forf, seats, moves, requests)"
    by (cases v)
  have k: "k = ?k" using v(2) by (simp add: vs view_state_def PersistenceState_def Let_def)
  have seats: "seats = room_seats code st" "moves = move_rows code k st"
    using v(1) unfolding room_view_Some vs by auto
  have players: "r_players agg = map (\<lambda>(role, x). \<lparr>player_ID = se_player_id x, player_Wins = se_wins x\<rparr>) seats"
    "r_moves agg = moves_of moves" using v(2) by (simp_all add: vs view_state_def PersistenceState_def Let_def)
  have ids: "player_ids agg = map (\<lambda>(role, s). se_player_id s) (room_seats code st)"
    by (simp add: player_ids_def players seats split_def comp_def)
  have distinct: "distinct (map (\<lambda>(role, s). se_player_id s) (room_seats code st))"
    using v(4) by (simp add: wf_room_def wf_seats_def ids)
  note ins = moves_with_move [OF assms(2,3,4) distinct]
  show new: "se_player_id s |\<notin>| fmdom (r_moves agg)" using ins(2) by (simp add: players seats k)
  have "(role, s) \<in> set (room_seats code st)"
    using assms(2,3) by (auto simp: room_seats_def List.map_filter_def)
  then show id: "se_player_id s \<in> set (player_ids agg)" by (force simp: ids)
  have "room_view code ?st = Some (k, status, res, forf, seats, move_rows code k ?st, requests)"
    using v(1) unfolding vs room_view_Some by auto
  moreover have "fst (view_state code (k, status, res, forf, seats, move_rows code k ?st, requests))
      = PersistenceState (record_move (se_player_id s) m agg)"
    using v(2) ins(1) by (auto simp: vs view_state_def PersistenceState_def Let_def record_move_def players seats k)
  moreover have "wf_room (record_move (se_player_id s) m agg)"
    unfolding record_move_def by (rule wf_record_move [OF v(4) assms(5) id assms(6)])
  ultimately show "loaded code st1 = Some (record_move (se_player_id s) m agg)"
    unfolding loaded_eq_Some load_room_view_eq assms(7) by blast
qed

text \<open>The rows of the moves, counted, are the moves of the aggregate.\<close>

lemma count_moves_flen:
  assumes "length (room_seats code st) = 2" "distinct (map (\<lambda>(role, s). se_player_id s) (room_seats code st))"
  shows "flen (moves_of (move_rows code k st)) = count_moves code k st"
proof -
  obtain h g where "fmlookup (db_seats st) (code, ''host'') = Some h" "fmlookup (db_seats st) (code, ''guest'') = Some g"
    using assms(1) by (auto simp: room_seats_def split: option.splits)
  then show ?thesis
    using assms(2)
    by (cases "fmlookup (db_moves st) (code, k, ''host'')"; cases "fmlookup (db_moves st) (code, k, ''guest'')")
      (auto simp: move_rows_def room_seats_def count_moves_def fmlookup_dom_iff fcard.rep_eq)
qed

lemma fresh_receipt:
  assumes "c_Key c |\<notin>| fmdom (db_receipts st)" "actionT code u c rs k0 ins st = Inr ((res, x), st1)"
  shows "x \<noteq> None"
proof -
  have "commandReceipt u c st = Inr (None, st)"
    using assms(1) by (simp add: commandReceipt_def bindT_def fmdom_notD)
  with assms(2) show ?thesis by (auto simp: actionT_def Let_def tx_simps)
qed

section \<open>The command\<close>

text \<open>The recording transaction of a fresh command, on rows that load.\<close>

lemma record_refines:
  assumes "pg_reachable st" "actionT code u c ''active'' 0 (insert_move code m) st = Inr ((res, Some k), st1)"
    and "load_room code st = Inr (agg, roles)" "IsValidMove m"
  obtains role s where "seat_of code u st = Some (role, s)" "k = r_round agg"
    "loaded code st1 = Some (record_move (se_player_id s) m agg)"
    "SubmitMove (se_player_id s) m agg = (if flen (r_moves (record_move (se_player_id s) m agg)) = 2
       then resolve (record_move (se_player_id s) m agg) else Inr (record_move (se_player_id s) m agg))"
    "round_status code k st1 = ''active''" "\<not> r_resolved agg" "length (r_players agg) = 2"
    "resolvable code k st1 \<longleftrightarrow> flen (r_moves (record_move (se_player_id s) m agg)) = 2"
proof -
  from assms(2) obtain rs role s r st2 where view: "action_view code st = Some (k, rs, ''active'', True)" "rs \<noteq> ''closed''"
    and seat: "seat_of code u st = Some (role, s)" "(code, k, role) |\<notin>| fmdom (db_moves st)"
    and r: "fmlookup (db_rooms st) code = Some r"
    and st2: "st2 = st\<lparr>db_moves := fmupd (code, k, role) m (db_moves st),
        db_rooms := fmupd code (r\<lparr>rm_revision := rm_revision r + 1\<rparr>) (db_rooms st)\<rparr>"
    and rest: "thenT (persistCommandEffects code (rm_revision r + 1) u c res) (notifyRoomStateChanged code k) st2
      = Inr ((), st1)" by (rule recorded_steps)
  note ok = rows_ok_reachable [OF assms(1)]
  from view(1) r obtain rr where rr: "fmlookup (db_rounds st) (code, k) = Some rr" "rr_status rr = ''active''"
    "rr_funded rr" "rm_current_round r = k" "rs = rm_status r" and two: "length (room_seats code st) = 2"
    by (auto simp: action_view_def split: option.splits)
  have active: "rm_status r = ''active''" "rr_result rr = None"
    using ok r rr view(2) by (auto simp: rows_ok_def consistent_def split: if_splits)
  have agg: "r_round agg = k" "\<not> r_closed agg" "\<not> r_resolved agg" "wf_room agg"
    "r_players agg = map (\<lambda>(role, x). \<lparr>player_ID = se_player_id x, player_Wins = se_wins x\<rparr>) (room_seats code st)"
    using assms(3) r rr active by (auto elim!: load_room_Inr)
  have "keeps (\<lambda>st. room_view code st = x) (thenT (persistCommandEffects code (rm_revision r + 1) u c res)
      (notifyRoomStateChanged code k))" for x by (intro keeps_intros keeps_view_effects)
  from keepsD [OF this refl rest] have "room_view code st1 = room_view code (with_move code (r_round agg) role m st)"
    using room_view_revision [of "with_move code k role m st" code r code "rm_revision r + 1"] r by (simp add: st2 agg)
  note load = loaded_with_move [OF assms(3) seat_of_Some [OF seat(1), THEN conjunct2]
      seat_of_Some [OF seat(1), THEN conjunct1] _ agg(3) assms(4) this]
  let ?agg1 = "record_move (se_player_id s) m agg"
  from load(1) seat(2) agg(1) obtain roles1 where load1: "load_room code st1 = Inr (?agg1, roles1)"
    by (auto simp: loaded_eq_Some)
  have "keeps (\<lambda>st. rows st = x) (thenT (persistCommandEffects code (rm_revision r + 1) u c res)
      (notifyRoomStateChanged code k))" for x by (intro keeps_intros fixed_rows.keeps_receipts)
  from keepsD [OF this refl rest] have rows1: "db_rooms st1 = db_rooms st2" "db_seats st1 = db_seats st"
    "db_rounds st1 = db_rounds st" by (simp_all add: st2)
  have seats1: "room_seats code st1 = room_seats code st" by (simp add: room_seats_def rows1)
  have ids: "distinct (map (\<lambda>(role, s). se_player_id s) (room_seats code st))"
    using agg(4) by (simp add: wf_room_def wf_seats_def player_ids_def agg(5) split_def comp_def)
  have "r_moves ?agg1 = moves_of (move_rows code k st1)"
    using load1 agg(1) by (auto simp: record_move_def elim!: load_room_Inr)
  then have "flen (r_moves ?agg1) = count_moves code k st1"
    using count_moves_flen [of code st1 k] two ids by (simp add: seats1)
  moreover have "current_active code k st1" using active rr by (simp add: current_active_def rows1 st2)
  ultimately have "resolvable code k st1 \<longleftrightarrow> flen (r_moves ?agg1) = 2"
    using rr by (simp add: resolvable_def rows1)
  moreover have len: "length (r_players agg) = 2" by (simp add: agg(5) two)
  moreover have "hasPlayer agg (se_player_id s)"
    using load(3) seat(2) agg(1) by (auto simp: hasPlayer_def player_ids_def list_ex_iff)
  then have "SubmitMove (se_player_id s) m agg = (if flen (r_moves ?agg1) = 2 then resolve ?agg1 else Inr ?agg1)"
    using agg(1,2,3) len assms(4) load(2) seat(2) by (simp add: SubmitMove_def record_move_def guarded_eval)
  ultimately show thesis
    using load(1) seat agg rr by (intro that) (simp_all add: round_status_def rows1)
qed

lemma resolve_total:
  assumes "length (r_players agg) = 2"
  obtains agg2 where "resolve (record_move p m agg) = Inr agg2"
  using assms by (auto simp: resolve_def record_move_def Let_def elim!: two_players)

text \<open>A reconciliation on a round that is still active: a claim that fails changes nothing.\<close>

lemma reconcile_active:
  assumes "round_status code k st = ''active''" "ReconcileRoom \<lparr>hint_RoomCode = code, hint_Round = k\<rparr> st = ((rep, err), st1)"
  shows "\<not> resolvable code k st \<Longrightarrow> st1 = st" "err \<noteq> None \<Longrightarrow> st1 = st"
proof -
  have "\<not> advanceable code k st"
    using assms(1) by (auto simp: advanceable_def round_status_def split: option.splits)
  then show "\<not> resolvable code k st \<Longrightarrow> st1 = st"
    using assms(2) by (simp add: ReconcileRoom_def claimRoomTransition_def Let_def bindT_def)
  show "err \<noteq> None \<Longrightarrow> st1 = st"
    using assms(2) by (auto simp: ReconcileRoom_def Let_def split: sum.splits option.splits prod.splits)
qed

text \<open>C1: Submitting a move refines the aggregate. In a reachable database, when a fresh \<open>SubmitMoveCommand\<close>
  succeeds, the caller's seat exists and the aggregate's own \<open>SubmitMove\<close> accepts the move for it, and
  the rows hold afterwards exactly what \<open>SubmitMove\<close> makes of the aggregate, including the result and
  the point when it was the second move. Only when the reconciliation behind the command failed do they
  hold the recorded move alone, and then the round is one that the reconciler's next batch selects.
\<close>
theorem submit_move_refines_aggregate:
  assumes "pg_reachable st" "SubmitMoveCommand_pg code u m c st = (Inr res, st1)"
    and "c_Key c |\<notin>| fmdom (db_receipts st)" "loaded code st = Some agg" "small_counters agg"
  shows "\<exists>role s agg1. seat_of code u st = Some (role, s) \<and> SubmitMove (se_player_id s) m agg = Inr agg1
    \<and> (loaded code st1 = Some agg1
       \<or> loaded code st1 = Some (record_move (se_player_id s) m agg) \<and> resolvable code (r_round agg) st1)"
proof -
  from assms(4) obtain roles where load: "load_room code st = Inr (agg, roles)" by (auto simp: loaded_eq_Some)
  let ?hint = "\<lambda>k. \<lparr>hint_RoomCode = code, hint_Round = k\<rparr>"
  from assms(2) have valid: "IsValidMove m"
    and rec: "recordRoomAction code u c ''active'' 0 (insert_move code m) st = (Inr res, st1)"
    by (auto simp: SubmitMoveCommand_pg_def split: if_splits)
  from rec obtain x st2 where act: "actionT code u c ''active'' 0 (insert_move code m) st = Inr ((res, x), st2)"
    and st1: "st1 = (case x of None \<Rightarrow> st2 | Some k \<Rightarrow> snd (ReconcileRoom (?hint k) st2))"
    by (auto simp: recordRoomAction_def transaction_def split: sum.splits prod.splits option.splits)
  with fresh_receipt [OF assms(3) act] obtain k where x: "x = Some k" by auto
  obtain role s where r: "seat_of code u st = Some (role, s)" "k = r_round agg"
    "loaded code st2 = Some (record_move (se_player_id s) m agg)"
    "SubmitMove (se_player_id s) m agg = (if flen (r_moves (record_move (se_player_id s) m agg)) = 2
       then resolve (record_move (se_player_id s) m agg) else Inr (record_move (se_player_id s) m agg))"
    "round_status code k st2 = ''active''" "\<not> r_resolved agg" "length (r_players agg) = 2"
    "resolvable code k st2 \<longleftrightarrow> flen (r_moves (record_move (se_player_id s) m agg)) = 2"
    using record_refines [OF assms(1) act [unfolded x] load valid] by blast
  let ?agg1 = "record_move (se_player_id s) m agg"
  obtain rep err where run: "ReconcileRoom (?hint k) st2 = ((rep, err), st1)" using st1 x by (metis option.simps(5) prod.collapse)
  note keep = reconcile_active [OF r(5) run]
  show ?thesis
  proof (cases "resolvable code k st2")
    case False
    with keep(1) r have "SubmitMove (se_player_id s) m agg = Inr ?agg1 \<and> loaded code st1 = Some ?agg1" by simp
    with r(1) show ?thesis by blast
  next
    case True
    obtain agg2 where agg2: "resolve ?agg1 = Inr agg2" using r(7) by (rule resolve_total)
    with True r have submit: "SubmitMove (se_player_id s) m agg = Inr agg2" by simp
    have "pg_reachable st2"
      using pg_step [OF assms(1), of "PRecordMove code u m c"] valid act by (simp add: transaction_def)
    moreover have "small_counters ?agg1" using assms(5) by (simp add: small_counters_def record_move_def)
    ultimately have refined: "st1 = st2 \<or> loaded code st1 = Some agg2" if "err = None"
      using reconcile_refines_aggregate [OF run [unfolded that] _ r(3)] agg2 r(6)
      by (auto simp: ResolveCommittedMoves_def AdvanceCommittedNextRound_def guarded_eq_Inr record_move_def)
    show ?thesis
    proof (cases "loaded code st1 = Some agg2")
      case False
      with refined keep(2) have "st1 = st2" by blast
      with True r(2,3) have "loaded code st1 = Some ?agg1 \<and> resolvable code (r_round agg) st1" by simp
      with r(1) submit show ?thesis by blast
    qed (use r(1) submit in auto)
  qed
qed

theorem submit_move_refines_aggregate_witness:
  "\<exists>agg1. SubmitMove ''p2'' ''paper'' half_agg = Inr agg1
     \<and> loaded ''R'' (pgRun (PSubmitMoveCommand ''R'' ''bob'' ''paper'' bob_paper) half_db) = Some agg1
     \<and> r_result agg1 = PlayerTwoWins"
proof -
  let ?st1 = "pgRun (PSubmitMoveCommand ''R'' ''bob'' ''paper'' bob_paper) half_db"
  have run: "(case fst (SubmitMoveCommand_pg ''R'' ''bob'' ''paper'' bob_paper half_db) of Inl e \<Rightarrow> False | Inr r \<Rightarrow> True)"
    "map_option (\<lambda>(role, s). se_player_id s) (seat_of ''R'' ''bob'' half_db) = Some ''p2''"
    "c_Key bob_paper |\<notin>| fmdom (db_receipts half_db)" "\<not> resolvable ''R'' 1 ?st1" by code_simp+
  from run(1) obtain res where "fst (SubmitMoveCommand_pg ''R'' ''bob'' ''paper'' bob_paper half_db) = Inr res"
    by (auto split: sum.splits)
  then have "SubmitMoveCommand_pg ''R'' ''bob'' ''paper'' bob_paper half_db = (Inr res, ?st1)"
    by (simp add: prod_eq_iff)
  from submit_move_refines_aggregate [OF pending_reachable(1) this run(3) scenario_loads(1) scenario_small(1)]
  obtain agg1 where "SubmitMove ''p2'' ''paper'' half_agg = Inr agg1" "loaded ''R'' ?st1 = Some agg1"
    using run(2,4) by (auto simp: half_agg_def ana_room_def)
  moreover have "(case SubmitMove ''p2'' ''paper'' half_agg of Inl e \<Rightarrow> False | Inr agg1 \<Rightarrow> r_result agg1 = PlayerTwoWins)"
    by code_simp
  ultimately show ?thesis by auto
qed

end
