(* ===== verification/Postgres_Backlog.thy ===== *)
theory Postgres_Backlog
  imports Postgres_Moves
begin

text \<open>
  The backlog of the reconciler. \<open>ReconcileBatch\<close> takes the oldest rounds that are ready to be resolved or
  advanced; each of them leaves the backlog unless its transaction failed, and no other round enters it.
\<close>

section \<open>The rows of one room\<close>

definition room_rows :: "string \<Rightarrow> db \<Rightarrow> _" where
  "room_rows code st = (fmlookup (db_rooms st) code, (\<lambda>k. fmlookup (db_rounds st) (code, k)),
     (\<lambda>role. fmlookup (db_seats st) (code, role)), (\<lambda>key. fmlookup (db_moves st) (code, key)),
     (\<lambda>key. fmlookup (db_requests st) (code, key)))"

lemma room_rows_eq:
  "room_rows code st1 = room_rows code st \<longleftrightarrow> fmlookup (db_rooms st1) code = fmlookup (db_rooms st) code
     \<and> (\<forall>k. fmlookup (db_rounds st1) (code, k) = fmlookup (db_rounds st) (code, k))
     \<and> (\<forall>role. fmlookup (db_seats st1) (code, role) = fmlookup (db_seats st) (code, role))
     \<and> (\<forall>key. fmlookup (db_moves st1) (code, key) = fmlookup (db_moves st) (code, key))
     \<and> (\<forall>key. fmlookup (db_requests st1) (code, key) = fmlookup (db_requests st) (code, key))"
  by (auto simp: room_rows_def fun_eq_iff)

lemma room_rows_other [simp]:
  "room_rows code (st\<lparr>db_wallets := a, db_postings := b\<rparr>) = room_rows code st"
  "room_rows code (st\<lparr>db_next_transaction := i, db_transactions := d\<rparr>) = room_rows code st"
  "room_rows code (st\<lparr>db_notified := g\<rparr>) = room_rows code st"
  "room_rows code (st\<lparr>db_outbox := h, db_next_outbox := j\<rparr>) = room_rows code st"
  "room_rows code (insert_wallet typ a' st) = room_rows code st"
  "room_rows code (insert_deadline d' st) = room_rows code st"
  "room_rows code (insert_history code' k row st) = room_rows code st"
  "room_rows code (finish_deadlines P s t st) = room_rows code st"
  by (simp_all add: room_rows_def insert_wallet_def insert_deadline_def insert_history_def finish_deadlines_def)

lemma room_rows_room [simp]:
  assumes "code' \<noteq> code"
  shows "room_rows code (set_round_status code' k status st) = room_rows code st"
    and "room_rows code (insert_round code' k st) = room_rows code st"
    and "room_rows code (mark_funded code' k st) = room_rows code st"
  using assms
  by (simp_all add: room_rows_def set_round_status_def insert_round_def mark_funded_def split: option.split)

lemma save_seats_other: "code' \<noteq> code \<Longrightarrow> fmlookup (save_seats code' inputs t) (code, role) = fmlookup t (code, role)"
  by (induction inputs arbitrary: t) (simp_all add: save_seats_def split: option.split)

lemma fold_upd_other:
  "(\<And>i. f i \<noteq> x) \<Longrightarrow> fmlookup (fold (\<lambda>i. if P i then fmupd (f i) (g i) else id) xs t) x = fmlookup t x"
  by (induction xs arbitrary: t) simp_all

lemma save_moves_other:
  "code' \<noteq> code \<Longrightarrow> fmlookup (save_moves code' k inputs t) (code, key) = fmlookup t (code, key)"
  unfolding save_moves_def by (subst fold_upd_other) (auto split: prod.splits)

lemma save_requests_other:
  "code' \<noteq> code \<Longrightarrow> fmlookup (save_requests code' k previous inputs t) (code, key) = fmlookup t (code, key)"
  unfolding save_requests_def by (subst fold_upd_other, simp)+ (auto split: prod.splits)

lemma room_rows_save:
  assumes "r_code agg \<noteq> code"
  shows "room_rows code (save_room agg roles prev rv st) = room_rows code st"
  using assms
  by (simp add: room_rows_eq save_room_def Let_def update_room_def upsert_round_def save_seats_other
      save_moves_other save_requests_other split: option.split)

lemma room_rows_settle: "keeps (\<lambda>st. room_rows code st = x) (settleRound_pg code' state)"
  unfolding settleRound_pg_def Let_def split_def lockWalletBalances_def
  by (intro keeps_intros keeps_part keeps_part_record; simp)

lemma room_rows_fund: "code' \<noteq> code \<Longrightarrow> keeps (\<lambda>st. room_rows code st = x) (fundRound_pg code' k u)"
  unfolding fundRound_pg_def Let_def split_def lockWalletBalances_def scheduleInactivityDeadline_def
  by (intro keeps_intros keeps_part keeps_part_record; simp)

lemma room_rows_steps:
  assumes "hint_RoomCode hint \<noteq> code"
  shows "keeps (\<lambda>st. room_rows code st = x) (claimRoomTransition hint)"
    and "keeps (\<lambda>st. room_rows code st = x) (after_save hint tr agg)"
    and "keeps (\<lambda>st. room_rows code st = x) (announceT (hint_RoomCode hint) rv k)"
  using assms unfolding claimRoomTransition_def after_save_def announceT_def insert_outbox_def notifyRoomStateChanged_def
    Let_def split_def
  by (intro keeps_intros keeps_part room_rows_settle room_rows_fund; simp)+

text \<open>Reconciling a room leaves the rows of every other room alone; a failure leaves everything alone.\<close>

lemma reconcile_other_room:
  assumes "ReconcileRoom hint st = ((rep, err), st1)" "hint_RoomCode hint \<noteq> code"
  shows "room_rows code st1 = room_rows code st"
proof -
  have "keeps (\<lambda>st. room_rows code st = x) (transitionT hint tr)" for x tr
  proof (rule keepsI)
    fix st y st1
    assume x: "room_rows code st = x" and run: "transitionT hint tr st = Inr (y, st1)"
    from run obtain agg roles agg1 rv where c: "load_room (hint_RoomCode hint) st = Inr (agg, roles)"
      "committed tr (hint_Round hint) agg = Inr agg1"
      "after_save hint tr agg1 (save_room agg1 roles (r_round agg) rv st) = Inr ((), st1)"
      by (rule transition_saved)
    have "r_code agg1 \<noteq> code" using committed_fields [OF c(2)] c(1) assms(2) by (auto elim: load_room_Inr)
    with keepsD [OF room_rows_steps(2) [OF assms(2)] room_rows_save c(3)] x show "room_rows code st1 = x" by simp
  qed
  note steps = room_rows_steps [OF assms(2), THEN keepsD, OF refl] keepsD [OF this refl]
  show ?thesis
    using assms(1) steps
    by (auto simp: ReconcileRoom_def Let_def split: sum.splits option.splits prod.splits; metis)
qed

lemma reconcile_failed: "ReconcileRoom hint st = ((rep, Some e), st1) \<Longrightarrow> st1 = st"
  by (auto simp: ReconcileRoom_def Let_def split: sum.splits option.splits prod.splits)

section \<open>The rounds that are ready\<close>

definition eligible :: "string \<Rightarrow> uint64 \<Rightarrow> db \<Rightarrow> bool" where
  "eligible code k st \<longleftrightarrow> resolvable code k st \<or> advanceable code k st"

lemma rows_of_room:
  assumes "room_rows code st1 = room_rows code st"
  shows "eligible code k st1 = eligible code k st" "loaded code st1 = loaded code st"
proof -
  have dom: "(code, key) |\<in>| fmdom (db_moves st1) \<longleftrightarrow> (code, key) |\<in>| fmdom (db_moves st)"
    "(code, key) |\<in>| fmdom (db_requests st1) \<longleftrightarrow> (code, key) |\<in>| fmdom (db_requests st)" for key
    using assms unfolding room_rows_eq fmlookup_dom_iff by metis+
  have "current_active code k st1 = current_active code k st" "count_moves code k st1 = count_moves code k st"
    "count_requests code k st1 = count_requests code k st"
    using assms by (simp_all add: room_rows_eq current_active_def count_moves_def count_requests_def dom)
  then show "eligible code k st1 = eligible code k st"
    using assms by (simp add: room_rows_eq eligible_def resolvable_def advanceable_def cong: option.case_cong)
  have "room_view code st1 = room_view code st"
    using assms
    by (simp add: room_rows_eq room_view_def room_seats_def move_rows_def request_rows_def dom cong: option.case_cong)
  from load_room_cong [OF this] show "loaded code st1 = loaded code st" by (simp add: loaded_def)
qed

lemma eligible_unique: "eligible code k st \<Longrightarrow> eligible code k' st \<Longrightarrow> k' = k"
  by (auto simp: eligible_def resolvable_def advanceable_def current_active_def split: option.splits)

text \<open>Requests, counted like the moves.\<close>

lemma count_requests_flen:
  assumes "length (room_seats code st) = 2" "distinct (map (\<lambda>(role, s). se_player_id s) (room_seats code st))"
  shows "flen (fold (\<lambda>p. fmupd p True) (request_rows code k st) fmempty) = count_requests code k st"
proof -
  obtain h g where "fmlookup (db_seats st) (code, ''host'') = Some h" "fmlookup (db_seats st) (code, ''guest'') = Some g"
    using assms(1) by (auto simp: room_seats_def split: option.splits)
  then show ?thesis
    using assms(2) by (auto simp: request_rows_def room_seats_def count_requests_def fmlookup_dom_iff fcard.rep_eq)
qed

text \<open>What a load shows of a round that is ready.\<close>

lemma eligible_loaded:
  assumes "pg_reachable st" "load_room code st = Inr (agg, roles)" "eligible code k st" "length (r_players agg) = 2"
  shows "if r_resolved agg then flen (r_nextRoundRequests agg) = 2 else flen (r_moves agg) = 2"
proof -
  from assms(2) obtain v where v: "room_view code st = Some v" "fst (view_state code v) = PersistenceState agg"
    "wf_room agg" unfolding load_room_view_eq by blast
  then obtain r rr where r: "fmlookup (db_rooms st) code = Some r"
    "fmlookup (db_rounds st) (code, rm_current_round r) = Some rr"
    and vs: "v = (rm_current_round r, rm_status r, rr_result rr, rr_forfeited_role rr, room_seats code st,
       move_rows code (rm_current_round r) st, request_rows code (rm_current_round r) st)"
    unfolding room_view_Some by blast
  have agg: "r_players agg = map (\<lambda>(role, x). \<lparr>player_ID = se_player_id x, player_Wins = se_wins x\<rparr>) (room_seats code st)"
    "r_moves agg = moves_of (move_rows code (rm_current_round r) st)" "r_resolved agg = (rr_result rr \<noteq> None)"
    "r_nextRoundRequests agg = fold (\<lambda>p. fmupd p True) (request_rows code (rm_current_round r) st) fmempty"
    using v(2) by (auto simp: vs view_state_def PersistenceState_def Let_def)
  have two: "length (room_seats code st) = 2" using assms(4) by (simp add: agg)
  have ids: "distinct (map (\<lambda>(role, s). se_player_id s) (room_seats code st))"
    using v(3) by (simp add: wf_room_def wf_seats_def player_ids_def agg(1) split_def comp_def)
  have "consistent rr" using rows_ok_reachable [OF assms(1)] r(2) by (auto simp: rows_ok_def)
  with assms(3) r show ?thesis
    by (auto simp: agg count_moves_flen [OF two ids] count_requests_flen [OF two ids] eligible_def resolvable_def
        advanceable_def current_active_def consistent_def split: if_splits option.splits)
qed

text \<open>A round that was reconciled without an error is ready no more, and neither is the one that follows it.\<close>

lemma reconciled_not_eligible:
  assumes "ReconcileRoom \<lparr>hint_RoomCode = code, hint_Round = k\<rparr> st = ((rep, None), st1)" "pg_reachable st"
    and "eligible code k st" "\<And>agg. loaded code st = Some agg \<Longrightarrow> small_counters agg"
  shows "\<not> eligible code k' st1"
proof
  assume later: "eligible code k' st1"
  let ?hint = "\<lparr>hint_RoomCode = code, hint_Round = k\<rparr>"
  from assms(3) have "claimRoomTransition ?hint st = Inr (tr, st2) \<Longrightarrow> tr \<noteq> None" for tr st2
    by (auto simp: claimRoomTransition_def eligible_def bindT_def thenT_def Let_def split: if_splits)
  with assms(1) obtain t st2 where claim: "claimRoomTransition ?hint st = Inr (Some t, st2)"
    by (fastforce simp: ReconcileRoom_def Let_def split: sum.splits option.splits)
  obtain rv k1 st3 where t: "transitionT ?hint t st2 = Inr ((rv, k1), st3)"
    by (rule reconcile_won [OF claim assms(1)])
  then obtain agg roles where load2: "load_room code st2 = Inr (agg, roles)" by (auto elim: transition_saved)
  have "load_room code st = Inr (agg, roles)" using claim_steps [OF claim, of code] load2 load_room_cong by metis
  then have agg: "loaded code st = Some agg" "wf_room agg" "length (r_players agg) = 2 \<Longrightarrow>
      if r_resolved agg then flen (r_nextRoundRequests agg) = 2 else flen (r_moves agg) = 2"
    using eligible_loaded [OF assms(2) _ assms(3)] by (auto simp: loaded_eq_Some elim: load_room_Inr)
  have noop: "rc_ClaimNoops rep \<noteq> 1"
    using assms(1) claim
    by (auto simp: ReconcileRoom_def Let_def zeroReconciliation_def split: sum.splits prod.splits transition.splits)
  from reconcile_refines_aggregate [OF assms(1,2) agg(1) assms(4) [OF agg(1)]] noop
  obtain agg1 where agg1: "loaded code st1 = Some agg1"
    "ResolveCommittedMoves k agg = Inr agg1 \<or> AdvanceCommittedNextRound k agg = Inr agg1" by blast
  then obtain roles1 where load1: "load_room code st1 = Inr (agg1, roles1)" by (auto simp: loaded_eq_Some)
  have reach: "pg_reachable st1" using pg_step [OF assms(2), of "PReconcileRoom ?hint"] assms(1) by simp
  from agg1(2) show False
  proof
    assume "ResolveCommittedMoves k agg = Inr agg1"
    then have res: "resolve agg = Inr agg1" "\<not> r_resolved agg" "length (r_players agg) = 2"
      by (auto simp: ResolveCommittedMoves_def guarded_eq_Inr)
    then have new: "agg1 = settled (roundOutcome agg) '''' agg"
      using resolve_settled wf_unresolved(2) [OF agg(2)] by fastforce
    have "r_nextRoundRequests agg = fmempty" using agg(2) res(2) by (simp add: wf_room_def wf_outcome_def)
    with eligible_loaded [OF reach load1 later] res(3) show False by (simp add: new flen_0_iff)
  next
    assume "AdvanceCommittedNextRound k agg = Inr agg1"
    then have "agg1 = startNextRound agg" "length (r_players agg) = 2"
      by (auto simp: AdvanceCommittedNextRound_def guarded_eq_Inr)
    with eligible_loaded [OF reach load1 later] show False by (simp add: startNextRound_def)
  qed
qed

section \<open>The batch\<close>

definition backlog :: "db \<Rightarrow> (string \<times> uint64) set" where
  "backlog st = {(code, k). eligible code k st}"

lemma eligible_rounds_backlog:
  "distinct (map snd (eligible_rounds st))" "set (map snd (eligible_rounds st)) = backlog st"
proof -
  have keys: "map snd (eligible_rounds st)
      = filter (\<lambda>(code, k). resolvable code k st \<or> advanceable code k st) (sorted_list_of_fset (fmdom (db_rounds st)))"
    by (simp add: eligible_rounds_def comp_def split_def)
  then show "distinct (map snd (eligible_rounds st))" by (simp add: sorted_list_of_fset.rep_eq)
  have "eligible code k st \<Longrightarrow> (code, k) |\<in>| fmdom (db_rounds st)" for code k
    by (auto simp: eligible_def resolvable_def advanceable_def fmlookup_dom_iff split: option.splits)
  then show "set (map snd (eligible_rounds st)) = backlog st"
    unfolding keys by (auto simp: backlog_def eligible_def sorted_list_of_fset.rep_eq)
qed

lemma card_backlog: "finite (backlog st)" "card (backlog st) = length (eligible_rounds st)"
  using eligible_rounds_backlog [of st] distinct_card [of "map snd (eligible_rounds st)"]
  by (metis List.finite_set) (metis eligible_rounds_backlog distinct_card length_map)

text \<open>One round less after a success, as many after a failure.\<close>

lemma backlog_step:
  assumes "ReconcileRoom \<lparr>hint_RoomCode = code, hint_Round = k\<rparr> st = ((rep, err), st1)" "pg_reachable st"
    and "eligible code k st" "\<And>agg. loaded code st = Some agg \<Longrightarrow> small_counters agg"
  shows "backlog st1 = (if err = None then backlog st - {(code, k)} else backlog st)"
proof (cases err)
  case None
  have "eligible c j st1 \<longleftrightarrow> eligible c j st \<and> (c, j) \<noteq> (code, k)" for c j
  proof (cases "c = code")
    case True
    then show ?thesis
      using reconciled_not_eligible [OF assms(1) [unfolded None] assms(2-4)] eligible_unique [OF assms(3)] by auto
  next
    case False
    then show ?thesis using rows_of_room(1) [OF reconcile_other_room [OF assms(1)]] by auto
  qed
  with None show ?thesis by (auto simp: backlog_def)
next
  case (Some e)
  with assms(1) reconcile_failed show ?thesis by (metis option.distinct(1))
qed

lemma win_or_fail:
  assumes "ReconcileRoom \<lparr>hint_RoomCode = code, hint_Round = k\<rparr> st = ((rep, err), st1)" "eligible code k st"
  shows "rc_ClaimWins rep = 1" "rc_Failures rep = 0" "rc_EligibleBacklog rep = 0"
proof -
  have "\<exists>t st2. claimRoomTransition \<lparr>hint_RoomCode = code, hint_Round = k\<rparr> st = Inr (Some t, st2)"
    using assms(2) by (auto simp: claimRoomTransition_def eligible_def bindT_def thenT_def Let_def)
  with assms(1) show "rc_ClaimWins rep = 1" "rc_Failures rep = 0" "rc_EligibleBacklog rep = 0"
    by (auto simp: ReconcileRoom_def Let_def zeroReconciliation_def split: sum.splits prod.splits transition.splits)
qed

text \<open>The counters of the rooms in a list of candidates fit their columns.\<close>

definition countable_rooms :: "(go_time \<times> string \<times> uint64) list \<Rightarrow> db \<Rightarrow> bool" where
  "countable_rooms cs st \<longleftrightarrow>
     (\<forall>(t, code, k)\<in>set cs. \<forall>agg. loaded code st = Some agg \<longrightarrow> small_counters agg)"

lemma reconcileCandidates_backlog:
  assumes "reconcileCandidates cs rep errs st = ((rep1, errs1), st1)" "pg_reachable st"
    and "distinct (map snd cs)" "\<forall>(t, code, k)\<in>set cs. eligible code k st" "countable_rooms cs st"
    and "0 \<le> rc_EligibleBacklog rep"
  shows "\<exists>failed \<subseteq> set (map snd cs). backlog st1 = backlog st - set (map snd cs) \<union> failed
      \<and> length errs1 = length errs + card failed \<and> rc_Failures rep1 = rc_Failures rep + int (card failed)
      \<and> rc_ClaimWins rep1 = rc_ClaimWins rep + int (length cs) \<and> rc_EligibleBacklog rep1 = rc_EligibleBacklog rep"
  using assms
proof (induction cs arbitrary: rep errs st)
  case (Cons c cs)
  obtain t code k where c: "c = (t, code, k)" by (metis prod.collapse)
  obtain r err st2 where run: "ReconcileRoom \<lparr>hint_RoomCode = code, hint_Round = k\<rparr> st = ((r, err), st2)"
    by (metis prod.collapse)
  have ready: "eligible code k st" and small: "loaded code st = Some agg \<Longrightarrow> small_counters agg" for agg
    using Cons.prems(4,5) by (auto simp: c countable_rooms_def)
  note step = backlog_step [OF run Cons.prems(2) ready small] and wins = win_or_fail [OF run ready]
  have reach: "pg_reachable st2"
    using pg_step [OF Cons.prems(2), of "PReconcileRoom \<lparr>hint_RoomCode = code, hint_Round = k\<rparr>"] run by simp
  have other: "c' \<noteq> code" if "(t', c', k') \<in> set cs" for t' c' k'
  proof
    assume "c' = code"
    moreover have "eligible c' k' st" using Cons.prems(4) that by auto
    ultimately have "k' = k" using eligible_unique ready by blast
    with \<open>c' = code\<close> that Cons.prems(3) show False by (force simp: c)
  qed
  have same: "eligible c' k' st2 = eligible c' k' st" "loaded c' st2 = loaded c' st" if "(t', c', k') \<in> set cs" for t' c' k'
    using rows_of_room [OF reconcile_other_room [OF run]] other [OF that] by auto
  have rest: "\<forall>(t, code, k)\<in>set cs. eligible code k st2" "countable_rooms cs st2" "distinct (map snd cs)"
    using Cons.prems(3-5) same by (auto simp: c countable_rooms_def split_beta)
  let ?rep = "ReconciliationReport_Add rep r"
  have next_run: "reconcileCandidates cs (case err of None \<Rightarrow> ?rep | Some e \<Rightarrow> ?rep\<lparr>rc_Failures := rc_Failures ?rep + 1\<rparr>)
      (case err of None \<Rightarrow> errs | Some e \<Rightarrow> errs @ [e]) st2 = ((rep1, errs1), st1)"
    using Cons.prems(1) run by (simp add: c Let_def split: option.splits)
  have "0 \<le> rc_EligibleBacklog (case err of None \<Rightarrow> ?rep | Some e \<Rightarrow> ?rep\<lparr>rc_Failures := rc_Failures ?rep + 1\<rparr>)"
    using Cons.prems(6) wins by (simp add: ReconciliationReport_Add_def split: option.split)
  from Cons.IH [OF next_run reach rest(3,1,2) this] obtain failed where f: "failed \<subseteq> set (map snd cs)"
    "backlog st1 = backlog st2 - set (map snd cs) \<union> failed"
    "length errs1 = length errs + (if err = None then 0 else 1) + card failed"
    "rc_Failures rep1 = rc_Failures rep + (if err = None then 0 else 1) + int (card failed)"
    "rc_ClaimWins rep1 = rc_ClaimWins rep + 1 + int (length cs)" "rc_EligibleBacklog rep1 = rc_EligibleBacklog rep"
    using wins Cons.prems(6) by (cases err) (auto simp: ReconciliationReport_Add_def)
  have new: "(code, k) \<notin> failed" "finite failed" "(code, k) \<in> backlog st" "(code, k) \<notin> set (map snd cs)"
    using f(1) Cons.prems(3) ready finite_subset [OF f(1)] by (auto simp: c backlog_def)
  show ?case
  proof (cases err)
    case None
    with f step new show ?thesis by (intro exI [of _ failed]) (auto simp: c)
  next
    case (Some e)
    with f step new show ?thesis by (intro exI [of _ "insert (code, k) failed"]) (auto simp: c)
  qed
qed (auto intro: exI [of _ "{}"])

text \<open>The candidates a batch takes are rounds that are ready, each once.\<close>

lemma candidates_taken:
  assumes "cs = take m (sort_key key (eligible_rounds st))"
  shows "set cs \<subseteq> set (eligible_rounds st)" "distinct (map snd cs)" "set (map snd cs) \<subseteq> backlog st"
    and "\<forall>(t, code, k)\<in>set cs. eligible code k st"
proof -
  show cs: "set cs \<subseteq> set (eligible_rounds st)" using assms set_take_subset [of m "sort_key key (eligible_rounds st)"] by auto
  have "distinct (map snd (sort_key key (eligible_rounds st)))"
    using eligible_rounds_backlog(1) [of st] unfolding distinct_map by simp
  then have "distinct (take m (map snd (sort_key key (eligible_rounds st))))" by (rule distinct_take)
  then show "distinct (map snd cs)" unfolding assms take_map .
  have "set (map snd cs) \<subseteq> set (map snd (eligible_rounds st))" using cs by (simp only: set_map image_mono)
  then show "set (map snd cs) \<subseteq> backlog st" unfolding eligible_rounds_backlog(2) .
  then show "\<forall>(t, code, k)\<in>set cs. eligible code k st" by (force simp: backlog_def)
qed

text \<open>C11: The reconciler works off its backlog. In a reachable database a batch takes as many of the rounds that are ready
  as its limit allows (32 when none is given); each of them is claimed, and each leaves the backlog unless
  its own transaction fails. A failure does not stop the batch, no other round becomes ready, and the report counts
  the backlog it found, the claims and the failures.
\<close>
theorem batch_works_off_backlog:
  assumes "pg_reachable st" "ReconcileBatch clock limit st = ((rep, errs), st1)"
    and "countable_rooms (eligible_rounds st) st"
    and "n = min (if limit \<le> 0 then 32 else nat limit) (length (eligible_rounds st))"
  shows "length (eligible_rounds st1) + n = length (eligible_rounds st) + length errs
    \<and> set (map snd (eligible_rounds st1)) \<subseteq> set (map snd (eligible_rounds st))
    \<and> rc_EligibleBacklog rep = int (length (eligible_rounds st)) \<and> rc_ClaimWins rep = int n
    \<and> rc_Failures rep = int (length errs)"
proof -
  let ?all = "sort_key (\<lambda>(t, code, k). (t, code, unat k)) (eligible_rounds st)"
  let ?cs = "take (nat (if limit \<le> 0 then 32 else limit)) ?all"
  have len: "length ?cs = n" using assms(4) by (simp add: min.commute)
  note taken = candidates_taken [OF refl, of _ "\<lambda>(t, code, k). (t, code, unat k)" st]
  have small: "countable_rooms ?cs st" using assms(3) taken(1) unfolding countable_rooms_def by blast
  from assms(2) obtain rep0 where run: "reconcileCandidates ?cs rep0 [] st = ((rep, errs), st1)"
    "rc_EligibleBacklog rep0 = int (length (eligible_rounds st))" "rc_Failures rep0 = 0" "rc_ClaimWins rep0 = 0"
    by (auto simp: ReconcileBatch_def Let_def zeroReconciliation_def)
  from reconcileCandidates_backlog [OF run(1) assms(1) taken(2,4) small] run(2-4) len obtain failed
    where f: "failed \<subseteq> set (map snd ?cs)" "backlog st1 = backlog st - set (map snd ?cs) \<union> failed"
      "length errs = card failed" "rc_Failures rep = int (card failed)" "rc_ClaimWins rep = int n"
      "rc_EligibleBacklog rep = int (length (eligible_rounds st))" by auto
  have sub: "set (map snd ?cs) \<subseteq> backlog st" by (rule taken(3))
  have size: "card (set (map snd ?cs)) = n" using distinct_card [OF taken(2)] len by (metis length_map)
  have "card (backlog st1) = card (backlog st - set (map snd ?cs)) + card failed"
    unfolding f(2) using f(1) finite_subset [OF f(1)] by (intro card_Un_disjoint) (auto simp: card_backlog)
  moreover have "card (backlog st - set (map snd ?cs)) = card (backlog st) - n"
    using size card_Diff_subset [OF _ sub] by simp
  moreover have "n \<le> card (backlog st)" using assms(4) by (simp add: card_backlog)
  ultimately have "length (eligible_rounds st1) + n = length (eligible_rounds st) + card failed"
    unfolding card_backlog by linarith
  moreover have "backlog st1 \<subseteq> backlog st" using f(1,2) sub by blast
  ultimately show ?thesis unfolding eligible_rounds_backlog(2) using f(3-6) by simp
qed

theorem batch_works_off_backlog_witness:
  "length (eligible_rounds pending_db) = 1 \<and> eligible_rounds (snd (ReconcileBatch 60 0 pending_db)) = []"
proof -
  have found: "eligible_rounds pending_db = [(0, ''R'', 1)]" "snd (fst (ReconcileBatch 60 0 pending_db)) = []"
    by code_simp+
  then obtain rep where run: "ReconcileBatch 60 0 pending_db = ((rep, []), snd (ReconcileBatch 60 0 pending_db))"
    by (metis prod.collapse)
  have "countable_rooms (eligible_rounds pending_db) pending_db"
    using scenario_loads(2) scenario_small(2) by (simp add: countable_rooms_def found)
  from batch_works_off_backlog [OF pending_reachable(2) run this refl] found(1) show ?thesis by simp
qed

end
