(* ===== verification/Postgres_Termination.thy ===== *)
theory Postgres_Termination
  imports Postgres_Claims
begin

text \<open>
  When the deadline worker returns. Each turn of its loop runs \<open>ProcessNextDeadline\<close>; a turn either takes
  a due deadline out of the pending ones or resolves the live round it belongs to, except when the
  round is live but not funded: then the turn reports a processed deadline and leaves it pending.
\<close>

section \<open>What a turn consumes\<close>

definition due_set :: "go_time \<Rightarrow> db \<Rightarrow> (int \<times> string \<times> uint64) set" where
  "due_set now st = {(i, c, k). \<exists>d. fmlookup (db_deadlines st) i = Some d \<and> dl_status d = ''pending''
     \<and> dl_due d \<le> now \<and> dl_room d = c \<and> dl_round d = k}"

definition live_set :: "db \<Rightarrow> (string \<times> uint64) set" where
  "live_set st = {(c, k). round_live c k st}"

definition funded_set :: "db \<Rightarrow> (string \<times> uint64) set" where
  "funded_set st = {(c, k). round_funded c k st}"

lemma finite_due_set: "finite (due_set now st)"
proof (rule finite_subset)
  let ?f = "\<lambda>i. (i, dl_room (the (fmlookup (db_deadlines st) i)), dl_round (the (fmlookup (db_deadlines st) i)))"
  show "due_set now st \<subseteq> ?f ` fset (fmdom (db_deadlines st))"
    by (force simp: due_set_def fmlookup_dom_iff)
qed simp

lemma finite_live_set: "finite (live_set st)"
proof (rule finite_subset)
  show "live_set st \<subseteq> fset (fmdom (db_rounds st))"
    by (auto simp: live_set_def round_live_def round_status_def fmlookup_dom_iff split: option.splits)
qed simp

lemma sets_of_rows:
  "rows st1 = rows st \<Longrightarrow> live_set st1 = live_set st" "rows st1 = rows st \<Longrightarrow> funded_set st1 = funded_set st"
  by (simp_all add: live_set_def funded_set_def round_live_def round_status_def current_active_def round_funded_def)

lemma due_set_deadlines: "db_deadlines st1 = db_deadlines st \<Longrightarrow> due_set now st1 = due_set now st"
  by (simp add: due_set_def)

lemma due_set_finish:
  assumes "\<And>i. f i \<noteq> ''pending''"
  shows "due_set now (finish_deadlines P f t st) = {x \<in> due_set now st. \<not> P (fst x) (the (fmlookup (db_deadlines st) (fst x)))}"
proof -
  have "(i, c, k) \<in> due_set now (finish_deadlines P f t st)
      \<longleftrightarrow> (i, c, k) \<in> due_set now st \<and> \<not> P i (the (fmlookup (db_deadlines st) i))" for i c k
    using assms
    by (cases "fmlookup (db_deadlines st) i"; cases "P i (the (fmlookup (db_deadlines st) i))")
      (simp_all add: due_set_def finish_deadlines_def)
  then show ?thesis by auto
qed

lemma due_set_cancel: "due_set now (cancel_deadline i t st) = {x \<in> due_set now st. fst x \<noteq> i}"
  by (auto simp: cancel_deadline_def due_set_finish)

lemma set_due_deadlines:
  "(i, d) \<in> set (due_deadlines P now st) \<longleftrightarrow> fmlookup (db_deadlines st) i = Some d \<and> dl_status d = ''pending''
     \<and> dl_due d \<le> now \<and> P d"
  by (force simp: due_deadlines_def Let_def fmlookup_dom_iff)

lemma due_deadlines_due_set:
  "(i, d) \<in> set (due_deadlines P now st) \<Longrightarrow> (i, dl_room d, dl_round d) \<in> due_set now st"
  by (auto simp: set_due_deadlines due_set_def)

text \<open>The search of a room cancels what it skips.\<close>

lemma firstApplicable_due:
  assumes "firstApplicable code k agg t ds st = Inr (found, st1)"
  shows "due_set now st1 \<subseteq> due_set now st \<and> (case found of
      None \<Rightarrow> due_set now st1 \<subseteq> {x. fst x \<notin> fst ` set ds} | Some x \<Rightarrow> x \<in> set ds)"
  using assms
proof (induction ds arbitrary: st)
  case Nil
  then show ?case by simp
next
  case (Cons x ds)
  obtain i d where x: "x = (i, d)" by (cases x)
  show ?case
  proof (cases "applicable code k agg st d")
    case True
    with Cons.prems show ?thesis by (auto simp: x bindT_def)
  next
    case False
    with Cons.prems have "firstApplicable code k agg t ds (cancel_deadline i t st) = Inr (found, st1)"
      by (simp add: x bindT_def thenT_def)
    from Cons.IH [OF this] show ?thesis by (cases found) (auto simp: x due_set_cancel)
  qed
qed

section \<open>A turn makes progress\<close>

definition progress :: "go_time \<Rightarrow> db \<Rightarrow> db \<Rightarrow> bool" where
  "progress now st st1 \<longleftrightarrow> due_set now st1 \<subseteq> due_set now st \<and> live_set st1 \<subseteq> live_set st
     \<and> funded_set st \<subseteq> funded_set st1 \<and> (due_set now st1 \<noteq> due_set now st \<or> live_set st1 \<noteq> live_set st)"

definition remaining :: "go_time \<Rightarrow> db \<Rightarrow> nat" where
  "remaining now st = card (due_set now st) + card (live_set st)"

lemma progress_remaining: "progress now st st1 \<Longrightarrow> remaining now st1 < remaining now st"
proof -
  assume p: "progress now st st1"
  then have le: "card (due_set now st1) \<le> card (due_set now st)" "card (live_set st1) \<le> card (live_set st)"
    by (simp_all add: progress_def card_mono finite_due_set finite_live_set)
  from p have "due_set now st1 \<subset> due_set now st \<or> live_set st1 \<subset> live_set st" by (auto simp: progress_def)
  then have "card (due_set now st1) < card (due_set now st) \<or> card (live_set st1) < card (live_set st)"
    by (auto intro: psubset_card_mono finite_due_set finite_live_set)
  with le show ?thesis by (auto simp: remaining_def)
qed

lemma progress_cancel:
  assumes "(i, c, k) \<in> due_set now st" "rows st1 = rows st" "due_set now st1 \<subseteq> {x \<in> due_set now st. fst x \<noteq> i}"
  shows "progress now st st1"
  using assms sets_of_rows [OF assms(2)] unfolding progress_def by force

lemma keeps_deadlines:
  "keeps (\<lambda>st. db_deadlines st = x) (settleRound_pg code state)" "keeps (\<lambda>st. db_deadlines st = x) (insert_outbox_once code rv)"
  unfolding settleRound_pg_def insert_outbox_once_def insert_outbox_def Let_def split_def lockWalletBalances_def
  by (intro keeps_intros keeps_part_record keeps_part; simp add: insert_history_def)+

lemma deadlines_reactivate [simp]: "db_deadlines (reactivate code k st) = db_deadlines st"
  by (simp add: reactivate_def set_round_status_def split: option.split)

text \<open>Claiming a live round and giving it back leaves the rows as they were.\<close>

lemma live_claimed:
  assumes "round_live code k st"
  shows "live_set (set_round_status code k ''settling'' st) = live_set st - {(code, k)}"
    and "funded_set (set_round_status code k ''settling'' st) = funded_set st"
proof -
  obtain rr where rr: "fmlookup (db_rounds st) (code, k) = Some rr"
    using assms by (auto simp: round_live_def round_status_def split: option.splits)
  have "round_live c n (set_round_status code k ''settling'' st) \<longleftrightarrow> round_live c n st \<and> (c, n) \<noteq> (code, k)" for c n
    by (cases "c = code"; cases "n = k") (simp_all add: round_live_def round_status_def current_active_def set_round_status_def rr)
  then show "live_set (set_round_status code k ''settling'' st) = live_set st - {(code, k)}"
    by (auto simp: live_set_def)
  have "round_funded c n (set_round_status code k ''settling'' st) = round_funded c n st" for c n
    by (cases "c = code"; cases "n = k") (simp_all add: round_funded_def set_round_status_def rr)
  then show "funded_set (set_round_status code k ''settling'' st) = funded_set st"
    by (simp add: funded_set_def)
qed

lemma reactivate_rows:
  assumes "round_live code k st" "rows st2 = rows (set_round_status code k ''settling'' st)"
  shows "rows (reactivate code k st2) = rows st"
proof -
  obtain rr where rr: "fmlookup (db_rounds st) (code, k) = Some rr" "rr_status rr = ''active''"
    using assms(1) by (auto simp: round_live_def round_status_def split: option.splits)
  have "fmlookup (db_rounds st2) (code, k) = Some (rr\<lparr>rr_status := ''settling''\<rparr>)" "db_rooms st2 = db_rooms st"
    "db_seats st2 = db_seats st" "db_rounds st2 = fmupd (code, k) (rr\<lparr>rr_status := ''settling''\<rparr>) (db_rounds st)"
    using assms(2) rr by (simp_all add: set_round_status_def)
  moreover have "fmupd (code, k) rr (db_rounds st) = db_rounds st"
    using rr(1) by (intro fmap_ext) auto
  moreover have "rr\<lparr>rr_status := ''active''\<rparr> = rr" using rr(2) by simp
  ultimately show ?thesis by (simp add: reactivate_def round_status_def set_round_status_def)
qed

text \<open>The settlement of a claimed round.\<close>

lemma save_settled:
  assumes "r_code agg1 = code" "r_round agg1 = k" "r_resolved agg1"
  shows "live_set (save_room agg1 roles prev rv st) \<subseteq> live_set st - {(code, k)}"
    and "funded_set st \<subseteq> funded_set (save_room agg1 roles prev rv st)"
    and "db_deadlines (save_room agg1 roles prev rv st) = db_deadlines st"
proof -
  obtain rr where rr: "db_rounds (save_room agg1 roles prev rv st) = fmupd (code, k) rr (db_rounds st)"
    "consistent rr" "rr_result rr \<noteq> None" using rows_save(3) [of agg1 roles prev rv st] assms by auto
  show "live_set (save_room agg1 roles prev rv st) \<subseteq> live_set st - {(code, k)}"
    using rr assms
    by (auto simp: live_set_def round_live_def round_status_def current_active_def rows_save(2) consistent_def
        split: option.splits if_splits)
  show "funded_set st \<subseteq> funded_set (save_room agg1 roles prev rv st)"
    by (auto simp: funded_set_def round_funded_def save_room_def Let_def upsert_round_def update_room_def
        split: option.splits)
  show "db_deadlines (save_room agg1 roles prev rv st) = db_deadlines st"
    by (simp add: save_room_def Let_def upsert_round_def update_room_def split: option.splits)
qed

lemma next_due:
  assumes "nextApplicableDeadline code k agg t st = Inr (found, st1)"
  shows "rows st1 = rows st" "due_set now st1 \<subseteq> due_set now st"
    and "found = None \<Longrightarrow> fmlookup (db_deadlines st) i = Some d \<Longrightarrow> dl_room d = code \<Longrightarrow> dl_status d = ''pending''
      \<Longrightarrow> dl_due d \<le> t \<Longrightarrow> due_set now st1 \<subseteq> {x. fst x \<noteq> i}"
    and "found = Some (j, e) \<Longrightarrow> (j, dl_room e, dl_round e) \<in> due_set t st"
proof -
  have first: "firstApplicable code k agg t (due_deadlines (\<lambda>d. dl_room d = code) t st) st = Inr (found, st1)"
    using assms by (simp add: nextApplicableDeadline_def bindT_def)
  note due = firstApplicable_due [OF first, of now]
  show "rows st1 = rows st" by (rule keepsD [OF fixed_rows.keeps_next refl assms])
  show "due_set now st1 \<subseteq> due_set now st" using due by blast
  show "due_set now st1 \<subseteq> {x. fst x \<noteq> i}" if "found = None" "fmlookup (db_deadlines st) i = Some d"
    "dl_room d = code" "dl_status d = ''pending''" "dl_due d \<le> t"
  proof -
    have "(i, d) \<in> set (due_deadlines (\<lambda>d. dl_room d = code) t st)" using that by (simp add: set_due_deadlines)
    with due that(1) show ?thesis by force
  qed
  show "(j, dl_room e, dl_round e) \<in> due_set t st" if "found = Some (j, e)"
    using due that by (auto intro: due_deadlines_due_set)
qed

lemma settled_progress:
  assumes "settleDeadlineT i d code k t agg1 roles st2 = Inr (y, st1)"
    and "r_code agg1 = code" "r_round agg1 = k" "r_resolved agg1"
  shows "live_set st1 \<subseteq> live_set st2 - {(code, k)}" "funded_set st2 \<subseteq> funded_set st1"
    and "due_set now st1 \<subseteq> due_set now st2"
proof -
  from assms(1) obtain rv st3 st4 where st3: "settleRound_pg code (State agg1) (save_room agg1 roles k rv st2) = Inr ((), st3)"
    and st4: "insert_outbox_once code rv st3 = Inr ((), st4)"
    and st1: "st1 = finish_deadlines (pending_of code k) (\<lambda>j. if j = i then ''completed'' else ''cancelled'') t st4"
    by (auto simp: settleDeadlineT_def Let_def save_def bindT_eq_Inr thenT_eq_Inr query_eq_Inr rowT_eq_Inr)
  let ?saved = "save_room agg1 roles k rv st2"
  note saved = save_settled [OF assms(2-4), where roles = roles and prev = k and rv = rv and st = st2]
  have "rows st3 = rows ?saved" by (rule keepsD [OF rows_settle refl st3])
  moreover have "keeps (\<lambda>st. rows st = x) (insert_outbox_once code rv)" for x by (rule fixed_rows.keeps_outbox_once)
  from keepsD [OF this refl st4] have "rows st4 = rows st3" .
  moreover have "rows st1 = rows st4" by (simp add: st1 finish_deadlines_def)
  ultimately have rows1: "rows st1 = rows ?saved" by simp
  show "live_set st1 \<subseteq> live_set st2 - {(code, k)}" "funded_set st2 \<subseteq> funded_set st1"
    using saved(1,2) sets_of_rows [OF rows1] by simp_all
  have "db_deadlines st3 = db_deadlines ?saved" by (rule keepsD [OF keeps_deadlines(1) refl st3])
  moreover have "db_deadlines st4 = db_deadlines st3" by (rule keepsD [OF keeps_deadlines(2) refl st4])
  ultimately have "due_set now st4 = due_set now st2" using saved(3) by (intro due_set_deadlines) simp
  then show "due_set now st1 \<subseteq> due_set now st2" by (auto simp: st1 due_set_finish)
qed

text \<open>The hypothesis of the worker: a due deadline of a live round belongs to a funded one.\<close>

definition due_funded :: "go_time \<Rightarrow> db \<Rightarrow> bool" where
  "due_funded now st \<longleftrightarrow> fmpred (\<lambda>i d. dl_status d = ''pending'' \<and> dl_due d \<le> now
     \<and> round_live (dl_room d) (dl_round d) st \<longrightarrow> round_funded (dl_room d) (dl_round d) st) (db_deadlines st)"

lemma due_funded_sets:
  "due_funded now st \<longleftrightarrow> (\<forall>(i, c, k) \<in> due_set now st. (c, k) \<in> live_set st \<longrightarrow> (c, k) \<in> funded_set st)"
  by (auto simp: due_funded_def fmpred_iff due_set_def live_set_def funded_set_def)

lemma turn_progress:
  assumes "processNextT now st = Inr (y, st1)" "dr_Processed y" "due_funded now st"
  shows "progress now st st1"
  using assms(1)
proof (cases rule: processNextT_cases)
  case idle
  with assms(2) show ?thesis by (simp add: zeroDeadlineResult_def)
next
  case (skipped i d ds)
  then have mem: "(i, dl_room d, dl_round d) \<in> due_set now st"
    using due_deadlines_due_set [of i d "\<lambda>_. True" now st] by simp
  with skipped assms(3) have "st1 = cancel_deadline i now st"
    by (auto simp: due_funded_sets live_set_def funded_set_def)
  with mem show ?thesis by (intro progress_cancel [OF mem]) (auto simp: due_set_cancel)
next
  case (worked i d ds)
  let ?code = "dl_room d" and ?k = "dl_round d" let ?stc = "set_round_status ?code ?k ''settling'' st"
  have "(i, d) \<in> set (due_deadlines (\<lambda>_. True) now st)" using worked(1) by simp
  then have look: "fmlookup (db_deadlines st) i = Some d" "dl_status d = ''pending''" "dl_due d \<le> now"
    and mem: "(i, ?code, ?k) \<in> due_set now st"
    by (simp_all add: set_due_deadlines due_deadlines_due_set)
  have deadlines: "db_deadlines ?stc = db_deadlines st" by (simp add: set_round_status_def split: option.split)
  then have due: "due_set t ?stc = due_set t st" for t by (rule due_set_deadlines)
  from worked(4,5) show ?thesis
  proof (cases rule: claimedDeadline_cases)
    case (none agg st2)
    have "rows st1 = rows st" using none reactivate_rows [OF worked(2) next_due(1)] by simp
    moreover have "due_set now st1 = due_set now st2" unfolding none(2) by (rule due_set_deadlines) simp
    moreover have "due_set now st2 \<subseteq> {x. fst x \<noteq> i}"
      by (rule next_due(3) [OF none(1) refl]) (use look deadlines in simp_all)
    ultimately show ?thesis
      using next_due(2) [OF none(1), of now] due by (intro progress_cancel [OF mem]) auto
  next
    case (released agg j e st2)
    have st1: "st1 = reactivate ?code ?k (cancel_deadline j now st2)"
      using released(2) by (simp add: releaseT_def thenT_eq_Inr query_eq_Inr)
    have "rows (cancel_deadline j now st2) = rows ?stc" using next_due(1) [OF released(1)] by simp
    then have "rows st1 = rows st" unfolding st1 by (rule reactivate_rows [OF worked(2)])
    moreover have "due_set now st1 = {x \<in> due_set now st2. fst x \<noteq> j}"
      using due_set_deadlines [of st1 "cancel_deadline j now st2" now] by (simp add: st1 due_set_cancel)
    moreover have "(j, dl_room e, dl_round e) \<in> due_set now st"
      using next_due(4) [OF released(1)] due by simp
    ultimately show ?thesis using next_due(2) [OF released(1), of now] due by (intro progress_cancel) auto
  next
    case (settled agg j e agg1 roles st2)
    note rows2 = next_due(1) [OF settled(1)]
    note sets = settled_progress(1,2) [OF settled(2-5)] settled_progress(3) [OF settled(2-5), of now]
    have "(?code, ?k) \<in> live_set st" using worked(2) by (simp add: live_set_def)
    moreover have "live_set st1 \<subseteq> live_set st - {(?code, ?k)}" "funded_set st \<subseteq> funded_set st1"
      using sets sets_of_rows [OF rows2] live_claimed [OF worked(2)] by auto
    moreover have "due_set now st1 \<subseteq> due_set now st"
      using sets(3) next_due(2) [OF settled(1), of now] due by auto
    ultimately show ?thesis unfolding progress_def by blast
  qed
qed

section \<open>The worker\<close>

lemma deadline_turn:
  assumes "due_funded now st" "ProcessNextDeadline now st = (Inr y, st1)" "dr_Processed y"
  shows "due_funded now st1 \<and> remaining now st1 < remaining now st"
proof -
  have "processNextT now st = Inr (y, st1)"
    using assms(2) by (simp add: ProcessNextDeadline_def transaction_def split: sum.splits prod.splits)
  from turn_progress [OF this assms(3,1)] have p: "progress now st st1" .
  then have "due_funded now st1" using assms(1) unfolding progress_def due_funded_sets by fast
  with progress_remaining [OF p] show ?thesis by simp
qed

lemma deadline_loop_returns: "due_funded now st \<Longrightarrow> \<exists>r. deadlineLoop pg_deadlines now rep st = Some r"
  by (rule deadlineLoop_returns [where I = "due_funded now" and due = "remaining now"])
    (auto simp: pg_deadlines_def dest: deadline_turn)

definition after_reap :: "go_time \<Rightarrow> db \<Rightarrow> db" where
  "after_reap now st = snd (ReapExpiredConnections now st)"

text \<open>C15: Termination of the deadline worker. \<open>RunOnce\<close> returns, with a report or an error, whenever every due
  deadline of a live round that is pending after the reaper belongs to a funded round: each turn of
  its \<open>for\<close> loop takes a deadline out of the pending ones or resolves a live round, and neither grows.
\<close>
theorem deadline_worker_returns:
  assumes "due_funded now (after_reap now st)"
  shows "\<exists>r. DeadlineWorker_RunOnce pg_deadlines now st = Some r"
proof -
  obtain n err st1 where reap: "ReapExpiredConnections now st = ((n, err), st1)" by (metis prod.collapse)
  show ?thesis
  proof (cases err)
    case None
    have "due_funded now st1" using assms by (simp add: after_reap_def reap)
    from deadline_loop_returns [OF this, of "zeroDeadlineReport\<lparr>dn_ExpiredConnections := n\<rparr>"]
    obtain rep err1 st2 where
      "deadlineLoop pg_deadlines now (zeroDeadlineReport\<lparr>dn_ExpiredConnections := n\<rparr>) st1 = Some ((rep, err1), st2)"
      by fastforce
    then show ?thesis
      by (cases err1) (auto simp: DeadlineWorker_RunOnce_def pg_deadlines_def reap None split: prod.splits sum.splits)
  qed (simp add: DeadlineWorker_RunOnce_def pg_deadlines_def reap)
qed

text \<open>C16: Defect. When the first due deadline belongs to a live round that is not funded, \<open>RunOnce\<close> never
  returns: \<open>ProcessNextDeadline\<close> finds no round to claim, leaves the deadline pending because the round
  is live, and reports it as processed, so the next turn of the loop finds the same one. A host who
  opens the only connection of a room without a guest, and closes it, brings this about.
\<close>
theorem deadline_worker_diverges:
  assumes "fst (ReapExpiredConnections now st) = (n, None)"
    and "due_deadlines (\<lambda>_. True) now (after_reap now st) = (i, d) # ds"
    and "round_live (dl_room d) (dl_round d) (after_reap now st)"
    and "\<not> round_funded (dl_room d) (dl_round d) (after_reap now st)"
  shows "DeadlineWorker_RunOnce pg_deadlines now st = None"
proof -
  let ?st = "after_reap now st"
  have reap: "ReapExpiredConnections now st = ((n, None), ?st)"
    using assms(1) by (simp add: after_reap_def prod_eq_iff)
  have "processNextT now ?st = Inr (stale_result (dl_room d) (dl_round d) '''' (dl_due d), ?st)"
    using assms(2-4) by (simp add: processNextT_def Let_def bindT_def thenT_def)
  then have "ProcessNextDeadline now ?st = (Inr (stale_result (dl_room d) (dl_round d) '''' (dl_due d)), ?st)"
    by (simp add: ProcessNextDeadline_def transaction_def)
  then have "deadlineLoop pg_deadlines now rep ?st = None" for rep
    by (intro deadlineLoop_diverges [where S = "\<lambda>s. s = ?st"]) (auto simp: pg_deadlines_def stale_result_def)
  then show ?thesis using reap by (simp add: DeadlineWorker_RunOnce_def pg_deadlines_def)
qed

text \<open>A room without a guest, whose host opens a connection and closes it a second later.\<close>

definition host_socket :: ConnectionLease where
  "host_socket = \<lparr>cl_ID = ''c1'', cl_RoomCode = ''R'', cl_AccountID = ''ana'', cl_SessionDigest = ''s1'',
     cl_ConnectedAt = 0, cl_LeaseExpiresAt = 60 * Second\<rparr>"

definition lonely_db :: db where
  "lonely_db = pgRun (PCloseConnection ''c1'' (1 * Second)) (pgRun (POpenConnection host_socket)
     (pgRun (PSessions (fmupd ''s1'' \<lparr>ws_account = ''ana'', ws_csrf = '''', ws_created = 0, ws_seen = 0,
        ws_idle = 3600 * Second, ws_absolute = 7200 * Second, ws_revoked = None\<rparr> fmempty)) created_db))"

definition half_minute :: go_time where
  "half_minute = 30 * Second"

theorem deadline_worker_diverges_witness:
  "pg_reachable lonely_db \<and> DeadlineWorker_RunOnce pg_deadlines half_minute lonely_db = None"
proof
  show "pg_reachable lonely_db" unfolding lonely_db_def by (intro pg_step game_reachable)
  have "fst (ReapExpiredConnections half_minute lonely_db) = (0, None)"
    "map (\<lambda>(i, d). (i, dl_room d, dl_round d)) (due_deadlines (\<lambda>_. True) half_minute (after_reap half_minute lonely_db)) = [(1, ''R'', 1)]"
    "round_live ''R'' 1 (after_reap half_minute lonely_db)"
    "\<not> round_funded ''R'' 1 (after_reap half_minute lonely_db)" by code_simp+
  then show "DeadlineWorker_RunOnce pg_deadlines half_minute lonely_db = None"
    by (auto intro!: deadline_worker_diverges)
qed

theorem deadline_worker_returns_witness:
  "\<exists>r. DeadlineWorker_RunOnce pg_deadlines (3600 * Second) moved_db = Some r"
proof -
  have "due_funded (3600 * Second) (after_reap (3600 * Second) moved_db)" by code_simp
  then show ?thesis by (rule deadline_worker_returns)
qed

end
