(* ===== verification/Auth_Session.thy ===== *)
theory Auth_Session
  imports Postgres_Properties
begin

text \<open>
  Browser sessions, \<open>internal/auth/session.go\<close> and \<open>postgres.go\<close>: the session service over a store of
  sessions by the digest of their token, and the PostgreSQL store on the table \<open>web_sessions\<close>. SHA-256,
  the random bytes and the clock are arguments.
\<close>

section \<open>Tokens\<close>

text \<open>\<open>base64.RawURLEncoding.DecodeString\<close>: line breaks are skipped, every other byte is a digit, and a
  final group has two or three digits.\<close>

fun index_of :: "'a \<Rightarrow> 'a list \<Rightarrow> nat option" where
  "index_of x [] = None"
| "index_of x (y # ys) = (if x = y then Some 0 else map_option Suc (index_of x ys))"

fun decode_groups :: "nat list \<Rightarrow> string option" where
  "decode_groups [] = Some []"
| "decode_groups [a] = None"
| "decode_groups [a, b] = Some [byte ((a * 64 + b) div 16)]"
| "decode_groups [a, b, c] =
     (let v = (a * 4096 + b * 64 + c) div 4 in Some [byte (v div 256), byte (v mod 256)])"
| "decode_groups (a # b # c # d # s) =
     (let v = a * 262144 + b * 4096 + c * 64 + d in
      map_option (\<lambda>t. byte (v div 65536) # byte (v div 256 mod 256) # byte (v mod 256) # t) (decode_groups s))"

definition RawURLDecoding :: "string \<Rightarrow> string option" where
  "RawURLDecoding s =
     (let digits = map (\<lambda>c. index_of c base64url) (filter (\<lambda>c. c \<noteq> byte 10 \<and> c \<noteq> byte 13) s)
      in if None \<in> set digits then None else decode_groups (map the digits))"

lemma index_of_nth: "distinct xs \<Longrightarrow> n < length xs \<Longrightarrow> index_of (xs ! n) xs = Some n"
proof (induction xs arbitrary: n)
  case (Cons x xs)
  then show ?case by (cases n) auto
qed simp

lemma base64url_digits:
  "length base64url = 64" "distinct base64url" "byte 10 \<notin> set base64url" "byte 13 \<notin> set base64url"
  unfolding base64url_def by code_simp+

lemma index_base64url [simp]: "n < 64 \<Longrightarrow> index_of (base64url ! n) base64url = Some n"
  by (simp add: index_of_nth base64url_digits)

lemma byte_less: "of_char (c :: char) < (256 :: nat)"
  using of_char_mod_256 [of c, where 'a = nat] by (metis mod_less_divisor zero_less_numeral)

text \<open>The digits of two and three bytes, as numbers.\<close>

lemma sextets: "(v :: nat) div 4096 * 4096 + v div 64 mod 64 * 64 + v mod 64 = v"
    "(v :: nat) div 262144 * 262144 + v div 4096 mod 64 * 4096 + v div 64 mod 64 * 64 + v mod 64 = v"
proof -
  have merge: "n div 64 * (64 * m) + n mod 64 * m = n * m" for n m :: nat
    by (simp only: mult.assoc [symmetric] distrib_right [symmetric] div_mult_mod_eq)
  have q: "v div 4096 = v div 64 div 64" "v div 262144 = v div 4096 div 64" by (simp_all add: div_mult2_eq [symmetric])
  show two: "v div 4096 * 4096 + v div 64 mod 64 * 64 + v mod 64 = v"
    using merge [of "v div 64" 64] merge [of v 1] by (simp only: q)
  show "v div 262144 * 262144 + v div 4096 mod 64 * 4096 + v div 64 mod 64 * 64 + v mod 64 = v"
    using two merge [of "v div 4096" 4096] by (simp add: q(2))
qed

lemma digits2:
  assumes "(a :: nat) < 256" "b < 256" "v = (a * 256 + b) * 4"
  shows "v div 4096 < 64" "v div 4 div 256 = a" "v div 4 mod 256 = b"
proof -
  have v: "v div 4 = a * 256 + b" using assms(3) by simp
  show "v div 4 div 256 = a" "v div 4 mod 256 = b" using assms(1,2) unfolding v by simp_all
  have "v < 64 * 4096" using assms by simp
  then show "v div 4096 < 64" by (rule less_mult_imp_div_less)
qed

lemma digits3:
  assumes "(a :: nat) < 256" "b < 256" "c < 256" "v = a * 65536 + b * 256 + c"
  shows "v div 262144 < 64" "v div 65536 = a" "v div 256 mod 256 = b" "v mod 256 = c"
proof -
  have v: "v = c + (b + a * 256) * 256" using assms(4) by simp
  have q: "v div 256 = b + a * 256" unfolding v using assms(3) by simp
  show "v mod 256 = c" unfolding v using assms(3) by (simp only: mod_mult_self1 mod_less)
  show "v div 256 mod 256 = b" unfolding q using assms(2) by simp
  have "v div 65536 = v div 256 div 256" by (simp add: div_mult2_eq [symmetric])
  then show "v div 65536 = a" unfolding q using assms(2) by simp
  have "v < 64 * 262144" using assms by simp
  then show "v div 262144 < 64" by (rule less_mult_imp_div_less)
qed

text \<open>The digits that \<open>EncodeToString\<close> picks.\<close>

fun encode_groups :: "string \<Rightarrow> nat list" where
  "encode_groups [] = []"
| "encode_groups [a] = (let v = of_char a * 16 in [v div 64, v mod 64])"
| "encode_groups [a, b] = (let v = (of_char a * 256 + of_char b) * 4 in
     [v div 4096, v div 64 mod 64, v mod 64])"
| "encode_groups (a # b # c # s) = (let v = of_char a * 65536 + of_char b * 256 + of_char c in
     [v div 262144, v div 4096 mod 64, v div 64 mod 64, v mod 64]) @ encode_groups s"

lemma Encoding_groups: "RawURLEncoding s = map (nth base64url) (encode_groups s)"
  by (induction s rule: encode_groups.induct) (simp_all add: Let_def)

lemma groups_less: "d \<in> set (encode_groups s) \<Longrightarrow> d < 64"
proof (induction s arbitrary: d rule: encode_groups.induct)
  case (2 a)
  moreover have "of_char a div 4 < (64 :: nat)" using byte_less [of a] by (intro less_mult_imp_div_less) simp
  ultimately show ?case by (auto simp: Let_def)
next
  case (3 a b)
  then show ?case using digits2(1) [OF byte_less [of a] byte_less [of b] refl] by (auto simp: Let_def)
next
  case (4 a b c s)
  then show ?case using digits3(1) [OF byte_less [of a] byte_less [of b] byte_less [of c] refl]
    by (auto simp: Let_def)
qed simp

lemma decode_encode_groups: "decode_groups (encode_groups s) = Some s"
proof (induction s rule: encode_groups.induct)
  case (2 a)
  have "v div 64 * 64 + v mod 64 = v" for v :: nat by simp
  then show ?case unfolding encode_groups.simps Let_def decode_groups.simps by (simp only:) simp
next
  case (3 a b)
  note d = digits2 [OF byte_less [of a] byte_less [of b] refl]
  show ?case unfolding encode_groups.simps Let_def decode_groups.simps sextets d(2) d(3) by simp
next
  case (4 a b c s)
  note d = digits3 [OF byte_less [of a] byte_less [of b] byte_less [of c] refl]
  show ?case unfolding encode_groups.simps Let_def append.simps decode_groups.simps sextets d(2) d(3) d(4) 4 by simp
qed simp

lemma Decoding_Encoding [simp]: "RawURLDecoding (RawURLEncoding s) = Some s"
proof -
  have digit: "base64url ! d \<noteq> byte 10 \<and> base64url ! d \<noteq> byte 13" if "d < 64" for d
    using nth_mem [of d base64url] base64url_digits that by metis
  have keep: "filter (\<lambda>c. c \<noteq> byte 10 \<and> c \<noteq> byte 13) (map (nth base64url) ds) = map (nth base64url) ds"
    if "\<forall>d\<in>set ds. d < 64" for ds
    using that digit by (induction ds) auto
  have ds: "\<forall>d\<in>set (encode_groups s). d < 64" by (simp add: groups_less)
  have "map (\<lambda>d. the (index_of (base64url ! d) base64url)) (encode_groups s) = encode_groups s"
    using ds by (intro map_idI) simp
  moreover have "None \<notin> (\<lambda>d. index_of (base64url ! d) base64url) ` set (encode_groups s)" using ds by auto
  ultimately show ?thesis
    by (simp add: RawURLDecoding_def Encoding_groups keep [OF ds] decode_encode_groups o_def)
qed

section \<open>The session service\<close>


definition sessionTokenBytes :: nat where "sessionTokenBytes = 32"
definition SessionIdleLimit :: duration where "SessionIdleLimit = 24 * Hour"
definition SessionAbsoluteLimit :: duration where "SessionAbsoluteLimit = 30 * 24 * Hour"

record Session =
  ss_Digest :: string
  ss_CSRFDigest :: string
  ss_AccountID :: string
  ss_CreatedAt :: go_time
  ss_LastSeenAt :: go_time
  ss_IdleExpiresAt :: go_time
  ss_AbsoluteExpiresAt :: go_time
  ss_RevokedAt :: "go_time option"

record SessionCredentials =
  sc_Token :: string
  sc_CSRFToken :: string
  sc_AbsoluteExpiresAt :: go_time

record 's SessionStore =
  CreateSession :: "Session \<Rightarrow> ('s, unit) op"
  UseSession :: "string \<Rightarrow> go_time \<Rightarrow> go_time \<Rightarrow> ('s, Session) op"
  RevokeSession :: "string \<Rightarrow> go_time \<Rightarrow> ('s, unit) op"
  DeleteExpiredSessions :: "go_time \<Rightarrow> ('s, nat) op"

text \<open>\<open>newToken\<close> of what \<open>io.ReadFull(random, value)\<close> gives: an error or 32 bytes.\<close>

definition newToken :: "string result \<Rightarrow> string result" where
  "newToken read = bindR read (\<lambda>value. Inr (RawURLEncoding value))"

text \<open>\<open>digestToken\<close> is the argument \<open>sha\<close>.\<close>

definition sessionDigest :: "(string \<Rightarrow> string) \<Rightarrow> string \<Rightarrow> string result" where
  "sessionDigest sha token =
     (case RawURLDecoding token of
        None \<Rightarrow> Inl (Err ErrInvalidSession)
      | Some decoded \<Rightarrow> if length decoded \<noteq> sessionTokenBytes then Inl (Err ErrInvalidSession) else Inr (sha token))"

definition newSession :: "(string \<Rightarrow> string) \<Rightarrow> string \<Rightarrow> string \<Rightarrow> go_time \<Rightarrow> string \<Rightarrow> Session" where
  "newSession sha token csrf now acct =
     \<lparr>ss_Digest = sha token, ss_CSRFDigest = sha csrf, ss_AccountID = acct, ss_CreatedAt = now,
      ss_LastSeenAt = now, ss_IdleExpiresAt = now + SessionIdleLimit,
      ss_AbsoluteExpiresAt = now + SessionAbsoluteLimit, ss_RevokedAt = None\<rparr>"

definition SessionService_Create ::
    "(string \<Rightarrow> string) \<Rightarrow> 's SessionStore \<Rightarrow> string result \<Rightarrow> string result \<Rightarrow> go_time \<Rightarrow> string
     \<Rightarrow> ('s, SessionCredentials) op" where
  "SessionService_Create sha store read1 read2 now acct st =
     (case newToken read1 of Inl e \<Rightarrow> (Inl e, st) | Inr token \<Rightarrow>
      case newToken read2 of Inl e \<Rightarrow> (Inl e, st) | Inr csrf \<Rightarrow>
        (let session = newSession sha token csrf now acct in
         case CreateSession store session st of
           (Inl e, st1) \<Rightarrow> (Inl e, st1)
         | (Inr _, st1) \<Rightarrow>
             (Inr \<lparr>sc_Token = token, sc_CSRFToken = csrf, sc_AbsoluteExpiresAt = ss_AbsoluteExpiresAt session\<rparr>, st1)))"

definition SessionService_Authenticate ::
    "(string \<Rightarrow> string) \<Rightarrow> 's SessionStore \<Rightarrow> go_time \<Rightarrow> string \<Rightarrow> ('s, Session) op" where
  "SessionService_Authenticate sha store now token st =
     (case sessionDigest sha token of
        Inl _ \<Rightarrow> (Inl (Err ErrInvalidSession), st)
      | Inr digest \<Rightarrow> UseSession store digest now (now + SessionIdleLimit) st)"

definition SessionService_Revoke ::
    "(string \<Rightarrow> string) \<Rightarrow> 's SessionStore \<Rightarrow> go_time \<Rightarrow> string \<Rightarrow> ('s, unit) op" where
  "SessionService_Revoke sha store now token st =
     (case sessionDigest sha token of
        Inl _ \<Rightarrow> (Inl (Err ErrInvalidSession), st)
      | Inr digest \<Rightarrow> RevokeSession store digest now st)"

definition SessionService_Cleanup :: "'s SessionStore \<Rightarrow> go_time \<Rightarrow> ('s, nat) op" where
  "SessionService_Cleanup store now = DeleteExpiredSessions store now"

definition ValidateCSRF :: "(string \<Rightarrow> string) \<Rightarrow> Session \<Rightarrow> string \<Rightarrow> bool" where
  "ValidateCSRF sha session token =
     (case sessionDigest sha token of Inl _ \<Rightarrow> False | Inr digest \<Rightarrow> digest = ss_CSRFDigest session)"

lemma newToken_eq_Inr: "newToken r = Inr t \<longleftrightarrow> (\<exists>bs. r = Inr bs \<and> t = RawURLEncoding bs)"
  by (auto simp: newToken_def bindR_eq_Inr)

lemma newToken_Inr [simp]: "newToken (Inr bs) = Inr (RawURLEncoding bs)"
  by (simp add: newToken_def)

lemma sessionDigest_eq_Inr: "sessionDigest sha t = Inr d \<Longrightarrow> d = sha t"
  by (auto simp: sessionDigest_def split: option.splits if_splits)

lemma sessionDigest_new:
  "length bs = sessionTokenBytes \<Longrightarrow> sessionDigest sha (RawURLEncoding bs) = Inr (sha (RawURLEncoding bs))"
  by (simp add: sessionDigest_def)

lemma Create_eq_Inr:
  "SessionService_Create sha store read1 read2 now acct st = (Inr cred, st1) \<longleftrightarrow>
     (\<exists>bs1 bs2 u. read1 = Inr bs1 \<and> read2 = Inr bs2 \<and> sc_Token cred = RawURLEncoding bs1 \<and> sc_CSRFToken cred = RawURLEncoding bs2
        \<and> sc_AbsoluteExpiresAt cred = now + SessionAbsoluteLimit
        \<and> CreateSession store (newSession sha (sc_Token cred) (sc_CSRFToken cred) now acct) st = (Inr u, st1))"
  by (cases cred) (auto simp: SessionService_Create_def newToken_eq_Inr newSession_def Let_def split: sum.splits prod.splits)

section \<open>The contract of a session store\<close>

text \<open>The conditions of \<open>UseSession\<close>'s \<open>WHERE\<close>, and what a use makes of a session.\<close>

definition usable :: "go_time \<Rightarrow> Session \<Rightarrow> bool" where
  "usable now x \<longleftrightarrow> ss_RevokedAt x = None \<and> now < ss_IdleExpiresAt x \<and> now < ss_AbsoluteExpiresAt x"

definition refreshed :: "go_time \<Rightarrow> go_time \<Rightarrow> Session \<Rightarrow> Session" where
  "refreshed now idle x = x\<lparr>ss_LastSeenAt := now, ss_IdleExpiresAt := min idle (ss_AbsoluteExpiresAt x)\<rparr>"

definition well_sized :: "Session \<Rightarrow> bool" where
  "well_sized x \<longleftrightarrow> length (ss_Digest x) = 32 \<and> length (ss_CSRFDigest x) = 32"

text \<open>What a client of the service does.\<close>

datatype session_cmd =
    SCreate "string result" "string result" go_time string
  | SAuthenticate go_time string
  | SRevoke go_time string
  | SCleanup go_time

fun sessionRun :: "(string \<Rightarrow> string) \<Rightarrow> 's SessionStore \<Rightarrow> session_cmd \<Rightarrow> 's \<Rightarrow> 's" where
  "sessionRun sha store (SCreate r1 r2 now a) st = snd (SessionService_Create sha store r1 r2 now a st)"
| "sessionRun sha store (SAuthenticate now t) st = snd (SessionService_Authenticate sha store now t st)"
| "sessionRun sha store (SRevoke now t) st = snd (SessionService_Revoke sha store now t st)"
| "sessionRun sha store (SCleanup now) st = snd (SessionService_Cleanup store now st)"

text \<open>The command draws a session token with the digest \<open>d\<close>: a collision of 32 random bytes.\<close>

fun draws :: "(string \<Rightarrow> string) \<Rightarrow> string \<Rightarrow> session_cmd \<Rightarrow> bool" where
  "draws sha d (SCreate (Inr bs) r2 now a) = (sha (RawURLEncoding bs) = d)"
| "draws sha d _ = False"

text \<open>The time of the last successful use of the session with digest \<open>d\<close> in a run, \<open>u\<close> before its first one.\<close>

definition use_time :: "(string \<Rightarrow> string) \<Rightarrow> 's SessionStore \<Rightarrow> string \<Rightarrow> session_cmd \<Rightarrow> 's \<Rightarrow> go_time \<Rightarrow> go_time" where
  "use_time sha store d cmd st u =
     (case cmd of
        SAuthenticate now t \<Rightarrow> if sha t = d \<and> \<not> isl (fst (SessionService_Authenticate sha store now t st)) then now else u
      | _ \<Rightarrow> u)"

fun last_use :: "(string \<Rightarrow> string) \<Rightarrow> 's SessionStore \<Rightarrow> string \<Rightarrow> session_cmd list \<Rightarrow> 's \<Rightarrow> go_time \<Rightarrow> go_time" where
  "last_use sha store d [] st u = u"
| "last_use sha store d (cmd # cmds) st u =
     last_use sha store d cmds (sessionRun sha store cmd st) (use_time sha store d cmd st u)"

text \<open>
  A store is read as the map \<open>stored\<close> of its sessions by digest. A created session was not there
  before; a use returns the stored session refreshed, and only a usable one; a revocation dates one that
  is there; a deletion removes only sessions that are no longer usable. A call that fails changes
  nothing.
\<close>

locale session_store =
  fixes store :: "'s SessionStore" and stored :: "'s \<Rightarrow> string \<Rightarrow> Session option"
  assumes create: "CreateSession store x st = (Inr u, st1) \<Longrightarrow>
      stored st (ss_Digest x) = None \<and> stored st1 = (stored st)(ss_Digest x \<mapsto> x) \<and> well_sized x"
    and create_fails: "CreateSession store x st = (Inl e, st1) \<Longrightarrow> stored st1 = stored st"
    and used: "UseSession store d now idle st = (Inr y, st1) \<Longrightarrow>
      (\<exists>x. stored st d = Some x \<and> usable now x \<and> y = refreshed now idle x \<and> stored st1 = (stored st)(d \<mapsto> y))"
    and use_works: "stored st d = Some x \<Longrightarrow> usable now x \<Longrightarrow> ss_CreatedAt x \<le> now \<Longrightarrow> well_sized x \<Longrightarrow>
      fst (UseSession store d now idle st) = Inr (refreshed now idle x)"
    and use_fails: "UseSession store d now idle st = (Inl e, st1) \<Longrightarrow> stored st1 = stored st"
    and revoked: "stored st d = Some x \<Longrightarrow>
      \<exists>st1 t. RevokeSession store d now st = (Inr (), st1) \<and> stored st1 = (stored st)(d \<mapsto> x\<lparr>ss_RevokedAt := Some t\<rparr>)"
    and revoke_fails: "stored st d = None \<Longrightarrow>
      \<exists>e st1. RevokeSession store d now st = (Inl e, st1) \<and> stored st1 = stored st"
    and deleted: "DeleteExpiredSessions store now st = (r, st1) \<Longrightarrow>
      stored st1 d = stored st d \<or> stored st1 d = None"
begin

text \<open>The session of a digest, once created, only ages: it keeps its acct, its token digests and its
  absolute limit, and a revocation stays.\<close>

definition aged :: "Session \<Rightarrow> Session \<Rightarrow> bool" where
  "aged x y \<longleftrightarrow> ss_AccountID y = ss_AccountID x \<and> ss_CSRFDigest y = ss_CSRFDigest x
     \<and> ss_AbsoluteExpiresAt y = ss_AbsoluteExpiresAt x \<and> (ss_RevokedAt x \<noteq> None \<longrightarrow> ss_RevokedAt y \<noteq> None)"

lemma aged_refl [simp]: "aged x x"
  by (simp add: aged_def)

lemma aged_trans: "aged x y \<Longrightarrow> aged y z \<Longrightarrow> aged x z"
  by (auto simp: aged_def)

text \<open>Its idle expiry stays within the idle limit after its last use.\<close>

abbreviation idle_after :: "Session \<Rightarrow> go_time \<Rightarrow> bool" where
  "idle_after x u \<equiv> ss_IdleExpiresAt x \<le> u + SessionIdleLimit"

lemma run_ages:
  assumes "\<not> draws sha d cmd" "stored (sessionRun sha store cmd st) d = Some y"
  shows "\<exists>x. stored st d = Some x \<and> aged x y \<and> (\<forall>u. idle_after x u \<longrightarrow> idle_after y (use_time sha store d cmd st u))"
proof (cases cmd)
  case (SCreate r1 r2 now a)
  obtain r st1 where run: "SessionService_Create sha store r1 r2 now a st = (r, st1)" by fastforce
  show ?thesis
  proof (cases r)
    case (Inl e)
    with run have "stored st1 = stored st"
      by (auto simp: SessionService_Create_def Let_def split: sum.splits prod.splits dest: create_fails)
    with assms(2) run SCreate show ?thesis by (auto simp: use_time_def)
  next
    case (Inr cred)
    with run assms(1) SCreate create have "stored st1 d = stored st d"
      by (fastforce simp: Create_eq_Inr newSession_def)
    with assms(2) run SCreate show ?thesis by (auto simp: use_time_def)
  qed
next
  case (SAuthenticate now t)
  show ?thesis
  proof (cases "sessionDigest sha t")
    case (Inr d')
    obtain r st1 where use: "UseSession store d' now (now + SessionIdleLimit) st = (r, st1)" by fastforce
    then have r: "SessionService_Authenticate sha store now t st = (r, st1)" using Inr by (simp add: SessionService_Authenticate_def)
    note t = sessionDigest_eq_Inr [OF Inr]
    show ?thesis
    proof (cases r)
      case (Inl e)
      with use_fails use have "stored st1 = stored st" by blast
      with assms(2) SAuthenticate r Inl show ?thesis by (auto simp: use_time_def)
    next
      case (Inr z)
      with used use obtain x where "stored st d' = Some x" "z = refreshed now (now + SessionIdleLimit) x"
        "stored st1 = (stored st)(d' \<mapsto> z)" by blast
      with assms(2) SAuthenticate r Inr t show ?thesis by (auto simp: use_time_def refreshed_def aged_def split: if_splits)
    qed
  qed (use assms(2) SAuthenticate in \<open>auto simp: SessionService_Authenticate_def use_time_def\<close>)
next
  case (SRevoke now t)
  show ?thesis
  proof (cases "sessionDigest sha t")
    case (Inr d')
    then show ?thesis using assms(2) SRevoke revoked [of st d' _ now] revoke_fails [of st d' now]
      by (cases "stored st d'") (fastforce simp: SessionService_Revoke_def aged_def use_time_def split: if_splits)+
  qed (use assms(2) SRevoke in \<open>auto simp: SessionService_Revoke_def use_time_def\<close>)
next
  case (SCleanup now)
  with assms(2) deleted [of now st _ _ d] show ?thesis
    by (cases "DeleteExpiredSessions store now st") (fastforce simp: SessionService_Cleanup_def use_time_def)
qed

lemma runs_age:
  "\<forall>cmd\<in>set cmds. \<not> draws sha d cmd \<Longrightarrow> stored (fold (sessionRun sha store) cmds st) d = Some y \<Longrightarrow>
     \<exists>x. stored st d = Some x \<and> aged x y \<and> (\<forall>u. idle_after x u \<longrightarrow> idle_after y (last_use sha store d cmds st u))"
proof (induction cmds arbitrary: st)
  case (Cons cmd cmds)
  then obtain z where z: "stored (sessionRun sha store cmd st) d = Some z" "aged z y"
    "\<forall>u. idle_after z u \<longrightarrow> idle_after y (last_use sha store d cmds (sessionRun sha store cmd st) u)" by fastforce
  from run_ages [OF _ z(1)] Cons.prems(1) obtain x where "stored st d = Some x" "aged x z"
    "\<forall>u. idle_after x u \<longrightarrow> idle_after z (use_time sha store d cmd st u)" by auto
  with z show ?case by (auto intro: aged_trans)
qed auto

lemma authenticated:
  assumes "SessionService_Authenticate sha store now token st = (Inr y, st1)"
  obtains x where "stored st (sha token) = Some x" "usable now x" "y = refreshed now (now + SessionIdleLimit) x"
proof -
  from assms obtain d where "sessionDigest sha token = Inr d" "UseSession store d now (now + SessionIdleLimit) st = (Inr y, st1)"
    by (auto simp: SessionService_Authenticate_def split: sum.splits)
  with used [of d now _ st y st1] that show thesis by (auto dest: sessionDigest_eq_Inr)
qed

lemma lifetime:
  assumes "SessionService_Create sha store read1 read2 t0 acct st = (Inr cred, st0)"
    and "\<forall>cmd\<in>set cmds. \<not> draws sha (sha (sc_Token cred)) cmd"
    and "SessionService_Authenticate sha store now (sc_Token cred) (fold (sessionRun sha store) cmds st0) = (Inr x, st2)"
  shows "ss_AccountID x = acct \<and> now < t0 + SessionAbsoluteLimit
    \<and> now < last_use sha store (sha (sc_Token cred)) cmds st0 t0 + SessionIdleLimit
    \<and> ss_IdleExpiresAt x \<le> now + SessionIdleLimit \<and> ss_IdleExpiresAt x \<le> sc_AbsoluteExpiresAt cred"
proof -
  let ?x0 = "newSession sha (sc_Token cred) (sc_CSRFToken cred) t0 acct"
  from assms(1) create have created: "stored st0 (sha (sc_Token cred)) = Some ?x0"
    "sc_AbsoluteExpiresAt cred = t0 + SessionAbsoluteLimit"
    by (fastforce simp: Create_eq_Inr newSession_def)+
  obtain y where y: "stored (fold (sessionRun sha store) cmds st0) (sha (sc_Token cred)) = Some y" "usable now y"
    "x = refreshed now (now + SessionIdleLimit) y" by (rule authenticated [OF assms(3)])
  from runs_age [OF assms(2) y(1)] created(1)
  have "aged ?x0 y" "idle_after ?x0 t0 \<longrightarrow> idle_after y (last_use sha store (sha (sc_Token cred)) cmds st0 t0)" by auto
  moreover have "idle_after ?x0 t0" by (simp add: newSession_def)
  ultimately show ?thesis using y(2) by (auto simp: created(2) y(3) aged_def newSession_def usable_def refreshed_def)
qed

lemma revoked_dead:
  assumes "\<forall>cmd\<in>set cmds. \<not> draws sha (sha token) cmd"
  shows "fst (SessionService_Authenticate sha store now token
     (fold (sessionRun sha store) cmds (snd (SessionService_Revoke sha store t token st)))) \<noteq> Inr x"
proof
  let ?st = "snd (SessionService_Revoke sha store t token st)"
  assume "fst (SessionService_Authenticate sha store now token (fold (sessionRun sha store) cmds ?st)) = Inr x"
  then obtain st2 where auth: "SessionService_Authenticate sha store now token (fold (sessionRun sha store) cmds ?st) = (Inr x, st2)"
    by (metis prod.collapse)
  then obtain d where d: "sessionDigest sha token = Inr d" by (auto simp: SessionService_Authenticate_def split: sum.splits)
  have "stored ?st (sha token) = Some y \<Longrightarrow> ss_RevokedAt y \<noteq> None" for y
    using d sessionDigest_eq_Inr [OF d] revoked [of st d _ t] revoke_fails [of st d t]
    by (cases "stored st d") (fastforce simp: SessionService_Revoke_def)+
  note dated = this
  obtain y where y: "stored (fold (sessionRun sha store) cmds ?st) (sha token) = Some y" "usable now y"
    by (rule authenticated [OF auth])
  from runs_age [OF assms y(1)] dated y(2) show False by (auto simp: aged_def usable_def)
qed

lemma credentials_work:
  assumes "SessionService_Create sha store (Inr bs1) (Inr bs2) t0 acct st = (Inr cred, st0)"
    and "length bs1 = sessionTokenBytes" "length bs2 = sessionTokenBytes" "t0 \<le> now" "now < t0 + SessionIdleLimit"
  shows "\<exists>x. fst (SessionService_Authenticate sha store now (sc_Token cred) st0) = Inr x \<and> ss_AccountID x = acct
    \<and> ValidateCSRF sha x (sc_CSRFToken cred)"
proof -
  let ?x = "newSession sha (sc_Token cred) (sc_CSRFToken cred) t0 acct"
  from assms(1) create [of ?x st _ st0] have x: "stored st0 (sha (sc_Token cred)) = Some ?x" "well_sized ?x"
    and t: "sc_Token cred = RawURLEncoding bs1" "sc_CSRFToken cred = RawURLEncoding bs2"
    by (fastforce simp: Create_eq_Inr newSession_def)+
  have "usable now ?x" "ss_CreatedAt ?x \<le> now"
    using assms(4,5) by (simp_all add: usable_def newSession_def SessionIdleLimit_def SessionAbsoluteLimit_def)
  from use_works [OF x(1) this x(2)] show ?thesis
    by (simp add: t SessionService_Authenticate_def ValidateCSRF_def sessionDigest_new assms(2,3) refreshed_def newSession_def)
qed

end

section \<open>The PostgreSQL store\<close>

text \<open>The \<open>CHECK\<close>s of the table and its primary key; the account is the canonical text of its UUID.\<close>

definition session_check :: "string \<Rightarrow> session_row \<Rightarrow> bool" where
  "session_check d ws \<longleftrightarrow> length d = 32 \<and> length (ws_csrf ws) = 32 \<and> ws_created ws \<le> ws_seen ws
     \<and> ws_idle ws \<le> ws_absolute ws \<and> ws_created ws < ws_absolute ws"

abbreviation check_violated :: go_error where "check_violated \<equiv> ErrText ''check constraint''"
abbreviation key_violated :: go_error where "key_violated \<equiv> ErrText ''unique constraint''"

definition session_columns :: "Session \<Rightarrow> session_row" where
  "session_columns x = \<lparr>ws_account = ss_AccountID x, ws_csrf = ss_CSRFDigest x, ws_created = ss_CreatedAt x,
     ws_seen = ss_LastSeenAt x, ws_idle = ss_IdleExpiresAt x, ws_absolute = ss_AbsoluteExpiresAt x,
     ws_revoked = ss_RevokedAt x\<rparr>"

definition session_of :: "string \<Rightarrow> session_row \<Rightarrow> Session" where
  "session_of d ws = \<lparr>ss_Digest = d, ss_CSRFDigest = ws_csrf ws, ss_AccountID = ws_account ws,
     ss_CreatedAt = ws_created ws, ss_LastSeenAt = ws_seen ws, ss_IdleExpiresAt = ws_idle ws,
     ss_AbsoluteExpiresAt = ws_absolute ws, ss_RevokedAt = ws_revoked ws\<rparr>"

definition scanSession :: "(string \<times> session_row) option \<Rightarrow> Session result" where
  "scanSession row = (case row of
     None \<Rightarrow> Inl (Err ErrInvalidSession)
   | Some (d, ws) \<Rightarrow> if length d \<noteq> 32 \<or> length (ws_csrf ws) \<noteq> 32 then Inl (Err ErrInvalidSession)
                    else Inr (session_of d ws))"

definition pg_CreateSession :: "Session \<Rightarrow> (db, unit) op" where
  "pg_CreateSession x st =
     (if ss_Digest x |\<in>| fmdom (db_sessions st) then (Inl key_violated, st)
      else if \<not> session_check (ss_Digest x) (session_columns x) then (Inl check_violated, st)
      else (Inr (), st\<lparr>db_sessions := fmupd (ss_Digest x) (session_columns x) (db_sessions st)\<rparr>))"

definition pg_UseSession :: "string \<Rightarrow> go_time \<Rightarrow> go_time \<Rightarrow> (db, Session) op" where
  "pg_UseSession d now idle st =
     (case fmlookup (db_sessions st) d of
        None \<Rightarrow> (scanSession None, st)
      | Some ws \<Rightarrow>
          if ws_revoked ws = None \<and> now < ws_idle ws \<and> now < ws_absolute ws
          then (let ws1 = ws\<lparr>ws_seen := now, ws_idle := min idle (ws_absolute ws)\<rparr> in
            if \<not> session_check d ws1 then (Inl check_violated, st)
            else (scanSession (Some (d, ws1)), st\<lparr>db_sessions := fmupd d ws1 (db_sessions st)\<rparr>))
          else (scanSession None, st))"

definition pg_RevokeSession :: "string \<Rightarrow> go_time \<Rightarrow> (db, unit) op" where
  "pg_RevokeSession d revokedAt st =
     (case fmlookup (db_sessions st) d of
        None \<Rightarrow> (Inl (Err ErrInvalidSession), st)
      | Some ws \<Rightarrow> (Inr (), st\<lparr>db_sessions := fmupd d (ws\<lparr>ws_revoked :=
            Some (case ws_revoked ws of None \<Rightarrow> revokedAt | Some t \<Rightarrow> t)\<rparr>) (db_sessions st)\<rparr>))"

definition pg_DeleteExpiredSessions :: "go_time \<Rightarrow> (db, nat) op" where
  "pg_DeleteExpiredSessions now st =
     (let gone = fmfilter (\<lambda>d. case fmlookup (db_sessions st) d of None \<Rightarrow> False
            | Some ws \<Rightarrow> ws_revoked ws \<noteq> None \<or> ws_idle ws \<le> now \<or> ws_absolute ws \<le> now) (db_sessions st)
      in (Inr (flen gone), st\<lparr>db_sessions := fmfilter (\<lambda>d. d |\<notin>| fmdom gone) (db_sessions st)\<rparr>))"

definition pg_sessions :: "db SessionStore" where
  "pg_sessions = \<lparr>CreateSession = pg_CreateSession, UseSession = pg_UseSession,
     RevokeSession = pg_RevokeSession, DeleteExpiredSessions = pg_DeleteExpiredSessions\<rparr>"

definition pg_stored :: "db \<Rightarrow> string \<Rightarrow> Session option" where
  "pg_stored st d = map_option (session_of d) (fmlookup (db_sessions st) d)"

lemma session_of_columns [simp]: "session_of (ss_Digest x) (session_columns x) = x"
  by (simp add: session_of_def session_columns_def)

lemma pg_stored_upd:
  "pg_stored (st\<lparr>db_sessions := fmupd d ws (db_sessions st)\<rparr>) = (pg_stored st)(d \<mapsto> session_of d ws)"
  by (rule ext) (simp add: pg_stored_def)

interpretation pg: session_store pg_sessions pg_stored
proof
  fix x st u st1
  assume "CreateSession pg_sessions x st = (Inr u, st1)"
  then show "pg_stored st (ss_Digest x) = None \<and> pg_stored st1 = (pg_stored st)(ss_Digest x \<mapsto> x) \<and> well_sized x"
    by (auto simp: pg_sessions_def pg_CreateSession_def pg_stored_upd pg_stored_def well_sized_def session_check_def
        session_columns_def fmdom_notD split: if_splits) (auto simp: session_of_def)
next
  fix x st e st1
  assume "CreateSession pg_sessions x st = (Inl e, st1)"
  then show "pg_stored st1 = pg_stored st" by (auto simp: pg_sessions_def pg_CreateSession_def split: if_splits)
next
  fix d now idle st y st1
  assume "UseSession pg_sessions d now idle st = (Inr y, st1)"
  then show "\<exists>x. pg_stored st d = Some x \<and> usable now x \<and> y = refreshed now idle x \<and> pg_stored st1 = (pg_stored st)(d \<mapsto> y)"
    by (auto simp: pg_sessions_def pg_UseSession_def pg_stored_upd scanSession_def Let_def usable_def refreshed_def
        split: if_splits option.splits) (auto simp: pg_stored_def session_of_def)
next
  fix d x now idle and st :: db
  assume "pg_stored st d = Some x" "usable now x" "ss_CreatedAt x \<le> now" "well_sized x"
  then show "fst (UseSession pg_sessions d now idle st) = Inr (refreshed now idle x)"
    by (auto simp: pg_sessions_def pg_UseSession_def scanSession_def Let_def usable_def refreshed_def well_sized_def
        session_check_def pg_stored_def session_of_def)
next
  fix d now idle st e st1
  assume "UseSession pg_sessions d now idle st = (Inl e, st1)"
  then show "pg_stored st1 = pg_stored st"
    by (auto simp: pg_sessions_def pg_UseSession_def scanSession_def session_check_def Let_def split: if_splits option.splits)
next
  fix d x now and st :: db
  assume "pg_stored st d = Some x"
  then show "\<exists>st1 t. RevokeSession pg_sessions d now st = (Inr (), st1) \<and> pg_stored st1 = (pg_stored st)(d \<mapsto> x\<lparr>ss_RevokedAt := Some t\<rparr>)"
    by (auto simp: pg_sessions_def pg_RevokeSession_def pg_stored_upd pg_stored_def session_of_def
        intro!: exI [of _ "case ss_RevokedAt x of None \<Rightarrow> now | Some t \<Rightarrow> t"])
next
  fix d now and st :: db
  assume "pg_stored st d = None"
  then show "\<exists>e st1. RevokeSession pg_sessions d now st = (Inl e, st1) \<and> pg_stored st1 = pg_stored st"
    by (auto simp: pg_sessions_def pg_RevokeSession_def pg_stored_def)
next
  fix now st r st1 d
  assume "DeleteExpiredSessions pg_sessions now st = (r, st1)"
  then show "pg_stored st1 d = pg_stored st d \<or> pg_stored st1 d = None"
    by (auto simp: pg_sessions_def pg_DeleteExpiredSessions_def pg_stored_def Let_def split: if_splits)
qed

section \<open>Properties\<close>

text \<open>C19: Session lifetime. Whatever the clients of the service do after a session was created (short of drawing
  the same 32 random bytes), its token authenticates only the account it was issued to, only within 30 days of its
  creation, only within 24 hours of the last successful use of the session (of its creation, when it was not used),
  and no use extends it past those 24 hours or past the expiry that was handed out with the credentials.
\<close>
theorem session_lifetime:
  assumes "SessionService_Create sha pg_sessions read1 read2 t0 acct st = (Inr cred, st0)"
    and "\<forall>cmd\<in>set cmds. \<not> draws sha (sha (sc_Token cred)) cmd"
    and "SessionService_Authenticate sha pg_sessions now (sc_Token cred) (fold (sessionRun sha pg_sessions) cmds st0)
      = (Inr x, st2)"
  shows "ss_AccountID x = acct \<and> now < t0 + SessionAbsoluteLimit
    \<and> now < last_use sha pg_sessions (sha (sc_Token cred)) cmds st0 t0 + SessionIdleLimit
    \<and> ss_IdleExpiresAt x \<le> now + SessionIdleLimit \<and> ss_IdleExpiresAt x \<le> sc_AbsoluteExpiresAt cred"
  by (rule pg.lifetime [OF assms])

text \<open>C13: Logout is final. Once a token has been revoked, no sequence of later operations lets it authenticate again,
  unless one of them draws the same random bytes.
\<close>
theorem revoked_session_is_dead:
  assumes "\<forall>cmd\<in>set cmds. \<not> draws sha (sha token) cmd"
  shows "isl (fst (SessionService_Authenticate sha pg_sessions now token
     (fold (sessionRun sha pg_sessions) cmds (snd (SessionService_Revoke sha pg_sessions t token st)))))"
  using pg.revoked_dead [OF assms] by (metis sum.collapse(2))

text \<open>C32: Issued credentials work. A session created with two reads of 32 bytes authenticates its account for 24
  hours, and its CSRF token validates: the encoded tokens decode to the bytes they were made of.
\<close>
theorem credentials_authenticate:
  assumes "SessionService_Create sha pg_sessions (Inr bs1) (Inr bs2) t0 acct st = (Inr cred, st0)"
    and "length bs1 = sessionTokenBytes" "length bs2 = sessionTokenBytes" "t0 \<le> now" "now < t0 + SessionIdleLimit"
  shows "\<exists>x. fst (SessionService_Authenticate sha pg_sessions now (sc_Token cred) st0) = Inr x \<and> ss_AccountID x = acct
    \<and> ValidateCSRF sha x (sc_CSRFToken cred)"
  by (rule pg.credentials_work [OF assms])

section \<open>Witnesses\<close>

definition pad_digest :: "string \<Rightarrow> string" where
  "pad_digest t = take 32 (t @ replicate 32 CHR ''0'')"

definition some_bytes :: "char \<Rightarrow> string" where
  "some_bytes c = replicate 32 c"

definition ana_token :: string where
  "ana_token = RawURLEncoding (some_bytes CHR ''a'')"

definition ana_login :: "SessionCredentials result \<times> db" where
  "ana_login = SessionService_Create pad_digest pg_sessions (Inr (some_bytes CHR ''a'')) (Inr (some_bytes CHR ''b''))
     0 ''ana'' migrated_db"

definition ana_credentials :: SessionCredentials where
  "ana_credentials = projr (fst ana_login)"

definition ana_commands :: "session_cmd list" where
  "ana_commands = [SAuthenticate (20 * Hour) ana_token, SCleanup (25 * Hour)]"

definition ana_later :: "Session result \<times> db" where
  "ana_later = SessionService_Authenticate pad_digest pg_sessions (30 * Hour) (sc_Token ana_credentials)
     (fold (sessionRun pad_digest pg_sessions) ana_commands (snd ana_login))"

lemma pad_digest_simps [simp]: "length (pad_digest t) = 32" "length (some_bytes c) = 32"
  "sessionDigest pad_digest ana_token = Inr (pad_digest ana_token)"
  by (simp_all add: pad_digest_def some_bytes_def sessionTokenBytes_def sessionDigest_def ana_token_def)

lemmas session_eval = pg_sessions_def pg_CreateSession_def pg_UseSession_def pg_RevokeSession_def
  pg_DeleteExpiredSessions_def scanSession_def session_check_def session_columns_def Let_def

lemma ana_login_eq: "ana_login = (Inr ana_credentials, snd ana_login)" "sc_Token ana_credentials = ana_token"
  by (simp_all add: ana_credentials_def ana_login_def ana_token_def SessionService_Create_def newSession_def session_eval
      migrated_db_def SessionIdleLimit_def SessionAbsoluteLimit_def)

lemma ana_still_there: "\<not> isl (fst ana_later)"
  by (simp add: ana_later_def ana_login_eq(2) ana_commands_def ana_login_def ana_token_def [symmetric]
      SessionService_Create_def SessionService_Authenticate_def SessionService_Cleanup_def newSession_def session_eval
      migrated_db_def SessionIdleLimit_def SessionAbsoluteLimit_def)

theorem session_lifetime_witness:
  "ss_AccountID (projr (fst ana_later)) = ''ana'' \<and> 30 * Hour < 0 + SessionAbsoluteLimit
    \<and> 30 * Hour < last_use pad_digest pg_sessions (pad_digest ana_token) ana_commands (snd ana_login) 0 + SessionIdleLimit"
proof -
  have later: "ana_later = (Inr (projr (fst ana_later)), snd ana_later)" using ana_still_there by (simp add: prod_eq_iff)
  show ?thesis
    using session_lifetime [OF trans [OF ana_login_def [symmetric] ana_login_eq(1)] _ trans [OF ana_later_def [symmetric] later]]
    by (simp add: ana_commands_def ana_login_eq(2))
qed

theorem revoked_session_is_dead_witness:
  "isl (fst (SessionService_Authenticate pad_digest pg_sessions (2 * Hour) (sc_Token ana_credentials)
     (fold (sessionRun pad_digest pg_sessions) [SAuthenticate Hour (sc_Token ana_credentials)]
       (snd (SessionService_Revoke pad_digest pg_sessions Hour (sc_Token ana_credentials) (snd ana_login))))))"
  by (rule revoked_session_is_dead) simp

theorem credentials_authenticate_witness:
  "\<exists>x. fst (SessionService_Authenticate pad_digest pg_sessions Hour (sc_Token ana_credentials) (snd ana_login)) = Inr x
     \<and> ss_AccountID x = ''ana'' \<and> ValidateCSRF pad_digest x (sc_CSRFToken ana_credentials)"
  by (rule credentials_authenticate [OF trans [OF ana_login_def [symmetric] ana_login_eq(1)]])
    (simp_all add: sessionTokenBytes_def SessionIdleLimit_def)

end
