(* ===== verification/Http_Messages.thy ===== *)
theory Http_Messages
  imports Application
begin

text \<open>
  What the HTTP handlers of \<open>internal/auth\<close> and \<open>room/adapter/http\<close> use of \<open>net/http\<close> and
  \<open>encoding/json\<close>: requests, the response writer as a record that a handler threads, the error
  responses of \<open>errors.go\<close>, JSON values and the strict decoding of a request body into a struct.
  The bytes of a message are not modelled: a body is the sequence of JSON values its decoder reads and whether
  it ends cleanly.
\<close>

section \<open>JSON values\<close>

text \<open>\<open>JInt\<close> is a number literal without fraction or exponent, \<open>JReal\<close> any other; \<open>JTime\<close> is the
  RFC 3339 string of an instant.\<close>

datatype json =
    JNull | JBool bool | JInt int | JReal string | JStr string | JTime go_time
  | JArr "json list" | JObj "(string \<times> json) list"

text \<open>Struct tags: \<open>omitempty\<close> on a string or a slice, and \<open>string\<close> on an integer.\<close>

definition omitempty :: "string \<Rightarrow> string \<Rightarrow> (string \<times> json) list" where
  "omitempty name v = (if v = '''' then [] else [(name, JStr v)])"

definition omitemptyArr :: "string \<Rightarrow> json list \<Rightarrow> (string \<times> json) list" where
  "omitemptyArr name vs = (if vs = [] then [] else [(name, JArr vs)])"

definition quotedInt :: "int \<Rightarrow> json" where
  "quotedInt n = JStr (dec_int n)"

text \<open>The strings of a value, keys included.\<close>

fun json_strings :: "json \<Rightarrow> string set" where
  "json_strings (JStr s) = {s}"
| "json_strings (JReal s) = {s}"
| "json_strings (JArr vs) = (\<Union>v\<in>set vs. json_strings v)"
| "json_strings (JObj fs) = (\<Union>(k, v)\<in>set fs. insert k (json_strings v))"
| "json_strings _ = {}"

section \<open>Requests and responses\<close>

text \<open>
  \<open>rq_Segments\<close> are the unescaped segments of the path, \<open>rq_Code\<close> is \<open>PathValue("code")\<close>, \<open>rq_Values\<close>,
  \<open>rq_EOF\<close> and \<open>rq_Size\<close> are the body: its JSON values, whether nothing else follows them, and its
  length. \<open>rq_ID\<close> is the identifier in the context and \<open>rq_Time\<close> the clock when the response is written.
\<close>

record http_request =
  rq_Method :: string
  rq_Path :: string
  rq_Segments :: "string list"
  rq_Code :: string
  rq_Header :: "string \<Rightarrow> string list"
  rq_Cookies :: "(string \<times> string) list"
  rq_Values :: "json list"
  rq_EOF :: bool
  rq_Size :: nat
  rq_ID :: string
  rq_Time :: go_time

record cookie =
  ck_Name :: string
  ck_Value :: string
  ck_Path :: string
  ck_MaxAge :: int
  ck_Expires :: "go_time option"
  ck_Secure :: bool
  ck_HttpOnly :: bool
  ck_SameSite :: string

datatype http_body = TextBody string | JSONBody json

text \<open>\<open>rs_Status\<close> is 0 until the header is written; \<open>rs_Failure\<close> is what \<open>recordInternalFailure\<close> keeps and
  \<open>rs_Receipt\<close> what \<open>metrics.Receipt\<close> was called with.\<close>

record internalFailure =
  if_cause :: go_error
  if_operation :: string
  if_kind :: string
  if_phase :: string

record response =
  rs_Header :: "string \<Rightarrow> string list"
  rs_Cookies :: "cookie list"
  rs_Status :: int
  rs_Body :: "http_body list"
  rs_Failure :: "internalFailure option"
  rs_Receipt :: "string option"

definition newResponse :: response where
  "newResponse = \<lparr>rs_Header = (\<lambda>_. []), rs_Cookies = [], rs_Status = 0, rs_Body = [], rs_Failure = None, rs_Receipt = None\<rparr>"

type_synonym 's handler = "http_request \<Rightarrow> response \<Rightarrow> 's \<Rightarrow> response \<times> 's"

definition Header_Set :: "string \<Rightarrow> string \<Rightarrow> response \<Rightarrow> response" where
  "Header_Set k v w = w\<lparr>rs_Header := (rs_Header w)(k := [v])\<rparr>"

definition Header_Add :: "string \<Rightarrow> string \<Rightarrow> response \<Rightarrow> response" where
  "Header_Add k v w = w\<lparr>rs_Header := (rs_Header w)(k := rs_Header w k @ [v])\<rparr>"

definition SetCookie :: "cookie \<Rightarrow> response \<Rightarrow> response" where
  "SetCookie c w = w\<lparr>rs_Cookies := rs_Cookies w @ [c]\<rparr>"

text \<open>\<open>loggingResponseWriter\<close>: the first final status stands, an informational one (but 101) leaves it open, and a
  body without one means 200.\<close>

definition WriteHeader :: "int \<Rightarrow> response \<Rightarrow> response" where
  "WriteHeader status w = (if 100 \<le> status \<and> status < 200 \<and> status \<noteq> 101 \<or> rs_Status w \<noteq> 0 then w
     else w\<lparr>rs_Status := status\<rparr>)"

definition Write :: "http_body \<Rightarrow> response \<Rightarrow> response" where
  "Write b w = (let w = (if rs_Status w = 0 then WriteHeader 200 w else w) in w\<lparr>rs_Body := rs_Body w @ [b]\<rparr>)"

definition statusOr :: "int \<Rightarrow> response \<Rightarrow> int" where
  "statusOr fallback w = (if rs_Status w = 0 then fallback else rs_Status w)"

definition recordInternalFailure :: "internalFailure \<Rightarrow> response \<Rightarrow> response" where
  "recordInternalFailure f w = w\<lparr>rs_Failure := Some f\<rparr>"

text \<open>\<open>http.Error\<close>.\<close>

definition http_Error :: "string \<Rightarrow> int \<Rightarrow> response \<Rightarrow> response" where
  "http_Error msg status w = Write (TextBody (msg @ [byte 10])) (WriteHeader status
     (Header_Set ''X-Content-Type-Options'' ''nosniff'' (Header_Set ''Content-Type'' ''text/plain; charset=utf-8'' w)))"

definition Cookie :: "string \<Rightarrow> http_request \<Rightarrow> string option" where
  "Cookie name r = map_of (rq_Cookies r) name"

section \<open>Strings of headers\<close>

text \<open>\<open>strings.Cut\<close> at a byte, and \<open>strings.EqualFold\<close> with an ASCII string: two runes beyond ASCII fold to the
  letters S and K.\<close>

fun Cut :: "char \<Rightarrow> string \<Rightarrow> (string \<times> string) option" where
  "Cut c [] = None"
| "Cut c (x # s) = (if x = c then Some ([], s) else map_option (\<lambda>(a, b). (x # a, b)) (Cut c s))"

fun foldName :: "string \<Rightarrow> string" where
  "foldName [] = []"
| "foldName (a # s) =
     (case s of
        b # t \<Rightarrow>
          if a = byte 0xC5 \<and> b = byte 0xBF then CHR ''S'' # foldName t
          else (case t of
            c # u \<Rightarrow> if a = byte 0xE2 \<and> b = byte 0x84 \<and> c = byte 0xAA then CHR ''K'' # foldName u
                     else upper_byte a # foldName s
          | [] \<Rightarrow> upper_byte a # foldName s)
      | [] \<Rightarrow> upper_byte a # foldName s)"

definition EqualFold :: "string \<Rightarrow> string \<Rightarrow> bool" where
  "EqualFold s t = (foldName s = foldName t)"

definition bearerToken :: "http_request \<Rightarrow> string option" where
  "bearerToken r =
     (case rq_Header r ''Authorization'' of
        [value] \<Rightarrow>
          (case Cut CHR '' '' value of
             None \<Rightarrow> None
           | Some (scheme, token) \<Rightarrow>
               if \<not> EqualFold scheme ''Bearer'' \<or> token = '''' \<or> ContainsAny token [byte 32, byte 9, byte 13, byte 10]
               then None else Some token)
      | _ \<Rightarrow> None)"

definition idempotencyKey :: "http_request \<Rightarrow> string option" where
  "idempotencyKey r =
     (case rq_Header r ''Idempotency-Key'' of
        [value] \<Rightarrow>
          if value = '''' \<or> 128 < length value \<or> TrimSpace value \<noteq> value
             \<or> ContainsAny value [byte 32, byte 9, byte 13, byte 10]
          then None else Some value
      | _ \<Rightarrow> None)"

lemma idempotencyKey_valid: "idempotencyKey r = Some key \<Longrightarrow> validKey key"
  by (auto simp: idempotencyKey_def validKey_def split: list.splits if_splits)

section \<open>Decoding a body\<close>

text \<open>
  \<open>decoder.Decode(&dst)\<close> of one value into a struct: \<open>store\<close> gives what the field of a name becomes for a
  value, or \<open>None\<close> when the type does not fit. \<open>null\<close> leaves a field as it is; keys match up to case; an unknown
  key is an error (\<open>DisallowUnknownFields\<close>), and the last of two equal keys counts.
\<close>

type_synonym 'd field_store = "(string \<times> (json \<Rightarrow> 'd \<Rightarrow> 'd option)) list"

definition field_for :: "'d field_store \<Rightarrow> string \<Rightarrow> (json \<Rightarrow> 'd \<Rightarrow> 'd option) option" where
  "field_for flds key = (case map_of flds key of
     Some f \<Rightarrow> Some f | None \<Rightarrow> map_option snd (find (\<lambda>(name, f). EqualFold name key) flds))"

fun decodeFields :: "'d field_store \<Rightarrow> (string \<times> json) list \<Rightarrow> 'd \<Rightarrow> 'd option" where
  "decodeFields flds [] dst = Some dst"
| "decodeFields flds ((key, v) # rest) dst =
     (case field_for flds key of
        None \<Rightarrow> None
      | Some f \<Rightarrow> (if v = JNull then decodeFields flds rest dst
                  else case f v dst of None \<Rightarrow> None | Some dst \<Rightarrow> decodeFields flds rest dst))"

fun decodeValue :: "'d field_store \<Rightarrow> json \<Rightarrow> 'd \<Rightarrow> 'd option" where
  "decodeValue flds JNull dst = Some dst"
| "decodeValue flds (JObj fs) dst = decodeFields flds fs dst"
| "decodeValue flds _ dst = None"

text \<open>\<open>decodeJSONBody\<close>: one value, then the end of the body.\<close>

definition decodeJSONBody :: "'d field_store \<Rightarrow> http_request \<Rightarrow> 'd \<Rightarrow> 'd option" where
  "decodeJSONBody flds r dst =
     (case rq_Values r of
        [] \<Rightarrow> None
      | v # rest \<Rightarrow> (case decodeValue flds v dst of
          None \<Rightarrow> None | Some dst \<Rightarrow> if rest = [] \<and> rq_EOF r then Some dst else None))"

definition intoString :: "(string \<Rightarrow> 'd \<Rightarrow> 'd) \<Rightarrow> json \<Rightarrow> 'd \<Rightarrow> 'd option" where
  "intoString put v dst = (case v of JStr s \<Rightarrow> Some (put s dst) | _ \<Rightarrow> None)"

definition intoInt :: "int \<Rightarrow> int \<Rightarrow> (int \<Rightarrow> 'd \<Rightarrow> 'd) \<Rightarrow> json \<Rightarrow> 'd \<Rightarrow> 'd option" where
  "intoInt lo hi put v dst = (case v of JInt n \<Rightarrow> if lo \<le> n \<and> n \<le> hi then Some (put n dst) else None | _ \<Rightarrow> None)"

section \<open>Error responses\<close>

record apiErrorDefinition =
  ae_status :: int
  ae_code :: string
  ae_message :: string
  ae_rawError :: string

definition publicError :: "int \<Rightarrow> string \<Rightarrow> string \<Rightarrow> apiErrorDefinition" where
  "publicError status code message = \<lparr>ae_status = status, ae_code = code, ae_message = message, ae_rawError = ''''\<rparr>"

definition businessError :: "int \<Rightarrow> string \<Rightarrow> string \<Rightarrow> string \<Rightarrow> apiErrorDefinition" where
  "businessError status code message rawError =
     \<lparr>ae_status = status, ae_code = code, ae_message = message, ae_rawError = rawError\<rparr>"

definition errorNotReady :: apiErrorDefinition where "errorNotReady = publicError 503 ''service_unavailable'' ''Service is unavailable.''"
definition errorUnauthorized :: apiErrorDefinition where "errorUnauthorized = publicError 401 ''unauthorized'' ''Unauthorized.''"
definition errorForbidden :: apiErrorDefinition where "errorForbidden = publicError 403 ''forbidden'' ''Forbidden.''"
definition errorRoomCodeRequired :: apiErrorDefinition where "errorRoomCodeRequired = publicError 400 ''room_code_required'' ''Room code is required.''"
definition errorInvalidBody :: apiErrorDefinition where "errorInvalidBody = publicError 400 ''invalid_request_body'' ''Invalid request body.''"
definition errorInvalidMove :: apiErrorDefinition where "errorInvalidMove = publicError 400 ''invalid_move'' ''Invalid move.''"
definition errorEndpointNotFound :: apiErrorDefinition where "errorEndpointNotFound = publicError 404 ''endpoint_not_found'' ''Endpoint not found.''"
definition errorMethodNotAllowed :: apiErrorDefinition where "errorMethodNotAllowed = publicError 405 ''method_not_allowed'' ''Method not allowed.''"
definition errorRoomFull :: apiErrorDefinition where "errorRoomFull = businessError 409 ''room_full'' ''Room is full.'' ''room already has two players''"
definition errorRoomClosed :: apiErrorDefinition where "errorRoomClosed = businessError 409 ''room_closed'' ''Room is closed.'' ''room is closed''"
definition errorRoomNotFound :: apiErrorDefinition where "errorRoomNotFound = businessError 404 ''room_not_found'' ''Room not found.'' ''room code was not found''"
definition errorAccountSeated :: apiErrorDefinition where "errorAccountSeated = businessError 409 ''account_already_seated'' ''Account already occupies a seat.''
  ''account already occupies a seat''"
definition errorRoomNotReady :: apiErrorDefinition where "errorRoomNotReady = businessError 409 ''room_not_ready'' ''Room is not ready.'' ''room needs a second player''"
definition errorDuplicateMove :: apiErrorDefinition where "errorDuplicateMove = businessError 409 ''move_already_submitted'' ''Move already submitted.''
  ''player already submitted a move''"
definition errorRoundResolved :: apiErrorDefinition where "errorRoundResolved = businessError 409 ''round_already_resolved'' ''Round is already resolved.''
  ''round is already resolved''"
definition errorRoundNotResolved :: apiErrorDefinition where "errorRoundNotResolved = businessError 409 ''round_not_resolved'' ''Round is not resolved.'' ''round is not resolved''"
definition errorNextRoundRequested :: apiErrorDefinition where "errorNextRoundRequested = businessError 409 ''next_round_already_requested'' ''Next round already requested.''
  ''player already requested another round''"
definition errorStaleRound :: apiErrorDefinition where "errorStaleRound = businessError 409 ''stale_round'' ''Round request is stale.'' ''round request is stale''"
definition errorGameUnfinished :: apiErrorDefinition where "errorGameUnfinished = businessError 409 ''game_unfinished'' ''Game is unfinished.'' ''game is unfinished''"
definition errorInsufficientFunds :: apiErrorDefinition where "errorInsufficientFunds = businessError 409 ''insufficient_balance'' ''Insufficient coin balance.''
  ''insufficient coin balance''"
definition errorInvalidCoinAmount :: apiErrorDefinition where "errorInvalidCoinAmount = publicError 400 ''invalid_coin_amount'' ''Coin amount must be a positive integer.''"
definition errorIdempotencyRequired :: apiErrorDefinition where "errorIdempotencyRequired = publicError 400 ''idempotency_key_required''
  ''A valid Idempotency-Key header is required.''"
definition errorIdempotencyConflict :: apiErrorDefinition where "errorIdempotencyConflict = businessError 409 ''idempotency_conflict''
  ''Idempotency key was already used with different data.'' ''idempotency key was already used with different data''"

definition apiErrorMeta :: "http_request \<Rightarrow> json" where
  "apiErrorMeta r = JObj [(''time'', JTime (rq_Time r)), (''requestId'', JStr (rq_ID r))]"

definition apiErrorResponse :: "http_request \<Rightarrow> apiErrorDefinition \<Rightarrow> json" where
  "apiErrorResponse r d = JObj ([(''status'', JInt (ae_status d)), (''code'', JStr (ae_code d)),
     (''message'', JStr (ae_message d)), (''meta'', apiErrorMeta r)] @ omitempty ''rawError'' (ae_rawError d))"

definition writeJSON :: "int \<Rightarrow> json \<Rightarrow> response \<Rightarrow> response" where
  "writeJSON status value w = Write (JSONBody value) (WriteHeader status (Header_Set ''Content-Type'' ''application/json'' w))"

definition writeAPIError :: "http_request \<Rightarrow> apiErrorDefinition \<Rightarrow> response \<Rightarrow> response" where
  "writeAPIError r d w = writeJSON (ae_status d) (apiErrorResponse r d) w"

definition writeInternalErrorResponse :: "http_request \<Rightarrow> response \<Rightarrow> response" where
  "writeInternalErrorResponse r w = writeAPIError r (publicError 500 ''internal_error'' ''An internal error occurred.'') w"

definition writeInternalError :: "http_request \<Rightarrow> string \<Rightarrow> go_error \<Rightarrow> response \<Rightarrow> response" where
  "writeInternalError r operation cause w = writeInternalErrorResponse r (recordInternalFailure
     \<lparr>if_cause = cause, if_operation = operation, if_kind = ''internal_error'', if_phase = ''before_commit''\<rparr> w)"

text \<open>What is left of a response after these writers, for a response whose header is not written yet.\<close>

named_theorems http_simps \<open>the status and the other flds of a written response\<close>

lemma written_simps [http_simps]:
  "200 \<le> n \<Longrightarrow> rs_Status (WriteHeader n w) = (if rs_Status w = 0 then n else rs_Status w)"
  "rs_Body (WriteHeader n w) = rs_Body w" "rs_Header (WriteHeader n w) = rs_Header w"
  "rs_Cookies (WriteHeader n w) = rs_Cookies w" "rs_Failure (WriteHeader n w) = rs_Failure w"
  "rs_Receipt (WriteHeader n w) = rs_Receipt w"
  "rs_Status (Write b w) = (if rs_Status w = 0 then 200 else rs_Status w)"
  "rs_Body (Write b w) = rs_Body w @ [b]" "rs_Header (Write b w) = rs_Header w"
  "rs_Cookies (Write b w) = rs_Cookies w" "rs_Failure (Write b w) = rs_Failure w" "rs_Receipt (Write b w) = rs_Receipt w"
  "rs_Status (Header_Set k v w) = rs_Status w" "rs_Body (Header_Set k v w) = rs_Body w"
  "rs_Header (Header_Set k v w) = (rs_Header w)(k := [v])" "rs_Cookies (Header_Set k v w) = rs_Cookies w"
  "rs_Failure (Header_Set k v w) = rs_Failure w" "rs_Receipt (Header_Set k v w) = rs_Receipt w"
  "rs_Status (Header_Add k v w) = rs_Status w" "rs_Body (Header_Add k v w) = rs_Body w"
  "rs_Header (Header_Add k v w) = (rs_Header w)(k := rs_Header w k @ [v])" "rs_Cookies (Header_Add k v w) = rs_Cookies w"
  "rs_Failure (Header_Add k v w) = rs_Failure w" "rs_Receipt (Header_Add k v w) = rs_Receipt w"
  "rs_Status (SetCookie c w) = rs_Status w" "rs_Body (SetCookie c w) = rs_Body w"
  "rs_Header (SetCookie c w) = rs_Header w" "rs_Cookies (SetCookie c w) = rs_Cookies w @ [c]"
  "rs_Failure (SetCookie c w) = rs_Failure w" "rs_Receipt (SetCookie c w) = rs_Receipt w"
  by (simp_all add: WriteHeader_def Write_def Header_Set_def Header_Add_def SetCookie_def Let_def)

lemma status_writers [http_simps]:
  "200 \<le> n \<Longrightarrow> rs_Status (http_Error m n w) = (if rs_Status w = 0 then n else rs_Status w)"
  "200 \<le> n \<Longrightarrow> rs_Status (writeJSON n v w) = (if rs_Status w = 0 then n else rs_Status w)"
  "200 \<le> ae_status d \<Longrightarrow> rs_Status (writeAPIError r d w) = (if rs_Status w = 0 then ae_status d else rs_Status w)"
  "rs_Status (writeInternalError r op e w) = (if rs_Status w = 0 then 500 else rs_Status w)"
  by (simp_all add: http_Error_def writeJSON_def writeAPIError_def writeInternalError_def recordInternalFailure_def
      writeInternalErrorResponse_def publicError_def http_simps)

lemma error_status [http_simps]:
  "ae_status errorNotReady = 503" "ae_status errorUnauthorized = 401" "ae_status errorForbidden = 403"
  "ae_status errorRoomCodeRequired = 400" "ae_status errorInvalidBody = 400" "ae_status errorInvalidMove = 400"
  "ae_status errorEndpointNotFound = 404" "ae_status errorMethodNotAllowed = 405" "ae_status errorRoomFull = 409"
  "ae_status errorRoomClosed = 409" "ae_status errorRoomNotFound = 404" "ae_status errorAccountSeated = 409"
  "ae_status errorRoomNotReady = 409" "ae_status errorDuplicateMove = 409" "ae_status errorRoundResolved = 409"
  "ae_status errorRoundNotResolved = 409" "ae_status errorNextRoundRequested = 409" "ae_status errorStaleRound = 409"
  "ae_status errorGameUnfinished = 409" "ae_status errorInsufficientFunds = 409" "ae_status errorInvalidCoinAmount = 400"
  "ae_status errorIdempotencyRequired = 400" "ae_status errorIdempotencyConflict = 409"
  by (simp_all add: errorNotReady_def errorUnauthorized_def errorForbidden_def errorRoomCodeRequired_def
      errorInvalidBody_def errorInvalidMove_def errorEndpointNotFound_def errorMethodNotAllowed_def errorRoomFull_def
      errorRoomClosed_def errorRoomNotFound_def errorAccountSeated_def errorRoomNotReady_def errorDuplicateMove_def
      errorRoundResolved_def errorRoundNotResolved_def errorNextRoundRequested_def errorStaleRound_def
      errorGameUnfinished_def errorInsufficientFunds_def errorInvalidCoinAmount_def errorIdempotencyRequired_def
      errorIdempotencyConflict_def publicError_def businessError_def)

end
