(* ===== verification/Auth_Http.thy ===== *)
theory Auth_Http
  imports Auth_Session Http_Messages
begin

text \<open>
  The browser boundary, \<open>internal/auth/http.go\<close> and \<open>cors.go\<close>: origin and CSRF checks, the cookies,
  the session endpoint and the CORS middleware. A handler is a function of the request, the response so far and the
  state. The proofs use the contract of the session store through its PostgreSQL interpretation.
\<close>

section \<open>Request guards\<close>

abbreviation SessionCookieName :: string where "SessionCookieName \<equiv> ''rpm_session''"
abbreviation CSRFCookieName :: string where "CSRFCookieName \<equiv> ''rpm_csrf''"
abbreviation CSRFHeaderName :: string where "CSRFHeaderName \<equiv> ''X-CSRF-Token''"
abbreviation OriginHeader :: string where "OriginHeader \<equiv> ''Origin''"
abbreviation AllowOriginHeader :: string where "AllowOriginHeader \<equiv> ''Access-Control-Allow-Origin''"

text \<open>\<open>sy_random k\<close> and \<open>sy_now k\<close> are the \<open>k\<close>-th read and the \<open>k\<close>-th instant during a request; \<open>sy_sha\<close>
  is SHA-256.\<close>

record 's SessionService =
  sy_store :: "'s SessionStore"
  sy_random :: "nat \<Rightarrow> string result"
  sy_now :: "nat \<Rightarrow> go_time"
  sy_sha :: "string \<Rightarrow> string"

record 's RequestSecurity =
  sec_allowedOrigin :: string
  sec_sessions :: "'s SessionService"

type_synonym 's Verifier = "string \<Rightarrow> ('s, string) op"

definition ValidateOrigin :: "'s RequestSecurity \<Rightarrow> http_request \<Rightarrow> bool" where
  "ValidateOrigin sec r \<longleftrightarrow> rq_Header r OriginHeader = [sec_allowedOrigin sec]"

definition ValidateMutation :: "'s RequestSecurity \<Rightarrow> http_request \<Rightarrow> Session \<Rightarrow> bool" where
  "ValidateMutation sec r session \<longleftrightarrow> ValidateOrigin sec r \<and>
     (case rq_Header r CSRFHeaderName of [value] \<Rightarrow> ValidateCSRF (sy_sha (sec_sessions sec)) session value | _ \<Rightarrow> False)"

definition NewSessionCookie :: "string \<Rightarrow> cookie" where
  "NewSessionCookie token = \<lparr>ck_Name = SessionCookieName, ck_Value = token, ck_Path = ''/'',
     ck_MaxAge = SessionAbsoluteLimit div Second, ck_Expires = None, ck_Secure = True, ck_HttpOnly = True, ck_SameSite = ''Lax''\<rparr>"

definition NewCSRFCookie :: "string \<Rightarrow> cookie" where
  "NewCSRFCookie token = \<lparr>ck_Name = CSRFCookieName, ck_Value = token, ck_Path = ''/'',
     ck_MaxAge = SessionAbsoluteLimit div Second, ck_Expires = None, ck_Secure = True, ck_HttpOnly = False, ck_SameSite = ''Lax''\<rparr>"

definition expiredCookie :: "string \<Rightarrow> bool \<Rightarrow> cookie" where
  "expiredCookie name httpOnly = \<lparr>ck_Name = name, ck_Value = '''', ck_Path = ''/'', ck_MaxAge = -1,
     ck_Expires = Some Second, ck_Secure = True, ck_HttpOnly = httpOnly, ck_SameSite = ''Lax''\<rparr>"

definition authenticate :: "'s SessionService \<Rightarrow> nat \<Rightarrow> string \<Rightarrow> ('s, Session) op" where
  "authenticate s k token = SessionService_Authenticate (sy_sha s) (sy_store s) (sy_now s k) token"

section \<open>The session endpoint\<close>

text \<open>The end of \<open>bootstrap\<close>: new credentials for the subject; \<open>k\<close> instants have been read.\<close>

definition issueSession :: "'s SessionService \<Rightarrow> nat \<Rightarrow> string \<Rightarrow> response \<Rightarrow> 's \<Rightarrow> response \<times> 's" where
  "issueSession s k subject w st =
     (case SessionService_Create (sy_sha s) (sy_store s) (sy_random s 0) (sy_random s 1) (sy_now s k) subject st of
        (Inl _, st) \<Rightarrow> (http_Error ''Internal Server Error'' 500 w, st)
      | (Inr c, st) \<Rightarrow>
          (WriteHeader 204 (SetCookie (NewCSRFCookie (sc_CSRFToken c)) (SetCookie (NewSessionCookie (sc_Token c))
            (Header_Set ''Cache-Control'' ''no-store'' (Header_Set CSRFHeaderName (sc_CSRFToken c) w)))), st))"

text \<open>The session of a cookie the browser already has: kept when it is the subject's and its CSRF cookie
  matches, else revoked before a new one is issued.\<close>

definition replaceSession :: "'s SessionService \<Rightarrow> string \<Rightarrow> string \<Rightarrow> response \<Rightarrow> 's \<Rightarrow> response \<times> 's" where
  "replaceSession s subject token w st =
     (case SessionService_Revoke (sy_sha s) (sy_store s) (sy_now s 1) token st of
        (Inl _, st) \<Rightarrow> (http_Error ''Internal Server Error'' 500 w, st)
      | (Inr _, st) \<Rightarrow> issueSession s 2 subject w st)"

definition currentSession :: "'s SessionService \<Rightarrow> string \<Rightarrow> string \<Rightarrow> 's handler" where
  "currentSession s subject token r w st =
     (case authenticate s 0 token st of
        (Inr current, st) \<Rightarrow>
          (case Cookie CSRFCookieName r of
             Some csrf \<Rightarrow>
               if ss_AccountID current = subject \<and> ValidateCSRF (sy_sha s) current csrf
               then (WriteHeader 204 (Header_Set ''Cache-Control'' ''no-store'' (Header_Set CSRFHeaderName csrf w)), st)
               else replaceSession s subject token w st
           | None \<Rightarrow> replaceSession s subject token w st)
      | (Inl e, st) \<Rightarrow> if errors_Is e ErrInvalidSession then issueSession s 1 subject w st
                      else (http_Error ''Internal Server Error'' 500 w, st))"

definition bootstrap :: "'s Verifier option \<Rightarrow> 's SessionService option \<Rightarrow> 's RequestSecurity option \<Rightarrow> 's handler" where
  "bootstrap verifier sessions security r w st =
     (case (verifier, sessions, security) of
        (Some verify, Some s, Some sec) \<Rightarrow>
          if \<not> ValidateOrigin sec r then (http_Error ''Forbidden'' 403 w, st)
          else (case bearerToken r of
              None \<Rightarrow> (http_Error ''Unauthorized'' 401 w, st)
            | Some token \<Rightarrow>
                (case verify token st of
                   (Inl _, st) \<Rightarrow> (http_Error ''Unauthorized'' 401 w, st)
                 | (Inr subject, st) \<Rightarrow>
                     if subject = '''' then (http_Error ''Unauthorized'' 401 w, st)
                     else (case Cookie SessionCookieName r of
                         None \<Rightarrow> issueSession s 0 subject w st
                       | Some value \<Rightarrow> if value = '''' then issueSession s 0 subject w st
                                      else currentSession s subject value r w st)))
      | _ \<Rightarrow> (http_Error ''Forbidden'' 403 w, st))"

definition logout :: "'s SessionService option \<Rightarrow> 's RequestSecurity option \<Rightarrow> 's handler" where
  "logout sessions security r w st =
     (case (sessions, security, Cookie SessionCookieName r) of
        (Some s, Some sec, Some value) \<Rightarrow>
          if value = '''' then (http_Error ''Unauthorized'' 401 w, st)
          else (case authenticate s 0 value st of
              (Inl _, st) \<Rightarrow> (http_Error ''Unauthorized'' 401 w, st)
            | (Inr session, st) \<Rightarrow>
                if \<not> ValidateMutation sec r session then (http_Error ''Forbidden'' 403 w, st)
                else (case SessionService_Revoke (sy_sha s) (sy_store s) (sy_now s 1) value st of
                    (Inl _, st) \<Rightarrow> (http_Error ''Unauthorized'' 401 w, st)
                  | (Inr _, st) \<Rightarrow> (WriteHeader 204 (SetCookie (expiredCookie CSRFCookieName False)
                      (SetCookie (expiredCookie SessionCookieName True) w)), st)))
      | _ \<Rightarrow> (http_Error ''Unauthorized'' 401 w, st))"

definition session_ServeHTTP :: "'s Verifier option \<Rightarrow> 's SessionService option \<Rightarrow> 's RequestSecurity option \<Rightarrow> 's handler" where
  "session_ServeHTTP verifier sessions security r w st =
     (if rq_Path r \<noteq> ''/api/session'' then (http_Error ''404 page not found'' 404 w, st)
      else if rq_Method r = ''POST'' then bootstrap verifier sessions security r w st
      else if rq_Method r = ''DELETE'' then logout sessions security r w st
      else (http_Error ''Method Not Allowed'' 405 (Header_Set ''Allow'' ''POST, DELETE'' w), st))"

section \<open>CORS\<close>

definition corsMethod :: "string \<Rightarrow> bool" where
  "corsMethod m \<longleftrightarrow> m = ''GET'' \<or> m = ''HEAD'' \<or> m = ''POST'' \<or> m = ''DELETE''"

text \<open>\<open>strings.Split\<close> at a byte; \<open>strings.ToLower\<close> goes through the Unicode tables on non-ASCII strings.\<close>

fun SplitAt :: "char \<Rightarrow> string \<Rightarrow> string list" where
  "SplitAt c [] = [[]]"
| "SplitAt c (x # s) = (if x = c then [] # SplitAt c s
     else (case SplitAt c s of [] \<Rightarrow> [[x]] | t # ts \<Rightarrow> (x # t) # ts))"

definition lower_byte :: "char \<Rightarrow> char" where
  "lower_byte c = (let n = of_char c in if 65 \<le> n \<and> n \<le> 90 then char_of (n + 32 :: nat) else c)"

definition ToLower :: "(string \<Rightarrow> string) \<Rightarrow> string \<Rightarrow> string" where
  "ToLower unicode_lower s = (if ascii s then map lower_byte s else unicode_lower s)"

definition corsHeaders :: "(string \<Rightarrow> string) \<Rightarrow> string list \<Rightarrow> bool" where
  "corsHeaders lower values \<longleftrightarrow> list_all (\<lambda>value. list_all (\<lambda>header. ToLower lower (TrimSpace header) \<in>
     {''authorization'', ''content-type'', ''x-csrf-token'', ''idempotency-key''}) (SplitAt CHR '','' value)) values"

definition HasPrefix :: "string \<Rightarrow> string \<Rightarrow> bool" where
  "HasPrefix s p \<longleftrightarrow> take (length p) s = p"

definition CORS :: "(string \<Rightarrow> string) \<Rightarrow> 's RequestSecurity \<Rightarrow> 's handler \<Rightarrow> 's handler" where
  "CORS lower sec handle r w st =
     (if \<not> HasPrefix (rq_Path r) ''/api/'' then handle r w st
      else let preflight = (rq_Method r = ''OPTIONS'');
               w = Header_Add ''Vary'' ''Origin'' w;
               w = (if preflight then Header_Add ''Vary'' ''Access-Control-Request-Headers''
                      (Header_Add ''Vary'' ''Access-Control-Request-Method'' w) else w)
           in if rq_Header r OriginHeader = [] \<and> \<not> preflight then handle r w st
              else if \<not> ValidateOrigin sec r then (http_Error ''Forbidden'' 403 w, st)
              else if preflight \<and> \<not> (case rq_Header r ''Access-Control-Request-Method'' of
                     [m] \<Rightarrow> corsMethod m \<and> corsHeaders lower (rq_Header r ''Access-Control-Request-Headers'') | _ \<Rightarrow> False)
                then (http_Error ''Forbidden'' 403 w, st)
              else let w = (if preflight then Header_Set ''Access-Control-Allow-Headers''
                             ''Authorization, Content-Type, X-CSRF-Token, Idempotency-Key''
                             (Header_Set ''Access-Control-Allow-Methods'' ''GET, HEAD, POST, DELETE'' w) else w);
                       w = Header_Set ''Access-Control-Expose-Headers'' ''X-CSRF-Token, X-Request-ID''
                             (Header_Set ''Access-Control-Allow-Credentials'' ''true''
                               (Header_Set AllowOriginHeader (sec_allowedOrigin sec) w))
                   in if preflight then (WriteHeader 204 w, st) else handle r w st)"

section \<open>Properties\<close>

text \<open>
  CORS. Under \<open>/api/\<close> a request that names an origin reaches the wrapped handler only if it names the
  configured origin, once; otherwise it is answered 403, without an \<open>Access-Control-Allow-Origin\<close> header, and the state
  is untouched. A preflight never reaches the handler, whatever it asks for.
\<close>
theorem cors_guards_origin:
  assumes "HasPrefix (rq_Path r) ''/api/''" "CORS lower sec handle r newResponse st = (w, st1)"
  shows "(rq_Header r OriginHeader \<noteq> [] \<longrightarrow> rq_Header r OriginHeader \<noteq> [sec_allowedOrigin sec] \<longrightarrow>
      rs_Status w = 403 \<and> rs_Header w AllowOriginHeader = [] \<and> st1 = st)
    \<and> (rq_Method r = ''OPTIONS'' \<longrightarrow> st1 = st \<and> rs_Status w \<in> {204, 403}
      \<and> (rs_Status w = 204 \<longrightarrow> rq_Header r OriginHeader = [sec_allowedOrigin sec]))"
  using assms by (auto simp: CORS_def ValidateOrigin_def Let_def newResponse_def http_simps http_Error_def split: if_splits)

text \<open>Revocations: what a use of a session leaves alone.\<close>

definition revocations :: "db \<Rightarrow> string \<Rightarrow> go_time option option" where
  "revocations st d = map_option ss_RevokedAt (pg_stored st d)"

lemma authenticate_keeps:
  assumes "SessionService_Authenticate sha pg_sessions now token st = (res, st1)"
  shows "revocations st1 = revocations st"
proof (cases "sessionDigest sha token")
  case (Inr d)
  with assms have run: "UseSession pg_sessions d now (now + SessionIdleLimit) st = (res, st1)"
    by (simp add: SessionService_Authenticate_def)
  show ?thesis
  proof (cases res)
    case (Inl e)
    with pg.use_fails [of d now _ st e st1] run show ?thesis by (simp add: revocations_def fun_eq_iff)
  next
    case (Inr x)
    from pg.used [OF run [unfolded Inr]] show ?thesis by (auto simp: revocations_def fun_eq_iff refreshed_def)
  qed
qed (use assms in \<open>auto simp: SessionService_Authenticate_def\<close>)

lemma revoke_known:
  assumes "pg_stored st (sha token) = Some x" "sessionDigest sha token = Inr d"
  shows "\<exists>st1 t. SessionService_Revoke sha pg_sessions now token st = (Inr (), st1)
    \<and> pg_stored st1 = (pg_stored st)(sha token \<mapsto> x\<lparr>ss_RevokedAt := Some t\<rparr>)"
  using pg.revoked [of st d x now] assms sessionDigest_eq_Inr [OF assms(2)] by (simp add: SessionService_Revoke_def)

lemma authenticate_digest:
  "SessionService_Authenticate sha store now token st = (Inr x, st1) \<Longrightarrow> \<exists>d. sessionDigest sha token = Inr d"
  by (auto simp: SessionService_Authenticate_def split: sum.splits)

text \<open>C30: Logout. A logout that is answered 204 came from the configured origin with the CSRF token of the very
  session its cookie names, and that session is then revoked; any other answer leaves every session's
  revocation as it was.
\<close>
theorem logout_needs_csrf:
  assumes "sy_store s = pg_sessions" "sec_sessions sec = s"
    and "logout (Some s) (Some sec) r newResponse st = (w, st1)"
  shows "(rs_Status w = 204 \<longrightarrow> rq_Header r OriginHeader = [sec_allowedOrigin sec]
       \<and> (\<exists>token csrf x t. Cookie SessionCookieName r = Some token \<and> rq_Header r CSRFHeaderName = [csrf]
          \<and> pg_stored st (sy_sha s token) = Some x \<and> ss_CSRFDigest x = sy_sha s csrf
          \<and> revocations st1 = (revocations st)(sy_sha s token \<mapsto> Some t)))
    \<and> (rs_Status w \<noteq> 204 \<longrightarrow> revocations st1 = revocations st)"
proof (cases "\<exists>value x st0. Cookie SessionCookieName r = Some value \<and> value \<noteq> [] \<and> authenticate s 0 value st = (Inr x, st0)
    \<and> ValidateMutation sec r x")
  case True
  then obtain token x st0 where c: "Cookie SessionCookieName r = Some token" "token \<noteq> []"
    and auth: "SessionService_Authenticate (sy_sha s) pg_sessions (sy_now s 0) token st = (Inr x, st0)"
    and ok: "ValidateMutation sec r x"
    using assms(1) by (auto simp: authenticate_def)
  obtain y where y: "pg_stored st (sy_sha s token) = Some y" "x = refreshed (sy_now s 0) (sy_now s 0 + SessionIdleLimit) y"
    by (rule pg.authenticated [OF auth])
  obtain d where d: "sessionDigest (sy_sha s) token = Inr d" using authenticate_digest [OF auth] by blast
  have "UseSession pg_sessions d (sy_now s 0) (sy_now s 0 + SessionIdleLimit) st = (Inr x, st0)"
    using auth d by (simp add: SessionService_Authenticate_def)
  from pg.used [OF this] sessionDigest_eq_Inr [OF d] have x: "pg_stored st0 (sy_sha s token) = Some x" by auto
  obtain st2 t where rev: "SessionService_Revoke (sy_sha s) pg_sessions (sy_now s 1) token st0 = (Inr (), st2)"
    and st2: "pg_stored st2 = (pg_stored st0)(sy_sha s token \<mapsto> x\<lparr>ss_RevokedAt := Some t\<rparr>)"
    using revoke_known [OF x d, of "sy_now s 1"] by blast
  have "revocations st2 = (revocations st)(sy_sha s token \<mapsto> Some t)"
    using authenticate_keeps [OF auth] by (simp add: revocations_def fun_eq_iff st2)
  moreover obtain csrf where "rq_Header r CSRFHeaderName = [csrf]" "ss_CSRFDigest y = sy_sha s csrf"
    using ok y(2) assms(2) by (auto simp: ValidateMutation_def ValidateCSRF_def refreshed_def split: list.splits sum.splits
        dest: sessionDigest_eq_Inr)
  moreover have "w = WriteHeader 204 (SetCookie (expiredCookie CSRFCookieName False)
      (SetCookie (expiredCookie SessionCookieName True) newResponse))" "st1 = st2"
    using assms(1,3) c auth ok rev by (simp_all add: logout_def authenticate_def)
  ultimately show ?thesis
    using ok c(1) y(1) by (auto simp: ValidateMutation_def ValidateOrigin_def http_simps newResponse_def)
next
  case False
  with assms have "rs_Status w \<noteq> 204 \<and> (st1 = st \<or> (\<exists>value res. SessionService_Authenticate (sy_sha s) pg_sessions (sy_now s 0) value st = (res, st1)))"
    by (auto simp: logout_def authenticate_def http_simps newResponse_def split: option.splits if_splits sum.splits prod.splits)
  then show ?thesis using authenticate_keeps by auto
qed

text \<open>A browser that is logged in as the subject: its session cookie, kept or set together with the CSRF cookie, authenticates
  that account, and the CSRF token of that session is in the CSRF cookie and in the header of the response.\<close>

definition logged_in :: "(string \<Rightarrow> string) \<Rightarrow> string \<Rightarrow> go_time \<Rightarrow> http_request \<Rightarrow> response \<Rightarrow> db \<Rightarrow> bool" where
  "logged_in sha subject now r w st \<longleftrightarrow>
     (\<exists>token csrf x. (rs_Cookies w = [NewSessionCookie token, NewCSRFCookie csrf]
          \<or> rs_Cookies w = [] \<and> Cookie SessionCookieName r = Some token \<and> Cookie CSRFCookieName r = Some csrf)
        \<and> rs_Header w CSRFHeaderName = [csrf]
        \<and> fst (SessionService_Authenticate sha pg_sessions now token st) = Inr x
        \<and> ss_AccountID x = subject \<and> ValidateCSRF sha x csrf)"

text \<open>Reads of random bytes that succeed fill the buffer, as \<open>io.ReadFull\<close> does.\<close>

definition full_reads :: "'s SessionService \<Rightarrow> bool" where
  "full_reads s \<longleftrightarrow> (\<forall>k bs. sy_random s k = Inr bs \<longrightarrow> length bs = sessionTokenBytes)"

text \<open>A request of the allowed origin whose bearer token the verifier accepts for the subject.\<close>

definition login_of :: "db RequestSecurity \<Rightarrow> db Verifier \<Rightarrow> http_request \<Rightarrow> db \<Rightarrow> string \<Rightarrow> db \<Rightarrow> bool" where
  "login_of sec verify r st subject st0 \<longleftrightarrow> rq_Header r OriginHeader = [sec_allowedOrigin sec]
     \<and> (\<exists>token. bearerToken r = Some token \<and> verify token st = (Inr subject, st0)) \<and> subject \<noteq> ''''"

text \<open>Nothing stands in the way of a new session: the random reads succeed and give an unused token, digests have 32
  bytes, and the stored sessions satisfy the table's constraints and were not created in the future.\<close>

definition can_issue :: "db SessionService \<Rightarrow> db \<Rightarrow> bool" where
  "can_issue s st \<longleftrightarrow> (\<exists>bs1 bs2. sy_random s 0 = Inr bs1 \<and> sy_random s 1 = Inr bs2
        \<and> sy_sha s (RawURLEncoding bs1) |\<notin>| fmdom (db_sessions st))
     \<and> (\<forall>t. length (sy_sha s t) = 32)
     \<and> (\<forall>d ws. fmlookup (db_sessions st) d = Some ws \<longrightarrow> session_check d ws \<and> ws_created ws \<le> sy_now s 0)"

lemma issueSession_logs_in:
  assumes "sy_store s = pg_sessions" "full_reads s" "issueSession s k subject w st = (w1, st1)" "rs_Status w = 0" "rs_Cookies w = []"
  shows "rs_Status w1 = 204 \<and> logged_in (sy_sha s) subject (sy_now s k) r w1 st1 \<or> rs_Status w1 = 500"
proof -
  obtain res st2 where run: "SessionService_Create (sy_sha s) pg_sessions (sy_random s 0) (sy_random s 1) (sy_now s k) subject st = (res, st2)"
    by fastforce
  show ?thesis
  proof (cases res)
    case (Inr c)
    from run Inr obtain bs1 bs2 where bs: "sy_random s 0 = Inr bs1" "sy_random s 1 = Inr bs2"
      by (auto simp: Create_eq_Inr)
    with assms(2) have len: "length bs1 = sessionTokenBytes" "length bs2 = sessionTokenBytes" by (auto simp: full_reads_def)
    have "\<exists>x. fst (SessionService_Authenticate (sy_sha s) pg_sessions (sy_now s k) (sc_Token c) st2) = Inr x
        \<and> ss_AccountID x = subject \<and> ValidateCSRF (sy_sha s) x (sc_CSRFToken c)"
      by (rule pg.credentials_work [OF run [unfolded Inr bs] len]) (simp_all add: SessionIdleLimit_def)
    moreover have "w1 = WriteHeader 204 (SetCookie (NewCSRFCookie (sc_CSRFToken c)) (SetCookie (NewSessionCookie (sc_Token c))
        (Header_Set ''Cache-Control'' ''no-store'' (Header_Set CSRFHeaderName (sc_CSRFToken c) w))))" "st1 = st2"
      using assms(1,3) run Inr by (simp_all add: issueSession_def)
    ultimately have "logged_in (sy_sha s) subject (sy_now s k) r w1 st1"
      unfolding logged_in_def using assms(5)
      by (intro exI [of _ "sc_Token c"] exI [of _ "sc_CSRFToken c"]) (auto simp: http_simps)
    with assms run Inr show ?thesis by (auto simp: issueSession_def http_simps)
  qed (use assms run in \<open>auto simp: issueSession_def http_simps\<close>)
qed

lemma issueSession_works:
  assumes "sy_store s = pg_sessions" "can_issue s st0" "fmdom (db_sessions st) = fmdom (db_sessions st0)" "rs_Status w = 0"
  shows "rs_Status (fst (issueSession s k subject w st)) = 204"
  using assms
  by (auto simp: can_issue_def issueSession_def SessionService_Create_def newSession_def session_eval
      SessionIdleLimit_def SessionAbsoluteLimit_def http_simps)

text \<open>A token that authenticated authenticates again at the same instant.\<close>

lemma authenticate_again:
  assumes "SessionService_Authenticate sha pg_sessions now token st = (Inr x, st1)"
  shows "fst (SessionService_Authenticate sha pg_sessions now token st1) = Inr x"
  using assms
  by (auto simp: SessionService_Authenticate_def session_eval session_of_def SessionIdleLimit_def
      split: sum.splits option.splits if_splits)

lemma authenticate_healthy:
  assumes "sy_store s = pg_sessions" "can_issue s st"
  obtains (session) x st1 where "authenticate s 0 token st = (Inr x, st1)" "fmdom (db_sessions st1) = fmdom (db_sessions st)"
      "\<exists>d. sessionDigest (sy_sha s) token = Inr d \<and> d |\<in>| fmdom (db_sessions st)"
  | (unknown)  "authenticate s 0 token st = (Inl (Err ErrInvalidSession), st)"
proof (cases "sessionDigest (sy_sha s) token")
  case (Inl e)
  then show thesis using unknown assms(1) by (simp add: authenticate_def SessionService_Authenticate_def)
next
  case (Inr d)
  show thesis
  proof (cases "fmlookup (db_sessions st) d")
    case None
    then show thesis using unknown assms(1) Inr
      by (simp add: authenticate_def SessionService_Authenticate_def session_eval)
  next
    case (Some ws)
    with assms(2) have ws: "session_check d ws" "ws_created ws \<le> sy_now s 0" by (auto simp: can_issue_def)
    show thesis
    proof (cases "ws_revoked ws = None \<and> sy_now s 0 < ws_idle ws \<and> sy_now s 0 < ws_absolute ws")
      case True
      let ?ws1 = "ws\<lparr>ws_seen := sy_now s 0, ws_idle := min (sy_now s 0 + SessionIdleLimit) (ws_absolute ws)\<rparr>"
      have "authenticate s 0 token st = (Inr (session_of d ?ws1), st\<lparr>db_sessions := fmupd d ?ws1 (db_sessions st)\<rparr>)"
        using True ws assms(1) Inr Some
        by (simp add: authenticate_def SessionService_Authenticate_def pg_sessions_def pg_UseSession_def session_check_def
            scanSession_def Let_def)
      then show thesis by (rule session) (use fmdomI [OF Some] Inr in auto)
    next
      case False
      then have "pg_UseSession d (sy_now s 0) (sy_now s 0 + SessionIdleLimit) st = (Inl (Err ErrInvalidSession), st)"
        using Some by (auto simp: pg_UseSession_def scanSession_def)
      then show thesis using unknown assms(1) Inr
        by (simp add: authenticate_def SessionService_Authenticate_def pg_sessions_def)
    qed
  qed
qed

lemma currentSession_logs_in:
  assumes "sy_store s = pg_sessions" "full_reads s" "Cookie SessionCookieName r = Some token"
    and "currentSession s subject token r newResponse st = (w, st1)"
  shows "rs_Status w = 204 \<and> (\<exists>k\<le>2. logged_in (sy_sha s) subject (sy_now s k) r w st1) \<or> rs_Status w = 500"
proof (cases "\<exists>k\<le>2. \<exists>st'. issueSession s k subject newResponse st' = (w, st1)")
  case True
  then show ?thesis using issueSession_logs_in [OF assms(1,2), of _ subject newResponse _ w st1 r]
    by (force simp: newResponse_def)
next
  case False
  show ?thesis
  proof (cases "rs_Status w = 500")
    case other: False
    obtain current csrf where c: "authenticate s 0 token st = (Inr current, st1)" "Cookie CSRFCookieName r = Some csrf"
      "ss_AccountID current = subject" "ValidateCSRF (sy_sha s) current csrf"
      "w = WriteHeader 204 (Header_Set ''Cache-Control'' ''no-store'' (Header_Set CSRFHeaderName csrf newResponse))"
      using assms(4) False other
      by (auto simp: currentSession_def replaceSession_def http_simps newResponse_def
          split: if_splits option.splits prod.splits sum.splits)
    from c(1) assms(1) have "SessionService_Authenticate (sy_sha s) pg_sessions (sy_now s 0) token st = (Inr current, st1)"
      by (simp add: authenticate_def)
    from authenticate_again [OF this] c(2-5) assms(3) have "logged_in (sy_sha s) subject (sy_now s 0) r w st1"
      by (auto simp: logged_in_def http_simps newResponse_def)
    then show ?thesis using c(5) by (auto simp: http_simps newResponse_def)
  qed simp
qed

lemma replaceSession_works:
  assumes "sy_store s = pg_sessions" "can_issue s st0" "fmdom (db_sessions st) = fmdom (db_sessions st0)"
    and "sessionDigest (sy_sha s) token = Inr d" "d |\<in>| fmdom (db_sessions st0)"
  shows "rs_Status (fst (replaceSession s subject token newResponse st)) = 204"
proof -
  obtain ws where ws: "fmlookup (db_sessions st) d = Some ws" using assms(3,5) by (metis fmlookup_dom_iff)
  have "rs_Status (fst (issueSession s 2 subject newResponse (st\<lparr>db_sessions := fmupd d ws' (db_sessions st)\<rparr>))) = 204" for ws'
    by (rule issueSession_works [OF assms(1,2)]) (use assms(3,5) in \<open>auto simp: newResponse_def\<close>)
  then show ?thesis using assms(1,4) ws
    by (simp add: replaceSession_def SessionService_Revoke_def pg_sessions_def pg_RevokeSession_def)
qed

lemma currentSession_works:
  assumes "sy_store s = pg_sessions" "can_issue s st"
  shows "rs_Status (fst (currentSession s subject token r newResponse st)) = 204"
proof (rule authenticate_healthy [OF assms, of token])
  fix x st1 assume run: "authenticate s 0 token st = (Inr x, st1)" and dom: "fmdom (db_sessions st1) = fmdom (db_sessions st)"
    and "\<exists>d. sessionDigest (sy_sha s) token = Inr d \<and> d |\<in>| fmdom (db_sessions st)"
  then obtain d where "sessionDigest (sy_sha s) token = Inr d" "d |\<in>| fmdom (db_sessions st)" by blast
  from replaceSession_works [OF assms dom this] run show ?thesis
    by (auto simp: currentSession_def http_simps newResponse_def split: option.splits)
next
  assume "authenticate s 0 token st = (Inl (Err ErrInvalidSession), st)"
  with issueSession_works [OF assms, of st newResponse 1 subject] show ?thesis
    by (simp add: currentSession_def newResponse_def)
qed

text \<open>C31: Login. A bootstrap request of the configured origin with a bearer token that the verifier accepts is answered 204, or
  500 when no session can be issued, and not 500 when the random reads give an unused token and the stored sessions are as the
  table's constraints say and not from the future. Answered 204, the browser is logged in as the verified subject, whether its
  session is kept or replaced: its session cookie authenticates that account, and the CSRF token of that session is in its CSRF
  cookie and in the header of the response. Without that origin and an accepted token the answer is 401 or 403.
\<close>
theorem bootstrap_logs_in:
  assumes "sy_store s = pg_sessions" "full_reads s"
    and "bootstrap (Some verify) (Some s) (Some sec) r newResponse st = (w, st1)"
  shows "(\<forall>subject st0. login_of sec verify r st subject st0 \<longrightarrow>
       (rs_Status w = 204 \<and> (\<exists>k\<le>2. logged_in (sy_sha s) subject (sy_now s k) r w st1) \<or> rs_Status w = 500)
       \<and> (can_issue s st0 \<longrightarrow> rs_Status w = 204))
    \<and> ((\<nexists>subject st0. login_of sec verify r st subject st0) \<longrightarrow> rs_Status w \<in> {401, 403})"
proof (intro conjI allI impI)
  fix subject st0 assume "login_of sec verify r st subject st0"
  then obtain token where ok: "ValidateOrigin sec r" "bearerToken r = Some token" "verify token st = (Inr subject, st0)" "subject \<noteq> ''''"
    by (auto simp: login_of_def ValidateOrigin_def)
  consider (new) "issueSession s 0 subject newResponse st0 = (w, st1)"
    | (current) old where "Cookie SessionCookieName r = Some old" "currentSession s subject old r newResponse st0 = (w, st1)"
    using assms(3) ok by (auto simp: bootstrap_def split: option.splits if_splits)
  note runs = this
  show "rs_Status w = 204 \<and> (\<exists>k\<le>2. logged_in (sy_sha s) subject (sy_now s k) r w st1) \<or> rs_Status w = 500"
  proof (cases rule: runs)
    case new
    from issueSession_logs_in [OF assms(1,2) this, of r] show ?thesis by (auto simp: newResponse_def)
  qed (rule currentSession_logs_in [OF assms(1,2)])
  show "rs_Status w = 204" if "can_issue s st0"
  proof (cases rule: runs)
    case new
    with issueSession_works [OF assms(1) that refl, of newResponse 0 subject] show ?thesis by (simp add: newResponse_def)
  next
    case current
    with currentSession_works [OF assms(1) that, of subject old r] show ?thesis by simp
  qed
next
  assume "\<nexists>subject st0. login_of sec verify r st subject st0"
  with assms(3) show "rs_Status w \<in> {401, 403}"
    by (auto simp: bootstrap_def login_of_def ValidateOrigin_def http_simps newResponse_def
        split: if_splits option.splits prod.splits sum.splits)
qed

section \<open>Witnesses\<close>

definition plain_request :: http_request where
  "plain_request = \<lparr>rq_Method = ''GET'', rq_Path = ''/api/session'', rq_Segments = [''api'', ''session''], rq_Code = '''',
     rq_Header = (\<lambda>_. []), rq_Cookies = [], rq_Values = [], rq_EOF = True, rq_Size = 0, rq_ID = ''id'', rq_Time = 0\<rparr>"

theorem cors_guards_origin_witness:
  "rs_Status (fst (CORS id \<lparr>sec_allowedOrigin = ''https://rpm.example'', sec_sessions = undefined\<rparr> (\<lambda>r w (st :: nat). (w, Suc st))
     (plain_request\<lparr>rq_Header := (\<lambda>_. [])(OriginHeader := [''https://evil.example''])\<rparr>) newResponse 0)) = 403"
  (is "rs_Status (fst (CORS id ?sec ?h ?r newResponse 0)) = 403")
proof -
  have "HasPrefix (rq_Path ?r) ''/api/''" by (simp add: HasPrefix_def plain_request_def)
  from cors_guards_origin [OF this, of id ?sec ?h 0] show ?thesis
    by (cases "CORS id ?sec ?h ?r newResponse 0") (simp add: plain_request_def)
qed

definition ana_browser :: "db SessionService" where
  "ana_browser = \<lparr>sy_store = pg_sessions, sy_random = (\<lambda>k. Inr (some_bytes (if k = 0 then CHR ''c'' else CHR ''d''))),
     sy_now = (\<lambda>_. Hour), sy_sha = pad_digest\<rparr>"

definition ana_security :: "db RequestSecurity" where
  "ana_security = \<lparr>sec_allowedOrigin = ''https://rpm.example'', sec_sessions = ana_browser\<rparr>"

definition ana_csrf :: string where
  "ana_csrf = RawURLEncoding (some_bytes CHR ''b'')"

definition ana_request :: http_request where
  "ana_request = plain_request\<lparr>rq_Cookies := [(SessionCookieName, ana_token)],
     rq_Header := (\<lambda>_. [])(OriginHeader := [''https://rpm.example''], CSRFHeaderName := [ana_csrf],
       ''Authorization'' := [''Bearer abc''])\<rparr>"

lemma ana_csrf_digest [simp]: "sessionDigest pad_digest ana_csrf = Inr (pad_digest ana_csrf)"
  by (simp add: sessionDigest_def ana_csrf_def sessionTokenBytes_def)

lemma ana_stored: "\<exists>ws. fmlookup (db_sessions (snd ana_login)) (pad_digest ana_token) = Some ws \<and> ws_account ws = ''ana''
    \<and> ws_csrf ws = pad_digest ana_csrf \<and> ws_created ws = 0 \<and> ws_idle ws = 24 * Hour \<and> ws_absolute ws = 720 * Hour \<and> ws_revoked ws = None"
  by (simp add: ana_login_def ana_token_def ana_csrf_def SessionService_Create_def newSession_def session_eval
      migrated_db_def SessionIdleLimit_def SessionAbsoluteLimit_def)

lemma ana_token_set [simp]: "ana_token \<noteq> []"
proof
  assume "ana_token = []"
  then have "RawURLDecoding [] = Some (some_bytes CHR ''a'')" by (metis ana_token_def Decoding_Encoding)
  then have "some_bytes CHR ''a'' = []" by (simp add: RawURLDecoding_def)
  then show False by (simp add: some_bytes_def)
qed

lemma ana_logout_status: "rs_Status (fst (logout (Some ana_browser) (Some ana_security) ana_request newResponse (snd ana_login))) = 204"
  using ana_stored by (auto simp: logout_def authenticate_def ana_request_def ana_browser_def ana_security_def Cookie_def
      plain_request_def SessionService_Authenticate_def session_eval session_of_def ValidateMutation_def ValidateOrigin_def
      ValidateCSRF_def SessionService_Revoke_def SessionIdleLimit_def newResponse_def http_simps ana_token_def[symmetric])

theorem logout_needs_csrf_witness:
  "\<exists>t. revocations (snd (logout (Some ana_browser) (Some ana_security) ana_request newResponse (snd ana_login)))
     = (revocations (snd ana_login))(pad_digest ana_token \<mapsto> Some t)"
proof -
  have "sy_store ana_browser = pg_sessions" "sec_sessions ana_security = ana_browser" "sy_sha ana_browser = pad_digest"
    "Cookie SessionCookieName ana_request = Some ana_token"
    by (simp_all add: ana_browser_def ana_security_def ana_request_def Cookie_def)
  with logout_needs_csrf [OF this(1,2) surjective_pairing, of ana_request "snd ana_login"] ana_logout_status show ?thesis
    by auto
qed

definition ana_verifier :: "db Verifier" where
  "ana_verifier token st = (Inr ''bob'', st)"

lemma ana_bearer: "bearerToken ana_request = Some ''abc''"
proof -
  have "\<not> ContainsAny ''abc'' [byte 32, byte 9, byte 13, byte 10]" by code_simp
  then show ?thesis by (simp add: bearerToken_def ana_request_def EqualFold_def)
qed

theorem bootstrap_logs_in_witness:
  "\<exists>k\<le>2. logged_in pad_digest ''bob'' (sy_now ana_browser k) (ana_request\<lparr>rq_Cookies := []\<rparr>)
     (fst (bootstrap (Some ana_verifier) (Some ana_browser) (Some ana_security) (ana_request\<lparr>rq_Cookies := []\<rparr>) newResponse migrated_db))
     (snd (bootstrap (Some ana_verifier) (Some ana_browser) (Some ana_security) (ana_request\<lparr>rq_Cookies := []\<rparr>) newResponse migrated_db))"
proof -
  have browser: "sy_store ana_browser = pg_sessions" "full_reads ana_browser" "sy_sha ana_browser = pad_digest"
    by (simp_all add: ana_browser_def full_reads_def sessionTokenBytes_def)
  have "bearerToken (ana_request\<lparr>rq_Cookies := []\<rparr>) = Some ''abc''"
    using ana_bearer by (simp add: bearerToken_def)
  then have "login_of ana_security ana_verifier (ana_request\<lparr>rq_Cookies := []\<rparr>) migrated_db ''bob'' migrated_db"
    by (simp add: login_of_def ana_verifier_def ana_security_def) (simp add: ana_request_def)
  moreover have "can_issue ana_browser migrated_db" by (simp add: can_issue_def ana_browser_def migrated_db_def)
  ultimately show ?thesis
    using bootstrap_logs_in [OF browser(1,2) surjective_pairing, of ana_security ana_verifier "ana_request\<lparr>rq_Cookies := []\<rparr>" migrated_db]
    by (fastforce simp: browser(3))
qed

end
