(* ===== verification/Http_Router.thy ===== *)
theory Http_Router
  imports Auth_Http Postgres_Claims
begin

text \<open>
  The HTTP adapter, \<open>room/adapter/http/router.go\<close>, \<open>errors.go\<close>, \<open>reports.go\<close> and \<open>logging.go\<close>: the routes,
  the guard in front of the protected ones, one handler per endpoint over the application service, and the outer
  handler that turns a panic into an error response. The latency observer only watches and is left out.
\<close>

section \<open>The router\<close>

text \<open>\<open>rt_observes\<close>: the metrics handler has a method \<open>Receipt\<close>. \<open>rt_reports\<close> is the report store of the
  service's repository, if it is one, and \<open>rt_upper\<close> is \<open>strings.ToUpper\<close> beyond ASCII.\<close>

record 's router =
  rt_service :: "'s service"
  rt_verifier :: "'s Verifier option"
  rt_sessions :: "'s SessionService option"
  rt_security :: "'s RequestSecurity option"
  rt_ready :: "('s \<Rightarrow> go_error option) option"
  rt_status :: "('s \<Rightarrow> json \<times> int) option"
  rt_metrics :: "'s handler option"
  rt_observes :: bool
  rt_reports :: "(ProblemReport \<Rightarrow> ('s, unit) op) option"
  rt_upper :: "string \<Rightarrow> string"
  rt_lower :: "string \<Rightarrow> string"

text \<open>A handler behind the guard also gets the account.\<close>

type_synonym 's account_handler = "string \<Rightarrow> 's handler"

definition reading :: "http_request \<Rightarrow> bool" where
  "reading r \<longleftrightarrow> rq_Method r = ''GET'' \<or> rq_Method r = ''HEAD''"

definition recordReceipt :: "'s router \<Rightarrow> http_request \<Rightarrow> response \<Rightarrow> response" where
  "recordReceipt rt r w =
     (if reading r \<or> \<not> rt_observes rt then w
      else if rs_Status w = 409 then w\<lparr>rs_Receipt := Some ''conflict''\<rparr>
      else if 0 < rs_Status w \<and> rs_Status w < 500 then w\<lparr>rs_Receipt := Some ''accepted''\<rparr> else w)"

definition guarded_handler :: "'s router \<Rightarrow> 's account_handler \<Rightarrow> 's handler" where
  "guarded_handler rt handle r w st =
     (case rt_sessions rt of
        Some s \<Rightarrow>
          (case Cookie SessionCookieName r of
             None \<Rightarrow> (writeAPIError r errorUnauthorized w, st)
           | Some token \<Rightarrow>
               if token = '''' then (writeAPIError r errorUnauthorized w, st)
               else (case authenticate s 0 token st of
                   (Inl _, st) \<Rightarrow> (writeAPIError r errorUnauthorized w, st)
                 | (Inr session, st) \<Rightarrow>
                     if ss_AccountID session = '''' then (writeAPIError r errorUnauthorized w, st)
                     else if \<not> reading r \<and> \<not> (case rt_security rt of None \<Rightarrow> False | Some sec \<Rightarrow> ValidateMutation sec r session)
                       then (writeAPIError r errorForbidden w, st)
                     else handle (ss_AccountID session) r w st))
      | None \<Rightarrow>
          (case (bearerToken r, rt_verifier rt) of
             (Some token, Some verify) \<Rightarrow>
               (case verify token st of
                  (Inl _, st) \<Rightarrow> (writeAPIError r errorUnauthorized w, st)
                | (Inr subject, st) \<Rightarrow> if subject = '''' then (writeAPIError r errorUnauthorized w, st) else handle subject r w st)
           | _ \<Rightarrow> (writeAPIError r errorUnauthorized w, st)))"

definition protected :: "'s router \<Rightarrow> 's account_handler \<Rightarrow> 's handler" where
  "protected rt handle r w st = (case guarded_handler rt handle r w st of (w, st) \<Rightarrow> (recordReceipt rt r w, st))"

section \<open>Handlers\<close>

text \<open>A \<open>switch\<close> on \<open>errors.Is\<close>: the first sentinel that matches, in the order of its cases, else an internal error.\<close>

definition writeErrors ::
    "(sentinel \<times> apiErrorDefinition) list \<Rightarrow> string \<Rightarrow> go_error \<Rightarrow> http_request \<Rightarrow> response \<Rightarrow> response" where
  "writeErrors switch operation e r w =
     (case find (\<lambda>(s, d). errors_Is e s) switch of
        Some (_, d) \<Rightarrow> writeAPIError r d w | None \<Rightarrow> writeInternalError r operation e w)"

definition roomCredentials :: "string \<Rightarrow> string \<Rightarrow> json" where
  "roomCredentials code token = JObj ((''room_code'', JStr code) # omitempty ''player_token'' token)"

definition createRoom :: "'s router \<Rightarrow> 's account_handler" where
  "createRoom rt acct r w st =
     (case idempotencyKey r of
        None \<Rightarrow> (writeAPIError r errorIdempotencyRequired w, st)
      | Some key \<Rightarrow>
          (case Service_CreateCommand (rt_service rt) acct key st of
             (Inr c, st) \<Rightarrow> (writeJSON 201 (roomCredentials (cr_RoomCode c) (cr_PlayerToken c)) w, st)
           | (Inl e, st) \<Rightarrow> (writeErrors [(ErrInsufficientFunds, errorInsufficientFunds)] ''create_room'' e r w, st)))"

text \<open>The common start of the handlers of a room: its code, then the key of the command.\<close>

definition withRoomKey :: "'s router \<Rightarrow> (string \<Rightarrow> string \<Rightarrow> 's handler) \<Rightarrow> 's handler" where
  "withRoomKey rt handle r w st =
     (let code = normalizeRoomCode (rt_upper rt) (rq_Code r) in
      if code = '''' then (writeAPIError r errorRoomCodeRequired w, st)
      else case idempotencyKey r of
        None \<Rightarrow> (writeAPIError r errorIdempotencyRequired w, st) | Some key \<Rightarrow> handle code key r w st)"

definition joinSwitch :: "(sentinel \<times> apiErrorDefinition) list" where
  "joinSwitch = [(ErrRoomFull, errorRoomFull), (ErrRoomClosed, errorRoomClosed), (ErrRoomNotFound, errorRoomNotFound),
     (ErrAccountSeated, errorAccountSeated), (ErrInsufficientFunds, errorInsufficientFunds)]"

definition joinRoom :: "'s router \<Rightarrow> 's account_handler" where
  "joinRoom rt acct = withRoomKey rt (\<lambda>code key r w st.
     (case Service_JoinCommand (rt_service rt) code acct key st of
        (Inr c, st) \<Rightarrow> (writeJSON 201 (roomCredentials code (cr_PlayerToken c)) w, st)
      | (Inl e, st) \<Rightarrow> (writeErrors joinSwitch ''join_room'' e r w, st)))"

definition noContent :: "(sentinel \<times> apiErrorDefinition) list \<Rightarrow> string \<Rightarrow> http_request \<Rightarrow> response \<Rightarrow> unit result \<times> 's \<Rightarrow> response \<times> 's" where
  "noContent switch operation r w res =
     (case res of (Inr _, st) \<Rightarrow> (WriteHeader 204 w, st) | (Inl e, st) \<Rightarrow> (writeErrors switch operation e r w, st))"

definition moveSwitch :: "(sentinel \<times> apiErrorDefinition) list" where
  "moveSwitch = [(ErrRoomNotReady, errorRoomNotReady), (ErrDuplicateMove, errorDuplicateMove),
     (ErrRoundResolved, errorRoundResolved), (ErrRoomClosed, errorRoomClosed), (ErrRoomNotFound, errorRoomNotFound),
     (ErrUnauthorized, errorRoomNotFound), (ErrIdempotencyConflict, errorIdempotencyConflict),
     (ErrInsufficientFunds, errorInsufficientFunds)]"

definition moveRequest :: "move field_store" where
  "moveRequest = [(''move'', intoString (\<lambda>m _. m))]"

definition submitMove :: "'s router \<Rightarrow> 's account_handler" where
  "submitMove rt acct = withRoomKey rt (\<lambda>code key r w st.
     (case decodeJSONBody moveRequest r '''' of
        None \<Rightarrow> (writeAPIError r errorInvalidBody w, st)
      | Some m \<Rightarrow> if \<not> IsValidMove m then (writeAPIError r errorInvalidMove w, st)
                 else noContent moveSwitch ''submit_move'' r w (Service_SubmitMoveCommand (rt_service rt) code acct m key st)))"

definition nextRoundSwitch :: "(sentinel \<times> apiErrorDefinition) list" where
  "nextRoundSwitch = [(ErrRoundNotResolved, errorRoundNotResolved), (ErrNextRoundRequested, errorNextRoundRequested),
     (ErrStaleRound, errorStaleRound), (ErrRoomClosed, errorRoomClosed), (ErrRoomNotFound, errorRoomNotFound),
     (ErrUnauthorized, errorRoomNotFound), (ErrIdempotencyConflict, errorIdempotencyConflict),
     (ErrInsufficientFunds, errorInsufficientFunds)]"

definition nextRoundRequest :: "uint64 field_store" where
  "nextRoundRequest = [(''round'', intoInt 0 (2 ^ 64 - 1) (\<lambda>n _. word_of_int n))]"

definition nextRound_handler :: "'s router \<Rightarrow> 's account_handler" where
  "nextRound_handler rt acct = withRoomKey rt (\<lambda>code key r w st.
     (case decodeJSONBody nextRoundRequest r 0 of
        None \<Rightarrow> (writeAPIError r errorInvalidBody w, st)
      | Some k \<Rightarrow> if k = 0 then (writeAPIError r errorInvalidBody w, st)
                 else noContent nextRoundSwitch ''request_next_round'' r w
                   (Service_RequestNextRoundCommand (rt_service rt) code acct k key st)))"

definition leaveSwitch :: "(sentinel \<times> apiErrorDefinition) list" where
  "leaveSwitch = [(ErrRoomClosed, errorRoomClosed), (ErrGameUnfinished, errorGameUnfinished),
     (ErrRoomNotFound, errorRoomNotFound), (ErrUnauthorized, errorRoomNotFound),
     (ErrIdempotencyConflict, errorIdempotencyConflict)]"

definition leaveRoom :: "'s router \<Rightarrow> 's account_handler" where
  "leaveRoom rt acct = withRoomKey rt (\<lambda>code key r w st.
     noContent leaveSwitch ''leave_room'' r w (Service_LeaveCommand (rt_service rt) code acct key st))"

definition walletResponse :: "int \<Rightarrow> json" where
  "walletResponse b = JObj [(''balance'', quotedInt b)]"

definition walletBalance :: "'s router \<Rightarrow> 's account_handler" where
  "walletBalance rt acct r w st =
     (case Service_Balance (rt_service rt) acct st of
        (Inl e, st) \<Rightarrow> (writeInternalError r ''wallet_balance'' e w, st)
      | (Inr b, st) \<Rightarrow> (writeJSON 200 (walletResponse b) w, st))"

definition rechargeRequest :: "int field_store" where
  "rechargeRequest = [(''amount'', intoInt (- (2 ^ 63)) MaxInt64 (\<lambda>n _. n))]"

definition rechargeSwitch :: "(sentinel \<times> apiErrorDefinition) list" where
  "rechargeSwitch = [(ErrInvalidCoinAmount, errorInvalidCoinAmount), (ErrIdempotencyRequired, errorIdempotencyRequired),
     (ErrIdempotencyConflict, errorIdempotencyConflict)]"

definition rechargeWallet :: "'s router \<Rightarrow> 's account_handler" where
  "rechargeWallet rt acct r w st =
     (case idempotencyKey r of
        None \<Rightarrow> (writeAPIError r errorIdempotencyRequired w, st)
      | Some key \<Rightarrow>
          (case decodeJSONBody rechargeRequest r 0 of
             None \<Rightarrow> (writeAPIError r errorInvalidCoinAmount w, st)
           | Some n \<Rightarrow>
               if n \<le> 0 then (writeAPIError r errorInvalidCoinAmount w, st)
               else (case Service_Recharge (rt_service rt) acct n key st of
                   (Inr b, st) \<Rightarrow> (writeJSON 200 (walletResponse b) w, st)
                 | (Inl e, st) \<Rightarrow> (writeErrors rechargeSwitch ''recharge_wallet'' e r w, st))))"

definition playedRoundResponse :: "PlayedRound \<Rightarrow> json" where
  "playedRoundResponse h = JObj ([(''room_code'', JStr (h_RoomCode h)), (''round'', JInt (uint (h_Round h))),
     (''result'', JStr (h_Result h))] @ omitempty ''winner_role'' (h_WinnerRole h)
     @ [(''forfeit'', JBool (h_Forfeit h)), (''house_earnings'', quotedInt (h_HouseEarnings h)),
        (''resolved_at'', JTime (h_ResolvedAt h))])"

definition analyticsResponse :: "analytics \<Rightarrow> json" where
  "analyticsResponse a = JObj [(''total_house_earnings'', quotedInt (an_TotalHouseEarnings a)),
     (''rounds'', JArr (map playedRoundResponse (an_Rounds a)))]"

definition analytics_handler :: "'s router \<Rightarrow> 's account_handler" where
  "analytics_handler rt acct r w st =
     (case Service_Analytics (rt_service rt) acct st of
        (Inl e, st) \<Rightarrow> (writeInternalError r ''list_round_analytics'' e w, st)
      | (Inr a, st) \<Rightarrow> (writeJSON 200 (analyticsResponse a) w, st))"

section \<open>The public state of a room\<close>

record statePlayer =
  sp_Role :: string
  sp_Wins :: int
  sp_Submitted :: bool
  sp_WantsNextRound :: bool

record stateMove =
  sm_Role :: string
  sm_Move :: move

record stateResponse =
  sr_RoomCode :: string
  sr_Ready :: bool
  sr_Resolved :: bool
  sr_Round :: uint64
  sr_Closed :: bool
  sr_Forfeit :: bool
  sr_Players :: "statePlayer list"
  sr_Result :: outcome
  sr_Moves :: "stateMove list"

definition playerRole :: "nat \<Rightarrow> string" where
  "playerRole index = (if index = 0 then ''host'' else ''guest'')"

fun roleFrom :: "nat \<Rightarrow> playerView list \<Rightarrow> string \<Rightarrow> string" where
  "roleFrom index [] i = ''''"
| "roleFrom index (p # ps) i = (if pv_ID p = i then playerRole index else roleFrom (Suc index) ps i)"

definition roleForPlayer :: "playerView list \<Rightarrow> string \<Rightarrow> string" where
  "roleForPlayer players i = roleFrom 0 players i"

definition publicRoomState :: "string \<Rightarrow> roomState \<Rightarrow> stateResponse" where
  "publicRoomState code s =
     \<lparr>sr_RoomCode = code, sr_Ready = st_Ready s, sr_Resolved = st_Resolved s, sr_Round = st_Round s,
      sr_Closed = st_Closed s, sr_Forfeit = st_Forfeit s,
      sr_Players = map (\<lambda>(i, p). \<lparr>sp_Role = playerRole i, sp_Wins = pv_Wins p, sp_Submitted = pv_Submitted p,
        sp_WantsNextRound = pv_WantsNextRound p\<rparr>) (enumerate 0 (st_Players s)),
      sr_Result = (if st_Resolved s then st_Result s else ''''),
      sr_Moves = (if st_Resolved s
        then map (\<lambda>m. \<lparr>sm_Role = roleForPlayer (st_Players s) (pm_PlayerID m), sm_Move = pm_Move m\<rparr>) (st_Moves s) else [])\<rparr>"

definition stateJSON :: "stateResponse \<Rightarrow> json" where
  "stateJSON x = JObj ([(''room_code'', JStr (sr_RoomCode x)), (''ready'', JBool (sr_Ready x)),
     (''resolved'', JBool (sr_Resolved x)), (''round'', JInt (uint (sr_Round x))), (''closed'', JBool (sr_Closed x)),
     (''forfeit'', JBool (sr_Forfeit x)),
     (''players'', JArr (map (\<lambda>p. JObj [(''role'', JStr (sp_Role p)), (''wins'', JInt (sp_Wins p)),
        (''submitted'', JBool (sp_Submitted p)), (''wants_next_round'', JBool (sp_WantsNextRound p))]) (sr_Players x)))]
     @ omitempty ''result'' (sr_Result x)
     @ omitemptyArr ''moves'' (map (\<lambda>m. JObj [(''role'', JStr (sm_Role m)), (''move'', JStr (sm_Move m))]) (sr_Moves x)))"

text \<open>\<open>findRoomForAccount\<close>: the room's code and state, or the response that says why not.\<close>

definition findRoomForAccount :: "'s router \<Rightarrow> http_request \<Rightarrow> response \<Rightarrow> string \<Rightarrow> string \<Rightarrow> 's \<Rightarrow> (response + string \<times> roomState) \<times> 's" where
  "findRoomForAccount rt r w rawCode acct st =
     (let code = normalizeRoomCode (rt_upper rt) rawCode in
      if code = '''' then (Inl (writeAPIError r errorRoomCodeRequired w), st)
      else case Service_SnapshotForAccount (rt_service rt) code acct st of
        (Inr sn, st) \<Rightarrow> (Inr (code, sn_State sn), st)
      | (Inl e, st) \<Rightarrow> (Inl (writeErrors [(ErrRoomNotFound, errorRoomNotFound), (ErrUnauthorized, errorRoomNotFound)]
            ''find_room'' e r w), st))"

definition roomState_handler :: "'s router \<Rightarrow> 's account_handler" where
  "roomState_handler rt acct r w st =
     (case findRoomForAccount rt r w (rq_Code r) acct st of
        (Inl w, st) \<Rightarrow> (w, st)
      | (Inr (code, s), st) \<Rightarrow> (writeJSON 200 (stateJSON (publicRoomState code s)) w, st))"

section \<open>Problem reports, health and readiness\<close>

text \<open>\<open>http.MaxBytesReader\<close> fails a longer body before its end is reached.\<close>

definition reportRequest :: "ProblemReport field_store" where
  "reportRequest = [(''description'', intoString (\<lambda>s x. x\<lparr>pr_Description := s\<rparr>)),
     (''section'', intoString (\<lambda>s x. x\<lparr>pr_Section := s\<rparr>)), (''app_version'', intoString (\<lambda>s x. x\<lparr>pr_AppVersion := s\<rparr>))]"

definition errorInvalidReport :: apiErrorDefinition where
  "errorInvalidReport = publicError 400 ''invalid_problem_report'' (''Choose a valid section and provide a description (1''
     @ [byte 0xE2, byte 0x80, byte 0x93] @ ''5000 characters) and app version (1'' @ [byte 0xE2, byte 0x80, byte 0x93] @ ''64 characters).'')"

definition createProblemReport :: "'s router \<Rightarrow> 's account_handler" where
  "createProblemReport rt acct r w st =
     (case (if rq_Size r \<le> 64 * 1024 then decodeJSONBody reportRequest r
              \<lparr>pr_AccountID = '''', pr_Description = '''', pr_Section = '''', pr_AppVersion = ''''\<rparr> else None) of
        None \<Rightarrow> (writeAPIError r errorInvalidBody w, st)
      | Some body \<Rightarrow>
          (case CreateProblemReport (rt_reports rt) (body\<lparr>pr_AccountID := acct\<rparr>) st of
             (Inr _, st) \<Rightarrow> (writeJSON 201 (JObj [(''status'', JStr ''created'')]) w, st)
           | (Inl e, st) \<Rightarrow> (writeErrors [(ErrInvalidReport, errorInvalidReport)] ''create_problem_report'' e r w, st)))"

definition health :: "'s handler" where
  "health r w st = (Write (JSONBody (JObj [(''status'', JStr ''ok'')])) (Header_Set ''Content-Type'' ''application/json'' w), st)"

definition readiness :: "'s router \<Rightarrow> 's handler" where
  "readiness rt r w st =
     (case rt_status rt of
        Some status \<Rightarrow> (case status st of (report, code) \<Rightarrow> (writeJSON code report w, st))
      | None \<Rightarrow>
          if (case rt_ready rt of None \<Rightarrow> False | Some ready \<Rightarrow> ready st \<noteq> None) then (writeAPIError r errorNotReady w, st)
          else (writeJSON 200 (JObj [(''status'', JStr ''ok'')]) w, st))"

section \<open>Routes\<close>

text \<open>The patterns of \<open>http.ServeMux\<close> that the program registers: literal segments and \<open>{code}\<close>. Paths that the
  multiplexer redirects to their clean form are not modelled.\<close>

datatype segment = Lit string | Wild

fun match :: "segment list \<Rightarrow> string list \<Rightarrow> string option" where
  "match [] [] = Some ''''"
| "match (Lit s # p) (t # ts) = (if s = t then match p ts else None)"
| "match (Wild # p) (t # ts) = (if t = '''' then None else map_option (\<lambda>_. t) (match p ts))"
| "match _ _ = None"

record 's route =
  ro_method :: string
  ro_path :: "segment list"
  ro_handler :: "'s handler"

definition room_path :: "string \<Rightarrow> segment list" where
  "room_path leaf = [Lit ''api'', Lit ''rooms'', Wild, Lit leaf]"

definition routes :: "'s router \<Rightarrow> 's handler option \<Rightarrow> 's route list" where
  "routes rt socket =
     (let guard = protected rt;
          register = (\<lambda>method path h. \<lparr>ro_method = method, ro_path = path, ro_handler = h\<rparr>);
          api = (\<lambda>ps. map Lit (''api'' # ps)) in
      [register ''GET'' (api [''health'']) health, register ''GET'' (api [''ready'']) (readiness rt),
       register ''POST'' (api [''problem-reports'']) (guard (createProblemReport rt)),
       register ''POST'' (api [''rooms'']) (guard (createRoom rt)),
       register ''POST'' (room_path ''join'') (guard (joinRoom rt)),
       register ''POST'' (room_path ''moves'') (guard (submitMove rt)),
       register ''GET'' (room_path ''state'') (guard (roomState_handler rt))]
      @ (case socket of None \<Rightarrow> [] | Some h \<Rightarrow> [register ''GET'' (room_path ''socket'') h])
      @ [register ''POST'' (room_path ''next-round'') (guard (nextRound_handler rt)),
         register ''POST'' (room_path ''leave'') (guard (leaveRoom rt)),
         register ''GET'' (api [''wallet'']) (guard (walletBalance rt)),
         register ''POST'' (api [''wallet'', ''recharges'']) (guard (rechargeWallet rt)),
         register ''GET'' (api [''analytics'', ''rounds'']) (guard (analytics_handler rt))])"

text \<open>\<open>registerRoute\<close>: the handler for the method, and for any other the method that is allowed.\<close>

definition registerRoute :: "'s route \<Rightarrow> 's handler" where
  "registerRoute ro r w st =
     (if rq_Method r = ro_method ro \<or> ro_method ro = ''GET'' \<and> rq_Method r = ''HEAD''
      then ro_handler ro (r\<lparr>rq_Code := (case match (ro_path ro) (rq_Segments r) of None \<Rightarrow> '''' | Some c \<Rightarrow> c)\<rparr>) w st
      else (writeAPIError r errorMethodNotAllowed
              (Header_Set ''Allow'' (if ro_method ro = ''GET'' then ''GET, HEAD'' else ro_method ro) w), st))"

definition serveMux :: "'s router \<Rightarrow> 's handler option \<Rightarrow> 's handler" where
  "serveMux rt socket r w st =
     (case (rt_metrics rt, rq_Segments r = [''metrics''] \<and> reading r) of
        (Some metrics, True) \<Rightarrow> metrics r w st
      | _ \<Rightarrow>
          if rq_Path r = ''/api/session'' \<and> rt_sessions rt \<noteq> None \<and> rt_security rt \<noteq> None
          then session_ServeHTTP (rt_verifier rt) (rt_sessions rt) (rt_security rt) r w st
          else (case find (\<lambda>ro. match (ro_path ro) (rq_Segments r) \<noteq> None) (routes rt socket) of
              Some ro \<Rightarrow> registerRoute ro r w st
            | None \<Rightarrow> (writeAPIError r errorEndpointNotFound w, st)))"

definition newRouter :: "'s router \<Rightarrow> 's handler option \<Rightarrow> 's handler" where
  "newRouter rt socket = (case rt_security rt of
     None \<Rightarrow> serveMux rt socket | Some sec \<Rightarrow> CORS (rt_lower rt) sec (serveMux rt socket))"

end
