(* ===== verification/Http_Properties.thy ===== *)
theory Http_Properties
  imports Http_Router
begin

text \<open>
  What the HTTP adapter guarantees over PostgreSQL: forged requests change no data, the public state hides
  identities and moves, and strangers; and two defects of the error mapping.
\<close>

section \<open>The guard\<close>

text \<open>A state that differs from another at most in a use of the session that the request's cookie names: a session that was
  usable, with the time of its last use and its idle expiry set anew.\<close>

definition only_refreshed :: "db SessionService \<Rightarrow> http_request \<Rightarrow> db \<Rightarrow> db \<Rightarrow> bool" where
  "only_refreshed s r st st1 \<longleftrightarrow> st1 = st \<or>
     (\<exists>token ws. Cookie SessionCookieName r = Some token \<and> fmlookup (db_sessions st) (sy_sha s token) = Some ws
        \<and> ws_revoked ws = None \<and> sy_now s 0 < ws_idle ws \<and> sy_now s 0 < ws_absolute ws
        \<and> st1 = st\<lparr>db_sessions := fmupd (sy_sha s token)
             (ws\<lparr>ws_seen := sy_now s 0, ws_idle := min (sy_now s 0 + SessionIdleLimit) (ws_absolute ws)\<rparr>) (db_sessions st)\<rparr>)"

lemma only_refreshed_refl [simp]: "only_refreshed s r st st"
  by (simp add: only_refreshed_def)

lemma authenticate_only_refreshes:
  assumes "authenticate s 0 token st = (res, st1)" "sy_store s = pg_sessions" "Cookie SessionCookieName r = Some token"
  shows "only_refreshed s r st st1"
  using assms
  by (auto simp: only_refreshed_def authenticate_def SessionService_Authenticate_def pg_sessions_def pg_UseSession_def Let_def
      split: sum.splits option.splits if_splits dest: sessionDigest_eq_Inr)

lemma guard_refuses:
  assumes "rt_sessions rt = Some s" "rt_security rt = Some sec" "sy_store s = pg_sessions" "\<not> reading r"
    and "\<not> ValidateOrigin sec r" "rs_Status w = 0" "guarded_handler rt h r w st = (w1, st1)"
  shows "only_refreshed s r st st1 \<and> rs_Status w1 \<in> {401, 403}"
  using assms by (auto simp: guarded_handler_def ValidateMutation_def http_simps
      split: option.splits if_splits prod.splits sum.splits dest: authenticate_only_refreshes)

lemma protected_refuses:
  assumes "rt_sessions rt = Some s" "rt_security rt = Some sec" "sy_store s = pg_sessions" "\<not> reading r"
    and "\<not> ValidateOrigin sec r" "rs_Status w = 0" "protected rt h r w st = (w1, st1)"
  shows "only_refreshed s r st st1 \<and> rs_Status w1 \<in> {401, 403}"
proof -
  obtain w0 where "guarded_handler rt h r w st = (w0, st1)" "w1 = recordReceipt rt r w0"
    using assms(7) by (auto simp: protected_def split: prod.splits)
  with guard_refuses [OF assms(1-6)] show ?thesis by (fastforce simp: recordReceipt_def)
qed

lemma find_mem: "find P xs = Some x \<Longrightarrow> x \<in> set xs"
  by (auto simp: find_Some_iff)

lemma unsafe_routes_protected:
  "ro \<in> set (routes rt socket) \<Longrightarrow> ro_method ro = ''GET'' \<or> (\<exists>h. ro_handler ro = protected rt h)"
  by (auto simp: routes_def Let_def split: option.splits)

lemma session_endpoint_refuses:
  assumes "sy_store s = pg_sessions" "\<not> ValidateOrigin sec r" "rs_Status w = 0" "rq_Path r = ''/api/session''"
    and "session_ServeHTTP verifier (Some s) (Some sec) r w st = (w1, st1)"
  shows "only_refreshed s r st st1 \<and> rs_Status w1 \<in> {401, 403, 404, 405}"
  using assms by (auto simp: session_ServeHTTP_def bootstrap_def logout_def ValidateMutation_def http_simps
      split: option.splits if_splits prod.splits sum.splits dest: authenticate_only_refreshes)

lemma registered_refuses:
  assumes "ro \<in> set (routes rt socket)" "rt_sessions rt = Some s" "rt_security rt = Some sec" "sy_store s = pg_sessions"
    and "\<not> reading r" "\<not> ValidateOrigin sec r" "rs_Status w = 0" "registerRoute ro r w st = (w1, st1)"
  shows "only_refreshed s r st st1 \<and> rs_Status w1 \<in> {401, 403, 404, 405}"
proof (cases "rq_Method r = ro_method ro")
  case True
  then obtain h where h: "ro_handler ro = protected rt h"
    using unsafe_routes_protected [OF assms(1)] assms(5) by (auto simp: reading_def)
  let ?r = "r\<lparr>rq_Code := (case match (ro_path ro) (rq_Segments r) of None \<Rightarrow> '''' | Some c \<Rightarrow> c)\<rparr>"
  have "protected rt h ?r w st = (w1, st1)" using assms(8) True h by (simp add: registerRoute_def)
  moreover have "\<not> reading ?r" "\<not> ValidateOrigin sec ?r" using assms(5,6) by (simp_all add: reading_def ValidateOrigin_def)
  ultimately have "only_refreshed s ?r st st1 \<and> rs_Status w1 \<in> {401, 403}"
    using protected_refuses [OF assms(2-4)] assms(7) by blast
  then show ?thesis by (auto simp: only_refreshed_def Cookie_def)
next
  case False
  with assms(5,7,8) show ?thesis by (auto simp: registerRoute_def reading_def http_simps split: if_splits)
qed

text \<open>C5: Forged requests. With sessions and an allowed origin configured, as the server runs, a request that could change something (any method but GET and HEAD) and does not come
  from the configured origin changes nothing in the database, whatever cookies and body it carries and whatever endpoint
  it names, except that it may count as a use of the usable session whose token is in its cookie: of that one row, the times of the
  last use and of the idle expiry are set anew. It is answered with a client error (401, 403, 404 or 405).
\<close>
theorem forged_requests_change_nothing:
  assumes "rt_security rt = Some sec" "rt_sessions rt = Some s" "sy_store s = pg_sessions" "\<not> reading r"
    and "rq_Header r OriginHeader \<noteq> [sec_allowedOrigin sec]" "newRouter rt socket r newResponse st = (w, st1)"
  shows "only_refreshed s r st st1 \<and> rs_Status w \<in> {401, 403, 404, 405}"
proof -
  have origin: "\<not> ValidateOrigin sec r" using assms(5) by (simp add: ValidateOrigin_def)
  have mux: "only_refreshed s r st st1 \<and> rs_Status w \<in> {401, 403, 404, 405}"
    if w0: "rs_Status w0 = 0" and run: "serveMux rt socket r w0 st = (w, st1)" for w0
  proof -
    consider (session) "rq_Path r = ''/api/session''" "session_ServeHTTP (rt_verifier rt) (Some s) (Some sec) r w0 st = (w, st1)"
      | (route) ro where "ro \<in> set (routes rt socket)" "registerRoute ro r w0 st = (w, st1)"
      | (unknown) "(w, st1) = (writeAPIError r errorEndpointNotFound w0, st)"
      using run assms(1,2,4) by (auto simp: serveMux_def split: option.splits if_splits dest: find_mem)
    then show ?thesis
    proof cases
      case session
      then show ?thesis using session_endpoint_refuses [OF assms(3) origin w0] by blast
    next
      case route
      then show ?thesis using registered_refuses [OF _ assms(2,1,3,4) origin w0] by blast
    next
      case unknown
      then show ?thesis using w0 by (simp add: http_simps)
    qed
  qed
  show ?thesis
  proof (cases "\<exists>w0. rs_Status w0 = 0 \<and> serveMux rt socket r w0 st = (w, st1)")
    case False
    with assms(1,6) origin show ?thesis
      by (auto simp: newRouter_def CORS_def Let_def http_simps newResponse_def split: if_splits)
  qed (use mux in blast)
qed

section \<open>What the public state shows\<close>

text \<open>The state of a room under other player ids.\<close>

definition renamed :: "(string \<Rightarrow> string) \<Rightarrow> roomState \<Rightarrow> roomState" where
  "renamed f s = s\<lparr>st_Players := map (\<lambda>p. p\<lparr>pv_ID := f (pv_ID p)\<rparr>) (st_Players s),
     st_Moves := map (\<lambda>m. m\<lparr>pm_PlayerID := f (pm_PlayerID m)\<rparr>) (st_Moves s)\<rparr>"

lemma roleFrom_renamed:
  "inj f \<Longrightarrow> roleFrom n (map (\<lambda>p. p\<lparr>pv_ID := f (pv_ID p)\<rparr>) ps) (f i) = roleFrom n ps i"
  by (induction ps arbitrary: n) (auto dest: injD)

lemma enumerate_map: "map (\<lambda>(i, p). g i p) (enumerate n (map h ps)) = map (\<lambda>(i, p). g i (h p)) (enumerate n ps)"
  by (induction ps arbitrary: n) auto

text \<open>What a player may see. The public state of a room, and so the response of the state endpoint, does not depend on
  the ids of its players, and while the round is open it does not depend on the moves either: an opponent's pending move
  cannot be read from it.
\<close>
theorem public_state_hides:
  "(inj f \<longrightarrow> publicRoomState code (renamed f s) = publicRoomState code s)
   \<and> (\<not> st_Resolved s \<longrightarrow> publicRoomState code (s\<lparr>st_Moves := moves, st_Result := res\<rparr>) = publicRoomState code s)"
  by (auto simp: publicRoomState_def renamed_def roleForPlayer_def roleFrom_renamed enumerate_map o_def)

section \<open>Strangers\<close>

lemma snapshot_of_stranger:
  "a \<noteq> '''' \<Longrightarrow> sv_commands s = Some pg_commands \<Longrightarrow> code |\<notin>| fmdom (db_rooms st) \<or> seat_of code a st = None \<Longrightarrow>
     Service_SnapshotForAccount s code a st = (Inl (Err ErrUnauthorized), st)"
  by (auto simp: Service_SnapshotForAccount_def commandRepository_def pg_commands_def SnapshotForAccount_pg_def
      transaction_def thenT_def bindT_def)

text \<open>
  Strangers and the state endpoint. An account without a seat gets the same answer for a room that exists as for a
  code no room has: the error response \<open>room_not_found\<close>, which names no part of the room.
\<close>
theorem strangers_see_no_room:
  assumes "sv_commands (rt_service rt) = Some pg_commands" "acct \<noteq> ''''"
    and "normalizeRoomCode (rt_upper rt) (rq_Code r) = code" "code \<noteq> ''''"
    and "code |\<notin>| fmdom (db_rooms st) \<or> seat_of code acct st = None"
  shows "roomState_handler rt acct r w st = (writeAPIError r errorRoomNotFound w, st)"
  using snapshot_of_stranger [OF assms(2,1,5)] assms(3,4)
  by (simp add: roomState_handler_def findRoomForAccount_def writeErrors_def)

lemma unused_key_receipt: "fmlookup (db_receipts st) (c_Key c) = None \<Longrightarrow> commandReceipt a c st = Inr (None, st)"
  by (simp add: commandReceipt_def bindT_def)

lemma action_on_closed_room:
  assumes "fmlookup (db_receipts st) (c_Key c) = None" "action_view code st = Some (k, ''closed'', status, ready)"
  shows "recordRoomAction code a c required expected insertRow st = (Inl (Err ErrRoomClosed), st)"
  using assms by (simp add: recordRoomAction_def transaction_def actionT_def bindT_def thenT_def unused_key_receipt)

text \<open>C34: Defect. The moves endpoint maps \<open>ErrUnauthorized\<close> to \<open>room_not_found\<close> so that a stranger cannot tell a foreign room
  from none, but over PostgreSQL \<open>recordRoomAction\<close> looks at the room before it looks for the seat: to an account
  without a seat a closed room answers 409 \<open>room_closed\<close>, and a code no room has answers 404.
\<close>
theorem stranger_learns_closed_room:
  assumes "sv_commands (rt_service rt) = Some pg_commands" "normalizeRoomCode (rt_upper rt) (rq_Code r) = code" "code \<noteq> ''''"
    and "idempotencyKey r = Some key" "decodeJSONBody moveRequest r '''' = Some m" "IsValidMove m"
    and "fmlookup (db_receipts st) key = None"
  shows "(action_view code st = Some (k, ''closed'', status, ready) \<longrightarrow> seat_of code acct st = None \<longrightarrow>
      submitMove rt acct r w st = (writeAPIError r errorRoomClosed w, st))
    \<and> (action_view code st = None \<longrightarrow> submitMove rt acct r w st = (writeAPIError r errorRoomNotFound w, st))"
proof -
  have valid: "validKey key" by (rule idempotencyKey_valid [OF assms(4)])
  define c where "c = \<lparr>c_Key = key, c_Operation = ''room.move'', c_RequestHash = sv_sha (rt_service rt) (json_Marshal (MeaningMove code m)),
    c_ResponseStatus = commandResponseStatus ''room.move''\<rparr>"
  have cmd: "NewCommand (sv_sha (rt_service rt)) key ''room.move'' (MeaningMove code m) = Inr c"
    using valid by (simp add: NewCommand_eq_Inr c_def)
  have key: "fmlookup (db_receipts st) (c_Key c) = None" using assms(7) by (simp add: c_def)
  have run: "submitMove rt acct r w st = noContent moveSwitch ''submit_move'' r w
      (dropResult (SubmitMoveCommand_pg code acct m c) st)"
    using assms cmd by (simp add: submitMove_def withRoomKey_def Let_def Service_SubmitMoveCommand_def withCommand_def
        commandRepository_def pg_commands_def)
  have missing: "recordRoomAction code acct c ''active'' 0 (insert_move code m) st = (Inl (Err ErrRoomNotFound), st)"
    if "action_view code st = None"
    using that key by (simp add: recordRoomAction_def transaction_def actionT_def bindT_def unused_key_receipt)
  show ?thesis
    using assms(6) action_on_closed_room [OF key] missing
    by (auto simp: run SubmitMoveCommand_pg_def dropResult_def noContent_def writeErrors_def moveSwitch_def)
qed

section \<open>A key that is taken\<close>

text \<open>C35: Defect. A key that another account has used is a conflict: the moves, leave and recharge endpoints answer 409
  \<open>idempotency_conflict\<close>. The handlers that create and join a room have no case for that error and answer 500, as for a
  failure of the server.
\<close>
theorem taken_key_is_internal_error:
  assumes "sv_commands (rt_service rt) = Some pg_commands" "acct \<noteq> ''''" "normalizeRoomCode (rt_upper rt) (rq_Code r) = code" "code \<noteq> ''''"
    and "idempotencyKey r = Some key" "fmlookup (db_receipts st) key = Some re" "re_account re \<noteq> acct"
    and "identity (rt_service rt) 0 = Inr (t, i)" "i \<noteq> ''''" "sv_generateCode (rt_service rt) 0 = Inr fresh" "fresh \<noteq> ''''"
  shows "rs_Status (fst (joinRoom rt acct r newResponse st)) = 500 \<and> rs_Status (fst (createRoom rt acct r newResponse st)) = 500
    \<and> rs_Status (fst (leaveRoom rt acct r newResponse st)) = 409"
proof -
  have valid: "validKey key" by (rule idempotencyKey_valid [OF assms(5)])
  have conflict: "commandReceipt acct c st = Inl (Err ErrIdempotencyConflict)" if "c_Key c = key" for c
    using that assms(6,7) by (simp add: commandReceipt_def bindT_def thenT_def)
  have refused: "transaction (receipted acct c body) st = (Inl (Err ErrIdempotencyConflict), st)" if "c_Key c = key" for c body
    by (simp add: transaction_def receipted_def bindT_def conflict [OF that])
  have eight: "(8 :: nat) = Suc 7" by simp
  obtain agg where agg: "New fresh i = Inr agg" using assms(9,11) by (simp add: New_def)
  have "createCommandAttempts (rt_service rt) pg_commands acct c 8 0 st = (Inl (Err ErrIdempotencyConflict), st)"
    if "c_Key c = key" for c
    unfolding eight createCommandAttempts.simps(2) assms(8,10) sum.case prod.case agg
    by (simp add: pg_commands_def CreateCommand_pg_def refused [OF that])
  then have create: "fst (Service_CreateCommand (rt_service rt) acct key st) = Inl (Err ErrIdempotencyConflict)"
    using assms(1,2) valid by (simp add: Service_CreateCommand_def withCommand_def commandRepository_def NewCommand_def)
  have "joinCommandAttempts (rt_service rt) pg_commands code acct c 8 0 st = (Inl (Err ErrIdempotencyConflict), st)"
    if "c_Key c = key" for c
    unfolding eight joinCommandAttempts.simps(2) assms(8) sum.case prod.case
    by (simp add: pg_commands_def JoinCommand_pg_def writeAccountCommand_def refused [OF that])
  then have join: "fst (Service_JoinCommand (rt_service rt) code acct key st) = Inl (Err ErrIdempotencyConflict)"
    using assms(1,2) valid by (simp add: Service_JoinCommand_def withCommand_def commandRepository_def NewCommand_def)
  have leave: "fst (Service_LeaveCommand (rt_service rt) code acct key st) = Inl (Err ErrIdempotencyConflict)"
    using assms(1) valid
    by (simp add: Service_LeaveCommand_def withCommand_def commandRepository_def NewCommand_def pg_commands_def MutateCommand_pg_def
        writeAccountCommand_def dropResult_def refused)
  show ?thesis
    using assms create join leave
    by (auto simp: joinRoom_def createRoom_def leaveRoom_def withRoomKey_def Let_def noContent_def writeErrors_def joinSwitch_def
        leaveSwitch_def http_simps newResponse_def split: prod.splits sum.splits)
qed

section \<open>Witnesses\<close>

definition pg_router :: "db router" where
  "pg_router = \<lparr>rt_service = pg_service, rt_verifier = None, rt_sessions = Some ana_browser, rt_security = Some ana_security,
     rt_ready = None, rt_status = None, rt_metrics = None, rt_observes = False, rt_reports = None, rt_upper = id, rt_lower = id\<rparr>"

definition post_request :: "string list \<Rightarrow> json list \<Rightarrow> http_request" where
  "post_request segments body = plain_request\<lparr>rq_Method := ''POST'', rq_Path := ''/api/rooms/R/moves'', rq_Segments := segments, rq_Code := ''R'',
     rq_Header := (\<lambda>h. if h = ''Idempotency-Key'' then [''m1''] else []), rq_Values := body\<rparr>"

definition rock_post :: http_request where
  "rock_post = post_request [''api'', ''rooms'', ''R'', ''moves''] [JObj [(''move'', JStr ''rock'')]]"

lemma pg_router_simps [simp]:
  "rt_service pg_router = pg_service" "rt_sessions pg_router = Some ana_browser" "rt_security pg_router = Some ana_security"
  "sv_commands pg_service = Some pg_commands" "sy_store ana_browser = pg_sessions" "rq_Code rock_post = ''R''"
  by (simp_all add: pg_router_def pg_service_def NewServiceWithPresenceConfig_def ana_browser_def rock_post_def post_request_def)

lemma rock_post_parses:
  "normalizeRoomCode (rt_upper pg_router) ''R'' = ''R''" "idempotencyKey rock_post = Some ''m1''"
  "decodeJSONBody moveRequest rock_post '''' = Some ''rock''" "IsValidMove ''rock''"
  by code_simp+

theorem forged_requests_change_nothing_witness:
  "rs_Status (fst (newRouter pg_router None rock_post newResponse funded_db)) \<in> {401, 403, 404, 405}
    \<and> snd (newRouter pg_router None rock_post newResponse funded_db) = funded_db"
proof -
  have "\<not> reading rock_post" "rq_Header rock_post OriginHeader \<noteq> [sec_allowedOrigin ana_security]"
    by (simp_all add: reading_def rock_post_def post_request_def)
  from forged_requests_change_nothing [OF pg_router_simps(3,2,5) this surjective_pairing, of funded_db None]
  have f: "only_refreshed ana_browser rock_post funded_db (snd (newRouter pg_router None rock_post newResponse funded_db))"
    "rs_Status (fst (newRouter pg_router None rock_post newResponse funded_db)) \<in> {401, 403, 404, 405}" by blast+
  moreover have "Cookie SessionCookieName rock_post = None"
    by (simp add: Cookie_def rock_post_def post_request_def plain_request_def)
  ultimately show ?thesis by (simp add: only_refreshed_def)
qed

definition open_duel :: roomState where
  "open_duel = zeroState\<lparr>st_Code := ''R'', st_Ready := True, st_Round := 1,
     st_Players := [\<lparr>pv_ID = ''p1'', pv_Wins = 0, pv_Submitted = True, pv_WantsNextRound = False\<rparr>,
       \<lparr>pv_ID = ''p2'', pv_Wins = 0, pv_Submitted = False, pv_WantsNextRound = False\<rparr>],
     st_Moves := [\<lparr>pm_PlayerID = ''p1'', pm_Move = ''rock''\<rparr>]\<rparr>"

theorem public_state_hides_witness:
  "publicRoomState ''R'' (renamed (Cons CHR ''x'') open_duel) = publicRoomState ''R'' open_duel
   \<and> publicRoomState ''R'' (open_duel\<lparr>st_Moves := [\<lparr>pm_PlayerID = ''p1'', pm_Move = ''paper''\<rparr>], st_Result := ''''\<rparr>)
     = publicRoomState ''R'' open_duel"
proof -
  have "inj (Cons CHR ''x'')" "\<not> st_Resolved open_duel" by (simp_all add: inj_def open_duel_def zeroState_def)
  with public_state_hides [where f = "Cons CHR ''x''" and s = open_duel and code = "''R''"]
  show ?thesis by blast
qed

theorem strangers_see_no_room_witness:
  "roomState_handler pg_router ''carl'' rock_post newResponse funded_db
     = (writeAPIError rock_post errorRoomNotFound newResponse, funded_db)"
proof -
  have "seat_of ''R'' ''carl'' funded_db = None" by code_simp
  then show ?thesis
    by (intro strangers_see_no_room [of _ _ _ "''R''"]) (simp_all add: rock_post_parses)
qed

definition closed_db :: db where
  "closed_db = pgRun (PMutate ''R'' ''ana'' leaveMutation) created_db"

theorem stranger_learns_closed_room_witness:
  "submitMove pg_router ''carl'' rock_post newResponse closed_db = (writeAPIError rock_post errorRoomClosed newResponse, closed_db)"
proof -
  have view: "action_view ''R'' closed_db = Some (1, ''closed'', ''active'', False)" "seat_of ''R'' ''carl'' closed_db = None"
    "fmlookup (db_receipts closed_db) ''m1'' = None" by code_simp+
  have "normalizeRoomCode (rt_upper pg_router) (rq_Code rock_post) = ''R''" by (simp add: rock_post_parses)
  from stranger_learns_closed_room [OF _ this _ rock_post_parses(2-4) view(3), of 1 "''active''" False "''carl''"] view(1,2)
  show ?thesis by simp
qed

theorem taken_key_is_internal_error_witness:
  "rs_Status (fst (joinRoom pg_router ''bob'' rock_post newResponse rock_db)) = 500
   \<and> rs_Status (fst (createRoom pg_router ''bob'' rock_post newResponse rock_db)) = 500
   \<and> rs_Status (fst (leaveRoom pg_router ''bob'' rock_post newResponse rock_db)) = 409"
proof -
  obtain re where "fmlookup (db_receipts rock_db) ''m1'' = Some re" "re_account re = ''ana''"
    using rock_receipt by (auto simp: map_option_eq_Some)
  moreover have "identity pg_service 0 = Inr (''token'', ''player'')" "sv_generateCode pg_service 0 = Inr ''CODE''"
    by (simp_all add: identity_def pg_service_def NewServiceWithPresenceConfig_def)
  ultimately show ?thesis
    by (intro taken_key_is_internal_error [of pg_router "''bob''" rock_post "''R''" "''m1''" rock_db re "''token''" "''player''" "''CODE''"])
      (simp_all add: rock_post_parses)
qed

end
