(* ===== verification/Auth_Verifier.thy ===== *)
theory Auth_Verifier
  imports Auth_Http
begin

text \<open>
  The access token verifier, \<open>internal/auth/verifier.go\<close>: the key set of the identity provider, its cache, and
  the checks around the JWT library. The library (\<open>golang-jwt\<close>), the HTTP exchange that fetches the key set and the
  clock are arguments.
\<close>

section \<open>Keys\<close>

record jsonWebKey =
  jk_KeyID :: string
  jk_KeyType :: string
  jk_Use :: string
  jk_Algorithm :: string
  jk_Curve :: string
  jk_X :: string
  jk_Y :: string
  jk_Modulus :: string
  jk_Exponent :: string

datatype publicKey = ECKey nat nat | RSAKey nat nat

record signing_key =
  sk_algorithm :: string
  sk_key :: publicKey

text \<open>\<open>big.Int.SetBytes\<close>: big-endian.\<close>

definition SetBytes :: "string \<Rightarrow> nat" where
  "SetBytes bs = foldl (\<lambda>n b. n * 256 + of_char b) 0 bs"

definition decodeBigInt :: "string \<Rightarrow> nat result" where
  "decodeBigInt encoded =
     (case RawURLDecoding encoded of
        None \<Rightarrow> Inl (ErrText ''invalid key coordinate'')
      | Some decoded \<Rightarrow> if decoded = [] then Inl (ErrText ''invalid key coordinate'') else Inr (SetBytes decoded))"

text \<open>\<open>elliptic.P256().IsOnCurve\<close>: coordinates below the prime, on the curve, and not the point at infinity.\<close>

definition p256_prime :: int where
  "p256_prime = 2 ^ 256 - 2 ^ 224 + 2 ^ 192 + 2 ^ 96 - 1"

definition p256_b :: int where
  "p256_b = 0x5ac635d8aa3a93e7b3ebbd55769886bc651d06b0cc53b0f63bce3c3e27d2604b"

definition IsOnCurve :: "nat \<Rightarrow> nat \<Rightarrow> bool" where
  "IsOnCurve x y \<longleftrightarrow> (x, y) \<noteq> (0, 0) \<and> int x < p256_prime \<and> int y < p256_prime
     \<and> (int y ^ 2 - int x ^ 3 + 3 * int x - p256_b) mod p256_prime = 0"

definition parseJWK :: "jsonWebKey \<Rightarrow> signing_key result" where
  "parseJWK v =
     (if jk_KeyType v = ''EC'' \<and> jk_Curve v = ''P-256'' \<and> (jk_Algorithm v = '''' \<or> jk_Algorithm v = ''ES256'')
      then bindR (decodeBigInt (jk_X v)) (\<lambda>x.
        (case decodeBigInt (jk_Y v) of
           Inl _ \<Rightarrow> Inl (ErrText ''invalid EC key'')
         | Inr y \<Rightarrow> if \<not> IsOnCurve x y then Inl (ErrText ''invalid EC key'')
                   else Inr \<lparr>sk_algorithm = ''ES256'', sk_key = ECKey x y\<rparr>))
      else if jk_KeyType v = ''RSA'' \<and> (jk_Algorithm v = '''' \<or> jk_Algorithm v = ''RS256'')
      then bindR (decodeBigInt (jk_Modulus v)) (\<lambda>n.
        (case RawURLDecoding (jk_Exponent v) of
           None \<Rightarrow> Inl (ErrText ''invalid RSA exponent'')
         | Some bs \<Rightarrow> if bs = [] \<or> 4 < length bs then Inl (ErrText ''invalid RSA exponent'')
             else let e = SetBytes bs in
               if e < 3 \<or> n = 0 then Inl (ErrText ''invalid RSA key'')
               else Inr \<lparr>sk_algorithm = ''RS256'', sk_key = RSAKey n e\<rparr>))
      else Inl (ErrText ''unsupported signing key''))"

section \<open>The cache\<close>

record JWTVerifier =
  vf_issuer :: string
  vf_audience :: string
  vf_jwksURL :: string
  vf_cacheTTL :: duration
  vf_keys :: "(string, signing_key) fmap"
  vf_expiresAt :: go_time

text \<open>The defaults of \<open>NewSupabaseJWTVerifier\<close>, for an origin that \<open>url.Parse\<close> accepted.\<close>

definition NewSupabaseJWTVerifier :: "string \<Rightarrow> string \<Rightarrow> JWTVerifier" where
  "NewSupabaseJWTVerifier origin audience =
     (let issuer = origin @ ''/auth/v1'' in
      \<lparr>vf_issuer = issuer, vf_audience = (if audience = '''' then ''authenticated'' else audience),
       vf_jwksURL = issuer @ ''/.well-known/jwks.json'', vf_cacheTTL = 600 * Second, vf_keys = fmempty, vf_expiresAt = 0\<rparr>)"

text \<open>The loop over a document, and \<open>refresh\<close>: the exchange gives an error, or a status and the decoded document.\<close>

definition addKey :: "(string, signing_key) fmap \<Rightarrow> jsonWebKey \<Rightarrow> (string, signing_key) fmap" where
  "addKey keys v = (case parseJWK v of
     Inr key \<Rightarrow> if jk_KeyID v \<noteq> '''' \<and> (jk_Use v = '''' \<or> jk_Use v = ''sig'') then fmupd (jk_KeyID v) key keys else keys
   | Inl _ \<Rightarrow> keys)"

type_synonym exchange = "(int \<times> jsonWebKey list result) result"

definition refresh :: "exchange \<Rightarrow> go_time \<Rightarrow> JWTVerifier \<Rightarrow> unit result \<times> JWTVerifier" where
  "refresh answer now v =
     (case answer of
        Inl e \<Rightarrow> (Inl e, v)
      | Inr (status, document) \<Rightarrow>
          if status \<noteq> 200 then (Inl (ErrText (''JWKS request returned status '' @ dec_int status)), v)
          else (case document of
              Inl e \<Rightarrow> (Inl e, v)
            | Inr ks \<Rightarrow> (let keys = foldl addKey fmempty ks in
                if keys = fmempty then (Inl (ErrText ''JWKS contains no supported signing keys''), v)
                else (Inr (), v\<lparr>vf_keys := keys, vf_expiresAt := now + vf_cacheTTL v\<rparr>))))"

definition signingKey :: "exchange \<Rightarrow> go_time \<Rightarrow> go_time \<Rightarrow> string \<Rightarrow> JWTVerifier \<Rightarrow> signing_key result \<times> JWTVerifier" where
  "signingKey answer now fetched keyID v =
     (case (if now < vf_expiresAt v then fmlookup (vf_keys v) keyID else None) of
        Some key \<Rightarrow> (Inr key, v)
      | None \<Rightarrow>
          (case refresh answer fetched v of
             (Inl e, v) \<Rightarrow> (Inl e, v)
           | (Inr _, v) \<Rightarrow> (case fmlookup (vf_keys v) keyID of
               None \<Rightarrow> (Inl (Err ErrInvalidToken), v) | Some key \<Rightarrow> (Inr key, v))))"

section \<open>Verification\<close>

definition is_hex :: "char \<Rightarrow> bool" where
  "is_hex c \<longleftrightarrow> c \<in> set ''0123456789abcdefABCDEF''"

text \<open>\<open>uuidPattern\<close>, as the character classes of its 36 positions.\<close>

definition uuidPattern :: "string \<Rightarrow> bool" where
  "uuidPattern s \<longleftrightarrow> length s = 36 \<and> list_all (\<lambda>i.
     (if i \<in> {8, 13, 18, 23} then s ! i = CHR ''-''
      else if i = 14 then s ! i \<in> set ''12345678''
      else if i = 19 then s ! i \<in> set ''89abAB''
      else is_hex (s ! i))) [0..<36]"

text \<open>
  \<open>jwt raw\<close> is what the library makes of a token with an accepted method, before it has a key: the key id of the header
  if that is a string, the method, and the subject of the claims once a key verifies the signature and the issuer, the
  audience and the expiry hold. Subjects match an ASCII pattern, so lower case is byte by byte.
\<close>

type_synonym jwt_library = "JWTVerifier \<Rightarrow> string \<Rightarrow> (string option \<times> string \<times> (publicKey \<Rightarrow> string result)) option"

definition Verify :: "jwt_library \<Rightarrow> exchange \<Rightarrow> go_time \<Rightarrow> go_time \<Rightarrow> string \<Rightarrow> JWTVerifier \<Rightarrow> string result \<times> JWTVerifier" where
  "Verify jwt answer now fetched raw v =
     (case jwt v raw of
        Some (Some keyID, alg, check) \<Rightarrow>
          if keyID = '''' then (Inl (Err ErrInvalidToken), v)
          else (case signingKey answer now fetched keyID v of
              (Inl _, v) \<Rightarrow> (Inl (Err ErrInvalidToken), v)
            | (Inr key, v) \<Rightarrow>
                if sk_algorithm key \<noteq> alg then (Inl (Err ErrInvalidToken), v)
                else (case check (sk_key key) of
                    Inl _ \<Rightarrow> (Inl (Err ErrInvalidToken), v)
                  | Inr subject \<Rightarrow> if \<not> uuidPattern subject then (Inl (Err ErrInvalidToken), v)
                                  else (Inr (map lower_byte subject), v)))
      | _ \<Rightarrow> (Inl (Err ErrInvalidToken), v))"

section \<open>Properties\<close>

lemma keys_from_document:
  "fmlookup (foldl addKey keys ks) i = Some key \<Longrightarrow>
     fmlookup keys i = Some key \<or> (\<exists>v\<in>set ks. jk_KeyID v = i \<and> parseJWK v = Inr key \<and> jk_Use v \<in> {'''', ''sig''})"
proof (induction ks arbitrary: keys)
  case (Cons v ks)
  from Cons.IH [of "addKey keys v"] Cons.prems show ?case
    by (auto simp: addKey_def split: sum.splits if_splits)
qed simp

lemma signingKey_source:
  assumes "signingKey answer now fetched keyID v = (Inr key, v1)"
  shows "now < vf_expiresAt v \<and> fmlookup (vf_keys v) keyID = Some key
    \<or> (\<exists>ks. answer = Inr (200, Inr ks) \<and> (\<exists>k\<in>set ks. jk_KeyID k = keyID \<and> parseJWK k = Inr key \<and> jk_Use k \<in> {'''', ''sig''}))"
proof (cases "if now < vf_expiresAt v then fmlookup (vf_keys v) keyID else None")
  case (Some k)
  with assms show ?thesis by (auto simp: signingKey_def split: if_splits)
next
  case None
  with assms obtain ks where "answer = Inr (200, Inr ks)" "fmlookup (foldl addKey fmempty ks) keyID = Some key"
    by (auto simp: signingKey_def refresh_def Let_def split: sum.splits prod.splits option.splits if_splits)
  with keys_from_document [of fmempty ks keyID key] show ?thesis by auto
qed

text \<open>C33: What the verifier trusts. A token is accepted only with a key that the provider published under the token's
  key id for its algorithm, in the answer to this very call or in a cached one that has not expired, and only if the
  library accepts it with that key. When the cache has expired and the provider cannot be reached, every token is refused.
\<close>
theorem verifier_trusts_published_keys:
  "(\<forall>subject v1. Verify jwt answer now fetched raw v = (Inr subject, v1) \<longrightarrow>
     (\<exists>keyID alg check key claimed. jwt v raw = Some (Some keyID, alg, check) \<and> sk_algorithm key = alg
        \<and> check (sk_key key) = Inr claimed \<and> uuidPattern claimed \<and> subject = map lower_byte claimed
        \<and> (now < vf_expiresAt v \<and> fmlookup (vf_keys v) keyID = Some key
           \<or> (\<exists>ks. answer = Inr (200, Inr ks) \<and> (\<exists>k\<in>set ks. jk_KeyID k = keyID \<and> parseJWK k = Inr key)))))
   \<and> (vf_expiresAt v \<le> now \<longrightarrow> isl answer \<longrightarrow> Verify jwt answer now fetched raw v = (Inl (Err ErrInvalidToken), v))"
proof (intro conjI allI impI)
  fix subject v1 assume "Verify jwt answer now fetched raw v = (Inr subject, v1)"
  then obtain keyID alg check key v2 claimed where "jwt v raw = Some (Some keyID, alg, check)"
    "signingKey answer now fetched keyID v = (Inr key, v2)" "sk_algorithm key = alg" "check (sk_key key) = Inr claimed"
    "uuidPattern claimed" "subject = map lower_byte claimed"
    by (auto simp: Verify_def split: option.splits prod.splits sum.splits if_splits)
  with signingKey_source [of answer now fetched keyID v key v2] show
    "\<exists>keyID alg check key claimed. jwt v raw = Some (Some keyID, alg, check) \<and> sk_algorithm key = alg
        \<and> check (sk_key key) = Inr claimed \<and> uuidPattern claimed \<and> subject = map lower_byte claimed
        \<and> (now < vf_expiresAt v \<and> fmlookup (vf_keys v) keyID = Some key
           \<or> (\<exists>ks. answer = Inr (200, Inr ks) \<and> (\<exists>k\<in>set ks. jk_KeyID k = keyID \<and> parseJWK k = Inr key)))"
    by blast
next
  assume "vf_expiresAt v \<le> now" "isl answer"
  then show "Verify jwt answer now fetched raw v = (Inl (Err ErrInvalidToken), v)"
    by (auto simp: Verify_def signingKey_def refresh_def isl_def split: option.splits prod.splits)
qed

definition cached_verifier :: JWTVerifier where
  "cached_verifier = (NewSupabaseJWTVerifier ''https://p.supabase.co'' '''')
     \<lparr>vf_keys := fmupd ''k1'' \<lparr>sk_algorithm = ''RS256'', sk_key = RSAKey 3233 17\<rparr> fmempty, vf_expiresAt := 600 * Second\<rparr>"

definition one_subject :: string where
  "one_subject = ''123E4567-e89b-12d3-a456-426614174000''"

definition one_token :: jwt_library where
  "one_token v raw = (if raw = ''token'' then Some (Some ''k1'', ''RS256'', \<lambda>key.
     if key = RSAKey 3233 17 then Inr one_subject else Inl (ErrText ''signature is invalid'')) else None)"

theorem verifier_trusts_published_keys_witness:
  "\<exists>key. fmlookup (vf_keys cached_verifier) ''k1'' = Some key \<and> sk_algorithm key = ''RS256''
    \<and> fst (Verify one_token (Inl (ErrText ''timeout'')) Second Second ''token'' cached_verifier) = Inr (map lower_byte one_subject)"
proof -
  have "uuidPattern one_subject" by code_simp
  then have run: "Verify one_token (Inl (ErrText ''timeout'')) Second Second ''token'' cached_verifier
      = (Inr (map lower_byte one_subject), cached_verifier)"
    by (simp add: Verify_def one_token_def signingKey_def cached_verifier_def)
  with verifier_trusts_published_keys [of one_token "Inl (ErrText ''timeout'')" Second Second "''token''" cached_verifier]
  show ?thesis by (auto simp: one_token_def split: if_splits)
qed

end
