(* ===== verification/Http_Logging.thy ===== *)
theory Http_Logging
  imports Http_Messages Workers
begin

text \<open>
  The outermost handler, \<open>room/adapter/http/logging.go\<close>: request identifiers, the recovery from panics, and the log
  lines. A wrapped handler either returns or panics with a cause. The text of an error and the parsing of client
  addresses (\<open>net/netip\<close>) are arguments.
\<close>

section \<open>Request identifiers\<close>

text \<open>\<open>hex.EncodeToString\<close>, or the fallback with the clock and the counter when the random source fails.\<close>

definition hex_byte :: "char \<Rightarrow> string" where
  "hex_byte c = [hex_digit (of_char c div 16), hex_digit (of_char c mod 16)]"

definition newRequestID :: "string result \<Rightarrow> go_time \<Rightarrow> uint64 \<Rightarrow> string \<times> uint64" where
  "newRequestID random now counter =
     (case random of
        Inr bs \<Rightarrow> (concat (map hex_byte bs), counter)
      | Inl _ \<Rightarrow> (let sequence = counter + 1 in
          (''fallback-'' @ dec_int now @ ''-'' @ dec (unat sequence), sequence)))"

section \<open>Log lines\<close>

datatype log_line =
    InternalFailureLine string string string internalFailure string
  | CompletionLine string string string int duration string

text \<open>\<open>strings.NewReplacer\<close> of three bytes by a blank; a cut message goes through \<open>[]rune\<close>, which replaces invalid
  bytes, and ends with an ellipsis.\<close>

definition one_line :: "string \<Rightarrow> string" where
  "one_line s = map (\<lambda>c. if c = byte 13 \<or> c = byte 10 \<or> c = byte 9 then CHR '' '' else c) s"

definition rune_text :: "string \<Rightarrow> string" where
  "rune_text ch = (if rune_width ch = None then [byte 0xEF, byte 0xBF, byte 0xBD] else ch)"

definition boundedError :: "(go_error \<Rightarrow> string) \<Rightarrow> go_error option \<Rightarrow> string" where
  "boundedError Error err =
     (case err of
        None \<Rightarrow> ''unknown internal error''
      | Some e \<Rightarrow> (let message = one_line (Error e); rs = runes message in
          if 512 < length rs then concat (map rune_text (take 512 rs)) @ [byte 0xE2, byte 0x80, byte 0xA6] else message))"

definition normalizedClientIP :: "(string \<Rightarrow> string option) \<Rightarrow> (string \<Rightarrow> string option) \<Rightarrow> string \<Rightarrow> string" where
  "normalizedClientIP addrPort addr remote =
     (case addrPort remote of Some a \<Rightarrow> a | None \<Rightarrow> (case addr remote of Some a \<Rightarrow> a | None \<Rightarrow> ''unknown''))"

definition logInternalFailure :: "(go_error \<Rightarrow> string) \<Rightarrow> http_request \<Rightarrow> internalFailure \<Rightarrow> log_line" where
  "logInternalFailure Error r f = InternalFailureLine (rq_ID r) (rq_Method r) (rq_Path r) f (boundedError Error (Some (if_cause f)))"

definition logRequestCompletion :: "http_request \<Rightarrow> response \<Rightarrow> duration \<Rightarrow> string \<Rightarrow> log_line" where
  "logRequestCompletion r w d ip = CompletionLine (rq_ID r) (rq_Method r) (rq_Path r) (statusOr 200 w) d ip"

section \<open>The recovery\<close>

definition panicked :: "go_error \<Rightarrow> string \<Rightarrow> internalFailure" where
  "panicked cause phase = \<lparr>if_cause = cause, if_operation = ''serve_http'', if_kind = ''panic'', if_phase = phase\<rparr>"

definition unclassified :: internalFailure where
  "unclassified = \<lparr>if_cause = ErrText ''handler returned status 500 without a classified cause'',
     if_operation = ''serve_http'', if_kind = ''internal_error'', if_phase = ''before_commit''\<rparr>"

text \<open>The deferred function: the response, the line it logs, and whether it panics again to cut the connection.\<close>

definition finishRequest ::
    "(go_error \<Rightarrow> string) \<Rightarrow> duration \<Rightarrow> string \<Rightarrow> http_request \<Rightarrow> go_error option \<Rightarrow> response \<Rightarrow> response \<times> log_line \<times> bool" where
  "finishRequest Error took ip r panic w =
     (case panic of
        Some cause \<Rightarrow>
          if rs_Status w = 0
          then (let f = panicked cause ''before_commit'' in
            (writeInternalErrorResponse r (w\<lparr>rs_Failure := Some f\<rparr>), logInternalFailure Error r f, False))
          else (w, logInternalFailure Error r (panicked cause ''after_commit''), True)
      | None \<Rightarrow>
          if statusOr 200 w = 500
          then (w, logInternalFailure Error r (case rs_Failure w of None \<Rightarrow> unclassified | Some f \<Rightarrow> f), False)
          else (w, logRequestCompletion r w took ip, False))"

definition observeRequests ::
    "(go_error \<Rightarrow> string) \<Rightarrow> duration \<Rightarrow> string \<Rightarrow> string
     \<Rightarrow> (http_request \<Rightarrow> response \<Rightarrow> 's \<Rightarrow> (go_error option \<times> response) \<times> 's)
     \<Rightarrow> http_request \<Rightarrow> 's \<Rightarrow> (response \<times> log_line \<times> bool) \<times> 's" where
  "observeRequests Error took ip requestID handle r st =
     (let r = r\<lparr>rq_ID := requestID\<rparr>; w = Header_Set ''X-Request-ID'' requestID newResponse in
      case handle r w st of ((panic, w), st) \<Rightarrow> (finishRequest Error took ip r panic w, st))"

section \<open>Properties\<close>

text \<open>Panics. A handler that panics before it has written its header is answered 500 with the generic error body, which is the
  same for every cause; after that, its response stands and the connection is cut. Either way one line is
  logged, with the cause, and it has the identifier that the response carries.
\<close>
theorem panics_are_contained:
  assumes "handle (r\<lparr>rq_ID := i\<rparr>) (Header_Set ''X-Request-ID'' i newResponse) st = ((Some cause, w), st1)"
  shows "\<exists>phase. fst (snd (fst (observeRequests Error took ip i handle r st)))
      = InternalFailureLine i (rq_Method r) (rq_Path r) (panicked cause phase) (boundedError Error (Some cause))
    \<and> (rs_Status w = 0 \<longrightarrow> rs_Status (fst (fst (observeRequests Error took ip i handle r st))) = 500
        \<and> rs_Body (fst (fst (observeRequests Error took ip i handle r st))) = rs_Body w @ [JSONBody (apiErrorResponse (r\<lparr>rq_ID := i\<rparr>)
             (publicError 500 ''internal_error'' ''An internal error occurred.''))]
        \<and> \<not> snd (snd (fst (observeRequests Error took ip i handle r st))))
    \<and> (rs_Status w \<noteq> 0 \<longrightarrow> fst (fst (observeRequests Error took ip i handle r st)) = w
        \<and> snd (snd (fst (observeRequests Error took ip i handle r st))))"
  using assms
  by (auto simp: observeRequests_def finishRequest_def Let_def logInternalFailure_def panicked_def writeInternalErrorResponse_def
      writeAPIError_def writeJSON_def publicError_def http_simps)

theorem panics_are_contained_witness:
  "rs_Status (fst (fst (observeRequests (\<lambda>_. ''boom'') 0 ''unknown'' ''id1'' (\<lambda>r w (st :: nat). ((Some (Panic ''boom''), w), st))
     undefined 0))) = 500"
  using panics_are_contained [where handle = "\<lambda>r w st. ((Some (Panic ''boom''), w), st)" and Error = "\<lambda>_. ''boom''" and i = "''id1''"
      and r = undefined and st = "0 :: nat" and took = 0 and ip = "''unknown''", OF refl]
  by (simp add: http_simps newResponse_def)

end
