(* ===== verification/Realtime_Hub.thy ===== *)
theory Realtime_Hub
  imports Outbox "HOL-Library.Multiset"
begin

text \<open>
  The room hub of \<open>internal/realtime/hub.go\<close>, as a step relation over its critical sections. Each function below is
  what the code does between locking and unlocking \<open>h.mu\<close>; a goroutine is a task that says where it stands, and the tasks of
  a configuration interleave freely. The loader is the revision the database holds when it is asked, and a log keeps
  what each consumer was called with. A step of a goroutine is not preempted inside a critical section.
\<close>

section \<open>State\<close>

text \<open>\<open>lr_object\<close> is the identity of the \<open>localRoom\<close> behind the pointer, whose \<open>reconcileMu\<close> a task may hold.\<close>

record localRoom =
  lr_object :: nat
  lr_consumers :: "uint64 fset"
  lr_revision :: uint64
  lr_snapshot :: Snapshot

record hub =
  hb_rooms :: "(string, localRoom) fmap"
  hb_nextID :: uint64
  hb_objects :: nat
  hb_gaps :: nat

definition NewHub :: hub where
  "NewHub = \<lparr>hb_rooms = fmempty, hb_nextID = 0, hb_objects = 0, hb_gaps = 0\<rparr>"

record SubscriptionEvent =
  ev_Hint :: "RevisionHint option"
  ev_Reconnected :: bool

section \<open>Critical sections\<close>

text \<open>\<open>Acquire\<close> of a room that is there: the consumer's id and the snapshot it is called with after the unlock.\<close>

definition acquireExisting :: "string \<Rightarrow> hub \<Rightarrow> ((uint64 \<times> Snapshot option) \<times> hub) option" where
  "acquireExisting roomID h =
     (case fmlookup (hb_rooms h) roomID of
        None \<Rightarrow> None
      | Some room \<Rightarrow>
          (let i = hb_nextID h + 1 in
           Some ((i, if 0 < sn_Revision (lr_snapshot room) then Some (lr_snapshot room) else None),
             h\<lparr>hb_nextID := i, hb_rooms := fmupd roomID (room\<lparr>lr_consumers := finsert i (lr_consumers room)\<rparr>) (hb_rooms h)\<rparr>)))"

text \<open>\<open>Acquire\<close> of a new room, once \<open>SubscribeRoom\<close> succeeded; on an error nothing is stored.\<close>

definition acquireNew :: "string \<Rightarrow> hub \<Rightarrow> uint64 \<times> hub" where
  "acquireNew roomID h =
     (let i = hb_nextID h + 1 in
      (i, h\<lparr>hb_nextID := i, hb_objects := hb_objects h + 1,
            hb_rooms := fmupd roomID \<lparr>lr_object = hb_objects h, lr_consumers = {|i|}, lr_revision = 0, lr_snapshot = zeroSnapshot\<rparr>
              (hb_rooms h)\<rparr>))"

text \<open>The test that \<open>reconcile\<close> makes twice: there is something to reload.\<close>

definition needsReload :: "string \<Rightarrow> uint64 \<Rightarrow> bool \<Rightarrow> hub \<Rightarrow> bool" where
  "needsReload roomID minimum force h =
     (case fmlookup (hb_rooms h) roomID of
        None \<Rightarrow> False | Some room \<Rightarrow> force \<or> \<not> minimum \<le> lr_revision room)"

text \<open>The last section of \<open>reconcile\<close>: a newer snapshot becomes the room's, and the consumers to call are returned.\<close>

definition publishSnapshot :: "string \<Rightarrow> uint64 \<Rightarrow> Snapshot \<Rightarrow> hub \<Rightarrow> (uint64 fset \<times> hub) option" where
  "publishSnapshot roomID minimum snapshot h =
     (case fmlookup (hb_rooms h) roomID of
        None \<Rightarrow> None
      | Some room \<Rightarrow>
          if sn_Revision snapshot \<le> lr_revision room then None
          else (let previous = lr_revision room in
            Some (lr_consumers room,
              h\<lparr>hb_gaps := (if 0 < minimum \<and> 0 < previous \<and> previous + 1 < minimum then hb_gaps h + 1 else hb_gaps h),
                hb_rooms := fmupd roomID (room\<lparr>lr_revision := sn_Revision snapshot, lr_snapshot := snapshot\<rparr>) (hb_rooms h)\<rparr>)))"

text \<open>The function that \<open>release\<close> returns, which runs once.\<close>

definition releaseConsumer :: "string \<Rightarrow> uint64 \<Rightarrow> hub \<Rightarrow> hub" where
  "releaseConsumer roomID i h =
     (case fmlookup (hb_rooms h) roomID of
        None \<Rightarrow> h
      | Some room \<Rightarrow>
          (let consumers = lr_consumers room |-| {|i|} in
           if consumers \<noteq> {||} then h\<lparr>hb_rooms := fmupd roomID (room\<lparr>lr_consumers := consumers\<rparr>) (hb_rooms h)\<rparr>
           else h\<lparr>hb_rooms := fmdrop roomID (hb_rooms h)\<rparr>))"

text \<open>\<open>handleEvent\<close>: the arguments of the reload that an event asks for.\<close>

definition handleEvent :: "string \<Rightarrow> SubscriptionEvent \<Rightarrow> (uint64 \<times> bool) option" where
  "handleEvent roomID event =
     (case ev_Hint event of
        Some hint \<Rightarrow> if rh_RoomID hint \<noteq> roomID then None else Some (rh_Revision hint, ev_Reconnected event)
      | None \<Rightarrow> Some (0, ev_Reconnected event))"

section \<open>Goroutines\<close>

text \<open>
  \<open>Late\<close>: \<open>Acquire\<close> is about to call its consumer with the snapshot it read. The others are the stations of
  \<open>reconcile\<close>: before the first test, waiting for the mutex of the room object it found, holding it before the second test,
  before the load, with a loaded snapshot, and calling the consumers that are left.
\<close>

datatype task =
    Late uint64 Snapshot
  | Checking string uint64 bool
  | Waiting string nat uint64 bool
  | Locked string nat uint64 bool
  | Loading string nat uint64
  | Loaded string nat uint64 Snapshot
  | Publishing nat "uint64 fset" Snapshot

fun holds :: "nat \<Rightarrow> task \<Rightarrow> bool" where
  "holds n (Locked c m k f) = (m = n)"
| "holds n (Loading c m k) = (m = n)"
| "holds n (Loaded c m k sn) = (m = n)"
| "holds n (Publishing m cs sn) = (m = n)"
| "holds n _ = False"

record hub_config =
  hc_hub :: hub
  hc_loader :: "string \<Rightarrow> Snapshot"
  hc_log :: "uint64 \<Rightarrow> Snapshot list"
  hc_tasks :: "task multiset"

definition observe :: "uint64 \<Rightarrow> Snapshot \<Rightarrow> hub_config \<Rightarrow> hub_config" where
  "observe i sn c = c\<lparr>hc_log := (hc_log c)(i := sn # hc_log c i)\<rparr>"

definition replaceTask :: "task \<Rightarrow> task multiset \<Rightarrow> hub_config \<Rightarrow> hub_config" where
  "replaceTask t ts c = c\<lparr>hc_tasks := hc_tasks c - {#t#} + ts\<rparr>"

inductive hub_step :: "hub_config \<Rightarrow> hub_config \<Rightarrow> bool" where
  commit: "sn_Revision (hc_loader c roomID) < sn_Revision sn \<Longrightarrow> hub_step c (c\<lparr>hc_loader := (hc_loader c)(roomID := sn)\<rparr>)"
| acquire_there: "acquireExisting roomID (hc_hub c) = Some ((i, sn), h)
    \<Longrightarrow> hub_step c (c\<lparr>hc_hub := h, hc_tasks := hc_tasks c + (case sn of None \<Rightarrow> {#} | Some s \<Rightarrow> {#Late i s#})\<rparr>)"
| acquire_new: "fmlookup (hb_rooms (hc_hub c)) roomID = None \<Longrightarrow> acquireNew roomID (hc_hub c) = (i, h)
    \<Longrightarrow> hub_step c (c\<lparr>hc_hub := h, hc_tasks := hc_tasks c + {#Checking roomID 0 True#}\<rparr>)"
| reconcile: "hub_step c (c\<lparr>hc_tasks := hc_tasks c + {#Checking roomID 0 True#}\<rparr>)"
| event: "handleEvent roomID e = Some (minimum, force)
    \<Longrightarrow> hub_step c (c\<lparr>hc_tasks := hc_tasks c + {#Checking roomID minimum force#}\<rparr>)"
| late: "Late i sn \<in># hc_tasks c \<Longrightarrow> hub_step c (observe i sn (replaceTask (Late i sn) {#} c))"
| check: "Checking roomID minimum force \<in># hc_tasks c \<Longrightarrow> fmlookup (hb_rooms (hc_hub c)) roomID = room
    \<Longrightarrow> hub_step c (replaceTask (Checking roomID minimum force)
          (case room of Some r \<Rightarrow> if needsReload roomID minimum force (hc_hub c) then {#Waiting roomID (lr_object r) minimum force#} else {#}
                      | None \<Rightarrow> {#}) c)"
| lock: "Waiting roomID n minimum force \<in># hc_tasks c \<Longrightarrow> \<forall>t \<in># hc_tasks c. \<not> holds n t
    \<Longrightarrow> hub_step c (replaceTask (Waiting roomID n minimum force) {#Locked roomID n minimum force#} c)"
| check_again: "Locked roomID n minimum force \<in># hc_tasks c
    \<Longrightarrow> hub_step c (replaceTask (Locked roomID n minimum force)
          (if needsReload roomID minimum force (hc_hub c) then {#Loading roomID n minimum#} else {#}) c)"
| load: "Loading roomID n minimum \<in># hc_tasks c
    \<Longrightarrow> hub_step c (replaceTask (Loading roomID n minimum) {#Loaded roomID n minimum (hc_loader c roomID)#} c)"
| load_fails: "Loading roomID n minimum \<in># hc_tasks c \<Longrightarrow> hub_step c (replaceTask (Loading roomID n minimum) {#} c)"
| publish: "Loaded roomID n minimum sn \<in># hc_tasks c \<Longrightarrow> publishSnapshot roomID minimum sn (hc_hub c) = Some (cs, h)
    \<Longrightarrow> hub_step c (replaceTask (Loaded roomID n minimum sn) {#Publishing n cs sn#} (c\<lparr>hc_hub := h\<rparr>))"
| superseded: "Loaded roomID n minimum sn \<in># hc_tasks c \<Longrightarrow> publishSnapshot roomID minimum sn (hc_hub c) = None
    \<Longrightarrow> hub_step c (replaceTask (Loaded roomID n minimum sn) {#} c)"
| deliver: "Publishing n cs sn \<in># hc_tasks c \<Longrightarrow> i |\<in>| cs
    \<Longrightarrow> hub_step c (observe i sn (replaceTask (Publishing n cs sn) {#Publishing n (cs |-| {|i|}) sn#} c))"
| delivered: "Publishing n {||} sn \<in># hc_tasks c \<Longrightarrow> hub_step c (replaceTask (Publishing n {||} sn) {#} c)"
| release: "hub_step c (c\<lparr>hc_hub := releaseConsumer roomID i (hc_hub c)\<rparr>)"

definition hub_start :: "hub_config" where
  "hub_start = \<lparr>hc_hub = NewHub, hc_loader = (\<lambda>_. zeroSnapshot), hc_log = (\<lambda>_. []), hc_tasks = {#}\<rparr>"

inductive hub_reachable :: "hub_config \<Rightarrow> bool" where
  start: "hub_reachable hub_start"
| step: "hub_reachable c \<Longrightarrow> hub_step c c1 \<Longrightarrow> hub_reachable c1"

section \<open>No snapshot is lost\<close>

definition owed :: "hub_config \<Rightarrow> uint64 \<Rightarrow> Snapshot \<Rightarrow> bool" where
  "owed c i sn \<longleftrightarrow> sn \<in> set (hc_log c i) \<or> Late i sn \<in># hc_tasks c
     \<or> (\<exists>n cs. Publishing n cs sn \<in># hc_tasks c \<and> i |\<in>| cs)"

definition hub_ok :: "hub_config \<Rightarrow> bool" where
  "hub_ok c \<longleftrightarrow> (\<forall>roomID room. fmlookup (hb_rooms (hc_hub c)) roomID = Some room \<longrightarrow>
     sn_Revision (lr_snapshot room) = lr_revision room
     \<and> (0 < lr_revision room \<longrightarrow> (\<forall>i. i |\<in>| lr_consumers room \<longrightarrow> owed c i (lr_snapshot room))))"

lemma hub_okD:
  "hub_ok c \<Longrightarrow> fmlookup (hb_rooms (hc_hub c)) roomID = Some room \<Longrightarrow> sn_Revision (lr_snapshot room) = lr_revision room"
  "hub_ok c \<Longrightarrow> fmlookup (hb_rooms (hc_hub c)) roomID = Some room \<Longrightarrow> 0 < lr_revision room \<Longrightarrow> i |\<in>| lr_consumers room
     \<Longrightarrow> owed c i (lr_snapshot room)"
  unfolding hub_ok_def by blast+

text \<open>Steps that leave the rooms alone and pay what they take away.\<close>

lemma hub_ok_same_rooms:
  assumes "hub_ok c" "hb_rooms (hc_hub c1) = hb_rooms (hc_hub c)" "\<And>i sn. owed c i sn \<Longrightarrow> owed c1 i sn"
  shows "hub_ok c1"
  using assms unfolding hub_ok_def by metis

lemma owed_more: "owed c i sn \<Longrightarrow> hc_log c1 = hc_log c \<Longrightarrow> hc_tasks c1 = hc_tasks c + ts \<Longrightarrow> owed c1 i sn"
  by (auto simp: owed_def)

lemma kept_task: "t' \<in># M \<Longrightarrow> t' \<noteq> t \<Longrightarrow> t' \<in># M - {#t#} + ts"
  by (simp add: in_diff_count)

lemma replace_simps [simp]:
  "hc_hub (replaceTask t ts c) = hc_hub c" "hc_log (replaceTask t ts c) = hc_log c" "hc_loader (replaceTask t ts c) = hc_loader c"
  "hc_tasks (replaceTask t ts c) = hc_tasks c - {#t#} + ts"
  "hc_hub (observe i sn c) = hc_hub c" "hc_tasks (observe i sn c) = hc_tasks c" "hc_loader (observe i sn c) = hc_loader c"
  "hc_log (observe i sn c) = (hc_log c)(i := sn # hc_log c i)"
  by (simp_all add: replaceTask_def observe_def)

text \<open>A task that calls nobody may be replaced; one that calls a consumer may be, once the call is logged.\<close>

fun calls :: "task \<Rightarrow> bool" where
  "calls (Late i sn) = True"
| "calls (Publishing n cs sn) = (cs \<noteq> {||})"
| "calls _ = False"

lemma owed_replace:
  assumes "owed c i sn" "\<not> calls t"
  shows "owed (replaceTask t ts c) i sn"
proof -
  have "t' \<in># hc_tasks c \<Longrightarrow> calls t' \<Longrightarrow> t' \<in># hc_tasks c - {#t#} + ts" for t'
    using assms(2) by (metis kept_task)
  moreover have "calls (Publishing n cs sn)" if "i |\<in>| cs" for n cs using that by auto
  ultimately show ?thesis using assms(1) unfolding owed_def by (metis calls.simps(1) replace_simps(2,4))
qed

lemma owed_late:
  assumes "owed c j s"
  shows "owed (observe i sn (replaceTask (Late i sn) ts c)) j s"
proof (cases "Late j s = Late i sn")
  case False
  then show ?thesis using assms by (auto simp: owed_def in_diff_count)
qed (simp add: owed_def)

lemma owed_deliver:
  assumes "owed c j s"
  shows "owed (observe i sn (replaceTask (Publishing n cs sn) {#Publishing n (cs |-| {|i|}) sn#} c)) j s"
proof (cases "j = i \<and> s = sn")
  case False
  from assms consider "s \<in> set (hc_log c j)" | "Late j s \<in># hc_tasks c"
    | m ds where "Publishing m ds s \<in># hc_tasks c" "j |\<in>| ds" unfolding owed_def by blast
  then show ?thesis
  proof cases
    case 3
    show ?thesis
    proof (cases "Publishing m ds s = Publishing n cs sn")
      case True
      then have "j |\<in>| cs |-| {|i|}" using 3 False by auto
      then show ?thesis using True by (auto simp: owed_def)
    next
      case False
      have "Publishing m ds s \<in># hc_tasks c - {#Publishing n cs sn#} + {#Publishing n (cs |-| {|i|}) sn#}"
        by (rule kept_task [OF 3(1) False])
      then show ?thesis unfolding owed_def using 3(2) by (metis replace_simps(4,6))
    qed
  qed (auto simp: owed_def in_diff_count)
qed (simp add: owed_def)

lemma hub_ok_step:
  assumes "hub_step c c1" "hub_ok c"
  shows "hub_ok c1"
  using assms
proof (cases rule: hub_step.cases)
  case (acquire_there roomID i sn h)
  obtain room where room: "fmlookup (hb_rooms (hc_hub c)) roomID = Some room"
    and h: "h = (hc_hub c)\<lparr>hb_nextID := i, hb_rooms := fmupd roomID (room\<lparr>lr_consumers := finsert i (lr_consumers room)\<rparr>) (hb_rooms (hc_hub c))\<rparr>"
    and sn: "sn = (if 0 < sn_Revision (lr_snapshot room) then Some (lr_snapshot room) else None)"
    using acquire_there(2) by (auto simp: acquireExisting_def Let_def split: option.splits)
  note ok = hub_okD [OF assms(2)]
  have kept: "owed c j s \<Longrightarrow> owed c1 j s" for j s
    using acquire_there(1) by (auto intro: owed_more)
  have new: "owed c1 i (lr_snapshot room)" if "0 < lr_revision room"
    using that ok(1) [OF room] acquire_there(1) sn by (simp add: owed_def)
  show ?thesis
    unfolding hub_ok_def
  proof (intro allI impI)
    fix roomID' room' assume look: "fmlookup (hb_rooms (hc_hub c1)) roomID' = Some room'"
    show "sn_Revision (lr_snapshot room') = lr_revision room'
      \<and> (0 < lr_revision room' \<longrightarrow> (\<forall>j. j |\<in>| lr_consumers room' \<longrightarrow> owed c1 j (lr_snapshot room')))"
      using look room ok kept new acquire_there(1) h by (cases "roomID' = roomID") auto
  qed
next
  case (acquire_new roomID i h)
  have kept: "owed c j s \<Longrightarrow> owed c1 j s" for j s
    using acquire_new(1) by (auto intro: owed_more)
  show ?thesis
    using acquire_new(1,3) hub_okD [OF assms(2)] kept
    by (auto simp: hub_ok_def acquireNew_def Let_def zeroSnapshot_def split: if_splits)
next
  case (publish roomID n minimum sn cs h)
  obtain room where room: "fmlookup (hb_rooms (hc_hub c)) roomID = Some room" "cs = lr_consumers room"
    and h: "hb_rooms h = fmupd roomID (room\<lparr>lr_revision := sn_Revision sn, lr_snapshot := sn\<rparr>) (hb_rooms (hc_hub c))"
    using publish(3) by (auto simp: publishSnapshot_def Let_def split: option.splits if_splits)
  have kept: "owed c1 j s" if "owed c j s" for j s
    using owed_replace [OF that, of "Loaded roomID n minimum sn" "{#Publishing n cs sn#}"] publish(1) by (simp add: owed_def)
  have new: "owed c1 j sn" if "j |\<in>| cs" for j using that publish(1) by (auto simp: owed_def)
  show ?thesis
    unfolding hub_ok_def
  proof (intro allI impI)
    fix roomID' room' assume look: "fmlookup (hb_rooms (hc_hub c1)) roomID' = Some room'"
    show "sn_Revision (lr_snapshot room') = lr_revision room'
      \<and> (0 < lr_revision room' \<longrightarrow> (\<forall>j. j |\<in>| lr_consumers room' \<longrightarrow> owed c1 j (lr_snapshot room')))"
      using look room hub_okD [OF assms(2)] kept new publish(1) h by (cases "roomID' = roomID") auto
  qed
next
  case (release roomID i)
  then show ?thesis
    using assms(2) by (auto simp: hub_ok_def owed_def releaseConsumer_def Let_def split: option.splits if_splits)
next
  case (late i sn)
  then show ?thesis by (intro hub_ok_same_rooms [OF assms(2)]) (auto intro: owed_late)
next
  case (deliver n cs sn i)
  then show ?thesis by (intro hub_ok_same_rooms [OF assms(2)]) (auto intro: owed_deliver)
qed (auto intro!: hub_ok_same_rooms [OF assms(2)] intro: owed_replace owed_more [where ts = "{#}"] owed_more)

lemma reachable_hub_ok: "hub_reachable c \<Longrightarrow> hub_ok c"
proof (induction rule: hub_reachable.induct)
  case start
  show ?case by (simp add: hub_start_def NewHub_def hub_ok_def)
qed (rule hub_ok_step)

text \<open>C9: No snapshot is lost. Under every interleaving of acquisitions, events, reloads, commits and releases, each consumer of
  a room has been called with the snapshot the hub holds for it, or a goroutine is still about to call it; once all
  goroutines are done, every consumer has seen it.
\<close>
theorem no_snapshot_lost:
  assumes "hub_reachable c" "fmlookup (hb_rooms (hc_hub c)) roomID = Some room" "i |\<in>| lr_consumers room" "0 < lr_revision room"
  shows "(lr_snapshot room \<in> set (hc_log c i) \<or> Late i (lr_snapshot room) \<in># hc_tasks c
      \<or> (\<exists>n cs. Publishing n cs (lr_snapshot room) \<in># hc_tasks c \<and> i |\<in>| cs))
    \<and> (hc_tasks c = {#} \<longrightarrow> lr_snapshot room \<in> set (hc_log c i))"
  using hub_okD(2) [OF reachable_hub_ok [OF assms(1)] assms(2,4,3)] by (auto simp: owed_def)

section \<open>A reload that nobody disturbs\<close>

lemma deliver_all:
  "hub_reachable c \<Longrightarrow> hc_tasks c = add_mset (Publishing n cs sn) ts \<Longrightarrow>
     hub_reachable (c\<lparr>hc_log := (\<lambda>i. if i |\<in>| cs then sn # hc_log c i else hc_log c i), hc_tasks := ts\<rparr>)"
proof (induction cs arbitrary: c rule: fset_induct_stronger)
  case empty
  from hub_reachable.step [OF empty.prems(1) hub_step.delivered [of n sn c]] empty.prems(2) show ?case by (simp add: replaceTask_def)
next
  case (insert i cs)
  let ?c = "observe i sn (replaceTask (Publishing n (finsert i cs) sn) {#Publishing n (finsert i cs |-| {|i|}) sn#} c)"
  have "hub_reachable ?c"
    using hub_reachable.step [OF insert.prems(1) hub_step.deliver [of n "finsert i cs" sn c i]] insert.prems(2) by simp
  moreover have "finsert i cs |-| {|i|} = cs" using insert(1) by auto
  ultimately have "hub_reachable (?c\<lparr>hc_log := (\<lambda>j. if j |\<in>| cs then sn # hc_log ?c j else hc_log ?c j), hc_tasks := ts\<rparr>)"
    using insert.IH [of ?c] insert.prems(2) by simp
  moreover have "(\<lambda>j. if j |\<in>| cs then sn # hc_log ?c j else hc_log ?c j) =
      (\<lambda>j. if j |\<in>| finsert i cs then sn # hc_log c j else hc_log c j)"
    using insert(1) by (auto simp: fun_eq_iff)
  ultimately show ?case by (simp add: observe_def replaceTask_def)
qed

lemma undisturbed_reload:
  assumes "hub_reachable c" "hc_tasks c = add_mset (Checking roomID minimum force) ts"
    and "fmlookup (hb_rooms (hc_hub c)) roomID = Some room" "\<forall>t \<in># ts. \<not> holds (lr_object room) t"
    and "needsReload roomID minimum force (hc_hub c)"
    and "publishSnapshot roomID minimum (hc_loader c roomID) (hc_hub c) = Some (cs, h)"
  shows "hub_reachable (c\<lparr>hc_hub := h,
     hc_log := (\<lambda>i. if i |\<in>| cs then hc_loader c roomID # hc_log c i else hc_log c i), hc_tasks := ts\<rparr>)"
proof -
  let ?n = "lr_object room" and ?sn = "hc_loader c roomID"
  have "hub_reachable (c\<lparr>hc_tasks := add_mset (Waiting roomID ?n minimum force) ts\<rparr>)"
    using hub_reachable.step [OF assms(1) hub_step.check [OF _ assms(3), of minimum force]] assms(2,5) by (simp add: replaceTask_def)
  from hub_reachable.step [OF this hub_step.lock [of roomID ?n minimum force]] assms(4)
  have "hub_reachable (c\<lparr>hc_tasks := add_mset (Locked roomID ?n minimum force) ts\<rparr>)" by (simp add: replaceTask_def)
  from hub_reachable.step [OF this hub_step.check_again [of roomID ?n minimum force]] assms(5)
  have "hub_reachable (c\<lparr>hc_tasks := add_mset (Loading roomID ?n minimum) ts\<rparr>)" by (simp add: replaceTask_def)
  from hub_reachable.step [OF this hub_step.load [of roomID ?n minimum]]
  have "hub_reachable (c\<lparr>hc_tasks := add_mset (Loaded roomID ?n minimum ?sn) ts\<rparr>)" by (simp add: replaceTask_def)
  from hub_reachable.step [OF this hub_step.publish [of roomID ?n minimum ?sn _ cs h]] assms(6)
  have "hub_reachable (c\<lparr>hc_hub := h, hc_tasks := add_mset (Publishing ?n cs ?sn) ts\<rparr>)" by (simp add: replaceTask_def)
  from deliver_all [OF this, of ?n cs ?sn ts] show ?thesis by (simp cong: if_cong)
qed

section \<open>The order of deliveries\<close>

definition at_revision :: "uint64 \<Rightarrow> Snapshot" where
  "at_revision k = zeroSnapshot\<lparr>sn_Revision := k\<rparr>"

lemma at_revision_simps [simp]: "sn_Revision (at_revision k) = k" "sn_Revision zeroSnapshot = 0" "\<not> (2 :: uint64) \<le> 1"
  by (simp_all add: at_revision_def zeroSnapshot_def word_le_nat_alt)

text \<open>A room with one consumer, which has seen revision 1.\<close>

definition first_room :: localRoom where
  "first_room = \<lparr>lr_object = 0, lr_consumers = {|1|}, lr_revision = 1, lr_snapshot = at_revision 1\<rparr>"

definition first_config :: hub_config where
  "first_config = \<lparr>hc_hub = \<lparr>hb_rooms = fmupd ''R'' first_room fmempty, hb_nextID = 1, hb_objects = 1, hb_gaps = 0\<rparr>,
     hc_loader = (\<lambda>_. zeroSnapshot)(''R'' := at_revision 1), hc_log = (\<lambda>i. if i |\<in>| {|1|} then [at_revision 1] else []),
     hc_tasks = {#}\<rparr>"

lemma first_reachable: "hub_reachable first_config"
proof -
  define h1 where "h1 = snd (acquireNew ''R'' NewHub)"
  have r1: "hub_reachable (hub_start\<lparr>hc_loader := (hc_loader hub_start)(''R'' := at_revision 1)\<rparr>)"
    by (rule hub_reachable.step [OF hub_reachable.start hub_step.commit]) (simp add: hub_start_def)
  let ?c1 = "hub_start\<lparr>hc_loader := (hc_loader hub_start)(''R'' := at_revision 1), hc_hub := h1,
    hc_tasks := {#Checking ''R'' 0 True#}\<rparr>"
  have "hub_reachable ?c1"
    using hub_reachable.step [OF r1 hub_step.acquire_new [of _ "''R''" "fst (acquireNew ''R'' NewHub)" h1]]
    by (simp add: hub_start_def NewHub_def h1_def)
  moreover have look1: "fmlookup (hb_rooms h1) ''R'' = Some \<lparr>lr_object = 0, lr_consumers = {|1|}, lr_revision = 0, lr_snapshot = zeroSnapshot\<rparr>"
    by (simp add: h1_def acquireNew_def NewHub_def Let_def)
  ultimately have "hub_reachable (?c1\<lparr>hc_hub := h1\<lparr>hb_rooms := fmupd ''R'' first_room (hb_rooms h1)\<rparr>,
      hc_log := (\<lambda>i. if i |\<in>| {|1|} then at_revision 1 # hc_log ?c1 i else hc_log ?c1 i), hc_tasks := {#}\<rparr>)"
    using undisturbed_reload [of ?c1 "''R''" 0 True "{#}" _ "{|1|}" "h1\<lparr>hb_rooms := fmupd ''R'' first_room (hb_rooms h1)\<rparr>"]
    by (simp add: needsReload_def publishSnapshot_def first_room_def cong: if_cong)
  then show ?thesis
    by (simp add: first_config_def hub_start_def h1_def acquireNew_def NewHub_def Let_def cong: if_cong)
qed

text \<open>C20: Defect. A consumer that joins a room already in the hub may be left with an old state. \<open>Acquire\<close> reads the room's
  snapshot under the lock and calls the consumer after releasing it; a reload in between calls the consumer with the
  newer snapshot first, and the old one arrives last. At the end nothing is in flight, the hub holds revision 2, and the
  last revision the consumer saw is 1.
\<close>
theorem consumer_left_stale:
  "\<exists>c room. hub_reachable c \<and> hc_tasks c = {#} \<and> fmlookup (hb_rooms (hc_hub c)) ''R'' = Some room
     \<and> 2 |\<in>| lr_consumers room \<and> lr_revision room = 2 \<and> hc_loader c ''R'' = lr_snapshot room
     \<and> map sn_Revision (hc_log c 2) = [1, 2]"
proof -
  let ?h2 = "(hc_hub first_config)\<lparr>hb_nextID := 2, hb_rooms := fmupd ''R'' (first_room\<lparr>lr_consumers := {|2, 1|}\<rparr>) (hb_rooms (hc_hub first_config))\<rparr>"
  have "acquireExisting ''R'' (hc_hub first_config) = Some ((2, Some (at_revision 1)), ?h2)"
    by (simp add: acquireExisting_def first_config_def first_room_def Let_def)
  from hub_reachable.step [OF first_reachable hub_step.acquire_there [OF this]]
  have r3: "hub_reachable (first_config\<lparr>hc_hub := ?h2, hc_tasks := {#Late 2 (at_revision 1)#}\<rparr>)" by (simp add: first_config_def)
  let ?c4 = "first_config\<lparr>hc_hub := ?h2, hc_loader := (hc_loader first_config)(''R'' := at_revision 2),
    hc_tasks := {#Checking ''R'' 2 False, Late 2 (at_revision 1)#}\<rparr>"
  have "hub_reachable (first_config\<lparr>hc_hub := ?h2, hc_tasks := {#Late 2 (at_revision 1)#}, hc_loader := (hc_loader first_config)(''R'' := at_revision 2)\<rparr>)"
    using hub_reachable.step [OF r3 hub_step.commit [of _ "''R''" "at_revision 2"]] by (simp add: first_config_def)
  from hub_reachable.step [OF this hub_step.event [of "''R''" "\<lparr>ev_Hint = Some \<lparr>rh_RoomID = ''R'', rh_Revision = 2\<rparr>, ev_Reconnected = False\<rparr>" 2 False]]
  have r4: "hub_reachable ?c4" by (simp add: handleEvent_def)
  let ?h4 = "?h2\<lparr>hb_rooms := fmupd ''R'' (first_room\<lparr>lr_consumers := {|2, 1|}, lr_revision := 2, lr_snapshot := at_revision 2\<rparr>) (hb_rooms ?h2)\<rparr>"
  have "hub_reachable (?c4\<lparr>hc_hub := ?h4,
      hc_log := (\<lambda>i. if i |\<in>| {|2, 1|} then at_revision 2 # hc_log ?c4 i else hc_log ?c4 i),
      hc_tasks := {#Late 2 (at_revision 1)#}\<rparr>)" (is "hub_reachable ?c5")
    using undisturbed_reload [OF r4, of "''R''" 2 False "{#Late 2 (at_revision 1)#}" _ "{|2, 1|}" ?h4]
    by (simp add: needsReload_def publishSnapshot_def first_config_def first_room_def cong: if_cong)
  from hub_reachable.step [OF this hub_step.late [of 2 "at_revision 1"]]
  have "hub_reachable (?c5\<lparr>hc_tasks := {#}, hc_log := (hc_log ?c5)(2 := at_revision 1 # hc_log ?c5 2)\<rparr>)" (is "hub_reachable ?c6")
    by (simp add: observe_def replaceTask_def)
  moreover have "hc_tasks ?c6 = {#} \<and> fmlookup (hb_rooms (hc_hub ?c6)) ''R'' =
      Some (first_room\<lparr>lr_consumers := {|2, 1|}, lr_revision := 2, lr_snapshot := at_revision 2\<rparr>)
    \<and> hc_loader ?c6 ''R'' = at_revision 2 \<and> map sn_Revision (hc_log ?c6 2) = [1, 2]"
    by (simp add: first_config_def)
  ultimately show ?thesis
    by (intro exI [of _ ?c6] exI [of _ "first_room\<lparr>lr_consumers := {|2, 1|}, lr_revision := 2, lr_snapshot := at_revision 2\<rparr>"]) simp
qed

theorem no_snapshot_lost_witness:
  "hub_reachable first_config \<and> at_revision 1 \<in> set (hc_log first_config 1)"
proof -
  have "fmlookup (hb_rooms (hc_hub first_config)) ''R'' = Some first_room" "1 |\<in>| lr_consumers first_room" "0 < lr_revision first_room"
    by (simp_all add: first_config_def first_room_def)
  from no_snapshot_lost [OF first_reachable this] first_reachable show ?thesis
    by (simp add: first_config_def first_room_def)
qed

end
