(* ===== verification/Realtime_Socket.thy ===== *)
theory Realtime_Socket
  imports Http_Router Realtime_Hub Http_Logging
begin

text \<open>
  The read-only room socket, \<open>internal/realtime/websocket.go\<close>: admission, the queue of the latest snapshot, the frames, the
  loop of a connection as one turn per event, and the lease that brackets it. The socket library is an argument: whether the
  upgrade, a write or a ping succeeds; so are the outcomes of the hub, which is modelled on its own.
\<close>

section \<open>Configuration\<close>

record WebSocketConfig =
  wc_MaxConnections :: int
  wc_ReadLimit :: int
  wc_WriteTimeout :: duration
  wc_OperationTimeout :: duration
  wc_RevalidateInterval :: duration
  wc_LeaseDuration :: duration
  wc_PingInterval :: duration

definition positiveOr :: "int \<Rightarrow> int \<Rightarrow> int" where
  "positiveOr fallback v = (if v \<le> 0 then fallback else v)"

definition NewWebSocketConfig :: "WebSocketConfig \<Rightarrow> WebSocketConfig" where
  "NewWebSocketConfig c =
     \<lparr>wc_MaxConnections = positiveOr 1024 (wc_MaxConnections c), wc_ReadLimit = positiveOr 1024 (wc_ReadLimit c),
      wc_WriteTimeout = positiveOr (5 * Second) (wc_WriteTimeout c),
      wc_OperationTimeout = positiveOr (5 * Second) (wc_OperationTimeout c),
      wc_RevalidateInterval = positiveOr (30 * Second) (wc_RevalidateInterval c),
      wc_LeaseDuration = positiveOr (60 * Second) (wc_LeaseDuration c),
      wc_PingInterval = positiveOr (20 * Second) (wc_PingInterval c)\<rparr>"

record 's SocketRepository =
  sk_AuthorizeRoom :: "string \<Rightarrow> string \<Rightarrow> ('s, string) op"
  sk_OpenConnection :: "ConnectionLease \<Rightarrow> ('s, PresenceTransition) op"
  sk_RenewConnection :: "string \<Rightarrow> go_time \<Rightarrow> go_time \<Rightarrow> ('s, unit) op"
  sk_CloseConnection :: "string \<Rightarrow> go_time \<Rightarrow> ('s, PresenceTransition) op"

record 's WebSocketHandler =
  wh_security :: "'s RequestSecurity option"
  wh_sessions :: "'s SessionService option"
  wh_repository :: "'s SocketRepository option"
  wh_config :: WebSocketConfig
  wh_upper :: "string \<Rightarrow> string"

text \<open>A version 4 UUID of 16 random bytes.\<close>

definition randomConnectionID :: "string result \<Rightarrow> string result" where
  "randomConnectionID read = bindR read (\<lambda>v.
     let v6 = byte (of_char (v ! 6) mod 16 + 64); v8 = byte (of_char (v ! 8) mod 64 + 128);
         encoded = concat (map hex_byte (v[6 := v6, 8 := v8]))
     in Inr (take 8 encoded @ ''-'' @ take 4 (drop 8 encoded) @ ''-'' @ take 4 (drop 12 encoded) @ ''-''
          @ take 4 (drop 16 encoded) @ ''-'' @ take 12 (drop 20 encoded)))"

section \<open>The queue\<close>

text \<open>\<open>Offer\<close> on a channel of capacity one, with the number of evictions; its three selects run undisturbed.\<close>

definition Offer :: "Snapshot \<Rightarrow> Snapshot list \<times> nat \<Rightarrow> Snapshot list \<times> nat" where
  "Offer snapshot q = (case q of ([], n) \<Rightarrow> ([snapshot], n) | (_ # rest, n) \<Rightarrow> (rest @ [snapshot], n + 1))"

section \<open>Frames\<close>

definition publicRoles :: "playerView list \<Rightarrow> (string, string) fmap" where
  "publicRoles players = fold (\<lambda>(i, p). fmupd (pv_ID p) (playerRole i)) (enumerate 0 players) fmempty"

definition publicRoom :: "roomState \<Rightarrow> json" where
  "publicRoom s = JObj ([(''room_code'', JStr (st_Code s)), (''ready'', JBool (st_Ready s)), (''resolved'', JBool (st_Resolved s)),
     (''round'', JInt (uint (st_Round s))), (''closed'', JBool (st_Closed s)), (''forfeit'', JBool (st_Forfeit s)),
     (''players'', JArr (map (\<lambda>(i, p). JObj [(''role'', JStr (playerRole i)), (''wins'', JInt (pv_Wins p)),
        (''submitted'', JBool (pv_Submitted p)), (''wants_next_round'', JBool (pv_WantsNextRound p))]) (enumerate 0 (st_Players s))))]
     @ (if st_Resolved s then omitempty ''result'' (st_Result s)
          @ omitemptyArr ''moves'' (map (\<lambda>m. JObj [(''role'', JStr (get_or '''' (publicRoles (st_Players s)) (pm_PlayerID m))),
              (''move'', JStr (pm_Move m))]) (st_Moves s))
        else []))"

definition snapshotFrame :: "Snapshot \<Rightarrow> string \<Rightarrow> string \<Rightarrow> json" where
  "snapshotFrame sn acct role = JObj [(''type'', JStr ''snapshot''), (''revision'', JInt (uint (sn_Revision sn))),
     (''room'', publicRoom (sn_State sn)),
     (''presence'', JObj (map (\<lambda>k. (k, JBool (get_or False (sn_Presence sn) k))) (sorted_list_of_fset (fmdom (sn_Presence sn))))),
     (''player'', JObj [(''account_id'', JStr acct), (''role'', JStr role)])]"

section \<open>A connection\<close>

record connection =
  cn_token :: string
  cn_admitted :: Session
  cn_role :: string
  cn_id :: string

definition revalidate :: "WebSocketConfig \<Rightarrow> 's SessionService \<Rightarrow> 's SocketRepository \<Rightarrow> connection \<Rightarrow> go_time \<Rightarrow> 's \<Rightarrow> bool \<times> 's" where
  "revalidate cfg s repo cn now st =
     (case SessionService_Authenticate (sy_sha s) (sy_store s) now (cn_token cn) st of
        (Inl _, st) \<Rightarrow> (False, st)
      | (Inr current, st) \<Rightarrow>
          if ss_AccountID current \<noteq> ss_AccountID (cn_admitted cn) \<or> ss_Digest current \<noteq> ss_Digest (cn_admitted cn) then (False, st)
          else (case sk_RenewConnection repo (cn_id cn) now (now + wc_LeaseDuration cfg) st of
              (Inl _, st) \<Rightarrow> (False, st) | (Inr _, st) \<Rightarrow> (True, st)))"

text \<open>What a turn of \<open>serveConnection\<close>'s \<open>select\<close> wakes up for, and what it does.\<close>

datatype socket_event = Stopped | ClientFrame | ReadFailed | QueuedSnapshot Snapshot bool | RevalidateTick | PingTick bool

datatype socket_outcome = Wrote json | Idle | ClosedNormally | ClosedPolicy string | ClosedNow

definition serveTurn ::
    "WebSocketConfig \<Rightarrow> 's SessionService \<Rightarrow> 's SocketRepository \<Rightarrow> connection \<Rightarrow> go_time \<times> socket_event \<Rightarrow> 's \<Rightarrow> socket_outcome \<times> 's" where
  "serveTurn cfg s repo cn te st =
     (case te of
        (now, Stopped) \<Rightarrow> (ClosedNormally, st)
      | (now, ClientFrame) \<Rightarrow> (ClosedPolicy ''WebSocket mutations are not allowed'', st)
      | (now, ReadFailed) \<Rightarrow> (ClosedNow, st)
      | (now, QueuedSnapshot sn written) \<Rightarrow>
          (case revalidate cfg s repo cn now st of
             (False, st) \<Rightarrow> (ClosedPolicy ''authorization expired'', st)
           | (True, st) \<Rightarrow> (if written then Wrote (snapshotFrame sn (ss_AccountID (cn_admitted cn)) (cn_role cn)) else ClosedNow, st))
      | (now, RevalidateTick) \<Rightarrow>
          (case revalidate cfg s repo cn now st of
             (False, st) \<Rightarrow> (ClosedPolicy ''authorization expired'', st) | (True, st) \<Rightarrow> (Idle, st))
      | (now, PingTick answered) \<Rightarrow> (if answered then Idle else ClosedNow, st))"

fun goes_on :: "socket_outcome \<Rightarrow> bool" where
  "goes_on (Wrote f) = True" | "goes_on Idle = True" | "goes_on _ = False"

text \<open>The loop over the events that arrive while it runs. Between two turns the rest of the program acts on the state: \<open>others\<close>.\<close>

fun serveConnection ::
    "WebSocketConfig \<Rightarrow> 's SessionService \<Rightarrow> 's SocketRepository \<Rightarrow> connection \<Rightarrow> (('s \<Rightarrow> 's) \<times> go_time \<times> socket_event) list \<Rightarrow> 's
     \<Rightarrow> socket_outcome list \<times> 's" where
  "serveConnection cfg s repo cn [] st = ([], st)"
| "serveConnection cfg s repo cn ((others, te) # rest) st =
     (case serveTurn cfg s repo cn te (others st) of
        (r, st) \<Rightarrow> if goes_on r then (case serveConnection cfg s repo cn rest st of (rs, st) \<Rightarrow> (r # rs, st)) else ([r], st))"

section \<open>Admission and clean-up\<close>

text \<open>\<open>full\<close>: the registry has no free place; \<open>stopping\<close>: \<open>Shutdown\<close> has begun. An admitted request has its
  session, role and room.\<close>

definition admit :: "'s WebSocketHandler \<Rightarrow> bool \<Rightarrow> bool \<Rightarrow> http_request \<Rightarrow> response \<Rightarrow> 's \<Rightarrow> (response + string \<times> Session \<times> string \<times> string) \<times> 's" where
  "admit h full stopping r w st =
     (case (wh_security h, wh_sessions h, wh_repository h) of
        (Some sec, Some s, Some repo) \<Rightarrow>
          if \<not> ValidateOrigin sec r then (Inl (http_Error ''Forbidden'' 403 w), st)
          else (case Cookie SessionCookieName r of
              None \<Rightarrow> (Inl (http_Error ''Unauthorized'' 401 w), st)
            | Some token \<Rightarrow>
                if token = '''' then (Inl (http_Error ''Unauthorized'' 401 w), st)
                else (case authenticate s 0 token st of
                    (Inl _, st) \<Rightarrow> (Inl (http_Error ''Unauthorized'' 401 w), st)
                  | (Inr session, st) \<Rightarrow>
                      (let roomID = ToUpper (wh_upper h) (TrimSpace (rq_Code r)) in
                       case sk_AuthorizeRoom repo roomID (ss_AccountID session) st of
                         (Inl _, st) \<Rightarrow> (Inl (http_Error ''Not Found'' 404 w), st)
                       | (Inr role, st) \<Rightarrow>
                           if roomID = '''' \<or> role = '''' then (Inl (http_Error ''Not Found'' 404 w), st)
                           else if full \<or> stopping then (Inl (http_Error ''Service Unavailable'' 503 w), st)
                           else (Inr (token, session, role, roomID), st))))
      | _ \<Rightarrow> (Inl (http_Error ''Forbidden'' 403 w), st))"

text \<open>What the environment of one request decides: the upgrade, the hub's two answers, the connection id, the instants of
  opening and closing, and the events of the loop.\<close>

record 's socket_world =
  sw_accepted :: bool
  sw_acquired :: bool
  sw_reconciled :: bool
  sw_id :: "string result"
  sw_opened :: go_time
  sw_closed :: go_time
  sw_events :: "(('s \<Rightarrow> 's) \<times> go_time \<times> socket_event) list"

text \<open>\<open>closeLease\<close>: the error, if any, is kept for \<open>Shutdown\<close>.\<close>

definition closeLease :: "'s SocketRepository \<Rightarrow> string \<Rightarrow> go_time \<Rightarrow> 's \<Rightarrow> go_error list \<times> 's" where
  "closeLease repo i now st = (case sk_CloseConnection repo i now st of (Inl e, st) \<Rightarrow> ([e], st) | (Inr _, st) \<Rightarrow> ([], st))"

datatype socket_result = Refused response | Dropped | SetupFailed | Served "socket_outcome list"

definition connect ::
    "'s WebSocketHandler \<Rightarrow> 's SessionService \<Rightarrow> 's SocketRepository \<Rightarrow> 's socket_world \<Rightarrow> string \<times> Session \<times> string \<times> string
     \<Rightarrow> 's \<Rightarrow> (socket_result \<times> go_error list) \<times> 's" where
  "connect h s repo wld adm st =
     (case adm of (token, session, role, roomID) \<Rightarrow>
        if \<not> sw_accepted wld then ((Dropped, []), st)
        else if \<not> sw_acquired wld then ((SetupFailed, []), st)
        else (case sw_id wld of
            Inl _ \<Rightarrow> ((SetupFailed, []), st)
          | Inr i \<Rightarrow>
              (let now = sw_opened wld;
                   lease = \<lparr>cl_ID = i, cl_RoomCode = roomID, cl_AccountID = ss_AccountID session, cl_SessionDigest = ss_Digest session,
                     cl_ConnectedAt = now, cl_LeaseExpiresAt = now + wc_LeaseDuration (wh_config h)\<rparr>
               in case sk_OpenConnection repo lease st of
                    (Inl _, st) \<Rightarrow> ((SetupFailed, []), st)
                  | (Inr _, st) \<Rightarrow>
                      (if \<not> sw_reconciled wld
                       then (case closeLease repo i (sw_closed wld) st of (es, st) \<Rightarrow> ((SetupFailed, es), st))
                       else (case serveConnection (wh_config h) s repo \<lparr>cn_token = token, cn_admitted = session, cn_role = role, cn_id = i\<rparr>
                                (sw_events wld) st of
                           (rs, st) \<Rightarrow> (case closeLease repo i (sw_closed wld) st of (es, st) \<Rightarrow> ((Served rs, es), st)))))))"

definition socket_ServeHTTP ::
    "'s WebSocketHandler \<Rightarrow> bool \<Rightarrow> bool \<Rightarrow> 's socket_world \<Rightarrow> http_request \<Rightarrow> response \<Rightarrow> 's \<Rightarrow> (socket_result \<times> go_error list) \<times> 's" where
  "socket_ServeHTTP h full stopping wld r w st =
     (case admit h full stopping r w st of
        (Inl w, st) \<Rightarrow> ((Refused w, []), st)
      | (Inr adm, st) \<Rightarrow>
          (case (wh_sessions h, wh_repository h) of
             (Some s, Some repo) \<Rightarrow> connect h s repo wld adm st | _ \<Rightarrow> ((Dropped, []), st)))"

section \<open>Properties\<close>

definition pg_socket :: "db SocketRepository" where
  "pg_socket = \<lparr>sk_AuthorizeRoom = AuthorizeRoom, sk_OpenConnection = OpenConnection, sk_RenewConnection = RenewConnection,
     sk_CloseConnection = CloseConnection\<rparr>"

text \<open>The lease of a connection is open, and its session and its seat belong to one account.\<close>

definition lease_open :: "string \<Rightarrow> go_time \<Rightarrow> db \<Rightarrow> bool" where
  "lease_open i now st \<longleftrightarrow> (\<exists>c ws x. fmlookup (db_connections st) i = Some c \<and> co_closed c = None
     \<and> fmlookup (db_sessions st) (co_session c) = Some ws \<and> session_valid ws now
     \<and> fmlookup (db_seats st) (co_room c, co_role c) = Some x \<and> se_auth x = ws_account ws)"

lemma renewed_open: "RenewConnection i now until st = (Inr u, st1) \<Longrightarrow> lease_open i now st"
  by (auto simp: RenewConnection_def transaction_def thenT_def bindT_def failIf_def lease_open_def rowT_def
      split: sum.splits prod.splits option.splits if_splits)

text \<open>C14: Authorised frames. A turn of a socket's loop writes a frame only if, at that instant, the session of its cookie is neither
  expired nor revoked and still belongs to the admitted account, and the connection's lease is open on a seat of the
  account of its session; the frame is the one for that account. A frame from the client closes the socket and touches nothing.
\<close>
theorem frames_need_valid_session:
  assumes "sy_store s = pg_sessions" "serveTurn cfg s pg_socket cn (now, e) st = (r, st1)"
  shows "(\<forall>f. r = Wrote f \<longrightarrow>
       (\<exists>x st0. pg_stored st (sy_sha s (cn_token cn)) = Some x \<and> usable now x \<and> ss_AccountID x = ss_AccountID (cn_admitted cn)
          \<and> st0\<lparr>db_sessions := db_sessions st\<rparr> = st \<and> lease_open (cn_id cn) now st0
          \<and> (\<exists>sn. e = QueuedSnapshot sn True \<and> f = snapshotFrame sn (ss_AccountID (cn_admitted cn)) (cn_role cn))))
    \<and> (e = ClientFrame \<longrightarrow> st1 = st \<and> \<not> goes_on r)"
proof (intro conjI allI impI)
  fix f assume r: "r = Wrote f"
  then obtain sn where e: "e = QueuedSnapshot sn True" and val: "revalidate cfg s pg_socket cn now st = (True, st1)"
    and f: "f = snapshotFrame sn (ss_AccountID (cn_admitted cn)) (cn_role cn)"
    using assms(2) by (auto simp: serveTurn_def split: socket_event.splits prod.splits bool.splits if_splits)
  obtain y st0 where auth: "SessionService_Authenticate (sy_sha s) pg_sessions now (cn_token cn) st = (Inr y, st0)"
    "ss_AccountID y = ss_AccountID (cn_admitted cn)"
    and renew: "RenewConnection (cn_id cn) now (now + wc_LeaseDuration cfg) st0 = (Inr (), st1)"
    using val assms(1) by (auto simp: revalidate_def pg_socket_def split: sum.splits prod.splits if_splits)
  obtain x where "pg_stored st (sy_sha s (cn_token cn)) = Some x" "usable now x" "y = refreshed now (now + SessionIdleLimit) x"
    by (rule pg.authenticated [OF auth(1)])
  moreover have "st0\<lparr>db_sessions := db_sessions st\<rparr> = st"
    using auth(1) by (auto simp: SessionService_Authenticate_def pg_sessions_def pg_UseSession_def Let_def
        split: sum.splits option.splits if_splits)
  ultimately show "\<exists>x st0. pg_stored st (sy_sha s (cn_token cn)) = Some x \<and> usable now x \<and> ss_AccountID x = ss_AccountID (cn_admitted cn)
      \<and> st0\<lparr>db_sessions := db_sessions st\<rparr> = st \<and> lease_open (cn_id cn) now st0
      \<and> (\<exists>sn. e = QueuedSnapshot sn True \<and> f = snapshotFrame sn (ss_AccountID (cn_admitted cn)) (cn_role cn))"
    using auth(2) renewed_open [OF renew] e f by (auto simp: refreshed_def)
qed (use assms(2) in \<open>auto simp: serveTurn_def\<close>)

text \<open>Logout reaches the sockets. Once the session of a socket is revoked (or gone), no turn writes a frame any more, and
  the next snapshot or periodic check closes the socket with a policy violation, whatever the hub still delivers.
\<close>
theorem revoked_session_gets_no_frame:
  assumes "sy_store s = pg_sessions"
    and "\<forall>x. pg_stored st (sy_sha s (cn_token cn)) = Some x \<longrightarrow> ss_RevokedAt x \<noteq> None"
  shows "fst (serveTurn cfg s repo cn (now, e) st) \<noteq> Wrote f
    \<and> (e = RevalidateTick \<or> e = QueuedSnapshot sn ok \<longrightarrow>
        fst (serveTurn cfg s repo cn (now, e) st) = ClosedPolicy ''authorization expired'')"
proof -
  obtain res st0 where auth: "SessionService_Authenticate (sy_sha s) pg_sessions now (cn_token cn) st = (res, st0)" by fastforce
  have "isl res"
  proof (cases res)
    case (Inr y)
    obtain x where "pg_stored st (sy_sha s (cn_token cn)) = Some x" "usable now x"
      by (rule pg.authenticated [OF auth [unfolded Inr]])
    with assms(2) show ?thesis by (auto simp: usable_def)
  qed simp
  then have "revalidate cfg s repo cn now st = (False, st0)"
    using auth assms(1) by (cases res) (simp_all add: revalidate_def)
  then show ?thesis by (auto simp: serveTurn_def split: socket_event.splits)
qed

text \<open>The rest of \<open>closeConnection\<close> leaves the connections alone.\<close>

lemma keeps_connections:
  "keeps (\<lambda>st. db_connections st = cs) (advancePresenceRevision code)"
  "keeps (\<lambda>st. db_connections st = cs) (execT (\<lambda>st. insert_deadline d (set_presence code i p st)))"
  unfolding advancePresenceRevision_def bump_revision_def insert_outbox_def
  by (intro keeps_bind keeps_then keeps_if keeps_pure keeps_exec; simp add: insert_deadline_def set_presence_def split: prod.splits)+

lemma closeConnection_closes:
  assumes "closeConnectionT i t None st = Inr (tr, st1)" "fmlookup (db_connections st) i = Some c"
    and "fmlookup (db_seats st) (co_room c, co_role c) = Some x" "co_closed c = None"
  shows "db_connections st1 = fmupd i (c\<lparr>co_closed := Some t\<rparr>) (db_connections st)"
proof -
  let ?st = "st\<lparr>db_connections := fmupd i (c\<lparr>co_closed := Some t\<rparr>) (db_connections st)\<rparr>"
  let ?I = "\<lambda>st. db_connections st = db_connections ?st"
  obtain r where room: "fmlookup (db_rooms st) (co_room c) = Some r"
    using assms by (cases "fmlookup (db_rooms st) (co_room c)") (auto simp: closeConnectionT_def bindT_def Let_def)
  define k where "k = bindT (askT (role_connected (co_room c) (co_role c) t)) (\<lambda>connected.
       let transition = zeroTransition\<lparr>pt_RoomCode := co_room c, pt_Role := co_role c\<rparr> in
       if connected then returnT transition
       else bindT (askT (\<lambda>st. fmlookup (db_presence st) (co_room c, se_player_id x))) (\<lambda>presence.
         bindT (rowT ErrNoRows presence) (\<lambda>p.
         if \<not> pr_present p then returnT (transition\<lparr>pt_Generation := pr_generation p\<rparr>)
         else let generation = pr_generation p + 1; due = t + DisconnectGracePeriod in
           thenT (execT (\<lambda>st. insert_deadline
               (new_deadline (co_room c) (rm_current_round r) ''disconnect'' (co_role c) generation due)
               (set_presence (co_room c) (se_player_id x)
                  (p\<lparr>pr_present := False, pr_generation := generation, pr_deadline := due\<rparr>) st)))
          (bindT (advancePresenceRevision (co_room c)) (\<lambda>_.
           returnT (transition\<lparr>pt_Generation := generation, pt_LastSocket := True, pt_GraceDueAt := Some due\<rparr>))))))"
  have run: "k ?st = Inr (tr, st1)"
    using assms(1) unfolding k_def closeConnectionT_def Let_def by (simp only: tx_run assms(2-4) room option.simps prod.case option.map simp_thms if_False)
  have kept: "keeps ?I k" unfolding k_def Let_def by (intro keeps_bind keeps_then keeps_if keeps_pure keeps_connections)
  have "?I st1" by (rule keepsD [OF kept refl run])
  then show ?thesis by simp
qed

text \<open>C36: Leases end with their sockets. When a served connection is over and its \<open>CloseConnection\<close> succeeded, its lease is
  closed, unless its seat is gone: the presence of a player never outlives the sockets by more than what the reaper finds.
\<close>
theorem served_socket_closes_lease:
  assumes "connect h s pg_socket wld adm st = ((Served rs, []), st1)" "sw_id wld = Inr i"
    and "fmlookup (db_connections st1) i = Some c" "fmlookup (db_seats st1) (co_room c, co_role c) \<noteq> None"
  shows "co_closed c \<noteq> None"
proof -
  obtain st0 tr where "transaction (closeConnectionT i (sw_closed wld) None) st0 = (Inr tr, st1)"
    using assms(1,2) by (auto simp: connect_def Let_def closeLease_def pg_socket_def CloseConnection_def
        split: prod.splits sum.splits if_splits)
  then have run: "closeConnectionT i (sw_closed wld) None st0 = Inr (tr, st1)"
    by (auto simp: transaction_def split: sum.splits prod.splits)
  show ?thesis
  proof (cases "fmlookup (db_connections st0) i")
    case None
    with run assms(3) show ?thesis by (auto simp: closeConnectionT_def bindT_def)
  next
    case (Some c0)
    show ?thesis
    proof (cases "fmlookup (db_seats st0) (co_room c0, co_role c0)")
      case None
      with run Some assms(3,4) show ?thesis by (auto simp: closeConnectionT_def bindT_def)
    next
      case (Some x)
      have conns: "db_connections st1 = db_connections st0 \<and> co_closed c0 \<noteq> None
          \<or> fmlookup (db_connections st1) i = Some (c0\<lparr>co_closed := Some (sw_closed wld)\<rparr>)"
      proof (cases "co_closed c0")
        case None
        then show ?thesis using closeConnection_closes [OF run] \<open>fmlookup (db_connections st0) i = Some c0\<close> Some by simp
      next
        case (Some t)
        with run \<open>fmlookup (db_connections st0) i = Some c0\<close> \<open>fmlookup (db_seats st0) (co_room c0, co_role c0) = Some x\<close>
        show ?thesis by (auto simp: closeConnectionT_def bindT_def rowT_def Let_def split: option.splits)
      qed
      then show ?thesis using assms(3) \<open>fmlookup (db_connections st0) i = Some c0\<close> by auto
    qed
  qed
qed

section \<open>Witnesses\<close>

definition ana_row :: "go_time option \<Rightarrow> session_row" where
  "ana_row revoked = \<lparr>ws_account = ''ana'', ws_csrf = pad_digest ana_csrf, ws_created = 0, ws_seen = 0, ws_idle = 24 * Hour,
     ws_absolute = 720 * Hour, ws_revoked = revoked\<rparr>"

definition ana_online :: "go_time option \<Rightarrow> db" where
  "ana_online revoked = created_db\<lparr>db_sessions := fmupd (pad_digest ana_token) (ana_row revoked) fmempty,
     db_connections := fmupd ''c1'' \<lparr>co_session = pad_digest ana_token, co_room = ''R'', co_role = ''host'', co_lease = 60 * Second,
       co_closed = None\<rparr> fmempty\<rparr>"

definition ana_connection :: connection where
  "ana_connection = \<lparr>cn_token = ana_token, cn_admitted = session_of (pad_digest ana_token) (ana_row None), cn_role = ''host'', cn_id = ''c1''\<rparr>"

definition default_socket :: WebSocketConfig where
  "default_socket = NewWebSocketConfig \<lparr>wc_MaxConnections = 0, wc_ReadLimit = 0, wc_WriteTimeout = 0, wc_OperationTimeout = 0,
     wc_RevalidateInterval = 0, wc_LeaseDuration = 0, wc_PingInterval = 0\<rparr>"

lemma ana_seat: "\<exists>x. fmlookup (db_seats created_db) (''R'', ''host'') = Some x \<and> se_auth x = ''ana''"
proof -
  have "map_option se_auth (fmlookup (db_seats created_db) (''R'', ''host'')) = Some ''ana''" by code_simp
  then show ?thesis by auto
qed

lemma ana_frame: "fst (serveTurn default_socket ana_browser pg_socket ana_connection (Second, QueuedSnapshot zeroSnapshot True) (ana_online None))
    = Wrote (snapshotFrame zeroSnapshot ''ana'' ''host'')"
  using ana_seat by (auto simp: serveTurn_def revalidate_def default_socket_def NewWebSocketConfig_def positiveOr_def ana_browser_def
      pg_socket_def ana_connection_def SessionService_Authenticate_def session_eval ana_online_def ana_row_def session_of_def
      SessionIdleLimit_def RenewConnection_def transaction_def tx_run session_valid_def)

theorem frames_need_valid_session_witness:
  "\<exists>x. pg_stored (ana_online None) (pad_digest ana_token) = Some x \<and> usable Second x"
proof -
  have "sy_store ana_browser = pg_sessions" "sy_sha ana_browser = pad_digest" "cn_token ana_connection = ana_token"
    by (simp_all add: ana_browser_def ana_connection_def)
  with frames_need_valid_session [OF this(1) surjective_pairing, of default_socket ana_connection Second "QueuedSnapshot zeroSnapshot True"
      "ana_online None"] ana_frame show ?thesis by auto
qed

theorem revoked_session_gets_no_frame_witness:
  "fst (serveTurn default_socket ana_browser pg_socket ana_connection (Second, QueuedSnapshot zeroSnapshot True) (ana_online (Some 0)))
     = ClosedPolicy ''authorization expired''"
proof -
  have "sy_store ana_browser = pg_sessions" by (simp add: ana_browser_def)
  moreover have "\<forall>x. pg_stored (ana_online (Some 0)) (sy_sha ana_browser (cn_token ana_connection)) = Some x \<longrightarrow> ss_RevokedAt x \<noteq> None"
    by (simp add: ana_browser_def ana_connection_def ana_online_def pg_stored_def session_of_def ana_row_def)
  ultimately show ?thesis
    using revoked_session_gets_no_frame [where s = ana_browser and cn = ana_connection and st = "ana_online (Some 0)"] by simp
qed

definition ana_world :: "db socket_world" where
  "ana_world = \<lparr>sw_accepted = True, sw_acquired = True, sw_reconciled = True, sw_id = Inr ''c2'', sw_opened = Second, sw_closed = 2 * Second,
     sw_events = [(id, Second, ClientFrame)]\<rparr>"

definition ana_served :: "(socket_result \<times> go_error list) \<times> db" where
  "ana_served = connect \<lparr>wh_security = None, wh_sessions = None, wh_repository = None, wh_config = default_socket, wh_upper = id\<rparr>
     \<lparr>sy_store = pg_sessions, sy_random = (\<lambda>_. Inr ''''), sy_now = (\<lambda>_. 0), sy_sha = id\<rparr> pg_socket ana_world
     (''t'', \<lparr>ss_Digest = ''d1'', ss_CSRFDigest = '''', ss_AccountID = ''ana'', ss_CreatedAt = 0, ss_LastSeenAt = 0, ss_IdleExpiresAt = 0,
        ss_AbsoluteExpiresAt = 0, ss_RevokedAt = None\<rparr>, ''host'', ''R'')
     (created_db\<lparr>db_sessions := fmupd ''d1'' \<lparr>ws_account = ''ana'', ws_csrf = '''', ws_created = 0, ws_seen = 0,
        ws_idle = 24 * Hour, ws_absolute = 720 * Hour, ws_revoked = None\<rparr> fmempty\<rparr>)"

fun outcomes :: "socket_result \<Rightarrow> socket_outcome list option" where
  "outcomes (Served rs) = Some rs"
| "outcomes _ = None"

lemma ana_served_run:
  "outcomes (fst (fst ana_served)) = Some [ClosedPolicy ''WebSocket mutations are not allowed'']" "snd (fst ana_served) = []"
  "map_option (\<lambda>c. (co_room c, co_role c)) (fmlookup (db_connections (snd ana_served)) ''c2'') = Some (''R'', ''host'')"
  "fmlookup (db_seats (snd ana_served)) (''R'', ''host'') \<noteq> None"
  by code_simp+

theorem served_socket_closes_lease_witness:
  "\<exists>c. fmlookup (db_connections (snd ana_served)) ''c2'' = Some c \<and> co_closed c \<noteq> None"
proof -
  obtain c where c: "fmlookup (db_connections (snd ana_served)) ''c2'' = Some c" "co_room c = ''R''" "co_role c = ''host''"
    using ana_served_run(3) by auto
  have "ana_served = ((Served [ClosedPolicy ''WebSocket mutations are not allowed''], []), snd ana_served)"
    using ana_served_run(1,2) by (cases "fst (fst ana_served)") (simp_all add: prod_eq_iff)
  from served_socket_closes_lease [OF trans [OF ana_served_def [symmetric] this] _ c(1)] c ana_served_run(4) show ?thesis
    by (auto simp: ana_world_def)
qed

end
