(* ===== verification/Realtime_Redis.thy ===== *)
theory Realtime_Redis
  imports Realtime_Hub
begin

text \<open>
  The subscription of a room to Redis, \<open>internal/realtime/redis.go\<close>: the loop of \<open>runSubscription\<close> as one turn per answer
  of the client library, with the effects it has on its caller, its handler and its observer. Pings, timers and
  the closing of connections are network I/O.
\<close>

section \<open>The loop\<close>

text \<open>Where the loop waits: for a new subscription, for a message, for the retry delay, or not at all.\<close>

datatype phase = Subscribing | Receiving | Retrying | Ended

text \<open>The answers: of \<open>pubsub.Receive\<close>, of \<open>ReceiveMessage\<close> and of \<open>waitForRetry\<close>; \<open>Cancelled\<close> is the end of the context.\<close>

datatype redis_answer =
    Received "go_error option"
  | Message "(string \<times> string) result"
  | Waited bool
  | Cancelled

datatype redis_effect = Confirmed "go_error option" | Handled SubscriptionEvent | RedisReconnect | RedisFailure

definition hinted :: "RevisionHint \<Rightarrow> SubscriptionEvent" where
  "hinted hint = \<lparr>ev_Hint = Some hint, ev_Reconnected = False\<rparr>"

definition reconnected :: SubscriptionEvent where
  "reconnected = \<lparr>ev_Hint = None, ev_Reconnected = True\<rparr>"

text \<open>The state is the phase and the variable \<open>first\<close>.\<close>

fun subscriptionTurn ::
    "(string \<Rightarrow> RevisionHint option) \<Rightarrow> redis_answer \<Rightarrow> phase \<times> bool \<Rightarrow> (phase \<times> bool) \<times> redis_effect list" where
  "subscriptionTurn decode Cancelled (p, first) = ((Ended, first), [])"
| "subscriptionTurn decode (Received (Some e)) (Subscribing, first) =
     (if first then ((Ended, first), [RedisFailure, Confirmed (Some e)]) else ((Retrying, first), [RedisFailure]))"
| "subscriptionTurn decode (Received None) (Subscribing, first) =
     ((Receiving, False), if first then [Confirmed None] else [RedisReconnect, Handled reconnected])"
| "subscriptionTurn decode (Message (Inl e)) (Receiving, first) = ((Retrying, first), [])"
| "subscriptionTurn decode (Message (Inr (channel, payload))) (Receiving, first) =
     ((Receiving, first), case DecodeRevisionHint decode channel payload of Inl _ \<Rightarrow> [] | Inr hint \<Rightarrow> [Handled (hinted hint)])"
| "subscriptionTurn decode (Waited go) (Retrying, first) = ((if go then Subscribing else Ended, first), [])"
| "subscriptionTurn decode answer state = (state, [])"

fun runSubscription ::
    "(string \<Rightarrow> RevisionHint option) \<Rightarrow> redis_answer list \<Rightarrow> phase \<times> bool \<Rightarrow> (phase \<times> bool) \<times> redis_effect list" where
  "runSubscription decode [] s = (s, [])"
| "runSubscription decode (a # answers) s =
     (case subscriptionTurn decode a s of (s, es) \<Rightarrow> (case runSubscription decode answers s of (s, fs) \<Rightarrow> (s, es @ fs)))"

text \<open>\<open>SubscribeRoom\<close> starts the loop and returns the first confirmation, or the error of its own context.\<close>

fun first_confirmed :: "redis_effect list \<Rightarrow> go_error option option" where
  "first_confirmed [] = None"
| "first_confirmed (Confirmed r # es) = Some r"
| "first_confirmed (_ # es) = first_confirmed es"

definition SubscribeRoom ::
    "(string \<Rightarrow> RevisionHint option) \<Rightarrow> go_error \<Rightarrow> string \<Rightarrow> redis_answer list \<Rightarrow> unit result \<times> redis_effect list" where
  "SubscribeRoom decode ctxErr roomID answers =
     (if roomID = '''' then (Inl (Err ErrInvalidRevisionHint), [])
      else let es = snd (runSubscription decode answers (Subscribing, True)) in
        ((case first_confirmed es of None \<Rightarrow> Inl ctxErr | Some (Some e) \<Rightarrow> Inl e | Some None \<Rightarrow> Inr ()), es))"

definition NewRedisTransport :: "duration \<Rightarrow> duration" where
  "NewRedisTransport delay = (if delay \<le> 0 then Second else delay)"

section \<open>Properties\<close>

text \<open>The first event that the handler is called with.\<close>

fun first_handled :: "redis_effect list \<Rightarrow> SubscriptionEvent option" where
  "first_handled [] = None"
| "first_handled (Handled e # es) = Some e"
| "first_handled (_ # es) = first_handled es"

lemma after_gap:
  "p \<noteq> Receiving \<Longrightarrow> first_handled (snd (runSubscription decode answers (p, False))) \<in> {None, Some reconnected}"
proof (induction answers arbitrary: p)
  case (Cons a answers)
  show ?case
  proof (cases "\<exists>q. subscriptionTurn decode a (p, False) = ((q, False), []) \<and> q \<noteq> Receiving")
    case True
    then obtain q where q: "subscriptionTurn decode a (p, False) = ((q, False), [])" "q \<noteq> Receiving" by blast
    from Cons.IH [OF q(2)] show ?thesis by (simp add: q(1) split: prod.splits)
  next
    case False
    then consider "p = Subscribing" "a = Received None" | e where "p = Subscribing" "a = Received (Some e)"
      using Cons.prems by (cases a; cases p) (auto split: option.splits if_splits)
    then show ?thesis
    proof cases
      case 2
      then show ?thesis using Cons.IH [of Retrying] by (auto split: prod.splits)
    qed (auto split: prod.splits)
  qed
qed simp

text \<open>Missed hints are made up. When the connection of a subscription breaks, the first thing the hub hears after it is
  the event of the reconnection, before any hint, and that event makes the hub reload the room whatever revision it holds;
  so the hints published in the gap need not be received.
\<close>
theorem resubscription_reloads:
  assumes "fst (subscriptionTurn decode (Message (Inl e)) (Receiving, first)) = s" "first = False"
  shows "first_handled (snd (runSubscription decode answers s)) \<in> {None, Some reconnected}
    \<and> handleEvent roomID reconnected = Some (0, True)
    \<and> (fmlookup (hb_rooms h) roomID = Some room \<longrightarrow> needsReload roomID 0 True h)"
  using assms after_gap [of Retrying decode answers] by (auto simp: handleEvent_def reconnected_def needsReload_def)

theorem resubscription_reloads_witness:
  "first_handled (snd (runSubscription (\<lambda>_. None) [Waited True, Received None] (Retrying, False))) = Some reconnected
   \<and> first_handled (snd (runSubscription (\<lambda>_. None) [Waited True, Received None] (Retrying, False))) \<in> {None, Some reconnected}"
  using resubscription_reloads [of "\<lambda>_. None" "ErrText ''EOF''" False "(Retrying, False)" "[Waited True, Received None]"] by simp

end
