(* ===== verification/Latency_Observer.thy ===== *)
theory Latency_Observer
  imports Http_Logging
begin

text \<open>
  The latency observer, \<open>internal/latency\<close>: thresholds from the environment, the operation a request carries in its context, the
  traces of queries and pool acquisitions, and the lines they log. Durations are exact numbers of nanoseconds (a line
  prints them as \<open>float64\<close> milliseconds), clock readings are arguments, and the digest of \<open>crypto/sha256\<close>, the case
  mapping of non-ASCII text and \<open>time.ParseDuration\<close> are parameters.
\<close>

section \<open>Configuration\<close>

record latency_config =
  lc_SlowQueryThreshold :: duration
  lc_SlowOperationThreshold :: duration

definition DefaultSlowQueryThreshold :: duration where "DefaultSlowQueryThreshold = 250 * Millisecond"
definition DefaultSlowOperationThreshold :: duration where "DefaultSlowOperationThreshold = 2 * Second"

text \<open>\<open>quoted\<close> is the \<open>%q\<close> of \<open>fmt\<close>.\<close>

definition positiveDuration ::
    "(string \<Rightarrow> duration option) \<Rightarrow> (string \<Rightarrow> string) \<Rightarrow> (string \<Rightarrow> string) \<Rightarrow> string \<Rightarrow> duration \<Rightarrow> duration result" where
  "positiveDuration ParseDuration quoted lookup name fallback =
     (let raw = lookup name in
      if raw = '''' then Inr fallback
      else case ParseDuration raw of
        Some v \<Rightarrow> if v \<le> 0 then Inl (ErrText (name @ '' must be a positive Go duration, got '' @ quoted raw)) else Inr v
      | None \<Rightarrow> Inl (ErrText (name @ '' must be a positive Go duration, got '' @ quoted raw)))"

definition ConfigFromEnv ::
    "(string \<Rightarrow> duration option) \<Rightarrow> (string \<Rightarrow> string) \<Rightarrow> (string \<Rightarrow> string) \<Rightarrow> latency_config result" where
  "ConfigFromEnv ParseDuration quoted lookup =
     bindR (positiveDuration ParseDuration quoted lookup ''SLOW_QUERY_THRESHOLD'' DefaultSlowQueryThreshold) (\<lambda>query.
     bindR (positiveDuration ParseDuration quoted lookup ''SLOW_OPERATION_THRESHOLD'' DefaultSlowOperationThreshold) (\<lambda>operation.
       Inr \<lparr>lc_SlowQueryThreshold = query, lc_SlowOperationThreshold = operation\<rparr>))"

section \<open>Operations and phases\<close>

definition commandPhases :: "string list" where
  "commandPhases = [''authentication'', ''pool_begin_transaction'', ''idempotency_lock_receipt'', ''room_lock'', ''aggregate_load'',
     ''domain_mutation'', ''persistence_wallet_settlement'', ''outbox_receipt'', ''commit'']"

record operation =
  op_requestID :: string
  op_name :: string
  op_started :: go_time
  op_queryCount :: int
  op_queryDuration :: duration
  op_queryErrors :: int
  op_acquireCount :: int
  op_acquireWait :: duration
  op_acquireErrors :: int
  op_lockDuration :: duration
  op_phases :: "(string, duration) fmap"

definition StartOperation :: "string \<Rightarrow> string \<Rightarrow> go_time \<Rightarrow> operation" where
  "StartOperation requestID name now =
     \<lparr>op_requestID = requestID, op_name = name, op_started = now, op_queryCount = 0, op_queryDuration = 0, op_queryErrors = 0,
      op_acquireCount = 0, op_acquireWait = 0, op_acquireErrors = 0, op_lockDuration = 0,
      op_phases = fold (\<lambda>phase. fmupd phase 0) commandPhases fmempty\<rparr>"

text \<open>The function that \<open>StartPhase\<close> returns: it adds to the operation of its context, if there is one, the first time it is
  called. The flag is its \<open>sync.Once\<close>.\<close>

definition finishPhase :: "string \<Rightarrow> go_time \<Rightarrow> go_time \<Rightarrow> bool \<times> operation option \<Rightarrow> bool \<times> operation option" where
  "finishPhase name started now x =
     (case x of
        (False, Some op) \<Rightarrow> (True, Some (op\<lparr>op_phases := fmupd name (get_or 0 (op_phases op) name + time_Sub now started) (op_phases op)\<rparr>))
      | _ \<Rightarrow> x)"

section \<open>Queries\<close>

fun Contains :: "string \<Rightarrow> string \<Rightarrow> bool" where
  "Contains [] sub = (sub = [])"
| "Contains (c # s) sub = (take (length sub) (c # s) = sub \<or> Contains s sub)"

definition queryFingerprint :: "(string \<Rightarrow> string) \<Rightarrow> string \<Rightarrow> string" where
  "queryFingerprint sha sql = ''query_'' @ concat (map hex_byte (take 6 (sha sql)))"

definition classifyQuery :: "(string \<Rightarrow> string) \<Rightarrow> (string \<Rightarrow> string) \<Rightarrow> string \<Rightarrow> string" where
  "classifyQuery sha upper sql =
     (let normalized = ToUpper upper sql in
      if Contains normalized ''PG_ADVISORY_XACT_LOCK'' then ''advisory_lock_wait''
      else if Contains normalized ''LOCK TABLE'' then ''table_lock_wait''
      else if Contains normalized ''FOR UPDATE'' then ''row_lock_statement''
      else queryFingerprint sha sql)"

definition isLockQuery :: "string \<Rightarrow> bool" where
  "isLockQuery name \<longleftrightarrow> name \<in> {''idempotency_lock_wait'', ''room_lock_wait'', ''wallet_lock_wait'', ''advisory_lock_wait'',
     ''table_lock_wait'', ''row_lock_statement''}"

text \<open>An error of the database driver: its text, its Go type, the code of a \<open>pgconn.PgError\<close>, and whether it is \<open>pgx.ErrNoRows\<close>.\<close>

record db_error =
  de_Text :: string
  de_Type :: string
  de_Code :: "string option"
  de_NoRows :: bool

definition safeErrorAttrs :: "db_error option \<Rightarrow> (string \<times> string option) option" where
  "safeErrorAttrs err = map_option (\<lambda>e. (de_Type e, de_Code e)) err"

text \<open>The log lines, with the fields of their attributes. \<open>'p\<close> is what \<open>pgxpool\<close> reports of the pool.\<close>

datatype 'p latency_line =
    QueryLine string string string duration bool bool "(string \<times> string option) option"
  | AcquireLine string string duration bool bool "(string \<times> string option) option"
  | OperationLine operation int duration bool "'p option"

record queryTrace =
  qt_started :: go_time
  qt_name :: string

text \<open>The name a context carries is empty when \<open>WithQueryName\<close> was not used.\<close>

definition TraceQueryStart :: "(string \<Rightarrow> string) \<Rightarrow> (string \<Rightarrow> string) \<Rightarrow> string \<Rightarrow> string \<Rightarrow> go_time \<Rightarrow> queryTrace" where
  "TraceQueryStart sha upper named sql now =
     \<lparr>qt_started = now, qt_name = (if named = '''' then classifyQuery sha upper sql else named)\<rparr>"

definition query_failed :: "db_error option \<Rightarrow> bool" where
  "query_failed err = (case err of None \<Rightarrow> False | Some e \<Rightarrow> \<not> de_NoRows e)"

definition countQuery :: "string \<Rightarrow> duration \<Rightarrow> bool \<Rightarrow> operation \<Rightarrow> operation" where
  "countQuery name took failed op =
     op\<lparr>op_queryCount := op_queryCount op + 1, op_queryDuration := op_queryDuration op + took,
        op_queryErrors := op_queryErrors op + (if failed then 1 else 0),
        op_lockDuration := op_lockDuration op + (if isLockQuery name then took else 0)\<rparr>"

definition identified :: "operation option \<Rightarrow> string \<times> string" where
  "identified op = (case op of None \<Rightarrow> ('''', '''') | Some op \<Rightarrow> (op_requestID op, op_name op))"

definition TraceQueryEnd ::
    "latency_config \<Rightarrow> queryTrace option \<Rightarrow> go_time \<Rightarrow> db_error option \<Rightarrow> operation option \<Rightarrow> operation option \<times> 'p latency_line list" where
  "TraceQueryEnd cfg trace now err op =
     (case trace of
        None \<Rightarrow> (op, [])
      | Some t \<Rightarrow>
          (let took = time_Sub now (qt_started t); failed = query_failed err;
               (requestID, operationName) = identified op in
           (map_option (countQuery (qt_name t) took failed) op,
            if took < lc_SlowQueryThreshold cfg \<and> \<not> failed then []
            else [QueryLine requestID operationName (qt_name t) took (lc_SlowQueryThreshold cfg \<le> took) failed
                    (if failed then safeErrorAttrs err else None)])))"

section \<open>Acquisitions and the end of an operation\<close>

definition TraceAcquireEnd ::
    "latency_config \<Rightarrow> go_time option \<Rightarrow> go_time \<Rightarrow> db_error option \<Rightarrow> operation option \<Rightarrow> operation option \<times> 'p latency_line list" where
  "TraceAcquireEnd cfg started now err op =
     (case started of
        None \<Rightarrow> (op, [])
      | Some t \<Rightarrow>
          (let took = time_Sub now t; (requestID, operationName) = identified op in
           (map_option (\<lambda>op. op\<lparr>op_acquireCount := op_acquireCount op + 1, op_acquireWait := op_acquireWait op + took,
              op_acquireErrors := op_acquireErrors op + (if err = None then 0 else 1)\<rparr>) op,
            if took < lc_SlowQueryThreshold cfg \<and> err = None then []
            else [AcquireLine requestID operationName took (lc_SlowQueryThreshold cfg \<le> took) (err \<noteq> None) (safeErrorAttrs err)])))"

definition finishOperation :: "latency_config \<Rightarrow> 'p option \<Rightarrow> operation \<Rightarrow> int \<Rightarrow> go_time \<Rightarrow> 'p latency_line" where
  "finishOperation cfg pool op status now =
     (let took = time_Sub now (op_started op) in OperationLine op status took (lc_SlowOperationThreshold cfg \<le> took) pool)"

text \<open>\<open>finishObservedOperation\<close> in the router: the status that is reported, also when the handler panics; the panic goes on.\<close>

definition observedStatus :: "go_error option \<Rightarrow> int \<Rightarrow> int" where
  "observedStatus panic status = (if status \<noteq> 0 then status else if panic \<noteq> None then 500 else 200)"

text \<open>What happens to the operation of a request while its handler runs.\<close>

datatype latency_event =
    QueryEnded "queryTrace option" go_time "db_error option" | AcquireEnded "go_time option" go_time "db_error option"
  | PhaseEnded string go_time go_time bool

fun latency_step :: "latency_config \<Rightarrow> latency_event \<Rightarrow> operation option \<times> 'p latency_line list \<Rightarrow> operation option \<times> 'p latency_line list" where
  "latency_step cfg (QueryEnded t now err) (op, ls) = (case TraceQueryEnd cfg t now err op of (op, new) \<Rightarrow> (op, ls @ new))"
| "latency_step cfg (AcquireEnded t now err) (op, ls) = (case TraceAcquireEnd cfg t now err op of (op, new) \<Rightarrow> (op, ls @ new))"
| "latency_step cfg (PhaseEnded name started now done) (op, ls) = (snd (finishPhase name started now (done, op)), ls)"

text \<open>\<open>observed\<close>, and the same lines of \<open>protected\<close>: the handler runs with the operation, and its end is logged.\<close>

definition observed ::
    "latency_config \<Rightarrow> 'p option \<Rightarrow> string \<Rightarrow> go_time \<Rightarrow> go_time
     \<Rightarrow> (http_request \<Rightarrow> response \<Rightarrow> 's \<Rightarrow> (go_error option \<times> response \<times> latency_event list) \<times> 's)
     \<Rightarrow> http_request \<Rightarrow> response \<Rightarrow> 's \<Rightarrow> (go_error option \<times> response \<times> 'p latency_line list) \<times> 's" where
  "observed cfg pool name t0 t1 handle r w st =
     (case handle r w st of ((panic, w, es), st) \<Rightarrow>
        case fold (latency_step cfg) es (Some (StartOperation (rq_ID r) name t0), []) of (op, ls) \<Rightarrow>
          ((panic, w, ls @ [finishOperation cfg pool (the op) (observedStatus panic (rs_Status w)) t1]), st))"

section \<open>What a log line can show of a query\<close>

definition error_shape :: "db_error option \<Rightarrow> (string \<times> string option \<times> bool) option" where
  "error_shape err = map_option (\<lambda>e. (de_Type e, de_Code e, de_NoRows e)) err"

lemma shape_eqD:
  "error_shape a = error_shape b \<Longrightarrow> query_failed a = query_failed b \<and> safeErrorAttrs a = safeErrorAttrs b"
  by (cases a; cases b) (simp_all add: error_shape_def query_failed_def safeErrorAttrs_def)

lemma hex_digit_chars: "n < 16 \<Longrightarrow> hex_digit n \<in> set ''0123456789abcdef''"
proof -
  assume "n < 16"
  moreover have "list_all (\<lambda>n. hex_digit n \<in> set ''0123456789abcdef'') [0..<16]" by code_simp
  ultimately show ?thesis by (simp add: list_all_iff del: set_simps)
qed

lemma hex_bytes:
  assumes "\<And>n. n < 16 \<Longrightarrow> hex_digit n \<in> H"
  shows "length (concat (map hex_byte bs)) = 2 * length bs \<and> set (concat (map hex_byte bs)) \<subseteq> H"
proof (induction bs)
  case (Cons b bs)
  have "of_char b div 16 < (16 :: nat)" using of_char_mod_256 [of b, where 'a = nat] by (simp add: less_mult_imp_div_less)
  with Cons show ?case by (simp add: hex_byte_def assms)
qed simp

text \<open>C27: Nothing of a statement is logged. A query that the code did not name is logged as one of three lock classes or as the first
  six bytes of a digest, and two statements of one class with errors of one kind and code give the same lines and the
  same counts, whatever their text, parameters and messages are.
\<close>
theorem query_lines_carry_no_sql:
  assumes "\<forall>s. length (sha s) = 32"
  shows "(classifyQuery sha upper sql \<in> {''advisory_lock_wait'', ''table_lock_wait'', ''row_lock_statement''}
       \<or> (\<exists>h. classifyQuery sha upper sql = ''query_'' @ h \<and> length h = 12 \<and> set h \<subseteq> set ''0123456789abcdef''))
    \<and> (classifyQuery sha upper sql = classifyQuery sha upper sql1 \<longrightarrow> error_shape e = error_shape e1 \<longrightarrow>
        TraceQueryEnd cfg (Some (TraceQueryStart sha upper named sql t)) now e op
          = TraceQueryEnd cfg (Some (TraceQueryStart sha upper named sql1 t)) now e1 op)"
proof (intro conjI impI)
  have "length (take 6 (sha sql)) = 6" using assms by simp
  with hex_bytes [of "set ''0123456789abcdef''" "take 6 (sha sql)", OF hex_digit_chars] show "classifyQuery sha upper sql \<in> {''advisory_lock_wait'', ''table_lock_wait'', ''row_lock_statement''}
       \<or> (\<exists>h. classifyQuery sha upper sql = ''query_'' @ h \<and> length h = 12 \<and> set h \<subseteq> set ''0123456789abcdef'')"
    by (simp add: classifyQuery_def queryFingerprint_def Let_def del: set_simps)
next
  assume "classifyQuery sha upper sql = classifyQuery sha upper sql1" "error_shape e = error_shape e1"
  with shape_eqD [of e e1] show "TraceQueryEnd cfg (Some (TraceQueryStart sha upper named sql t)) now e op
          = TraceQueryEnd cfg (Some (TraceQueryStart sha upper named sql1 t)) now e1 op"
    by (auto simp: TraceQueryEnd_def TraceQueryStart_def Let_def split: prod.splits)
qed

section \<open>What an operation adds up\<close>

definition queries :: "latency_event list \<Rightarrow> (string \<times> duration \<times> bool) list" where
  "queries es = concat (map (\<lambda>e. case e of QueryEnded (Some t) now err \<Rightarrow> [(qt_name t, time_Sub now (qt_started t), query_failed err)]
     | _ \<Rightarrow> []) es)"

definition acquisitions :: "latency_event list \<Rightarrow> (duration \<times> bool) list" where
  "acquisitions es = concat (map (\<lambda>e. case e of AcquireEnded (Some t) now err \<Rightarrow> [(time_Sub now t, err \<noteq> None)] | _ \<Rightarrow> []) es)"

definition phases :: "string \<Rightarrow> latency_event list \<Rightarrow> duration list" where
  "phases p es = concat (map (\<lambda>e. case e of PhaseEnded name started now False \<Rightarrow>
     if name = p then [time_Sub now started] else [] | _ \<Rightarrow> []) es)"

lemma event_lists:
  "queries (e # es) = queries [e] @ queries es" "acquisitions (e # es) = acquisitions [e] @ acquisitions es"
  "phases p (e # es) = phases p [e] @ phases p es"
  by (simp_all add: queries_def acquisitions_def phases_def)

text \<open>An operation after the events \<open>es\<close>, from what it was before.\<close>

definition adds_up :: "operation \<Rightarrow> latency_event list \<Rightarrow> operation \<Rightarrow> bool" where
  "adds_up op0 es op \<longleftrightarrow> op_requestID op = op_requestID op0 \<and> op_name op = op_name op0 \<and> op_started op = op_started op0
    \<and> op_queryCount op = op_queryCount op0 + int (length (queries es))
    \<and> op_queryDuration op = op_queryDuration op0 + sum_list (map (\<lambda>(n, d, f). d) (queries es))
    \<and> op_queryErrors op = op_queryErrors op0 + int (length (filter (\<lambda>(n, d, f). f) (queries es)))
    \<and> op_lockDuration op = op_lockDuration op0 + sum_list (map (\<lambda>(n, d, f). if isLockQuery n then d else 0) (queries es))
    \<and> op_acquireCount op = op_acquireCount op0 + int (length (acquisitions es))
    \<and> op_acquireWait op = op_acquireWait op0 + sum_list (map fst (acquisitions es))
    \<and> op_acquireErrors op = op_acquireErrors op0 + int (length (filter snd (acquisitions es)))
    \<and> (\<forall>p. get_or 0 (op_phases op) p = get_or 0 (op_phases op0) p + sum_list (phases p es))"

lemma adds_up_step:
  obtains op1 ls1 where "latency_step cfg e (Some op, ls) = (Some op1, ls1)" "adds_up op [e] op1"
proof (cases e)
  case (QueryEnded t now err)
  with that show thesis by (cases t) (auto simp: adds_up_def queries_def acquisitions_def phases_def TraceQueryEnd_def countQuery_def identified_def Let_def)
next
  case (AcquireEnded t now err)
  with that show thesis by (cases t) (auto simp: adds_up_def queries_def acquisitions_def phases_def TraceAcquireEnd_def identified_def Let_def)
next
  case (PhaseEnded name t now over)
  with that show thesis by (cases over) (auto simp: adds_up_def queries_def acquisitions_def phases_def finishPhase_def fmap_simps)
qed

lemma adds_up_trans: "adds_up a [e] b \<Longrightarrow> adds_up b es c \<Longrightarrow> adds_up a (e # es) c"
  unfolding adds_up_def by (simp only: event_lists(1,2) [of e es] event_lists(3) [of _ e es] map_append filter_append length_append sum_list_append of_nat_add) simp

lemma adds_up_all: "\<exists>op1 ls1. fold (latency_step cfg) es (Some op, ls) = (Some op1, ls1) \<and> adds_up op es op1"
proof (induction es arbitrary: op ls)
  case Nil
  then show ?case by (simp add: adds_up_def queries_def acquisitions_def phases_def)
next
  case (Cons e es)
  obtain op1 ls1 where "latency_step cfg e (Some op, ls) = (Some op1, ls1)" "adds_up op [e] op1" by (rule adds_up_step)
  with Cons [of op1 ls1] show ?case by (auto intro: adds_up_trans)
qed

lemma start_phases: "get_or 0 (op_phases (StartOperation rid name t0)) p = 0"
  by (simp add: StartOperation_def commandPhases_def fmap_simps get_or_def)

text \<open>C29: The summary of a request. The line that ends an operation is the last of its request, is logged also when the handler panics, and
  shows the status that was written (500 or 200 if there was none); its counts and durations are those of the queries, acquisitions
  and phases that ended within the request, each phase once, and the time spent in lock queries is at most that spent in queries.
\<close>
theorem operation_summary:
  assumes "handle r w st = ((panic, w1, es), st1)"
  shows "\<exists>op ls. observed cfg (pool :: 'p option) name t0 t1 handle r w st = ((panic, w1, ls @ [OperationLine op
        (if rs_Status w1 \<noteq> 0 then rs_Status w1 else if panic \<noteq> None then 500 else 200) (time_Sub t1 t0)
        (lc_SlowOperationThreshold cfg \<le> time_Sub t1 t0) pool]), st1)
    \<and> adds_up (StartOperation (rq_ID r) name t0) es op
    \<and> (\<forall>p. get_or 0 (op_phases op) p = sum_list (phases p es))
    \<and> ((\<forall>(n, d, f)\<in>set (queries es). 0 \<le> d) \<longrightarrow> 0 \<le> op_lockDuration op \<and> op_lockDuration op \<le> op_queryDuration op)"
proof -
  obtain op and ls :: "'p latency_line list" where run: "fold (latency_step cfg) es (Some (StartOperation (rq_ID r) name t0), []) = (Some op, ls)"
    and sums: "adds_up (StartOperation (rq_ID r) name t0) es op" using adds_up_all by blast
  have "(\<forall>(n, d, f)\<in>set qs. 0 \<le> d) \<Longrightarrow> 0 \<le> sum_list (map (\<lambda>(n, d, f). if isLockQuery n then d else 0) qs)
      \<and> sum_list (map (\<lambda>(n, d, f). if isLockQuery n then d else 0) qs) \<le> sum_list (map (\<lambda>(n, d, f). d) qs)" for qs :: "(string \<times> duration \<times> bool) list"
    by (induction qs) auto
  note lock = this [of "queries es"]
  have zero: "op_started (StartOperation i n t) = t" "op_lockDuration (StartOperation i n t) = 0"
    "op_queryDuration (StartOperation i n t) = 0" for i n t by (simp_all add: StartOperation_def)
  have "observed cfg pool name t0 t1 handle r w st = ((panic, w1, ls @ [OperationLine op
        (if rs_Status w1 \<noteq> 0 then rs_Status w1 else if panic \<noteq> None then 500 else 200) (time_Sub t1 t0)
        (lc_SlowOperationThreshold cfg \<le> time_Sub t1 t0) pool]), st1)"
    using sums by (simp add: observed_def assms run finishOperation_def observedStatus_def adds_up_def zero Let_def)
  moreover have "(\<forall>p. get_or 0 (op_phases op) p = sum_list (phases p es))
    \<and> ((\<forall>(n, d, f)\<in>set (queries es). 0 \<le> d) \<longrightarrow> 0 \<le> op_lockDuration op \<and> op_lockDuration op \<le> op_queryDuration op)"
    using sums lock by (simp add: adds_up_def start_phases zero)
  ultimately show ?thesis using sums by blast
qed

section \<open>Witnesses\<close>

theorem query_lines_carry_no_sql_witness:
  "classifyQuery (\<lambda>s. replicate 32 CHR ''z'') id ''select 1'' = ''query_7a7a7a7a7a7a''
   \<and> classifyQuery (\<lambda>s. replicate 32 CHR ''z'') id ''select * from rooms for update'' = ''row_lock_statement''
   \<and> set (drop 6 (classifyQuery (\<lambda>s. replicate 32 CHR ''z'') id ''select 1'')) \<subseteq> set ''0123456789abcdef''"
proof -
  have c: "classifyQuery (\<lambda>s. replicate 32 CHR ''z'') id ''select 1'' = ''query_7a7a7a7a7a7a''"
    "classifyQuery (\<lambda>s. replicate 32 CHR ''z'') id ''select * from rooms for update'' = ''row_lock_statement''" by code_simp+
  have "\<exists>h. classifyQuery (\<lambda>s. replicate 32 CHR ''z'') id ''select 1'' = ''query_'' @ h \<and> set h \<subseteq> set ''0123456789abcdef''"
    using query_lines_carry_no_sql [of "\<lambda>s. replicate 32 CHR ''z''" id "''select 1''"] c(1) by auto
  with c show ?thesis by auto
qed

theorem operation_summary_witness:
  "\<exists>op ls. observed \<lparr>lc_SlowQueryThreshold = 5, lc_SlowOperationThreshold = 7\<rparr> (None :: unit option) ''move'' 10 20
       (\<lambda>r w st. ((None, w, [QueryEnded (Some \<lparr>qt_started = 11, qt_name = ''room_lock_wait''\<rparr>) 13 None, PhaseEnded ''commit'' 14 17 False]), st :: nat))
       undefined newResponse 0 = ((None, newResponse, ls @ [OperationLine op 200 10 True None]), 0)
     \<and> op_lockDuration op = 2 \<and> op_queryCount op = 1 \<and> get_or 0 (op_phases op) ''commit'' = 3"
  using operation_summary [where handle = "\<lambda>r w st. ((None, w, [QueryEnded (Some \<lparr>qt_started = 11, qt_name = ''room_lock_wait''\<rparr>) 13 None,
      PhaseEnded ''commit'' 14 17 False]), st :: nat)" and r = undefined and w = newResponse and st = 0 and ?t0.0 = 10 and ?t1.0 = 20
      and cfg = "\<lparr>lc_SlowQueryThreshold = 5, lc_SlowOperationThreshold = 7\<rparr>" and pool = "None :: unit option" and name = "''move''", OF refl]
  by (elim exE conjE) (rule exI, rule exI, auto simp: adds_up_def queries_def phases_def isLockQuery_def StartOperation_def time_Sub_def
      MaxInt64_def newResponse_def)

end
