(* ===== verification/Server_Main.thy ===== *)
theory Server_Main
  imports Http_Router Latency_Observer
begin

text \<open>
  The program, \<open>cmd/server/main.go\<close>: what it reads from the environment, the order in which it opens its resources and the
  deferred calls that release them, the readiness report, and the end of the HTTP server. Each call into the network, the file
  system or a library is an outcome in a record; what the program does is the trace of the effects it has in order.
\<close>

section \<open>The HTTP server\<close>

record http_server =
  hs_Addr :: string
  hs_ReadHeaderTimeout :: duration
  hs_ReadTimeout :: duration
  hs_WriteTimeout :: duration
  hs_IdleTimeout :: duration

definition newHTTPServer :: "string \<Rightarrow> http_server" where
  "newHTTPServer port = \<lparr>hs_Addr = ''0.0.0.0:'' @ port, hs_ReadHeaderTimeout = 5 * Second, hs_ReadTimeout = 10 * Second,
     hs_WriteTimeout = 30 * Second, hs_IdleTimeout = 60 * Second\<rparr>"

text \<open>How \<open>listen\<close> returns: \<open>nil\<close>, \<open>http.ErrServerClosed\<close>, or another error. It returns before the signal, or after \<open>shutdown\<close>, or
  not within the ten seconds.\<close>

datatype listen_end = EndedNil | ServerClosed | ListenFailed go_error

definition serve_error :: "listen_end \<Rightarrow> go_error list" where
  "serve_error e = (case e of ListenFailed x \<Rightarrow> [x] | _ \<Rightarrow> [])"

record serving =
  sv_before :: "listen_end option"
  sv_shutdown :: "go_error option"
  sv_after :: "listen_end option"

definition serveHTTPWithShutdown :: "serving \<Rightarrow> go_error list" where
  "serveHTTPWithShutdown s =
     (case sv_before s of
        Some e \<Rightarrow> serve_error e
      | None \<Rightarrow>
          (case sv_shutdown s of
             Some x \<Rightarrow> [x]
           | None \<Rightarrow> (case sv_after s of Some e \<Rightarrow> serve_error e | None \<Rightarrow> [ErrText ''context deadline exceeded''])))"

section \<open>Readiness\<close>

record ReadinessStatus =
  rd_Status :: string
  rd_PostgreSQL :: string
  rd_Realtime :: string

definition readinessJSON :: "ReadinessStatus \<Rightarrow> json" where
  "readinessJSON s = JObj [(''status'', JStr (rd_Status s)), (''postgresql'', JStr (rd_PostgreSQL s)), (''realtime'', JStr (rd_Realtime s))]"

text \<open>\<open>RedisTransport.CheckReady\<close>: the command connection, then a subscription that is confirmed.\<close>

definition CheckReady :: "go_error option \<Rightarrow> go_error option \<Rightarrow> go_error option" where
  "CheckReady pinged received = (case pinged of Some e \<Rightarrow> Some e | None \<Rightarrow> received)"

definition ready :: "go_error option \<Rightarrow> go_error option \<Rightarrow> ReadinessStatus \<times> int" where
  "ready postgres redis =
     (if postgres \<noteq> None then (\<lparr>rd_Status = ''unavailable'', rd_PostgreSQL = ''unavailable'', rd_Realtime = ''unknown''\<rparr>, 503)
      else if redis \<noteq> None then (\<lparr>rd_Status = ''degraded'', rd_PostgreSQL = ''authoritative'', rd_Realtime = ''redis_unavailable''\<rparr>, 503)
      else (\<lparr>rd_Status = ''ok'', rd_PostgreSQL = ''authoritative'', rd_Realtime = ''ready''\<rparr>, 200))"

section \<open>The run of the server\<close>

datatype resource = LogFile | SignalHandler | DatabasePool | StartupContext | RedisClient | WorkerRuntime | ShutdownContext

datatype effect = Acquired resource | Released resource | ServedHTTP http_server | SocketsShutDown

text \<open>The outcomes of the calls that may fail: \<open>None\<close> is success.\<close>

record surroundings =
  su_getenv :: "string \<Rightarrow> string"
  su_ParseDuration :: "string \<Rightarrow> duration option"
  su_quoted :: "string \<Rightarrow> string"
  su_openLog :: "string \<Rightarrow> go_error option"
  su_newVerifier :: "string \<Rightarrow> string \<Rightarrow> go_error option"
  su_parsePool :: "string \<Rightarrow> go_error option"
  su_newPool :: "go_error option"
  su_ping :: "go_error option"
  su_migrate :: "go_error option"
  su_newSecurity :: "string \<Rightarrow> go_error option"
  su_serving :: serving
  su_sockets :: "go_error option"

text \<open>A resource with its \<open>defer\<close>, and an early return; an empty list of errors is \<open>nil\<close>.\<close>

type_synonym stage = "go_error list \<times> effect list"

definition deferred :: "resource \<Rightarrow> stage \<Rightarrow> stage" where
  "deferred r s = (fst s, Acquired r # snd s @ [Released r])"

definition stop_if :: "go_error option \<Rightarrow> stage \<Rightarrow> stage" where
  "stop_if failed s = (case failed of Some e \<Rightarrow> ([e], []) | None \<Rightarrow> s)"

definition required :: "surroundings \<Rightarrow> string \<Rightarrow> go_error option" where
  "required su name = (if su_getenv su name = '''' then Some (ErrText (name @ '' is required'')) else None)"

definition env_or :: "surroundings \<Rightarrow> string \<Rightarrow> string \<Rightarrow> string" where
  "env_or su name d = (if su_getenv su name = '''' then d else su_getenv su name)"

text \<open>From the start of the workers on: the server, then the sockets, whose error is joined to that of the server.\<close>

definition run_serving :: "surroundings \<Rightarrow> stage" where
  "run_serving su =
     (let served = serveHTTPWithShutdown (su_serving su) in
      (case deferred ShutdownContext ((case su_sockets su of Some e \<Rightarrow> served @ [e] | None \<Rightarrow> served), [SocketsShutDown]) of
         (errs, effects) \<Rightarrow> (errs, ServedHTTP (newHTTPServer (env_or su ''PORT'' ''8080'')) # effects)))"

text \<open>\<open>cancelStartup\<close> is deferred and called early as well; only its first call has an effect, so the context is released before
  the rest is built unless the startup fails.\<close>

definition run_database :: "surroundings \<Rightarrow> stage" where
  "run_database su =
     (let started = stop_if (su_ping su) (stop_if (su_migrate su) ([], [])) in
      if fst started \<noteq> [] then deferred StartupContext started
      else (case stop_if (su_newSecurity su (su_getenv su ''APP_ORIGIN''))
               (deferred RedisClient (deferred WorkerRuntime (run_serving su))) of
          (errs, effects) \<Rightarrow> (errs, Acquired StartupContext # Released StartupContext # effects)))"

definition run :: "surroundings \<Rightarrow> stage" where
  "run su =
     stop_if (su_openLog su (env_or su ''LOG_FILE'' ''server.log'')) (deferred LogFile
     (case ConfigFromEnv (su_ParseDuration su) (su_quoted su) (su_getenv su) of Inl e \<Rightarrow> ([e], []) | Inr _ \<Rightarrow>
     (stop_if (required su ''DATABASE_URL'') (stop_if (required su ''SUPABASE_URL'')
     (stop_if (su_newVerifier su (su_getenv su ''SUPABASE_URL'') (su_getenv su ''SUPABASE_JWT_AUDIENCE''))
     (stop_if (required su ''APP_ORIGIN'') (stop_if (required su ''REDIS_ADDR'')
     (deferred SignalHandler (stop_if (su_parsePool su (su_getenv su ''DATABASE_URL'')) (stop_if (su_newPool su)
     (deferred DatabasePool (run_database su))))))))))))"

section \<open>Properties\<close>

text \<open>The resources held after a trace, the latest first; \<open>None\<close> if one is released that is not the latest held.\<close>

fun held :: "resource list \<Rightarrow> effect list \<Rightarrow> resource list option" where
  "held rs [] = Some rs"
| "held rs (Acquired r # es) = held (r # rs) es"
| "held (r # rs) (Released q # es) = (if r = q then held rs es else None)"
| "held [] (Released q # es) = None"
| "held rs (_ # es) = held rs es"

lemma held_append: "held rs (es @ fs) = (case held rs es of None \<Rightarrow> None | Some qs \<Rightarrow> held qs fs)"
  by (induction rs es rule: held.induct) auto

lemma held_deferred: "held (r # rs) es = Some (r # rs) \<Longrightarrow> held rs (Acquired r # es @ [Released r]) = Some rs"
  by (simp add: held_append)

lemma stage_simps:
  "snd (deferred r s) = Acquired r # snd s @ [Released r]" "fst (deferred r s) = fst s"
  "snd (stop_if f s) = (if f = None then snd s else [])" "stop_if None s = s"
  by (simp_all add: deferred_def stop_if_def split: option.splits)

lemma run_serving_effects:
  "snd (run_serving su) = [ServedHTTP (newHTTPServer (env_or su ''PORT'' ''8080'')), Acquired ShutdownContext, SocketsShutDown,
     Released ShutdownContext]"
  by (simp add: run_serving_def deferred_def Let_def)

lemma run_database_cases:
  obtains "su_ping su = None" "su_migrate su = None" "su_newSecurity su (su_getenv su ''APP_ORIGIN'') = None"
      "run_database su = (fst (run_serving su), [Acquired StartupContext, Released StartupContext, Acquired RedisClient,
         Acquired WorkerRuntime] @ snd (run_serving su) @ [Released WorkerRuntime, Released RedisClient])"
  | "fst (run_database su) \<noteq> []" "snd (run_database su) = [Acquired StartupContext, Released StartupContext]"
proof (cases "su_ping su = None \<and> su_migrate su = None \<and> su_newSecurity su (su_getenv su ''APP_ORIGIN'') = None")
  case True
  then show ?thesis by (intro that(1)) (simp_all add: run_database_def stop_if_def deferred_def)
next
  case False
  then show ?thesis by (intro that(2)) (auto simp: run_database_def stop_if_def deferred_def Let_def split: option.splits)
qed

text \<open>A run either stops early with an error, with nothing served, or serves with everything configured.\<close>

lemma run_cases:
  obtains (served) "list_all (\<lambda>name. su_getenv su name \<noteq> '''') [''DATABASE_URL'', ''SUPABASE_URL'', ''APP_ORIGIN'', ''REDIS_ADDR'']"
      "su_ping su = None" "su_migrate su = None" "su_newSecurity su (su_getenv su ''APP_ORIGIN'') = None"
      "run su = (fst (run_serving su), [Acquired LogFile, Acquired SignalHandler, Acquired DatabasePool, Acquired StartupContext,
         Released StartupContext, Acquired RedisClient, Acquired WorkerRuntime] @ snd (run_serving su)
         @ [Released WorkerRuntime, Released RedisClient, Released DatabasePool, Released SignalHandler, Released LogFile])"
  | (early) "fst (run su) \<noteq> []" "snd (run su) \<in> {[], [Acquired LogFile, Released LogFile],
      [Acquired LogFile, Acquired SignalHandler, Released SignalHandler, Released LogFile],
      [Acquired LogFile, Acquired SignalHandler, Acquired DatabasePool, Acquired StartupContext, Released StartupContext,
       Released DatabasePool, Released SignalHandler, Released LogFile]}"
proof -
  let ?opened = "su_openLog su (env_or su ''LOG_FILE'' ''server.log'') = None
    \<and> isl (ConfigFromEnv (su_ParseDuration su) (su_quoted su) (su_getenv su)) = False
    \<and> list_all (\<lambda>name. required su name = None) [''DATABASE_URL'', ''SUPABASE_URL'', ''APP_ORIGIN'', ''REDIS_ADDR'']
    \<and> su_newVerifier su (su_getenv su ''SUPABASE_URL'') (su_getenv su ''SUPABASE_JWT_AUDIENCE'') = None
    \<and> su_parsePool su (su_getenv su ''DATABASE_URL'') = None \<and> su_newPool su = None"
  show ?thesis
  proof (cases ?opened)
    case True
    then have run: "run su = deferred LogFile (deferred SignalHandler (deferred DatabasePool (run_database su)))"
      by (auto simp: run_def stop_if_def split: sum.splits)
    have env: "list_all (\<lambda>name. su_getenv su name \<noteq> '''') [''DATABASE_URL'', ''SUPABASE_URL'', ''APP_ORIGIN'', ''REDIS_ADDR'']"
      using True by (auto simp: required_def split: if_splits)
    show ?thesis
    proof (cases rule: run_database_cases [of su])
      case 1
      with run env show ?thesis by (intro served) (simp_all add: deferred_def)
    next
      case 2
      with run show ?thesis by (intro early) (simp_all add: deferred_def)
    qed
  next
    case False
    then show ?thesis
      by (intro early) (auto simp: run_def stop_if_def deferred_def required_def split: sum.splits option.splits if_splits)
  qed
qed

text \<open>C22: Startup and shutdown. Whatever fails, everything that was acquired is released in the reverse order; the server serves only
  when every required variable is set and the database is migrated, and then the sockets are shut down after the HTTP server, the workers stop
  after the sockets, and only then the Redis client and the database pool are closed. A run that does not serve returns an error.
\<close>
theorem shutdown_in_order:
  "held [] (snd (run su)) = Some []
   \<and> ((\<exists>server. ServedHTTP server \<in> set (snd (run su))) \<longrightarrow>
       su_ping su = None \<and> su_migrate su = None
       \<and> (\<forall>name\<in>{''DATABASE_URL'', ''SUPABASE_URL'', ''APP_ORIGIN'', ''REDIS_ADDR''}. su_getenv su name \<noteq> '''')
       \<and> filter (\<lambda>e. e \<in> {SocketsShutDown, Released WorkerRuntime, Released RedisClient, Released DatabasePool, Released LogFile})
           (dropWhile (\<lambda>e. \<forall>server. e \<noteq> ServedHTTP server) (snd (run su)))
         = [SocketsShutDown, Released WorkerRuntime, Released RedisClient, Released DatabasePool, Released LogFile])
   \<and> ((\<forall>server. ServedHTTP server \<notin> set (snd (run su))) \<longrightarrow> fst (run su) \<noteq> [])"
proof (cases rule: run_cases [of su])
  case served
  then show ?thesis by (simp add: run_serving_effects)
next
  case early
  then show ?thesis by auto
qed

text \<open>
  Readiness. The readiness endpoint answers 200 exactly when PostgreSQL answers a ping and Redis both a command and a subscription; otherwise
  503, with a report that tells which of the two failed, and PostgreSQL stays authoritative while only Redis is down.
\<close>
theorem readiness_reports:
  assumes "rt_status rt = Some (\<lambda>st. (readinessJSON (fst (ready postgres (CheckReady pinged received))), snd (ready postgres (CheckReady pinged received))))"
  shows "\<exists>report. fst (readiness rt r newResponse st) = writeJSON (rs_Status (fst (readiness rt r newResponse st))) (readinessJSON report) newResponse
    \<and> (rs_Status (fst (readiness rt r newResponse st)) = 200 \<longleftrightarrow> postgres = None \<and> pinged = None \<and> received = None)
    \<and> (rs_Status (fst (readiness rt r newResponse st)) \<noteq> 200 \<longrightarrow> rs_Status (fst (readiness rt r newResponse st)) = 503)
    \<and> (rd_PostgreSQL report = ''authoritative'' \<longleftrightarrow> postgres = None)
    \<and> (rd_Realtime report = ''ready'' \<longleftrightarrow> postgres = None \<and> pinged = None \<and> received = None)"
  by (rule exI [of _ "fst (ready postgres (CheckReady pinged received))"])
    (auto simp: readiness_def assms ready_def CheckReady_def http_simps newResponse_def split: option.splits)

section \<open>Witnesses\<close>

definition healthy_surroundings :: surroundings where
  "healthy_surroundings = \<lparr>su_getenv = (\<lambda>name. if name \<in> {''DATABASE_URL'', ''SUPABASE_URL'', ''APP_ORIGIN'', ''REDIS_ADDR''} then ''x'' else ''''),
     su_ParseDuration = (\<lambda>_. None), su_quoted = id, su_openLog = (\<lambda>_. None), su_newVerifier = (\<lambda>_ _. None), su_parsePool = (\<lambda>_. None),
     su_newPool = None, su_ping = None, su_migrate = None, su_newSecurity = (\<lambda>_. None),
     su_serving = \<lparr>sv_before = None, sv_shutdown = None, sv_after = Some ServerClosed\<rparr>, su_sockets = None\<rparr>"

theorem shutdown_in_order_witness:
  "fst (run healthy_surroundings) = [] \<and> ServedHTTP (newHTTPServer ''8080'') \<in> set (snd (run healthy_surroundings))
   \<and> held [] (snd (run healthy_surroundings)) = Some [] \<and> su_getenv healthy_surroundings ''APP_ORIGIN'' \<noteq> ''''"
proof -
  have r: "fst (run healthy_surroundings) = []" "ServedHTTP (newHTTPServer ''8080'') \<in> set (snd (run healthy_surroundings))"
    by (simp_all add: run_def run_database_def run_serving_def healthy_surroundings_def stop_if_def deferred_def required_def env_or_def
        ConfigFromEnv_def positiveDuration_def serveHTTPWithShutdown_def serve_error_def Let_def)
  with shutdown_in_order [of healthy_surroundings] show ?thesis by blast
qed

theorem readiness_reports_witness:
  "rs_Status (fst (readiness (undefined\<lparr>rt_status := Some (\<lambda>st. (readinessJSON (fst (ready None (CheckReady None (Some (ErrText ''EOF''))))),
     snd (ready None (CheckReady None (Some (ErrText ''EOF''))))))\<rparr>) undefined newResponse (0 :: nat))) = 503"
  using readiness_reports [of "undefined\<lparr>rt_status := Some (\<lambda>st. (readinessJSON (fst (ready None (CheckReady None (Some (ErrText ''EOF''))))),
     snd (ready None (CheckReady None (Some (ErrText ''EOF''))))))\<rparr>" None None "Some (ErrText ''EOF'')" undefined "0 :: nat"] by auto

end
