(* ===== verification/Operations_Metrics.thy ===== *)
theory Operations_Metrics
  imports Auth_Http Workers
begin

text \<open>
  The Prometheus collector, \<open>internal/operations/metrics.go\<close>: counters that wrap at 64 bits, gauges, and the page that
  \<open>/metrics\<close> serves. A gauge is a \<open>float64\<close> of seconds or of a count; it is kept exact here, and how \<open>%g\<close> prints it is an
  argument.
\<close>

section \<open>Counters and gauges\<close>

datatype gauge = Seconds duration | Amount int

record Metrics =
  mt_activeSockets :: int
  mt_counters :: "(string, uint64) fmap"
  mt_gauges :: "(string, gauge) fmap"

definition NewMetrics :: Metrics where
  "NewMetrics = \<lparr>mt_activeSockets = 0, mt_counters = fmempty, mt_gauges = fmempty\<rparr>"

definition metric_add :: "string \<Rightarrow> uint64 \<Rightarrow> Metrics \<Rightarrow> Metrics" where
  "metric_add name n m = m\<lparr>mt_counters := fmupd name (get_or 0 (mt_counters m) name + n) (mt_counters m)\<rparr>"

definition metric_increment :: "string \<Rightarrow> Metrics \<Rightarrow> Metrics" where
  "metric_increment name = metric_add name 1"

definition metric_set :: "string \<Rightarrow> gauge \<Rightarrow> Metrics \<Rightarrow> Metrics" where
  "metric_set name g m = m\<lparr>mt_gauges := fmupd name g (mt_gauges m)\<rparr>"

text \<open>\<open>uint64(max(n, 0))\<close> of an \<open>int64\<close>.\<close>

definition atLeast0 :: "int \<Rightarrow> uint64" where
  "atLeast0 n = word_of_int (max n 0)"

section \<open>Labels\<close>

text \<open>All characters that stay are ASCII, so the loop over the runes of the string keeps the same bytes as a loop over its bytes.\<close>

definition label_char :: "char \<Rightarrow> bool" where
  "label_char c \<longleftrightarrow> (let n = of_char c :: nat in 97 \<le> n \<and> n \<le> 122 \<or> 48 \<le> n \<and> n \<le> 57) \<or> c = CHR ''_'' \<or> c = CHR ''-''"

definition safeLabel :: "(string \<Rightarrow> string) \<Rightarrow> string \<Rightarrow> string" where
  "safeLabel lower s = (let kept = filter label_char (ToLower lower s) in if kept = [] then ''unknown'' else kept)"

definition labelled :: "string \<Rightarrow> string \<Rightarrow> string \<Rightarrow> string" where
  "labelled name key v = name @ ''{'' @ key @ ''=\"'' @ v @ ''\"}''"

section \<open>What is observed\<close>

text \<open>One constructor for each exported method, with its arguments; \<open>ReconciliationReport\<close> is without its \<open>Duration\<close>, which is
  an argument of its own.\<close>

datatype observation =
    SocketOpened | SocketClosed string | SnapshotDelivered duration | RevisionGap | QueueEviction | AuthClose
  | RedisReconnected | RedisFailed | ReceiptSeen string | DeadlineRun int int int int duration | OutboxRun OutboxRunReport
  | ReconciliationRun ReconciliationSource ReconciliationReport duration | CleanupRun string int

fun source_name :: "ReconciliationSource \<Rightarrow> string" where
  "source_name ReconciliationStartup = ''startup''"
| "source_name ReconciliationReconnect = ''reconnect''"
| "source_name ReconciliationNotification = ''notification''"
| "source_name ReconciliationPeriodic = ''periodic''"

definition Metrics_Deadline :: "int \<Rightarrow> int \<Rightarrow> int \<Rightarrow> int \<Rightarrow> duration \<Rightarrow> Metrics \<Rightarrow> Metrics" where
  "Metrics_Deadline seen paid noops stale lag m =
     metric_set ''rpm_deadline_lag_seconds'' (Seconds (max lag 0))
    (metric_add ''rpm_deadline_stale_claim_total'' (atLeast0 stale)
    (metric_add ''rpm_deadline_noop_total'' (atLeast0 noops)
    (metric_add ''rpm_deadline_settled_total'' (atLeast0 paid)
    (metric_add ''rpm_deadline_processed_total'' (atLeast0 seen) m))))"

definition Metrics_Outbox :: "OutboxRunReport \<Rightarrow> Metrics \<Rightarrow> Metrics" where
  "Metrics_Outbox rep m =
     metric_set ''rpm_outbox_oldest_pending_age_seconds'' (Seconds (max (rr_OldestPendingAge rep) 0))
    (metric_set ''rpm_outbox_backlog_depth'' (Amount (max (rr_BacklogDepth rep) 0))
    (metric_add ''rpm_outbox_publish_failure_total'' (atLeast0 (rr_PublishFailures rep))
    (metric_add ''rpm_outbox_retry_total'' (atLeast0 (rr_Retries rep))
    (metric_add ''rpm_outbox_attempt_total'' (atLeast0 (rr_Attempts rep))
    (metric_add ''rpm_outbox_published_total'' (atLeast0 (rr_Published rep))
    (metric_add ''rpm_outbox_claimed_total'' (atLeast0 (rr_Claimed rep)) m))))))"

definition Metrics_Reconciliation ::
    "(string \<Rightarrow> string) \<Rightarrow> ReconciliationSource \<Rightarrow> ReconciliationReport \<Rightarrow> duration \<Rightarrow> Metrics \<Rightarrow> Metrics" where
  "Metrics_Reconciliation lower source rep took m =
     (let label = safeLabel lower (source_name source) in
     metric_set (labelled ''rpm_reconciliation_duration_seconds'' ''source'' label) (Seconds (max took 0))
    (metric_set ''rpm_reconciliation_oldest_eligible_age_seconds'' (Seconds (max (rc_OldestEligibleAge rep) 0))
    (metric_set ''rpm_reconciliation_backlog'' (Amount (max (rc_EligibleBacklog rep) 0))
    (metric_add (labelled ''rpm_reconciliation_failure_total'' ''source'' label) (atLeast0 (rc_Failures rep))
    (metric_add (labelled ''rpm_reconciliation_advanced_total'' ''source'' label) (atLeast0 (rc_AdvancedRounds rep))
    (metric_add (labelled ''rpm_reconciliation_settled_total'' ''source'' label) (atLeast0 (rc_SettledRounds rep))
    (metric_add (labelled ''rpm_reconciliation_claim_noop_total'' ''source'' label) (atLeast0 (rc_ClaimNoops rep))
    (metric_add (labelled ''rpm_reconciliation_claim_win_total'' ''source'' label) (atLeast0 (rc_ClaimWins rep))
    (metric_add (labelled ''rpm_reconciliation_claim_attempt_total'' ''source'' label) (atLeast0 (rc_ClaimAttempts rep)) m)))))))))"

fun Metrics_observe :: "(string \<Rightarrow> string) \<Rightarrow> observation \<Rightarrow> Metrics \<Rightarrow> Metrics" where
  "Metrics_observe lower SocketOpened m =
     metric_increment ''rpm_socket_open_total'' (m\<lparr>mt_activeSockets := i64 (mt_activeSockets m + 1)\<rparr>)"
| "Metrics_observe lower (SocketClosed reason) m =
     metric_increment (labelled ''rpm_socket_close_total'' ''reason'' (safeLabel lower reason))
       (m\<lparr>mt_activeSockets := i64 (mt_activeSockets m - 1)\<rparr>)"
| "Metrics_observe lower (SnapshotDelivered latency) m =
     metric_set ''rpm_snapshot_latency_seconds'' (Seconds latency) (metric_increment ''rpm_snapshot_delivered_total'' m)"
| "Metrics_observe lower RevisionGap m = metric_increment ''rpm_revision_gap_total'' m"
| "Metrics_observe lower QueueEviction m = metric_increment ''rpm_backpressure_eviction_total'' m"
| "Metrics_observe lower AuthClose m = metric_increment ''rpm_auth_close_total'' m"
| "Metrics_observe lower RedisReconnected m = metric_increment ''rpm_redis_reconnect_total'' m"
| "Metrics_observe lower RedisFailed m = metric_increment ''rpm_redis_failure_total'' m"
| "Metrics_observe lower (ReceiptSeen outcome) m =
     metric_increment (labelled ''rpm_receipt_total'' ''outcome'' (safeLabel lower outcome)) m"
| "Metrics_observe lower (DeadlineRun seen paid noops stale lag) m = Metrics_Deadline seen paid noops stale lag m"
| "Metrics_observe lower (OutboxRun rep) m = Metrics_Outbox rep m"
| "Metrics_observe lower (ReconciliationRun source rep took) m = Metrics_Reconciliation lower source rep took m"
| "Metrics_observe lower (CleanupRun kind removed) m =
     metric_add (labelled ''rpm_cleanup_removed_total'' ''kind'' (safeLabel lower kind)) (atLeast0 removed) m"

section \<open>The page\<close>

text \<open>The map of the names to their printed values; a name that is a counter and a gauge shows as the gauge.\<close>

definition metric_values :: "(gauge \<Rightarrow> string) \<Rightarrow> Metrics \<Rightarrow> (string, string) fmap" where
  "metric_values format_g m =
     fmupd ''rpm_active_sockets'' (dec_int (mt_activeSockets m)) fmempty
       ++\<^sub>f fmmap (\<lambda>n. dec (unat n)) (mt_counters m) ++\<^sub>f fmmap format_g (mt_gauges m)"

definition metric_line :: "string \<Rightarrow> string \<Rightarrow> string" where
  "metric_line name v = name @ '' '' @ v @ [byte 10]"

definition metrics_ServeHTTP :: "(gauge \<Rightarrow> string) \<Rightarrow> Metrics \<Rightarrow> response \<Rightarrow> response" where
  "metrics_ServeHTTP format_g m w =
     (let values = metric_values format_g m in
      foldl (\<lambda>w name. Write (TextBody (metric_line name (get_or '''' values name))) w)
        (Header_Set ''Content-Type'' ''text/plain; version=0.0.4'' w) (sorted_list_of_fset (fmdom values)))"

section \<open>Properties\<close>

definition plain_metrics :: "string list" where
  "plain_metrics = [''rpm_active_sockets'', ''rpm_socket_open_total'', ''rpm_snapshot_latency_seconds'', ''rpm_snapshot_delivered_total'',
     ''rpm_revision_gap_total'', ''rpm_backpressure_eviction_total'', ''rpm_auth_close_total'', ''rpm_redis_reconnect_total'',
     ''rpm_redis_failure_total'', ''rpm_deadline_lag_seconds'', ''rpm_deadline_stale_claim_total'', ''rpm_deadline_noop_total'',
     ''rpm_deadline_settled_total'', ''rpm_deadline_processed_total'', ''rpm_outbox_oldest_pending_age_seconds'',
     ''rpm_outbox_backlog_depth'', ''rpm_outbox_publish_failure_total'', ''rpm_outbox_retry_total'', ''rpm_outbox_attempt_total'',
     ''rpm_outbox_published_total'', ''rpm_outbox_claimed_total'', ''rpm_reconciliation_oldest_eligible_age_seconds'',
     ''rpm_reconciliation_backlog'']"

definition labelled_metrics :: "(string \<times> string) list" where
  "labelled_metrics = [(''rpm_socket_close_total'', ''reason''), (''rpm_receipt_total'', ''outcome''),
     (''rpm_cleanup_removed_total'', ''kind''), (''rpm_reconciliation_duration_seconds'', ''source''),
     (''rpm_reconciliation_failure_total'', ''source''), (''rpm_reconciliation_advanced_total'', ''source''),
     (''rpm_reconciliation_settled_total'', ''source''), (''rpm_reconciliation_claim_noop_total'', ''source''),
     (''rpm_reconciliation_claim_win_total'', ''source''), (''rpm_reconciliation_claim_attempt_total'', ''source'')]"

text \<open>The names a page may show: a fixed name, or a fixed one with one label of harmless characters.\<close>

definition metric_name :: "string \<Rightarrow> bool" where
  "metric_name name \<longleftrightarrow> name \<in> set plain_metrics
     \<or> (\<exists>p\<in>set labelled_metrics. \<exists>v. v \<noteq> [] \<and> list_all label_char v \<and> name = labelled (fst p) (snd p) v)"

definition metrics_ok :: "Metrics \<Rightarrow> bool" where
  "metrics_ok m \<longleftrightarrow> (\<forall>name. name |\<in>| fmdom (mt_counters m) |\<union>| fmdom (mt_gauges m) \<longrightarrow> metric_name name)"

lemma plain_name: "name \<in> set plain_metrics \<Longrightarrow> metric_name name"
  by (simp add: metric_name_def)

lemma safeLabel_chars: "safeLabel lower s \<noteq> [] \<and> list_all label_char (safeLabel lower s)"
  by (auto simp: safeLabel_def Let_def list_all_iff) (simp_all add: label_char_def)

lemma labelled_name: "(name, key) \<in> set labelled_metrics \<Longrightarrow> metric_name (labelled name key (safeLabel lower s))"
  unfolding metric_name_def using safeLabel_chars [of lower s] by (metis fst_conv snd_conv)

lemma metrics_ok_steps:
  "metrics_ok NewMetrics"
  "metrics_ok (m\<lparr>mt_activeSockets := n\<rparr>) = metrics_ok m"
  "metric_name name \<Longrightarrow> metrics_ok m \<Longrightarrow> metrics_ok (metric_add name k m)"
  "metric_name name \<Longrightarrow> metrics_ok m \<Longrightarrow> metrics_ok (metric_increment name m)"
  "metric_name name \<Longrightarrow> metrics_ok m \<Longrightarrow> metrics_ok (metric_set name g m)"
  by (auto simp: metrics_ok_def NewMetrics_def metric_add_def metric_increment_def metric_set_def)

lemma metrics_ok_observe:
  assumes "metrics_ok m"
  shows "metrics_ok (Metrics_observe lower x m)"
  by (cases x) (use assms in \<open>simp_all add: Metrics_Deadline_def Metrics_Outbox_def Metrics_Reconciliation_def Let_def
      metrics_ok_steps plain_name plain_metrics_def labelled_name labelled_metrics_def\<close>)

lemma metrics_ok_observed: "metrics_ok (fold (Metrics_observe lower) xs NewMetrics)"
  by (induction xs rule: rev_induct) (simp_all add: metrics_ok_steps metrics_ok_observe)

lemma written_lines: "rs_Body (foldl (\<lambda>w name. Write (TextBody (f name)) w) w names) = rs_Body w @ map (\<lambda>name. TextBody (f name)) names"
  by (induction names arbitrary: w) (simp_all add: http_simps)

text \<open>C28: The metrics page. Whatever is observed, each line of the page is one name, a blank and one value: the names are
  distinct, in order, and each is a fixed name or a fixed name with one label of letters, digits, underscores and
  hyphens; no reason, outcome or kind can bring another line, quote or dimension into the page.
\<close>
theorem metrics_page_safe:
  "\<exists>names. sorted names \<and> distinct names \<and> ''rpm_active_sockets'' \<in> set names \<and> (\<forall>name\<in>set names. metric_name name)
     \<and> rs_Body (metrics_ServeHTTP format_g (fold (Metrics_observe lower) xs NewMetrics) w) = rs_Body w
        @ map (\<lambda>name. TextBody (metric_line name (get_or '''' (metric_values format_g (fold (Metrics_observe lower) xs NewMetrics)) name))) names"
proof -
  let ?m = "fold (Metrics_observe lower) xs NewMetrics"
  let ?names = "sorted_list_of_fset (fmdom (metric_values format_g ?m))"
  have dom: "fmdom (metric_values format_g ?m) = finsert ''rpm_active_sockets'' (fmdom (mt_counters ?m) |\<union>| fmdom (mt_gauges ?m))"
    by (auto simp: metric_values_def)
  have "metric_name ''rpm_active_sockets''" by (simp add: plain_name plain_metrics_def)
  with metrics_ok_observed [of lower xs] have "\<forall>name\<in>set ?names. metric_name name"
    by (simp only: sorted_list_of_fset_simps(1) dom) (auto simp: metrics_ok_def)
  moreover have "''rpm_active_sockets'' \<in> set ?names" by (simp add: dom)
  ultimately show ?thesis
    by (intro exI [of _ ?names]) (simp add: metrics_ServeHTTP_def Let_def written_lines http_simps sorted_list_of_fset.rep_eq)
qed

theorem metrics_page_safe_witness:
  "safeLabel id (''lost\"'' @ [byte 10] @ ''K'') = ''lostk''
   \<and> (\<exists>names. sorted names \<and> distinct names \<and> ''rpm_active_sockets'' \<in> set names \<and> list_all metric_name names
       \<and> length (rs_Body (metrics_ServeHTTP (\<lambda>_. ''0'') (Metrics_observe id (SocketClosed (''lost\"'' @ [byte 10] @ ''K'')) NewMetrics) newResponse))
         = length names)"
proof
  show "safeLabel id (''lost\"'' @ [byte 10] @ ''K'') = ''lostk''" by code_simp
  show "\<exists>names. sorted names \<and> distinct names \<and> ''rpm_active_sockets'' \<in> set names \<and> list_all metric_name names
       \<and> length (rs_Body (metrics_ServeHTTP (\<lambda>_. ''0'') (Metrics_observe id (SocketClosed (''lost\"'' @ [byte 10] @ ''K'')) NewMetrics) newResponse))
         = length names"
    using metrics_page_safe [of "\<lambda>_. ''0''" id "[SocketClosed (''lost\"'' @ [byte 10] @ ''K'')]" newResponse]
    by (auto simp: newResponse_def list_all_iff)
qed

definition opens :: "observation list \<Rightarrow> nat" where
  "opens xs = length (filter (\<lambda>x. x = SocketOpened) xs)"

definition closes :: "observation list \<Rightarrow> nat" where
  "closes xs = length (filter (\<lambda>x. case x of SocketClosed _ \<Rightarrow> True | _ \<Rightarrow> False) xs)"

lemma open_total_steps:
  "mt_activeSockets (metric_add name k m) = mt_activeSockets m" "mt_activeSockets (metric_set name g m) = mt_activeSockets m"
  "mt_activeSockets (metric_increment name m) = mt_activeSockets m" "mt_counters (metric_set name g m) = mt_counters m"
  "mt_counters (metric_add name k m) = fmupd name (get_or 0 (mt_counters m) name + k) (mt_counters m)"
  "mt_counters (metric_increment name m) = fmupd name (get_or 0 (mt_counters m) name + 1) (mt_counters m)"
  by (simp_all add: metric_add_def metric_set_def metric_increment_def)

text \<open>
  The socket gauge. After fewer than \<open>2 ^ 63\<close> observations, in any order, the gauge of active sockets is the number of
  sockets opened less the number closed, and the counter of opened sockets is the number of openings; no other observation moves either.
\<close>
theorem active_sockets_counted:
  assumes "length xs < 2 ^ 63"
  shows "mt_activeSockets (fold (Metrics_observe lower) xs NewMetrics) = int (opens xs) - int (closes xs)
    \<and> get_or 0 (mt_counters (fold (Metrics_observe lower) xs NewMetrics)) ''rpm_socket_open_total'' = of_nat (opens xs)"
  using assms
proof (induction xs rule: rev_induct)
  case Nil
  then show ?case by (simp add: NewMetrics_def opens_def closes_def fmap_simps)
next
  case (snoc x xs)
  have len: "opens xs \<le> length xs" "closes xs \<le> length xs" by (simp_all add: opens_def closes_def)
  have range: "i64 (int (opens xs) - int (closes xs) + 1) = int (opens xs) - int (closes xs) + 1"
    "i64 (int (opens xs) - int (closes xs) - 1) = int (opens xs) - int (closes xs) - 1"
    using len snoc.prems by (simp_all add: i64_id MaxInt64_def)
  show ?case
    by (cases x) (use snoc range in \<open>simp_all add: opens_def closes_def open_total_steps Metrics_Deadline_def Metrics_Outbox_def
        Metrics_Reconciliation_def labelled_def Let_def fmap_simps\<close>)
qed

theorem active_sockets_counted_witness:
  "mt_activeSockets (fold (Metrics_observe id) [SocketOpened, SocketOpened, SocketClosed ''bye'', RevisionGap] NewMetrics) = 1
   \<and> get_or 0 (mt_counters (fold (Metrics_observe id) [SocketOpened, SocketOpened, SocketClosed ''bye'', RevisionGap] NewMetrics))
       ''rpm_socket_open_total'' = 2"
  using active_sockets_counted [of "[SocketOpened, SocketOpened, SocketClosed ''bye'', RevisionGap]" id]
  by (simp add: opens_def closes_def)

end
