(* ===== verification/Operations_Runtime.thy ===== *)
theory Operations_Runtime
  imports Operations_Metrics
begin

text \<open>
  The runtime of the background workers, \<open>internal/operations/runtime.go\<close>: what each run reports to the metrics and to the log,
  the loops that repeat the runs, and the rate limit on the warnings of the reconciliation worker. Wall-clock readings are
  arguments; a loop is given the times of its ticks until its context ends.
\<close>

section \<open>Intervals\<close>

record Intervals =
  iv_Deadlines :: duration
  iv_Outbox :: duration
  iv_Cleanup :: duration

definition NewRuntime :: "Intervals \<Rightarrow> Intervals" where
  "NewRuntime i = \<lparr>iv_Deadlines = orDefault Second (iv_Deadlines i), iv_Outbox = orDefault (250 * Millisecond) (iv_Outbox i),
     iv_Cleanup = orDefault Hour (iv_Cleanup i)\<rparr>"

section \<open>One run of each worker\<close>

datatype runtime_log =
    DeadlineFailed go_error | DeadlineCompleted DeadlineRunReport
  | OutboxRetrying "go_error list" OutboxRunReport | OutboxCompleted OutboxRunReport
  | CleanupFailed go_error | CleanupCompleted CleanupReport
  | ReconciliationRetrying ReconciliationSource int | ReconciliationCompleted ReconciliationSource ReconciliationReport
  | WorkerStopped string

text \<open>What the runs share: the metrics, the log (the latest line first) and the store.\<close>

record 's runtime =
  rn_metrics :: Metrics
  rn_log :: "runtime_log list"
  rn_store :: 's

definition logged :: "runtime_log \<Rightarrow> 's runtime \<Rightarrow> 's runtime" where
  "logged l x = x\<lparr>rn_log := l # rn_log x\<rparr>"

definition runDeadlines :: "'s DeadlineRepository \<Rightarrow> go_time \<Rightarrow> 's runtime \<Rightarrow> 's runtime option" where
  "runDeadlines store now x =
     (case DeadlineWorker_RunOnce store now (rn_store x) of
        None \<Rightarrow> None
      | Some ((rep, err), st) \<Rightarrow>
          let x = x\<lparr>rn_store := st, rn_metrics := Metrics_Deadline (dn_ProcessedDeadlines rep) (dn_SettledRounds rep)
                (dn_NoopDeadlines rep) (dn_StaleClaims rep) (dn_MaxClaimLag rep) (rn_metrics x)\<rparr>
          in Some (case err of
               Some e \<Rightarrow> logged (DeadlineFailed e) x
             | None \<Rightarrow> if 0 < dn_ExpiredConnections rep + dn_ProcessedDeadlines rep + dn_CleanedRows rep
                 then logged (DeadlineCompleted rep) x else x))"

definition runOutbox ::
    "'s OutboxStore \<Rightarrow> 's publisher \<Rightarrow> OutboxConfig \<Rightarrow> go_time \<Rightarrow> 's runtime \<Rightarrow> 's runtime option" where
  "runOutbox store pub c now x =
     (case OutboxWorker_RunOnce store pub c now (rn_store x) of ((rep, errs), st) \<Rightarrow>
        let x = x\<lparr>rn_store := st, rn_metrics := Metrics_Outbox rep (rn_metrics x)\<rparr>
        in Some (if errs \<noteq> [] then logged (OutboxRetrying errs rep) x
           else if 0 < rr_Claimed rep \<or> 0 < rr_Cleaned rep then logged (OutboxCompleted rep) x else x))"

definition runCleanup ::
    "(string \<Rightarrow> string) \<Rightarrow> ('s, int) op \<Rightarrow> (go_time \<Rightarrow> ('s, int) op) \<Rightarrow> go_time \<Rightarrow> 's runtime \<Rightarrow> 's runtime option" where
  "runCleanup lower sessions receipts now x =
     (case CleanupWorker_RunOnce sessions receipts now (rn_store x) of ((rep, err), st) \<Rightarrow>
        let x = x\<lparr>rn_store := st, rn_metrics := Metrics_observe lower (CleanupRun ''receipts'' (cu_Receipts rep))
              (Metrics_observe lower (CleanupRun ''sessions'' (cu_Sessions rep)) (rn_metrics x))\<rparr>
        in Some (case err of Some e \<Rightarrow> logged (CleanupFailed e) x | None \<Rightarrow> logged (CleanupCompleted rep) x))"

text \<open>\<open>startLoop\<close>: a first run at once, one at each tick, and a line at the end; \<open>None\<close> if a run does not return.\<close>

fun startLoop :: "string \<Rightarrow> (go_time \<Rightarrow> 's runtime \<Rightarrow> 's runtime option) \<Rightarrow> go_time list \<Rightarrow> 's runtime \<Rightarrow> 's runtime option" where
  "startLoop name run [] x = Some (logged (WorkerStopped name) x)"
| "startLoop name run (t # ticks) x = (case run t x of None \<Rightarrow> None | Some y \<Rightarrow> startLoop name run ticks y)"

section \<open>Observing the reconciliation worker\<close>

text \<open>
  One call of \<open>observeReconciliation\<close>: its arguments with the duration of the report, the reading of the clock for
  \<open>time.Since\<close> and the later one that is stored.
\<close>

record reconciliation_call =
  ro_source :: ReconciliationSource
  ro_report :: ReconciliationReport
  ro_took :: duration
  ro_failed :: bool
  ro_checked :: go_time
  ro_noted :: go_time

text \<open>\<open>lastReconciliationError\<close> starts as the zero time, long before any reading.\<close>

definition observeReconciliation ::
    "(string \<Rightarrow> string) \<Rightarrow> reconciliation_call \<Rightarrow> go_time option \<times> Metrics \<Rightarrow> (go_time option \<times> Metrics) \<times> runtime_log list" where
  "observeReconciliation lower c x =
     (let lastError = fst x; m = Metrics_Reconciliation lower (ro_source c) (ro_report c) (ro_took c) (snd x) in
      if ro_failed c
      then (let shouldLog = (case lastError of None \<Rightarrow> True | Some t \<Rightarrow> 30 * Second \<le> time_Sub (ro_checked c) t) in
        if shouldLog then ((Some (ro_noted c), m), [ReconciliationRetrying (ro_source c) (rc_Failures (ro_report c))])
        else ((lastError, m), []))
      else ((lastError, m),
        if 0 < rc_ClaimWins (ro_report c) \<or> 0 < rc_ClaimNoops (ro_report c)
        then [ReconciliationCompleted (ro_source c) (ro_report c)] else []))"

fun observeAll :: "(string \<Rightarrow> string) \<Rightarrow> reconciliation_call list \<Rightarrow> go_time option \<times> Metrics
     \<Rightarrow> (reconciliation_call \<times> runtime_log) list" where
  "observeAll lower [] x = []"
| "observeAll lower (c # cs) x =
     (case observeReconciliation lower c x of (x1, lines) \<Rightarrow> map (\<lambda>l. (c, l)) lines @ observeAll lower cs x1)"

section \<open>Properties\<close>

definition warnings :: "(reconciliation_call \<times> runtime_log) list \<Rightarrow> reconciliation_call list" where
  "warnings log = map fst (filter (\<lambda>(c, l). \<exists>s n. l = ReconciliationRetrying s n) log)"

lemma warnings_simps [simp]:
  "warnings [] = []" "warnings (xs @ ys) = warnings xs @ warnings ys"
  "warnings ((c, ReconciliationRetrying s n) # xs) = c # warnings xs" "warnings ((c, ReconciliationCompleted s rep) # xs) = warnings xs"
  by (simp_all add: warnings_def)

lemma since_30 [simp]: "30000000000 \<le> time_Sub now t \<longleftrightarrow> t + 30 * Second \<le> now"
  by (auto simp: time_Sub_def MaxInt64_def)

text \<open>A call that fails and is not logged comes less than 30 seconds after the last one that was.\<close>

lemma warned_apart:
  "\<forall>c\<in>set cs. ro_checked c \<le> ro_noted c \<Longrightarrow>
   sorted_wrt (\<lambda>a b. ro_noted a + 30 * Second \<le> ro_checked b) (warnings (observeAll lower cs x))
   \<and> (\<forall>t. fst x = Some t \<longrightarrow> (\<forall>c\<in>set (warnings (observeAll lower cs x)). t + 30 * Second \<le> ro_checked c))"
proof (induction cs arbitrary: x)
  case (Cons c cs)
  obtain x1 lines where o: "observeReconciliation lower c x = (x1, lines)" by fastforce
  show ?case using Cons.IH [of x1] Cons.prems o
    by (fastforce simp: observeReconciliation_def Let_def split: if_splits option.splits)
qed simp

lemma warned_soon:
  "c \<in> set cs \<Longrightarrow> ro_failed c \<Longrightarrow> c \<in> set (warnings (observeAll lower cs x))
     \<or> (\<exists>t. t \<in> set_option (fst x) \<union> ro_noted ` set (warnings (observeAll lower cs x)) \<and> ro_checked c < t + 30 * Second)"
proof (induction cs arbitrary: x)
  case (Cons a cs)
  obtain x1 lines where o: "observeReconciliation lower a x = (x1, lines)" by fastforce
  show ?case
  proof (cases "c = a")
    case True
    with o Cons.prems(2) show ?thesis by (auto simp: observeReconciliation_def Let_def split: if_splits option.splits)
  next
    case False
    with Cons have "c \<in> set (warnings (observeAll lower cs x1))
       \<or> (\<exists>t. t \<in> set_option (fst x1) \<union> ro_noted ` set (warnings (observeAll lower cs x1)) \<and> ro_checked c < t + 30 * Second)" by simp
    with o show ?thesis by (auto simp: observeReconciliation_def Let_def split: if_splits option.splits)
  qed
qed simp

text \<open>The log of a failing reconciliation. However often the worker fails, two warnings are at least 30 seconds apart, and a
  failure goes unlogged only if some warning is less than 30 seconds older.
\<close>
theorem reconciliation_warnings_limited:
  assumes "\<forall>c\<in>set cs. ro_checked c \<le> ro_noted c"
  shows "sorted_wrt (\<lambda>a b. ro_noted a + 30 * Second \<le> ro_checked b) (warnings (observeAll lower cs (None, m)))
   \<and> (\<forall>c\<in>set cs. ro_failed c \<longrightarrow> c \<in> set (warnings (observeAll lower cs (None, m)))
       \<or> (\<exists>b\<in>set (warnings (observeAll lower cs (None, m))). ro_checked c < ro_noted b + 30 * Second))"
  using warned_apart [OF assms, of lower "(None, m)"] warned_soon [of _ cs lower "(None, m)"] by fastforce

definition failing_call :: "go_time \<Rightarrow> reconciliation_call" where
  "failing_call t = \<lparr>ro_source = ReconciliationReconnect, ro_report = zeroReconciliation\<lparr>rc_Failures := 1\<rparr>, ro_took = 0,
     ro_failed = True, ro_checked = t, ro_noted = t + 1\<rparr>"

theorem reconciliation_warnings_limited_witness:
  "failing_call (5 * Second) \<in> set (warnings (observeAll id [failing_call 0, failing_call (5 * Second)] (None, NewMetrics)))
   \<or> (\<exists>b\<in>set (warnings (observeAll id [failing_call 0, failing_call (5 * Second)] (None, NewMetrics))).
        ro_checked (failing_call (5 * Second)) < ro_noted b + 30 * Second)"
  using reconciliation_warnings_limited [of "[failing_call 0, failing_call (5 * Second)]" id NewMetrics]
  by (simp add: failing_call_def)

end
