(* ===== verification/Postgres_Migrate.thy ===== *)
theory Postgres_Migrate
  imports Workers "HOL-Library.Multiset"
begin

text \<open>
  The schema migrations, \<open>adapter/postgres/migrate.go\<close>: one transaction under an advisory lock that applies the embedded files in
  the order of their names and remembers the digest of each. What a file's statements do to the schema is an
  argument, as is the digest; the files are pairs of a name and a text, with distinct names as in a directory. Errors of the
  connection and the prefixes that \<open>fmt.Errorf\<close> puts before a wrapped error are left out.
\<close>

unbundle bit_operations_syntax

section \<open>Comparing digests\<close>

definition byte_word :: "char \<Rightarrow> 8 word" where
  "byte_word c = word_of_nat (of_char c)"

definition equalBytes :: "string \<Rightarrow> string \<Rightarrow> bool" where
  "equalBytes a b = (if length a \<noteq> length b then False
     else fold (\<lambda>(x, y) different. different OR (byte_word x XOR byte_word y)) (zip a b) 0 = 0)"

lemma byte_word_inject: "byte_word x = byte_word y \<longleftrightarrow> x = y"
proof
  assume "byte_word x = byte_word y"
  then have "unat (byte_word x) = unat (byte_word y)" by simp
  moreover have "unat (byte_word c) = of_char c" for c
    using of_char_mod_256 [of c, where 'a = nat] by (simp add: byte_word_def unat_of_nat)
  ultimately show "x = y" by (metis char_of_char)
qed simp

lemma xor_eq_0_iff: "a XOR b = 0 \<longleftrightarrow> a = (b :: 8 word)"
  by (auto simp: bit_eq_iff bit_simps)

lemma or_eq_0_iff: "a OR b = 0 \<longleftrightarrow> a = 0 \<and> b = (0 :: 8 word)"
  by (auto simp: bit_eq_iff bit_simps)

lemma fold_different:
  "fold (\<lambda>(x, y) different. different OR (byte_word x XOR byte_word y)) ps d = 0 \<longleftrightarrow> d = 0 \<and> (\<forall>(x, y)\<in>set ps. x = y)"
  by (induction ps arbitrary: d) (auto simp: or_eq_0_iff xor_eq_0_iff byte_word_inject)

lemma equalBytes_eq: "equalBytes a b \<longleftrightarrow> a = b"
proof (cases "length a = length b")
  case True
  then show ?thesis
    by (induction a b rule: list_induct2) (auto simp: equalBytes_def fold_different or_eq_0_iff xor_eq_0_iff byte_word_inject)
qed (auto simp: equalBytes_def)

section \<open>Migrations\<close>

record 'd migrations =
  mg_applied :: "(string, string) fmap"
  mg_schema :: 'd

type_synonym migration_file = "string \<times> string"

definition migrateFile ::
    "(string \<Rightarrow> string) \<Rightarrow> (string \<Rightarrow> 'd \<Rightarrow> 'd result) \<Rightarrow> migration_file \<Rightarrow> 'd migrations \<Rightarrow> 'd migrations result" where
  "migrateFile sha exec f m =
     (let (name, sql) = f; checksum = sha sql in
      case fmlookup (mg_applied m) name of
        Some appliedChecksum \<Rightarrow>
          if \<not> equalBytes appliedChecksum checksum then Inl (ErrText (''migration '' @ name @ '' checksum mismatch'')) else Inr m
      | None \<Rightarrow>
          bindR (exec sql (mg_schema m)) (\<lambda>schema.
            if length checksum \<noteq> 32 then Inl (ErrText ''check constraint'')
            else Inr (m\<lparr>mg_schema := schema, mg_applied := fmupd name checksum (mg_applied m)\<rparr>)))"

fun migrateFiles ::
    "(string \<Rightarrow> string) \<Rightarrow> (string \<Rightarrow> 'd \<Rightarrow> 'd result) \<Rightarrow> migration_file list \<Rightarrow> 'd migrations \<Rightarrow> 'd migrations result" where
  "migrateFiles sha exec [] m = Inr m"
| "migrateFiles sha exec (f # fs) m = bindR (migrateFile sha exec f m) (migrateFiles sha exec fs)"

text \<open>The transaction: an error rolls everything back.\<close>

definition Migrate ::
    "(string \<Rightarrow> string) \<Rightarrow> (string \<Rightarrow> 'd \<Rightarrow> 'd result) \<Rightarrow> migration_file list \<Rightarrow> ('d migrations, unit) op" where
  "Migrate sha exec entries m =
     (case migrateFiles sha exec (sort_key fst entries) m of Inl e \<Rightarrow> (Inl e, m) | Inr m1 \<Rightarrow> (Inr (), m1))"

section \<open>Properties\<close>

lemma migrateFiles_append: "migrateFiles sha exec (fs @ gs) m = bindR (migrateFiles sha exec fs m) (migrateFiles sha exec gs)"
proof (induction fs arbitrary: m)
  case (Cons f fs)
  then show ?case by (cases "migrateFile sha exec f m") simp_all
qed simp

text \<open>Every file in \<open>fs\<close> is recorded with its digest.\<close>

definition recorded :: "(string \<Rightarrow> string) \<Rightarrow> migration_file list \<Rightarrow> 'd migrations \<Rightarrow> bool" where
  "recorded sha fs m \<longleftrightarrow> (\<forall>(name, sql)\<in>set fs. fmlookup (mg_applied m) name = Some (sha sql))"

lemma migrateFile_records:
  assumes "migrateFile sha exec (name, sql) m = Inr m1"
  shows "fmlookup (mg_applied m1) name = Some (sha sql)"
    and "\<And>v c. fmlookup (mg_applied m) v = Some c \<Longrightarrow> fmlookup (mg_applied m1) v = Some c"
  using assms by (auto simp: migrateFile_def Let_def equalBytes_eq bindR_eq_Inr split: option.splits if_splits)

lemma migrateFiles_records:
  "migrateFiles sha exec fs m = Inr m1 \<Longrightarrow>
     recorded sha fs m1 \<and> (\<forall>v c. fmlookup (mg_applied m) v = Some c \<longrightarrow> fmlookup (mg_applied m1) v = Some c)"
proof (induction fs arbitrary: m)
  case (Cons f fs)
  obtain name sql where f: "f = (name, sql)" by fastforce
  from Cons.prems obtain m2 where m2: "migrateFile sha exec (name, sql) m = Inr m2" "migrateFiles sha exec fs m2 = Inr m1"
    by (auto simp: f bindR_eq_Inr)
  with Cons.IH [OF m2(2)] migrateFile_records [OF m2(1)] show ?case by (auto simp: recorded_def f)
qed (simp add: recorded_def)

lemma recorded_skips: "recorded sha fs m \<Longrightarrow> migrateFiles sha exec fs m = Inr m"
  by (induction fs) (auto simp: recorded_def migrateFile_def Let_def equalBytes_eq)

lemma recorded_sort: "recorded sha (sort_key fst fs) m = recorded sha fs m"
  by (simp add: recorded_def)

lemma insort_append: "\<forall>g\<in>set gs. fst f < (fst g :: string) \<Longrightarrow> insort_key fst f (fs @ gs) = insort_key fst f fs @ gs"
  by (induction fs) (cases gs; auto)+

lemma sort_append:
  "\<forall>f\<in>set old. \<forall>g\<in>set new. fst f < (fst g :: string) \<Longrightarrow> sort_key fst (old @ new) = sort_key fst old @ sort_key fst new"
  by (induction old) (simp_all add: insort_append)

text \<open>The statements of the files in turn on a schema: what installing them in the order of a list means.\<close>

fun apply_all :: "(string \<Rightarrow> 'd \<Rightarrow> 'd result) \<Rightarrow> string list \<Rightarrow> 'd \<Rightarrow> 'd result" where
  "apply_all exec [] d = Inr d"
| "apply_all exec (sql # sqls) d = bindR (exec sql d) (apply_all exec sqls)"

text \<open>The texts of the files of a list that a database has not recorded.\<close>

definition missing :: "migration_file list \<Rightarrow> 'd migrations \<Rightarrow> string list" where
  "missing fs m = map snd (filter (\<lambda>f. fst f |\<notin>| fmdom (mg_applied m)) fs)"

lemma migrateFile_schema:
  assumes "migrateFile sha exec f m = Inr m1"
  shows "if fst f |\<in>| fmdom (mg_applied m) then m1 = m
    else exec (snd f) (mg_schema m) = Inr (mg_schema m1) \<and> fmdom (mg_applied m1) = finsert (fst f) (fmdom (mg_applied m))"
  using assms
  by (auto simp: migrateFile_def Let_def bindR_eq_Inr fmdom_notI fmdomI split: prod.splits option.splits if_splits)

lemma migrateFiles_schema:
  "migrateFiles sha exec fs m = Inr m1 \<Longrightarrow> distinct (map fst fs) \<Longrightarrow>
     apply_all exec (missing fs m) (mg_schema m) = Inr (mg_schema m1)"
proof (induction fs arbitrary: m)
  case (Cons f fs)
  from Cons.prems obtain m2 where m2: "migrateFile sha exec f m = Inr m2" "migrateFiles sha exec fs m2 = Inr m1"
    by (auto simp: bindR_eq_Inr)
  note step = migrateFile_schema [OF m2(1)]
  have fresh: "fst g \<noteq> fst f" if "g \<in> set fs" for g
    using Cons.prems(2) imageI [OF that, of fst] by (metis distinct.simps(2) list.set_map list.simps(9))
  show ?case
  proof (cases "fst f |\<in>| fmdom (mg_applied m)")
    case True
    with step have "m2 = m" by simp
    with True Cons.IH [OF m2(2)] Cons.prems(2) show ?thesis by (simp add: missing_def)
  next
    case False
    with step have ex: "exec (snd f) (mg_schema m) = Inr (mg_schema m2)"
      and dom: "fmdom (mg_applied m2) = finsert (fst f) (fmdom (mg_applied m))" by simp_all
    have "missing fs m2 = missing fs m"
      unfolding missing_def dom by (intro arg_cong [of _ _ "List.map snd"] filter_cong refl) (simp add: fresh)
    with False ex Cons.IH [OF m2(2)] Cons.prems(2) show ?thesis by (simp add: missing_def)
  qed
qed (simp add: missing_def)

text \<open>C24: Migrations apply once, in name order, all or none. A failed migration leaves schema and records alone. A successful one has applied to
  the schema exactly the files not yet recorded, in the order of their names (\<open>gs\<close> is the directory sorted by name), and records
  the digest of every file; running it again changes nothing; a release that adds later files brings a migrated database to the
  same state as an empty one; and a file that was changed after it was applied is refused without a change.
\<close>
theorem migrations_apply_once:
  "(\<forall>e m1. Migrate sha exec fs m = (Inl e, m1) \<longrightarrow> m1 = m)
   \<and> (\<forall>m1. Migrate sha exec fs m = (Inr (), m1) \<longrightarrow>
        (\<forall>gs. mset gs = mset fs \<longrightarrow> distinct (map fst fs) \<longrightarrow> sorted (map fst gs) \<longrightarrow>
            apply_all exec (missing gs m) (mg_schema m) = Inr (mg_schema m1))
        \<and> (\<forall>(name, sql)\<in>set fs. fmlookup (mg_applied m1) name = Some (sha sql)) \<and> Migrate sha exec fs m1 = (Inr (), m1)
        \<and> ((\<forall>f\<in>set fs. \<forall>g\<in>set added. fst f < fst g) \<longrightarrow> (\<forall>m2. Migrate sha exec (fs @ added) m = (Inr (), m2) \<longrightarrow>
             Migrate sha exec (fs @ added) m1 = (Inr (), m2))))
   \<and> ((name0, sql0) \<in> set fs \<longrightarrow> fmlookup (mg_applied m) name0 = Some c \<longrightarrow> c \<noteq> sha sql0 \<longrightarrow>
        (\<exists>e. Migrate sha exec fs m = (Inl e, m)))"
proof (intro conjI allI impI)
  fix e m1 assume "Migrate sha exec fs m = (Inl e, m1)"
  then show "m1 = m" by (auto simp: Migrate_def split: sum.splits)
next
  fix m1 assume "Migrate sha exec fs m = (Inr (), m1)"
  then have run: "migrateFiles sha exec (sort_key fst fs) m = Inr m1" by (auto simp: Migrate_def split: sum.splits)
  have rec: "recorded sha (sort_key fst fs) m1" using migrateFiles_records [OF run] by blast
  then show "\<forall>(name, sql)\<in>set fs. fmlookup (mg_applied m1) name = Some (sha sql)" by (simp add: recorded_sort recorded_def)
  show "apply_all exec (missing gs m) (mg_schema m) = Inr (mg_schema m1)"
    if "mset gs = mset fs" "distinct (map fst fs)" "sorted (map fst gs)" for gs
  proof -
    from that(2) have "inj_on fst (set fs)" by (simp add: distinct_map)
    from sort_key_inj_key_eq [OF that(1) [symmetric] this that(3)] have "sort_key fst fs = gs" .
    moreover have "distinct (map fst gs)"
      using that(1,2) mset_eq_imp_distinct_iff [of "map fst gs" "map fst fs"] by simp
    ultimately show ?thesis using migrateFiles_schema [OF run] by simp
  qed
  show "Migrate sha exec fs m1 = (Inr (), m1)" by (simp add: Migrate_def recorded_skips [OF rec])
  fix m2 assume later: "\<forall>f\<in>set fs. \<forall>g\<in>set added. fst f < fst g" and all: "Migrate sha exec (fs @ added) m = (Inr (), m2)"
  show "Migrate sha exec (fs @ added) m1 = (Inr (), m2)"
    using all by (simp add: Migrate_def sort_append [OF later] migrateFiles_append run recorded_skips [OF rec] split: sum.splits)
next
  assume bad: "(name0, sql0) \<in> set fs" "fmlookup (mg_applied m) name0 = Some c" "c \<noteq> sha sql0"
  have "\<exists>e. migrateFiles sha exec (sort_key fst fs) m = Inl e"
  proof (cases "migrateFiles sha exec (sort_key fst fs) m")
    case (Inr m1)
    from migrateFiles_records [OF Inr] bad show ?thesis by (auto simp: recorded_sort recorded_def)
  qed simp
  then show "\<exists>e. Migrate sha exec fs m = (Inl e, m)" by (auto simp: Migrate_def)
qed

definition demo_migrate :: "string list \<Rightarrow> string list migrations \<Rightarrow> unit result \<times> string list migrations" where
  "demo_migrate names = Migrate (\<lambda>s. replicate 31 CHR ''d'' @ take 1 s) (\<lambda>sql schema. Inr (schema @ [sql])) (map (\<lambda>n. (n, n)) names)"

theorem migrations_apply_once_witness:
  "mg_schema (snd (demo_migrate [''2'', ''1''] \<lparr>mg_applied = fmempty, mg_schema = []\<rparr>)) = [''1'', ''2'']
   \<and> apply_all (\<lambda>sql schema. Inr (schema @ [sql])) (missing [(''1'', ''1''), (''2'', ''2'')] \<lparr>mg_applied = fmempty, mg_schema = [] :: string list\<rparr>) []
       = Inr (mg_schema (snd (demo_migrate [''2'', ''1''] \<lparr>mg_applied = fmempty, mg_schema = []\<rparr>)))
   \<and> demo_migrate [''2'', ''1''] (snd (demo_migrate [''2'', ''1''] \<lparr>mg_applied = fmempty, mg_schema = []\<rparr>))
       = (Inr (), snd (demo_migrate [''2'', ''1''] \<lparr>mg_applied = fmempty, mg_schema = []\<rparr>))"
proof -
  have run: "demo_migrate [''2'', ''1''] \<lparr>mg_applied = fmempty, mg_schema = []\<rparr>
     = (Inr (), \<lparr>mg_applied = fmupd ''2'' (replicate 31 CHR ''d'' @ ''2'') (fmupd ''1'' (replicate 31 CHR ''d'' @ ''1'') fmempty), mg_schema = [''1'', ''2'']\<rparr>)"
    by (simp add: demo_migrate_def Migrate_def migrateFile_def Let_def)
  let ?m1 = "snd (demo_migrate [''2'', ''1''] \<lparr>mg_applied = fmempty, mg_schema = []\<rparr>)"
  have run': "demo_migrate [''2'', ''1''] \<lparr>mg_applied = fmempty, mg_schema = []\<rparr> = (Inr (), ?m1)" by (simp add: run)
  note once = migrations_apply_once [of "\<lambda>s. replicate 31 CHR ''d'' @ take 1 s" "\<lambda>sql schema. Inr (schema @ [sql])"
        "map (\<lambda>n. (n, n)) [''2'', ''1'']" "\<lparr>mg_applied = fmempty, mg_schema = []\<rparr>" "[]", folded demo_migrate_def,
        THEN conjunct2, THEN conjunct1, THEN spec, THEN mp, OF run']
  have "apply_all (\<lambda>sql schema. Inr (schema @ [sql])) (missing [(''1'', ''1''), (''2'', ''2'')] \<lparr>mg_applied = fmempty, mg_schema = [] :: string list\<rparr>) []
      = Inr (mg_schema ?m1)"
    using once [THEN conjunct1, THEN spec, of "[(''1'', ''1''), (''2'', ''2'')]"] by simp
  moreover have "mg_schema ?m1 = [''1'', ''2'']" by (simp add: run)
  ultimately show ?thesis using once [THEN conjunct2, THEN conjunct2, THEN conjunct1] by blast
qed

end
