(* ===== verification/Workers_Loop.thy ===== *)
theory Workers_Loop
  imports Workers
begin

text \<open>
  The two goroutines of the reconciliation worker, \<open>ReconciliationWorker.Run\<close> and \<open>listen\<close>, with the LISTEN connection of
  \<open>adapter/postgres/listener.go\<close> between them: two buffered channels whose senders drop what does not fit, and a loop that takes
  one wake-up after another. The steps interleave in any order, and other transactions change the store at any time.
\<close>

section \<open>The LISTEN connection\<close>

text \<open>
  \<open>RoomStateListener.Listen\<close>: it returns when connecting, LISTEN or waiting fails; before that it calls \<open>established\<close> once and
  \<open>notify\<close> for each payload that parses.
\<close>

datatype listen_call = EstablishedCall | NotifyCall RoomHint

definition Listen ::
    "(string \<Rightarrow> bool) \<Rightarrow> go_error option \<Rightarrow> go_error option \<Rightarrow> string list \<Rightarrow> go_error \<Rightarrow> listen_call list \<times> go_error" where
  "Listen unicode connectErr listenErr payloads waitErr =
     (case connectErr of
        Some e \<Rightarrow> ([], e)
      | None \<Rightarrow>
          (case listenErr of
             Some e \<Rightarrow> ([], e)
           | None \<Rightarrow> (EstablishedCall # concat (map (\<lambda>payload.
               case parseRoomHint unicode payload of Inr hint \<Rightarrow> [NotifyCall hint] | Inl _ \<Rightarrow> []) payloads), waitErr)))"

section \<open>The goroutines\<close>

datatype loop_event = Established | Started wakeup | Finished wakeup | ListenLost

record 's loop_state =
  lp_store :: 's
  lp_connections :: "ReconciliationSource list"
  lp_notifications :: "RoomHint list"
  lp_connected :: bool
  lp_listening :: bool
  lp_turn :: "wakeup option"
  lp_observed :: "(ReconciliationSource \<times> ReconciliationReport \<times> go_error option) list"
  lp_trace :: "loop_event list"

text \<open>\<open>lp_trace\<close> is what has happened, the latest first. Without a listener \<open>Run\<close> sends itself the startup.\<close>

definition Run_start :: "bool \<Rightarrow> 's \<Rightarrow> 's loop_state" where
  "Run_start hasListener st = \<lparr>lp_store = st, lp_connections = (if hasListener then [] else [ReconciliationStartup]),
     lp_notifications = [], lp_connected = False, lp_listening = False, lp_turn = None, lp_observed = [], lp_trace = []\<rparr>"

definition listen_established :: "'s loop_state \<Rightarrow> 's loop_state" where
  "listen_established c = c\<lparr>lp_connected := True, lp_listening := True,
     lp_connections := offerTo 1 (listenSource (lp_connected c)) (lp_connections c), lp_trace := Established # lp_trace c\<rparr>"

definition listen_notified :: "ReconciliationConfig \<Rightarrow> RoomHint \<Rightarrow> 's loop_state \<Rightarrow> 's loop_state" where
  "listen_notified cfg hint c = c\<lparr>lp_notifications := offerTo (nat (rg_BatchSize cfg)) hint (lp_notifications c)\<rparr>"

definition listen_lost :: "go_error \<Rightarrow> 's loop_state \<Rightarrow> 's loop_state" where
  "listen_lost e c = c\<lparr>lp_listening := False, lp_trace := ListenLost # lp_trace c,
     lp_observed := (ReconciliationReconnect, zeroReconciliation\<lparr>rc_Failures := 1\<rparr>, Some e) # lp_observed c\<rparr>"

definition turn_started :: "wakeup \<Rightarrow> 's loop_state \<Rightarrow> 's loop_state" where
  "turn_started w c = c\<lparr>lp_turn := Some w, lp_trace := Started w # lp_trace c\<rparr>"

definition turn_finished :: "'s ReconciliationStore \<Rightarrow> ReconciliationConfig \<Rightarrow> wakeup \<Rightarrow> 's loop_state \<Rightarrow> 's loop_state" where
  "turn_finished store cfg w c =
     (case Run_turn store cfg w (lp_store c) of ((source, rep, err, _), st) \<Rightarrow>
        c\<lparr>lp_turn := None, lp_store := st, lp_observed := (source, rep, err) # lp_observed c, lp_trace := Finished w # lp_trace c\<rparr>)"

text \<open>A turn starts when its wake-up is taken from the channel; the transactions it runs are seen by the others at its end.\<close>

inductive loop_step :: "'s ReconciliationStore \<Rightarrow> ReconciliationConfig \<Rightarrow> 's loop_state \<Rightarrow> 's loop_state \<Rightarrow> bool"
  for store cfg where
  established: "\<not> lp_listening c \<Longrightarrow> loop_step store cfg c (listen_established c)"
| notified: "lp_listening c \<Longrightarrow> loop_step store cfg c (listen_notified cfg hint c)"
| lost: "loop_step store cfg c (listen_lost e c)"
| take_connection: "lp_turn c = None \<Longrightarrow> lp_connections c = source # rest
    \<Longrightarrow> loop_step store cfg c (turn_started (Connected source) (c\<lparr>lp_connections := rest\<rparr>))"
| take_notification: "lp_turn c = None \<Longrightarrow> lp_notifications c = hint # rest
    \<Longrightarrow> loop_step store cfg c (turn_started (Notified hint) (c\<lparr>lp_notifications := rest\<rparr>))"
| timer: "lp_turn c = None \<Longrightarrow> loop_step store cfg c (turn_started TimerFired c)"
| finish: "lp_turn c = Some w \<Longrightarrow> loop_step store cfg c (turn_finished store cfg w c)"
| commit: "loop_step store cfg c (c\<lparr>lp_store := st\<rparr>)"

inductive loop_reachable :: "'s ReconciliationStore \<Rightarrow> ReconciliationConfig \<Rightarrow> bool \<Rightarrow> 's loop_state \<Rightarrow> bool"
  for store cfg hasListener where
  start: "loop_reachable store cfg hasListener (Run_start hasListener st)"
| step: "loop_reachable store cfg hasListener c \<Longrightarrow> loop_step store cfg c c1 \<Longrightarrow> loop_reachable store cfg hasListener c1"

section \<open>Every connection is followed by a drain\<close>

fun drains :: "loop_event \<Rightarrow> bool" where
  "drains (Started (Connected _)) = True"
| "drains _ = False"

text \<open>A connection was established, and no drain has started since.\<close>

definition undrained :: "loop_event list \<Rightarrow> bool" where
  "undrained trace \<longleftrightarrow> Established \<in> set (takeWhile (\<lambda>e. \<not> drains e) trace)"

definition loop_ok :: "ReconciliationConfig \<Rightarrow> 's loop_state \<Rightarrow> bool" where
  "loop_ok cfg c \<longleftrightarrow> (undrained (lp_trace c) \<longrightarrow> lp_connections c \<noteq> []) \<and> length (lp_connections c) \<le> 1
     \<and> length (lp_notifications c) \<le> nat (rg_BatchSize cfg) \<and> (lp_connected c \<longleftrightarrow> Established \<in> set (lp_trace c))
     \<and> (ReconciliationReconnect \<in> set (lp_connections c) \<longrightarrow> lp_connected c)"

lemma undrained_simps [simp]:
  "\<not> undrained []" "undrained (Established # t)" "undrained (ListenLost # t) = undrained t"
  "undrained (Started (Connected s) # t) = False" "undrained (Started (Notified h) # t) = undrained t"
  "undrained (Started TimerFired # t) = undrained t" "undrained (Finished w # t) = undrained t"
  by (simp_all add: undrained_def)

lemma loop_ok_step: "loop_step store cfg c c1 \<Longrightarrow> loop_ok cfg c \<Longrightarrow> loop_ok cfg c1"
  by (induction rule: loop_step.induct)
    (auto simp: loop_ok_def listen_established_def listen_notified_def listen_lost_def turn_started_def turn_finished_def
      offerTo_def listenSource_def split: prod.splits)

lemma loop_reachable_ok: "loop_reachable store cfg hasListener c \<Longrightarrow> loop_ok cfg c"
  by (induction rule: loop_reachable.induct) (simp add: loop_ok_def Run_start_def, rule loop_ok_step)

text \<open>C21: Missed notifications are made up. However the goroutines, the connection and other transactions interleave, a connection
  that was established and not yet followed by the start of a drain has a wake-up in the channel, and a turn for it can start as
  soon as the current one is over; that wake-up is never dropped, though hints may be, and the buffers keep their bounds.
\<close>
theorem every_connection_drained:
  assumes "loop_reachable store cfg hasListener c"
  shows "(undrained (lp_trace c) \<longrightarrow> (\<exists>source. lp_connections c = [source]
       \<and> (lp_turn c = None \<longrightarrow> loop_step store cfg c (turn_started (Connected source) (c\<lparr>lp_connections := []\<rparr>)))))
    \<and> length (lp_connections c) \<le> 1 \<and> length (lp_notifications c) \<le> nat (rg_BatchSize cfg)"
proof -
  have ok: "loop_ok cfg c" by (rule loop_reachable_ok [OF assms])
  have "\<exists>source. lp_connections c = [source]" if "undrained (lp_trace c)"
    using ok that unfolding loop_ok_def by (cases "lp_connections c") auto
  with ok show ?thesis unfolding loop_ok_def by (blast intro: loop_step.take_connection)
qed

section \<open>Witness\<close>

definition quiet_store :: "nat ReconciliationStore" where
  "quiet_store = \<lparr>rs_ReconcileRoom = (\<lambda>_ st. ((zeroReconciliation, None), st)), rs_ReconcileBatch = (\<lambda>_ st. ((zeroReconciliation, None), st))\<rparr>"

theorem every_connection_drained_witness:
  "lp_connections (listen_established (listen_lost (ErrText ''EOF'') (listen_established (Run_start True (0 :: nat))))) = [ReconciliationStartup]
   \<and> undrained (lp_trace (listen_established (listen_lost (ErrText ''EOF'') (listen_established (Run_start True (0 :: nat))))))
   \<and> (\<exists>source. lp_connections (listen_established (listen_lost (ErrText ''EOF'') (listen_established (Run_start True (0 :: nat))))) = [source])"
proof -
  let ?c = "listen_established (listen_lost (ErrText ''EOF'') (listen_established (Run_start True (0 :: nat))))"
  have "loop_reachable quiet_store default_reconciliation True (listen_established (Run_start True 0))"
    by (rule loop_reachable.step [OF loop_reachable.start loop_step.established]) (simp add: Run_start_def)
  from loop_reachable.step [OF this loop_step.lost [where e = "ErrText ''EOF''"]]
  have "loop_reachable quiet_store default_reconciliation True ?c"
    by (rule loop_reachable.step [OF _ loop_step.established]) (simp add: listen_lost_def)
  from every_connection_drained [OF this] show ?thesis
    by (simp add: listen_established_def listen_lost_def Run_start_def offerTo_def listenSource_def)
qed

end
