(* ===== verification/Realtime_Shutdown.thy ===== *)
theory Realtime_Shutdown
  imports Realtime_Socket
begin

text \<open>
  The end of the sockets, \<open>beginConnection\<close>, \<open>Shutdown\<close> and the deferred calls of \<open>ServeHTTP\<close> in \<open>realtime/websocket.go\<close>. Every
  accepted request is in one phase; the registry bounds how many there are, the wait group counts those between \<open>active.Add\<close>
  and \<open>active.Done\<close>, and the deferred calls run in the reverse order of their \<open>defer\<close>. The steps of the requests and of
  \<open>Shutdown\<close> interleave in any order.
\<close>

section \<open>Phases\<close>

datatype socket_phase = Registered | Begun | Subscribed | LeaseOpen | LeaseClosed | Left

text \<open>Between \<open>beginConnection\<close> and \<open>active.Done\<close>.\<close>

definition counted :: "socket_phase \<Rightarrow> bool" where
  "counted p \<longleftrightarrow> p \<in> {Begun, Subscribed, LeaseOpen, LeaseClosed}"

record socket_gate =
  sg_stopping :: bool
  sg_phases :: "(nat, socket_phase) fmap"
  sg_closeErrs :: "go_error list"
  sg_result :: "go_error list option"

definition gate_start :: socket_gate where
  "gate_start = \<lparr>sg_stopping = False, sg_phases = fmempty, sg_closeErrs = [], sg_result = None\<rparr>"

definition enter :: "nat \<Rightarrow> socket_phase \<Rightarrow> socket_gate \<Rightarrow> socket_gate" where
  "enter i p g = g\<lparr>sg_phases := fmupd i p (sg_phases g)\<rparr>"

definition forget :: "nat \<Rightarrow> socket_gate \<Rightarrow> socket_gate" where
  "forget i g = g\<lparr>sg_phases := fmdrop i (sg_phases g)\<rparr>"

definition beginConnection :: "nat \<Rightarrow> socket_gate \<Rightarrow> bool \<times> socket_gate" where
  "beginConnection i g = (if sg_stopping g then (False, g) else (True, enter i Begun g))"

definition idle_gate :: "socket_gate \<Rightarrow> bool" where
  "idle_gate g \<longleftrightarrow> (\<forall>i p. fmlookup (sg_phases g) i = Some p \<longrightarrow> \<not> counted p)"

text \<open>\<open>Shutdown\<close> sets the flag, waits for the group, and joins the error of its context with those of the leases.\<close>

definition Shutdown_begin :: "socket_gate \<Rightarrow> socket_gate" where
  "Shutdown_begin g = g\<lparr>sg_stopping := True\<rparr>"

definition Shutdown_return :: "go_error option \<Rightarrow> socket_gate \<Rightarrow> socket_gate" where
  "Shutdown_return ctx g = g\<lparr>sg_result := Some ((case ctx of None \<Rightarrow> [] | Some e \<Rightarrow> [e]) @ sg_closeErrs g)\<rparr>"

inductive gate_step :: "int \<Rightarrow> socket_gate \<Rightarrow> socket_gate \<Rightarrow> bool" for cap where
  register: "i |\<notin>| fmdom (sg_phases g) \<Longrightarrow> int (flen (sg_phases g)) < cap \<Longrightarrow> gate_step cap g (enter i Registered g)"
| started: "fmlookup (sg_phases g) i = Some Registered \<Longrightarrow> beginConnection i g = (True, g1) \<Longrightarrow> gate_step cap g g1"
| refused: "fmlookup (sg_phases g) i = Some Registered \<Longrightarrow> beginConnection i g = (False, g1) \<Longrightarrow> gate_step cap g (forget i g1)"
| subscribed: "fmlookup (sg_phases g) i = Some Begun \<Longrightarrow> gate_step cap g (enter i Subscribed g)"
| setup_failed: "fmlookup (sg_phases g) i \<in> {Some Begun, Some Subscribed} \<Longrightarrow> gate_step cap g (enter i Left g)"
| leased: "fmlookup (sg_phases g) i = Some Subscribed \<Longrightarrow> gate_step cap g (enter i LeaseOpen g)"
| lease_closed: "fmlookup (sg_phases g) i = Some LeaseOpen \<Longrightarrow> gate_step cap g (enter i LeaseClosed g)"
| lease_not_closed: "fmlookup (sg_phases g) i = Some LeaseOpen
    \<Longrightarrow> gate_step cap g (enter i LeaseClosed (g\<lparr>sg_closeErrs := sg_closeErrs g @ [e]\<rparr>))"
| left: "fmlookup (sg_phases g) i = Some LeaseClosed \<Longrightarrow> gate_step cap g (enter i Left g)"
| unregister: "fmlookup (sg_phases g) i = Some Left \<Longrightarrow> gate_step cap g (forget i g)"
| shutdown: "gate_step cap g (Shutdown_begin g)"
| returned: "sg_stopping g \<Longrightarrow> idle_gate g \<Longrightarrow> gate_step cap g (Shutdown_return ctx g)"

inductive gate_reachable :: "int \<Rightarrow> socket_gate \<Rightarrow> bool" for cap where
  start: "gate_reachable cap gate_start"
| step: "gate_reachable cap g \<Longrightarrow> gate_step cap g g1 \<Longrightarrow> gate_reachable cap g1"

section \<open>Properties\<close>

definition gate_ok :: "int \<Rightarrow> socket_gate \<Rightarrow> bool" where
  "gate_ok cap g \<longleftrightarrow> (sg_result g \<noteq> None \<longrightarrow> sg_stopping g \<and> idle_gate g) \<and> int (flen (sg_phases g)) \<le> max 0 cap"

lemma idle_gate_simps:
  "idle_gate (enter i p g) \<longleftrightarrow> \<not> counted p \<and> idle_gate (forget i g)"
  "idle_gate g \<Longrightarrow> idle_gate (forget i g)" "idle_gate (Shutdown_begin g) = idle_gate g"
  "idle_gate (Shutdown_return ctx g) = idle_gate g" "idle_gate (g\<lparr>sg_closeErrs := es\<rparr>) = idle_gate g"
  by (auto simp: idle_gate_def enter_def forget_def Shutdown_begin_def Shutdown_return_def)

lemma idle_gateD: "idle_gate g \<Longrightarrow> fmlookup (sg_phases g) i = Some p \<Longrightarrow> \<not> counted p"
  by (simp add: idle_gate_def)

lemma flen_phases:
  "i |\<in>| fmdom m \<Longrightarrow> flen (fmupd i p m) = flen m" "flen (fmdrop i m) \<le> flen m"
  using fcard_mono [of "fmdom m |-| {|i|}" "fmdom m"] by (auto simp: finsert_absorb)

lemma enter_keeps:
  assumes "gate_ok cap g" "fmlookup (sg_phases g) i = Some p0" "counted p0"
  shows "gate_ok cap (enter i p g)" "gate_ok cap (enter i p (g\<lparr>sg_closeErrs := es\<rparr>))"
  using assms idle_gateD [of g i p0] fmdomI [OF assms(2)]
  by (auto simp: gate_ok_def enter_def finsert_absorb idle_gate_def)

lemma forget_keeps: "gate_ok cap g \<Longrightarrow> gate_ok cap (forget i g)"
  using flen_phases(2) [of i "sg_phases g"] by (auto simp: gate_ok_def idle_gate_simps) (auto simp: forget_def)

lemma gate_ok_step: "gate_step cap g g1 \<Longrightarrow> gate_ok cap g \<Longrightarrow> gate_ok cap g1"
proof (induction rule: gate_step.induct)
  case (register i g)
  then show ?case by (auto simp: gate_ok_def idle_gate_simps counted_def) (auto simp: enter_def fcard_finsert_if)
next
  case (started g i g1)
  then show ?case using fmdomI [OF started.hyps(1)]
    by (auto simp: beginConnection_def gate_ok_def enter_def finsert_absorb split: if_splits)
next
  case (refused g i g1)
  then show ?case by (auto simp: beginConnection_def forget_keeps split: if_splits)
next
  case (returned g ctx)
  then show ?case by (simp add: gate_ok_def idle_gate_simps) (simp add: Shutdown_return_def)
next
  case (shutdown g)
  then show ?case by (auto simp: gate_ok_def idle_gate_simps) (auto simp: Shutdown_begin_def)
qed (auto intro: enter_keeps forget_keeps simp: counted_def)

lemma gate_reachable_ok: "gate_reachable cap g \<Longrightarrow> gate_ok cap g"
proof (induction rule: gate_reachable.induct)
  case start
  then show ?case by (simp add: gate_ok_def gate_start_def)
qed (rule gate_ok_step)

text \<open>C23: Shutdown of the sockets. However requests come and go, once \<open>Shutdown\<close> has returned no request is between its
  admission and its last deferred call, so no socket holds an open lease, every new one is refused, and the answer names each
  lease that could not be closed up to then; and there are never more requests than the configured connections.
\<close>
theorem shutdown_leaves_no_lease:
  assumes "gate_reachable cap g"
  shows "(sg_result g \<noteq> None \<longrightarrow> (\<forall>i p. fmlookup (sg_phases g) i = Some p \<longrightarrow> p \<in> {Registered, Left})
       \<and> (\<forall>i. \<not> fst (beginConnection i g)))
    \<and> (sg_stopping g \<longrightarrow> idle_gate g \<longrightarrow> (\<exists>g1. gate_step cap g g1 \<and> (\<exists>es. sg_result g1 = Some es \<and> set (sg_closeErrs g) \<subseteq> set es)))
    \<and> int (flen (sg_phases g)) \<le> max 0 cap"
proof -
  have ok: "gate_ok cap g" by (rule gate_reachable_ok [OF assms])
  have "p \<in> {Registered, Left}" if "sg_result g \<noteq> None" "fmlookup (sg_phases g) i = Some p" for i p
    using ok that idle_gateD [of g i p] by (cases p) (auto simp: gate_ok_def counted_def)
  moreover have "\<exists>g1. gate_step cap g g1 \<and> (\<exists>es. sg_result g1 = Some es \<and> set (sg_closeErrs g) \<subseteq> set es)"
    if "sg_stopping g" "idle_gate g"
    by (rule exI [of _ "Shutdown_return None g"]) (use gate_step.returned [OF that, of cap None] in \<open>simp add: Shutdown_return_def\<close>)
  ultimately show ?thesis using ok by (auto simp: gate_ok_def beginConnection_def)
qed

theorem shutdown_leaves_no_lease_witness:
  "\<exists>g. gate_reachable 1 g \<and> sg_result g = Some [] \<and> sg_phases g = fmupd 7 Left fmempty
     \<and> (\<forall>i p. fmlookup (sg_phases g) i = Some p \<longrightarrow> p \<in> {Registered, Left})"
proof -
  have "gate_reachable 1 (enter 7 Registered gate_start)"
    by (rule gate_reachable.step [OF gate_reachable.start gate_step.register]) (simp_all add: gate_start_def)
  from gate_reachable.step [OF this gate_step.started [where i = 7]]
  have "gate_reachable 1 (enter 7 Begun (enter 7 Registered gate_start))"
    by (simp add: beginConnection_def enter_def gate_start_def)
  from gate_reachable.step [OF gate_reachable.step [OF this gate_step.shutdown] gate_step.setup_failed [where i = 7]]
  have "gate_reachable 1 (enter 7 Left (Shutdown_begin (enter 7 Begun (enter 7 Registered gate_start))))"
    by (simp add: enter_def Shutdown_begin_def)
  from gate_reachable.step [OF this gate_step.returned [where ctx = None]]
  have r: "gate_reachable 1 (Shutdown_return None (enter 7 Left (Shutdown_begin (enter 7 Begun (enter 7 Registered gate_start)))))"
    by (simp add: idle_gate_def enter_def Shutdown_begin_def gate_start_def counted_def)
  show ?thesis
    by (rule exI, rule conjI [OF r]) (use shutdown_leaves_no_lease [OF r] in
      \<open>simp add: Shutdown_return_def enter_def Shutdown_begin_def gate_start_def\<close>)
qed

end
