(* ===== verification/Spec2Isabelle.thy ===== *)
theory Spec2Isabelle
  imports Memory_Properties Memory_Events Postgres_Backlog Postgres_Termination
    Http_Properties Auth_Verifier Http_Logging Realtime_Socket Realtime_Redis
    Server_Main Operations_Runtime Postgres_Migrate Workers_Loop Realtime_Shutdown
begin

text \<open>
  Verification of the Rock-Paper-Money backend: the Go program under \<open>src/backend\<close>. Two players with accounts meet in
  a room, stake coins, play rounds of rock, paper, scissors and are paid out of an escrow. This theory gathers the
  development; each theory below opens with what it holds and states the properties of its part. The definitions carry
  the names of the source, with a suffix where two Go packages, or a library theory, use the same name.

  \<^bold>\<open>The program\<close>

  A request enters \<open>cmd/server\<close>'s HTTP server, passes the logging and recovery handler, the CORS middleware and the
  session guard of the router, and reaches one handler per endpoint. The handler calls the application service, the service
  a repository: the in-memory one of the tests, or PostgreSQL. The PostgreSQL commands keep a receipt per
  idempotency key, write an outbox row for each revision of a room and send a notification. Four workers act on the same
  database: one applies due deadlines, one reconciles rounds that are ready (woken by notifications, or by a timer), one publishes
  the outbox to Redis, one cleans up. A socket gets its room from a hub, which loads a snapshot on each
  Redis hint and hands it to the consumers of the room.

  \<^bold>\<open>Theories and sources\<close> (paths under \<open>src/backend/internal\<close>)

  \<^item> \<open>Prelude\<close>, \<open>Go_Strings\<close>: errors with \<open>errors.Is\<close>, \<open>int64\<close> and \<open>int32\<close> arithmetic with its wrap-around, maps with a
    default, error-or-value chains (\<open>bindR\<close>, \<open>guarded\<close>); decimal formatting and parsing, \<open>TrimSpace\<close>, rune counting, JSON
    strings.
  \<^item> \<open>Domain_Room\<close>: \<open>room/domain/room.go\<close>. The aggregate is the record \<open>room\<close>, every method a function to an error or a
    new aggregate; \<open>applyOp\<close> and \<open>reachable\<close> are the sequences of methods.
  \<^item> \<open>Application\<close>, \<open>Service\<close>: \<open>room/application\<close>. Commands with key and request hash, reports, generated codes; the service over
    a record of repository operations. The locale \<open>command_receipts\<close> is the contract of a repository with receipts; it is
    interpreted on the in-memory and on the PostgreSQL commands.
  \<^item> \<open>Memory_Repository\<close>, \<open>Memory_Invariant\<close>, \<open>Memory_Properties\<close>, \<open>Memory_Events\<close>: \<open>room/adapter/memory\<close>. Each method is
    one step under the mutex; \<open>mem_inv\<close> are the books of a reachable state.
  \<^item> \<open>Postgres_Db\<close>, \<open>Postgres_Wallet\<close>, \<open>Postgres_Repository\<close>, \<open>Postgres_Commands\<close>, \<open>Postgres_Deadlines\<close>: the tables of the migrations and
    \<open>repository.go\<close>, \<open>realtime.go\<close>, \<open>commands.go\<close>, \<open>reconciliation.go\<close>, \<open>deadlines.go\<close> of \<open>room/adapter/postgres\<close>, as
    transactions: functions from a database to an error, with no effect, or a value and a new database.
  \<^item> \<open>Postgres_Properties\<close>, \<open>Postgres_Rows\<close>, \<open>Postgres_Claims\<close>: \<open>pg_reachable\<close>, the databases that any sequence of operations and
    worker passes reaches. The locales \<open>frame_invariant\<close>, \<open>core_invariant\<close> and \<open>ledger_invariant\<close> reduce an invariant to the
    few statements that write its tables; they are interpreted on the books, the rows and the growth of the ledger.
  \<^item> \<open>Postgres_Refinement\<close>, \<open>Postgres_Moves\<close>, \<open>Postgres_Backlog\<close>, \<open>Postgres_Termination\<close>: the rows as a refinement of the
    aggregate, with \<open>loaded\<close> as the abstraction; the rounds that wait for the reconciler; and the measure on which the deadline
    worker's loop descends.
  \<^item> \<open>Postgres_Migrate\<close>: \<open>migrate.go\<close>, one transaction over the embedded files.
  \<^item> \<open>Outbox\<close>, \<open>Workers\<close>, \<open>Workers_Loop\<close>: \<open>outbox.go\<close>, the workers of \<open>internal/worker\<close>, and \<open>listener.go\<close>. The locale
    \<open>outbox_store\<close> is what the outbox worker asks of its table and its publisher; it is interpreted on the PostgreSQL table and
    the Redis publisher. \<open>loop_step\<close> interleaves the two goroutines of the reconciliation worker and their channels.
  \<^item> \<open>Auth_Session\<close>, \<open>Auth_Http\<close>, \<open>Auth_Verifier\<close>: \<open>internal/auth\<close>. Sessions over a store (the locale \<open>session_store\<close>,
    interpreted on \<open>auth/postgres.go\<close>), the session endpoint with cookies, origin and CSRF checks, and the verifier of
    access tokens with its key cache.
  \<^item> \<open>Http_Messages\<close>, \<open>Http_Router\<close>, \<open>Http_Logging\<close>, \<open>Http_Properties\<close>: \<open>room/adapter/http\<close>, from the request to the response.
  \<^item> \<open>Realtime_Hub\<close>, \<open>Realtime_Socket\<close>, \<open>Realtime_Redis\<close>, \<open>Realtime_Shutdown\<close>: \<open>internal/realtime\<close>. The hub is a step relation over its
    critical sections; a socket is a run over the events that reach it; \<open>gate_step\<close> interleaves accepted sockets with \<open>Shutdown\<close>.
  \<^item> \<open>Latency_Observer\<close>, \<open>Operations_Metrics\<close>, \<open>Operations_Runtime\<close>: \<open>internal/latency\<close> and \<open>internal/operations\<close>, the log lines,
    counters and gauges, and the periodic runs of the workers.
  \<^item> \<open>Server_Main\<close>: \<open>cmd/server/main.go\<close>, as the trace of what is acquired and released for each outcome of the calls it makes.

  \<^bold>\<open>What is shown\<close>

  \<^item> Rules of the game: rooms stay storable and restorable, a round is settled once, the order in which two moves arrive
    does not matter, and \<open>Restore\<close> accepts what \<open>PersistenceState\<close> writes of well-formed rooms and nothing else.
  \<^item> Money: coins are conserved (in memory modulo \<open>2^64\<close>, and exactly as long as no more than \<open>MaxInt64\<close> were issued), the escrow holds both stakes exactly while a round is open, settlements pay once, the ledger only
    grows and every transaction in it cancels.
  \<^item> Commands: a retry with the same key returns the stored result and changes nothing; the database commands that
    record moves and reconcile rounds leave the rows that the aggregate's own methods give.
  \<^item> Workers and messages: no revision leaves the outbox unannounced, claims are exclusive while leased, a healthy run drains
    the batch, the reconciler works off its backlog, each LISTEN connection is followed by a drain, and the
    deadline worker returns under a stated condition.
  \<^item> Access: sessions end at their idle and absolute limits and at revocation, a verified login ends with both cookies of a session
    that works, forged requests change nothing but the last use of their own session, only published keys are trusted, a frame is written only while the session is valid.
  \<^item> Operation: every resource is released in reverse order whatever fails, \<open>Shutdown\<close> leaves no open lease, migrations apply
    once and in the order of their names, and log lines and metrics carry neither SQL nor unfiltered text.
  \<^item> Defects: rooms that can no longer be loaded after a deadline draw or a late forfeit, a deadline worker that never returns, a
    hub consumer left with an older snapshot, and two misleading error responses. Each is a theorem about the definitions.

  \<^bold>\<open>Parameters, bounds and termination\<close>

  Libraries are arguments: SHA-256, the random source, the clock, the case mapping and letter classes of non-ASCII text, the JSON
  decoder, the JWT library, \<open>time.ParseDuration\<close>, address parsing, the printing of floats, the answers of Redis, of the
  network and of a PostgreSQL that may refuse a statement or a file. Where a property needs one of them to behave, its hypothesis names the
  documented behaviour (a collision-free hash, for instance), and the witness gives a function that has it.
  Times are exact integers of nanoseconds. Round numbers and revisions are 64-bit words, coins \<open>int64\<close> with its wrap-around,
  counters of the \<open>int\<close> columns are cut to 32 bits where the code does.

  No definition runs on fuel. Loops over data are structural or have a measure; the loop of
  the deadline worker, which the code does not bound, is a \<open>partial_function\<close> whose value \<open>None\<close> says that it never returns,
  and \<open>deadline_worker_returns\<close> and \<open>deadline_worker_diverges\<close> say when each is the case. The bounded drain of the reconciliation
  worker and the retries of room creation count down from the bound of the source.

  Transactions are atomic and serialised, as the row and advisory locks of the source make the ones that touch the same
  room, wallet or key. Each in-memory method is atomic under its mutex. Where the code interleaves within an operation (the hub, the
  reconciliation loop, the sockets at shutdown) the steps lie between the points where it takes locks or uses channels.

  \<^bold>\<open>Not modelled\<close>

  \<^item> The browser client, the containers and the deployment files, which are not part of the Go program.
  \<^item> Startup checks of configured URLs (\<open>url.Parse\<close>), the log file, the pings, and constructors that only copy
    their arguments or fill in the library functions that are parameters here.
  \<^item> What lies inside \<open>net/http\<close>, the WebSocket, PostgreSQL and Redis libraries: bytes on the wire, timeouts,
    connection pools. \<open>monitorSubscription\<close> only closes a connection, which the subscription sees as a failed receive.
  \<^item> Indexes and triggers of the schema, which enforce what the statements keep, the \<open>CHECK\<close> that a lease is not closed before it
    was opened (a clock that was set back), and the latency phases that the
    repository marks inside its transactions.
  \<^item> The scheduler beyond the step relations above, real time in the periodic loops (their ticks are given), and code that
    nothing calls (\<open>findRoom\<close>).
\<close>

end
